(* ===== verification/Gov_Prelude.thy ===== *)
theory Gov_Prelude
  imports Main
begin

text \<open>
  Shared vocabulary of the development: what the TypeScript sources use of
  JavaScript (optional values, truthiness, decimal rendering, string searches,
  JSON values), the state-and-exception computations in which the stateful services
  are written, and the query combinators of a table of rows.

  A computation of type \<open>('w, 'a) eff\<close> reads and replaces a state \<open>'w\<close> and either
  throws (\<open>Inl\<close> the message of the \<open>Error\<close>) or returns (\<open>Inr\<close>). The state reached
  before a throw is kept: only an explicit transaction undoes anything.
\<close>

named_theorems eff_simps \<open>unfolding rules of the computation combinators\<close>
named_theorems frame_intros \<open>composition rules for facts preserved by computations\<close>

section \<open>Optional values and strings\<close>

type_synonym 'a result = "string + 'a"

text \<open>\<open>a ?? b\<close>, and the truthiness of an optional string (\<open>undefined\<close>, \<open>null\<close> and \<open>''\<close> are falsy).\<close>

definition nullish :: "'a option \<Rightarrow> 'a \<Rightarrow> 'a" where
  "nullish a b = (case a of None \<Rightarrow> b | Some x \<Rightarrow> x)"

definition truthy :: "string option \<Rightarrow> bool" where
  "truthy s = (case s of None \<Rightarrow> False | Some t \<Rightarrow> t \<noteq> [])"

definition or_string :: "string option \<Rightarrow> string option \<Rightarrow> string option" where
  "or_string a b = (if truthy a then a else b)"

lemma nullish_simps [simp]:
  "nullish None b = b" "nullish (Some x) b = x"
  by (simp_all add: nullish_def)

lemma truthy_simps [simp]:
  "\<not> truthy None" "truthy (Some t) \<longleftrightarrow> t \<noteq> []"
  by (simp_all add: truthy_def)

lemma truthy_iff: "truthy s \<longleftrightarrow> (\<exists>t. s = Some t \<and> t \<noteq> [])"
  by (cases s) auto

definition digit_char :: "nat \<Rightarrow> char" where
  "digit_char d = char_of (48 + d)"

text \<open>The decimal rendering of a number in a template literal.\<close>

fun show_nat :: "nat \<Rightarrow> string" where
  "show_nat n = (if n < 10 then [digit_char n] else show_nat (n div 10) @ [digit_char (n mod 10)])"

declare show_nat.simps [simp del]

definition show_int :: "int \<Rightarrow> string" where
  "show_int i = (if i < 0 then CHR ''-'' # show_nat (nat (- i)) else show_nat (nat i))"

definition is_digit :: "char \<Rightarrow> bool" where
  "is_digit c \<longleftrightarrow> 48 \<le> (of_char c :: nat) \<and> (of_char c :: nat) \<le> 57"

definition digit_value :: "char \<Rightarrow> nat" where
  "digit_value c = of_char c - 48"

lemma of_char_digit_char: "d < 10 \<Longrightarrow> (of_char (digit_char d) :: nat) = 48 + d"
  by (simp add: digit_char_def of_char_of)

lemma is_digit_digit_char: "d < 10 \<Longrightarrow> is_digit (digit_char d)"
  by (simp add: is_digit_def of_char_digit_char)

lemma digit_value_digit_char: "d < 10 \<Longrightarrow> digit_value (digit_char d) = d"
  by (simp add: digit_value_def of_char_digit_char)

lemma show_nat_digits: "c \<in> set (show_nat n) \<Longrightarrow> is_digit c"
proof (induction n rule: show_nat.induct)
  case (1 n)
  then show ?case
    by (subst (asm) (2) show_nat.simps) (auto simp: is_digit_digit_char split: if_splits)
qed

lemma show_nat_not_Nil [simp]: "show_nat n \<noteq> []"
  by (subst show_nat.simps) simp

definition read_digits :: "string \<Rightarrow> nat" where
  "read_digits s = foldl (\<lambda>acc c. 10 * acc + digit_value c) 0 s"

lemma read_digits_snoc: "read_digits (s @ [c]) = 10 * read_digits s + digit_value c"
  by (simp add: read_digits_def)

lemma read_show_nat [simp]: "read_digits (show_nat n) = n"
proof (induction n rule: show_nat.induct)
  case (1 n)
  show ?case
  proof (cases "n < 10")
    case True
    then show ?thesis
      by (subst show_nat.simps) (simp add: read_digits_def digit_value_digit_char)
  next
    case False
    with 1 show ?thesis
      by (subst show_nat.simps) (simp add: read_digits_snoc digit_value_digit_char)
  qed
qed

lemma show_nat_inject [simp]: "show_nat m = show_nat n \<longleftrightarrow> m = n"
  by (metis read_show_nat)

lemma show_nat_digits_small: "show_nat 0 = ''0''" "show_nat 1 = ''1''" "show_nat 2 = ''2''"
  "show_nat 3 = ''3''" "show_nat 4 = ''4''"
  by code_simp+

lemma not_is_digit_minus: "\<not> is_digit (CHR ''-'')"
  by (simp add: is_digit_def)

lemma show_nat_no_minus: "show_nat n \<noteq> CHR ''-'' # s"
  by (metis list.set_intros(1) not_is_digit_minus show_nat_digits)

lemma show_int_inject [simp]: "show_int i = show_int j \<longleftrightarrow> i = j"
proof -
  have "CHR ''-'' # show_nat m \<noteq> show_nat n" for m n
    using show_nat_no_minus [of n "show_nat m"] by auto
  then show ?thesis
    using show_nat_no_minus by (auto simp: show_int_def)
qed

section \<open>Searching strings\<close>

text \<open>\<open>String.prototype.indexOf\<close>: the first position at which the marker occurs.\<close>

fun starts_with :: "string \<Rightarrow> string \<Rightarrow> bool" where
  "starts_with [] s = True"
| "starts_with (p # ps) [] = False"
| "starts_with (p # ps) (c # s) = (p = c \<and> starts_with ps s)"

fun index_of :: "string \<Rightarrow> string \<Rightarrow> nat option" where
  "index_of p [] = (if p = [] then Some 0 else None)"
| "index_of p (c # s) =
     (if starts_with p (c # s) then Some 0 else map_option Suc (index_of p s))"

definition contains :: "string \<Rightarrow> string \<Rightarrow> bool" where
  "contains p s \<longleftrightarrow> index_of p s \<noteq> None"

lemma starts_with_iff: "starts_with p s \<longleftrightarrow> (\<exists>t. s = p @ t)"
  by (induction p s rule: starts_with.induct) auto

lemma index_of_Some_append:
  "index_of p s = Some i \<Longrightarrow> \<exists>t. s = take i s @ p @ t \<and> i \<le> length s"
proof (induction s arbitrary: i)
  case Nil
  then show ?case by (auto split: if_splits)
next
  case (Cons c s)
  show ?case
  proof (cases "starts_with p (c # s)")
    case True
    with Cons.prems have "i = 0" by simp
    with True show ?thesis by (auto simp: starts_with_iff)
  next
    case False
    with Cons.prems obtain j where j: "i = Suc j" "index_of p s = Some j" by auto
    with Cons.IH obtain t where "s = take j s @ p @ t" "j \<le> length s" by blast
    with j show ?thesis by auto
  qed
qed

lemma index_of_eq_None_iff: "index_of p s = None \<longleftrightarrow> (\<forall>a b. s \<noteq> a @ p @ b)"
proof (induction s)
  case Nil
  then show ?case by simp
next
  case (Cons c s)
  show ?case
  proof (cases "starts_with p (c # s)")
    case True
    then obtain t where t: "c # s = [] @ p @ t" by (auto simp: starts_with_iff)
    have "index_of p (c # s) = Some 0" using True by simp
    with t show ?thesis by (metis option.discI)
  next
    case False
    then have hd: "\<nexists>t. c # s = p @ t" by (simp add: starts_with_iff)
    have "(\<forall>a b. c # s \<noteq> a @ p @ b) \<longleftrightarrow> (\<forall>a b. s \<noteq> a @ p @ b)"
    proof
      assume all: "\<forall>a b. c # s \<noteq> a @ p @ b"
      show "\<forall>a b. s \<noteq> a @ p @ b" using all by (metis append_Cons)
    next
      assume all: "\<forall>a b. s \<noteq> a @ p @ b"
      show "\<forall>a b. c # s \<noteq> a @ p @ b"
      proof (intro allI notI)
        fix a b assume "c # s = a @ p @ b"
        with hd all show False by (cases a) auto
      qed
    qed
    with False Cons.IH show ?thesis by simp
  qed
qed

lemma contains_iff: "contains p s \<longleftrightarrow> (\<exists>a b. s = a @ p @ b)"
  using index_of_eq_None_iff [of p s] by (auto simp: contains_def)

section \<open>Character classes of regular expressions\<close>

definition code_of :: "char \<Rightarrow> nat" where
  "code_of c = of_char c"

text \<open>The class \<open>\s\<close> below code unit 256.\<close>

definition is_space :: "char \<Rightarrow> bool" where
  "is_space c \<longleftrightarrow> code_of c \<in> {9, 10, 11, 12, 13, 32, 160}"

definition is_word :: "char \<Rightarrow> bool" where
  "is_word c \<longleftrightarrow>
     (48 \<le> code_of c \<and> code_of c \<le> 57) \<or> (65 \<le> code_of c \<and> code_of c \<le> 90)
     \<or> (97 \<le> code_of c \<and> code_of c \<le> 122) \<or> code_of c = 95"

definition letter_ci :: "char \<Rightarrow> char \<Rightarrow> bool" where
  "letter_ci upper c \<longleftrightarrow> c = upper \<or> code_of c = code_of upper + 32"

section \<open>JSON values\<close>

text \<open>
  A JSON value as the sources hold it after \<open>JSON.parse\<close>: strings are sequences of code units
  below 256, numbers are the integral ones, and an object lists its own properties in insertion
  order.
\<close>

datatype json =
    JNull
  | JBool bool
  | JNum int
  | JStr string
  | JArr "json list"
  | JObj "(string \<times> json) list"

type_synonym jobject = "(string \<times> json) list"

fun as_string :: "json option \<Rightarrow> string option" where
  "as_string (Some (JStr s)) = Some s"
| "as_string _ = None"

text \<open>Assignment \<open>o[k] = v\<close> keeps the position of an existing property and appends a new one.\<close>

fun jset :: "string \<Rightarrow> json \<Rightarrow> jobject \<Rightarrow> jobject" where
  "jset k v [] = [(k, v)]"
| "jset k v ((k', v') # ps) = (if k = k' then (k, v) # ps else (k', v') # jset k v ps)"

definition jdelete :: "string \<Rightarrow> jobject \<Rightarrow> jobject" where
  "jdelete k ps = filter (\<lambda>(k', _). k' \<noteq> k) ps"

text \<open>Reading \<open>v.k\<close>: a value that is not an object has no own property the sources read.\<close>

fun prop_of :: "string \<Rightarrow> json \<Rightarrow> json option" where
  "prop_of k (JObj ps) = map_of ps k"
| "prop_of k _ = None"

text \<open>\<open>v ?? {}\<close>.\<close>

definition or_empty_object :: "json option \<Rightarrow> json" where
  "or_empty_object v = (case v of None \<Rightarrow> JObj [] | Some JNull \<Rightarrow> JObj [] | Some x \<Rightarrow> x)"

fun members_of :: "json \<Rightarrow> jobject" where
  "members_of (JObj ps) = ps"
| "members_of _ = []"

definition has_key :: "string \<Rightarrow> jobject \<Rightarrow> bool" where
  "has_key k ps \<longleftrightarrow> k \<in> fst ` set ps"

lemma map_of_jset: "map_of (jset k v ps) = (map_of ps)(k \<mapsto> v)"
  by (induction ps) (auto simp: fun_eq_iff)

lemma keys_jset: "fst ` set (jset k v ps) = insert k (fst ` set ps)"
proof (induction ps)
  case (Cons p ps)
  show ?case using Cons.IH by (cases p) (auto simp del: image_cong_simp)
qed simp

lemma map_of_jdelete: "map_of (jdelete k ps) = (map_of ps)(k := None)"
  by (induction ps) (auto simp: jdelete_def fun_eq_iff)

lemma keys_jdelete: "fst ` set (jdelete k ps) = fst ` set ps - {k}"
  by (force simp: jdelete_def)

subsection \<open>Conversions and comparisons\<close>

definition join_comma :: "string list \<Rightarrow> string" where
  "join_comma xs = concat (case xs of [] \<Rightarrow> [] | y # ys \<Rightarrow> y # map (\<lambda>z. CHR '','' # z) ys)"

text \<open>\<open>String(value)\<close>.\<close>

fun js_String :: "json \<Rightarrow> string" where
  "js_String JNull = ''null''"
| "js_String (JBool b) = (if b then ''true'' else ''false'')"
| "js_String (JNum n) = show_int n"
| "js_String (JStr s) = s"
| "js_String (JArr vs) = join_comma (map (\<lambda>v. if v = JNull then [] else js_String v) vs)"
| "js_String (JObj ps) = ''[object Object]''"

text \<open>
  \<open>Number(value)\<close>, \<open>None\<close> for NaN; the conversion of a string is the argument \<open>numberOf\<close>.
\<close>

definition js_Number :: "(string \<Rightarrow> int option) \<Rightarrow> json \<Rightarrow> int option" where
  "js_Number numberOf v =
     (case v of JNull \<Rightarrow> Some 0 | JBool b \<Rightarrow> Some (if b then 1 else 0) | JNum n \<Rightarrow> Some n
      | _ \<Rightarrow> numberOf (js_String v))"

definition js_primitive :: "json \<Rightarrow> json" where
  "js_primitive v = (case v of JArr _ \<Rightarrow> JStr (js_String v) | JObj _ \<Rightarrow> JStr (js_String v) | _ \<Rightarrow> v)"

fun string_less :: "string \<Rightarrow> string \<Rightarrow> bool" where
  "string_less _ [] = False"
| "string_less [] (c # t) = True"
| "string_less (b # s) (c # t) =
     ((of_char b :: nat) < of_char c \<or> b = c \<and> string_less s t)"

text \<open>The operator \<open><\<close>: strings compare by code units, everything else as numbers, and NaN compares false.\<close>

definition js_less :: "(string \<Rightarrow> int option) \<Rightarrow> json \<Rightarrow> json \<Rightarrow> bool" where
  "js_less numberOf a b =
     (case (js_primitive a, js_primitive b) of
        (JStr s, JStr t) \<Rightarrow> string_less s t
      | (p, q) \<Rightarrow> (case (js_Number numberOf p, js_Number numberOf q) of
                     (Some m, Some n) \<Rightarrow> m < n | _ \<Rightarrow> False))"

lemma js_less_numbers [simp]: "js_less num (JNum m) (JNum n) \<longleftrightarrow> m < n"
  by (simp add: js_less_def js_primitive_def js_Number_def)

text \<open>Truthiness of a property that may be missing, and \<open>a || b\<close> on such properties.\<close>

fun truthy_json :: "json option \<Rightarrow> bool" where
  "truthy_json None = False"
| "truthy_json (Some JNull) = False"
| "truthy_json (Some (JBool b)) = b"
| "truthy_json (Some (JNum n)) = (n \<noteq> 0)"
| "truthy_json (Some (JStr s)) = (s \<noteq> [])"
| "truthy_json (Some (JArr _)) = True"
| "truthy_json (Some (JObj _)) = True"

definition or_json :: "json option \<Rightarrow> json option \<Rightarrow> json option" where
  "or_json a b = (if truthy_json a then a else b)"

text \<open>\<open>value == null\<close>.\<close>

definition missing :: "json option \<Rightarrow> bool" where
  "missing v \<longleftrightarrow> v = None \<or> v = Some JNull"

text \<open>\<open>Object.keys(value)\<close>.\<close>

definition js_keys :: "json \<Rightarrow> string list" where
  "js_keys v =
     (case v of
        JObj ps \<Rightarrow> map fst ps
      | JArr vs \<Rightarrow> map show_nat [0..<length vs]
      | JStr s \<Rightarrow> map show_nat [0..<length s]
      | _ \<Rightarrow> [])"

section \<open>Computations with state and exceptions\<close>

type_synonym ('w, 'a) eff = "'w \<Rightarrow> 'a result \<times> 'w"

definition ret :: "'a \<Rightarrow> ('w, 'a) eff" where
  "ret a = (\<lambda>w. (Inr a, w))"

definition throw :: "string \<Rightarrow> ('w, 'a) eff" where
  "throw e = (\<lambda>w. (Inl e, w))"

definition bindE :: "('w, 'a) eff \<Rightarrow> ('a \<Rightarrow> ('w, 'b) eff) \<Rightarrow> ('w, 'b) eff" where
  "bindE m f = (\<lambda>w. case m w of (Inl e, w') \<Rightarrow> (Inl e, w') | (Inr a, w') \<Rightarrow> f a w')"

definition seqE :: "('w, 'a) eff \<Rightarrow> ('w, 'b) eff \<Rightarrow> ('w, 'b) eff" where
  "seqE m n = bindE m (\<lambda>_. n)"

definition reads :: "('w \<Rightarrow> 'a) \<Rightarrow> ('w, 'a) eff" where
  "reads g = (\<lambda>w. (Inr (g w), w))"

definition modify :: "('w \<Rightarrow> 'w) \<Rightarrow> ('w, unit) eff" where
  "modify g = (\<lambda>w. (Inr (), g w))"

text \<open>\<open>if (c) throw new Error(e);\<close>\<close>

definition throw_if :: "bool \<Rightarrow> string \<Rightarrow> ('w, unit) eff" where
  "throw_if c e = (if c then throw e else ret ())"

definition of_option :: "string \<Rightarrow> 'a option \<Rightarrow> ('w, 'a) eff" where
  "of_option e x = (case x of None \<Rightarrow> throw e | Some a \<Rightarrow> ret a)"

definition lift_result :: "'a result \<Rightarrow> ('w, 'a) eff" where
  "lift_result r = (\<lambda>w. (r, w))"

text \<open>\<open>try { m } catch (error) { h }\<close>: the handler runs in the state reached by the throw.\<close>

definition catchE :: "('w, 'a) eff \<Rightarrow> (string \<Rightarrow> ('w, 'a) eff) \<Rightarrow> ('w, 'a) eff" where
  "catchE m h = (\<lambda>w. case m w of (Inl e, w') \<Rightarrow> h e w' | (Inr a, w') \<Rightarrow> (Inr a, w'))"

text \<open>\<open>for (const x of xs) f(x)\<close>.\<close>

fun for_each :: "('a \<Rightarrow> ('w, unit) eff) \<Rightarrow> 'a list \<Rightarrow> ('w, unit) eff" where
  "for_each f [] = ret ()"
| "for_each f (x # xs) = seqE (f x) (for_each f xs)"

lemma ret_apply [eff_simps]: "ret a w = (Inr a, w)"
  by (simp add: ret_def)

lemma throw_apply [eff_simps]: "throw e w = (Inl e, w)"
  by (simp add: throw_def)

lemma bindE_apply [eff_simps]:
  "bindE m f w = (case m w of (Inl e, w') \<Rightarrow> (Inl e, w') | (Inr a, w') \<Rightarrow> f a w')"
  by (simp add: bindE_def)

lemma seqE_apply [eff_simps]:
  "seqE m n w = (case m w of (Inl e, w') \<Rightarrow> (Inl e, w') | (Inr a, w') \<Rightarrow> n w')"
  by (simp add: seqE_def bindE_def)

lemma reads_apply [eff_simps]: "reads g w = (Inr (g w), w)"
  by (simp add: reads_def)

lemma modify_apply [eff_simps]: "modify g w = (Inr (), g w)"
  by (simp add: modify_def)

lemma throw_if_apply [eff_simps]: "throw_if c e w = (if c then (Inl e, w) else (Inr (), w))"
  by (simp add: throw_if_def throw_def ret_def)

lemma of_option_simps [eff_simps]:
  "of_option e None w = (Inl e, w)" "of_option e (Some a) w = (Inr a, w)"
  by (simp_all add: of_option_def throw_def ret_def)

lemma lift_result_apply [eff_simps]: "lift_result r w = (r, w)"
  by (simp add: lift_result_def)

lemma catchE_apply [eff_simps]:
  "catchE m h w = (case m w of (Inl e, w') \<Rightarrow> h e w' | (Inr a, w') \<Rightarrow> (Inr a, w'))"
  by (simp add: catchE_def)

lemma bindE_Inr: "m w = (Inr a, w') \<Longrightarrow> bindE m f w = f a w'"
  by (simp add: bindE_def)

lemma bindE_Inl: "m w = (Inl e, w') \<Longrightarrow> bindE m f w = (Inl e, w')"
  by (simp add: bindE_def)

lemma seqE_Inr: "m w = (Inr a, w') \<Longrightarrow> seqE m n w = n w'"
  by (simp add: seqE_def bindE_def)

lemma seqE_Inl: "m w = (Inl e, w') \<Longrightarrow> seqE m n w = (Inl e, w')"
  by (simp add: seqE_def bindE_def)

lemma bindE_eq_Inr_iff:
  "bindE m f w = (Inr b, w') \<longleftrightarrow> (\<exists>a w1. m w = (Inr a, w1) \<and> f a w1 = (Inr b, w'))"
  by (auto simp: bindE_def split: prod.splits sum.splits)

lemma seqE_eq_Inr_iff:
  "seqE m n w = (Inr b, w') \<longleftrightarrow> (\<exists>a w1. m w = (Inr a, w1) \<and> n w1 = (Inr b, w'))"
  by (simp add: seqE_def bindE_eq_Inr_iff)

lemma throw_if_eq_Inr_iff: "throw_if c e w = (Inr u, w') \<longleftrightarrow> \<not> c \<and> w' = w"
  by (auto simp: throw_if_apply)

lemma of_option_eq_Inr_iff: "of_option e x w = (Inr a, w') \<longleftrightarrow> x = Some a \<and> w' = w"
  by (cases x) (auto simp: eff_simps)

lemma reads_eq_Inr_iff: "reads g w = (Inr a, w') \<longleftrightarrow> a = g w \<and> w' = w"
  by (auto simp: reads_apply)

lemma modify_eq_Inr_iff: "modify g w = (Inr u, w') \<longleftrightarrow> w' = g w"
  by (auto simp: modify_apply)

lemma ret_eq_Inr_iff: "ret a w = (Inr b, w') \<longleftrightarrow> b = a \<and> w' = w"
  by (auto simp: ret_apply)

lemma throw_eq_Inr_iff: "throw e w = (Inr b, w') \<longleftrightarrow> False"
  by (simp add: throw_apply)

lemmas eff_Inr_iffs =
  bindE_eq_Inr_iff seqE_eq_Inr_iff throw_if_eq_Inr_iff of_option_eq_Inr_iff
  reads_eq_Inr_iff modify_eq_Inr_iff ret_eq_Inr_iff throw_eq_Inr_iff

lemma bindE_elim:
  assumes "bindE m f w = (Inr b, w')"
  obtains a v where "m w = (Inr a, v)" "f a v = (Inr b, w')"
  using assms by (auto simp: bindE_eq_Inr_iff)

lemma seqE_elim:
  assumes "seqE m n w = (Inr b, w')"
  obtains a v where "m w = (Inr a, v)" "n v = (Inr b, w')"
  using assms by (auto simp: seqE_eq_Inr_iff)

section \<open>What a computation may do to the state\<close>

text \<open>
  A relation between the states before and after, shared by all the operations of a service
  (a log only grows, a decided row never changes). When it is reflexive and transitive it composes
  along the combinators; the interface is a locale so that every such relation gets the rules.
\<close>

definition steps_in :: "('w \<Rightarrow> 'w \<Rightarrow> bool) \<Rightarrow> ('w, 'a) eff \<Rightarrow> bool" where
  "steps_in R m \<longleftrightarrow> (\<forall>w. R w (snd (m w)))"

lemma steps_inD: "steps_in R m \<Longrightarrow> m w = (r, w') \<Longrightarrow> R w w'"
  by (metis snd_conv steps_in_def)

lemma steps_inI: "(\<And>w r w'. m w = (r, w') \<Longrightarrow> R w w') \<Longrightarrow> steps_in R m"
  by (metis prod.collapse steps_in_def)

locale state_preorder =
  fixes R :: "'w \<Rightarrow> 'w \<Rightarrow> bool"
  assumes R_refl: "R w w"
    and R_trans: "R u v \<Longrightarrow> R v w \<Longrightarrow> R u w"
begin

lemma in_ret: "steps_in R (ret a)"
  by (simp add: steps_in_def ret_apply R_refl)

lemma in_throw: "steps_in R (throw e)"
  by (simp add: steps_in_def throw_apply R_refl)

lemma in_throw_if: "steps_in R (throw_if c e)"
  by (simp add: steps_in_def throw_if_apply R_refl)

lemma in_reads: "steps_in R (reads g)"
  by (simp add: steps_in_def reads_apply R_refl)

lemma in_of_option: "steps_in R (of_option e x)"
  by (cases x) (simp_all add: steps_in_def eff_simps R_refl)

lemma in_lift_result: "steps_in R (lift_result r)"
  by (simp add: steps_in_def lift_result_apply R_refl)

lemma in_modify: "(\<And>w. R w (g w)) \<Longrightarrow> steps_in R (modify g)"
  by (simp add: steps_in_def modify_apply)

lemma in_bindE:
  assumes "steps_in R m" and "\<And>a. steps_in R (f a)"
  shows "steps_in R (bindE m f)"
proof (rule steps_inI)
  fix w r w' assume run: "bindE m f w = (r, w')"
  obtain s v where mv: "m w = (s, v)" by (cases "m w")
  have "R w v" using assms(1) mv by (rule steps_inD)
  with run mv assms(2) show "R w w'"
    by (cases s) (auto simp: bindE_apply intro: R_trans steps_inD)
qed

lemma in_seqE: "steps_in R m \<Longrightarrow> steps_in R n \<Longrightarrow> steps_in R (seqE m n)"
  by (simp add: seqE_def in_bindE)

lemma in_catchE:
  assumes "steps_in R m" and "\<And>e. steps_in R (h e)"
  shows "steps_in R (catchE m h)"
proof (rule steps_inI)
  fix w r w' assume run: "catchE m h w = (r, w')"
  obtain s v where mv: "m w = (s, v)" by (cases "m w")
  have "R w v" using assms(1) mv by (rule steps_inD)
  with run mv assms(2) show "R w w'"
    by (cases s) (auto simp: catchE_apply intro: R_trans steps_inD)
qed

lemma in_if: "(c \<Longrightarrow> steps_in R m) \<Longrightarrow> (\<not> c \<Longrightarrow> steps_in R n) \<Longrightarrow> steps_in R (if c then m else n)"
  by simp

lemma in_case_option:
  "(x = None \<Longrightarrow> steps_in R m) \<Longrightarrow> (\<And>a. x = Some a \<Longrightarrow> steps_in R (f a)) \<Longrightarrow>
     steps_in R (case x of None \<Rightarrow> m | Some a \<Rightarrow> f a)"
  by (cases x) simp_all

lemma in_bindE_result:
  assumes "steps_in R m" and "\<And>a w w'. m w = (Inr a, w') \<Longrightarrow> steps_in R (f a)"
  shows "steps_in R (bindE m f)"
proof (rule steps_inI)
  fix w r w' assume run: "bindE m f w = (r, w')"
  obtain s v where mv: "m w = (s, v)" by (cases "m w")
  have "R w v" using assms(1) mv by (rule steps_inD)
  show "R w w'"
  proof (cases s)
    case (Inl e)
    with run mv \<open>R w v\<close> show ?thesis by (simp add: bindE_apply)
  next
    case (Inr b)
    with run mv have "f b v = (r, w')" "m w = (Inr b, v)" by (simp_all add: bindE_apply)
    with assms(2) \<open>R w v\<close> show ?thesis by (blast intro: R_trans steps_inD)
  qed
qed

lemma in_for_each: "(\<And>x. steps_in R (f x)) \<Longrightarrow> steps_in R (for_each f xs)"
  by (induction xs) (simp_all add: in_ret in_seqE)

lemmas in_rules =
  in_ret in_throw in_throw_if in_reads in_of_option in_lift_result
  in_bindE in_seqE in_catchE in_if in_case_option

end

text \<open>
  What an operation leaves alone is a relation between the worlds before and after it, reflexive and
  transitive whatever the part; so the rules of \<open>state_preorder\<close> carry it through the combinators.
\<close>

definition keeps :: "('w \<Rightarrow> 'p) \<Rightarrow> ('w, 'a) eff \<Rightarrow> bool" where
  "keeps part m \<longleftrightarrow> steps_in (\<lambda>w w'. part w' = part w) m"

interpretation part: state_preorder "\<lambda>w w'. part w' = part w" for part :: "'w \<Rightarrow> 'p"
  by unfold_locales simp_all

lemma keepsD: "keeps part m \<Longrightarrow> m w = (r, w') \<Longrightarrow> part w' = part w"
  unfolding keeps_def by (rule steps_inD)

lemma keepsI: "(\<And>w r w'. m w = (r, w') \<Longrightarrow> part w' = part w) \<Longrightarrow> keeps part m"
  unfolding keeps_def by (rule steps_inI)

lemmas keeps_rules = part.in_rules [where part = part for part, folded keeps_def]

lemma keeps_modify: "(\<And>w. part (g w) = part w) \<Longrightarrow> keeps part (modify g)"
  unfolding keeps_def by (rule part.in_modify)

lemma keeps_case_prod: "(\<And>a b. x = (a, b) \<Longrightarrow> keeps part (f a b)) \<Longrightarrow> keeps part (case x of (a, b) \<Rightarrow> f a b)"
  by (cases x) simp

section \<open>Tables of rows\<close>

text \<open>
  A table is the list of its rows in insertion order. The statements the services send are
  \<open>INSERT\<close> (\<open>save\<close> of a new entity), \<open>SELECT ... WHERE\<close> (\<open>findOne\<close>, \<open>find\<close>) and
  \<open>UPDATE ... SET ... WHERE\<close>, which reports the number of rows it affected.
\<close>

definition tb_insert :: "'r \<Rightarrow> 'r list \<Rightarrow> 'r list" where
  "tb_insert r tb = tb @ [r]"

definition tb_find :: "('r \<Rightarrow> bool) \<Rightarrow> 'r list \<Rightarrow> 'r option" where
  "tb_find P tb = find P tb"

definition tb_update :: "('r \<Rightarrow> bool) \<Rightarrow> ('r \<Rightarrow> 'r) \<Rightarrow> 'r list \<Rightarrow> 'r list" where
  "tb_update P f tb = map (\<lambda>r. if P r then f r else r) tb"

definition tb_affected :: "('r \<Rightarrow> bool) \<Rightarrow> 'r list \<Rightarrow> nat" where
  "tb_affected P tb = length (filter P tb)"

lemma tb_find_SomeD: "tb_find P tb = Some r \<Longrightarrow> r \<in> set tb \<and> P r"
  by (auto simp: tb_find_def find_Some_iff)

lemma tb_find_None_iff: "tb_find P tb = None \<longleftrightarrow> (\<forall>r\<in>set tb. \<not> P r)"
  by (auto simp: tb_find_def find_None_iff)

lemma tb_find_insert:
  "tb_find P (tb_insert r tb) =
     (case tb_find P tb of Some x \<Rightarrow> Some x | None \<Rightarrow> if P r then Some r else None)"
  unfolding tb_find_def tb_insert_def by (induction tb) auto

lemma tb_find_update:
  assumes "\<And>r. P (f r) = P r"
  shows "tb_find P (tb_update Q f tb) = map_option (\<lambda>r. if Q r then f r else r) (tb_find P tb)"
  unfolding tb_find_def tb_update_def by (induction tb) (auto simp: assms)

lemma tb_affected_0_update: "tb_affected P tb = 0 \<Longrightarrow> tb_update P f tb = tb"
  unfolding tb_affected_def tb_update_def by (induction tb) (auto split: if_splits)

lemma length_tb_update [simp]: "length (tb_update P f tb) = length tb"
  by (simp add: tb_update_def)

lemma set_tb_update: "set (tb_update P f tb) = (\<lambda>r. if P r then f r else r) ` set tb"
  by (simp add: tb_update_def)

lemma tb_affected_update_none: "(\<And>r. P r \<Longrightarrow> \<not> Q (f r)) \<Longrightarrow> (\<And>r. \<not> P r \<Longrightarrow> \<not> Q r) \<Longrightarrow>
    tb_affected Q (tb_update P f tb) = 0"
  by (auto simp: tb_affected_def tb_update_def filter_empty_conv)

text \<open>
  The rows of an entity with a primary key. The services rely on these laws of a repository: a row
  just inserted under a fresh key is the one found under that key, an update by key changes that
  row and no other, and it reports one affected row exactly when the key exists.
\<close>

definition keyed :: "('r \<Rightarrow> 'k) \<Rightarrow> 'r list \<Rightarrow> bool" where
  "keyed pk tb \<longleftrightarrow> distinct (map pk tb)"

lemma keyed_insert: "keyed pk tb \<Longrightarrow> pk r \<notin> pk ` set tb \<Longrightarrow> keyed pk (tb_insert r tb)"
  by (auto simp: keyed_def tb_insert_def)

lemma map_pk_update: "(\<And>r. pk (f r) = pk r) \<Longrightarrow> map pk (tb_update P f tb) = map pk tb"
  by (simp add: tb_update_def o_def if_distrib cong: if_cong)

lemma keyed_update: "(\<And>r. pk (f r) = pk r) \<Longrightarrow> keyed pk tb \<Longrightarrow> keyed pk (tb_update P f tb)"
  by (simp add: keyed_def map_pk_update)

lemma keyed_find_unique:
  assumes "keyed pk tb" "r \<in> set tb"
  shows "tb_find (\<lambda>x. pk x = pk r) tb = Some r"
  using assms unfolding keyed_def tb_find_def by (induction tb) auto

lemma keyed_affected_le_1:
  assumes "keyed pk tb" "\<And>r. P r \<Longrightarrow> pk r = k"
  shows "tb_affected P tb \<le> 1"
  using assms unfolding keyed_def tb_affected_def
proof (induction tb)
  case (Cons a tb)
  show ?case
  proof (cases "P a")
    case True
    with Cons.prems have "\<forall>r\<in>set tb. \<not> P r" by force
    then have "filter P tb = []" by (simp add: filter_empty_conv)
    with True show ?thesis by simp
  next
    case False
    with Cons show ?thesis by simp
  qed
qed simp

lemma keyed_affected_1_iff:
  assumes "keyed pk tb" "\<And>r. P r \<Longrightarrow> pk r = k"
  shows "tb_affected P tb = 1 \<longleftrightarrow> (\<exists>r\<in>set tb. P r)"
proof -
  have "tb_affected P tb \<le> 1" using assms by (rule keyed_affected_le_1)
  moreover have "tb_affected P tb = 0 \<longleftrightarrow> \<not> (\<exists>r\<in>set tb. P r)"
    by (simp add: tb_affected_def filter_empty_conv)
  ultimately show ?thesis by linarith
qed

end
