(* ===== verification/Tool_Access.thy ===== *)
theory Tool_Access
  imports Gov_Prelude
begin

text \<open>
  Tool grants: \<open>governance/packages/permission/src/tool-access.ts\<close> and \<open>allow-list-resolver.ts\<close>.
  An array argument that may be \<open>null\<close> or \<open>undefined\<close> is an optional list. The interface
  \<open>tool_grant_check\<close> is what the executor and the gate rely on.
\<close>

record tool_access_options =
  allowEmptyList :: "bool option"

definition default_access_options :: tool_access_options where
  "default_access_options = \<lparr>allowEmptyList = None\<rparr>"

definition checkToolAccess ::
    "string \<Rightarrow> string list option \<Rightarrow> string list option \<Rightarrow> tool_access_options \<Rightarrow> bool" where
  "checkToolAccess toolName allowedTools blockedTools options =
     (if (case blockedTools of None \<Rightarrow> False | Some b \<Rightarrow> length b > 0 \<and> toolName \<in> set b) then False
      else
        (case allowedTools of
           None \<Rightarrow> allowEmptyList options = Some True
         | Some a \<Rightarrow>
             if length a = 0 then allowEmptyList options = Some True
             else toolName \<in> set a))"

record allow_list_sources =
  extensionAllowedTools :: "string list option"
  guardrailAllowedTools :: "string list option"
  sourceBlockedTools :: "string list option"
  defaultTools :: "string list option"

text \<open>The array an operand \<open>xs && xs.length > 0\<close> selects.\<close>

definition non_empty :: "string list option \<Rightarrow> bool" where
  "non_empty xs = (case xs of None \<Rightarrow> False | Some ys \<Rightarrow> length ys > 0)"

definition resolveAllowedTools :: "allow_list_sources \<Rightarrow> string list" where
  "resolveAllowedTools sources =
     (let allowed =
        (if non_empty (extensionAllowedTools sources)
         then nullish (extensionAllowedTools sources) []
         else if non_empty (guardrailAllowedTools sources)
         then nullish (guardrailAllowedTools sources) []
         else nullish (defaultTools sources) [])
      in case sourceBlockedTools sources of
           None \<Rightarrow> allowed
         | Some blocked \<Rightarrow>
             if length blocked > 0 then filter (\<lambda>tool. tool \<notin> set blocked) allowed else allowed)"

section \<open>Decisions\<close>

lemma non_empty_simps [simp]:
  "\<not> non_empty None" "non_empty (Some xs) \<longleftrightarrow> xs \<noteq> []"
  by (simp_all add: non_empty_def)

definition blocked_names :: "string list option \<Rightarrow> string set" where
  "blocked_names b = set (nullish b [])"

lemma checkToolAccess_blocked:
  "t \<in> blocked_names b \<Longrightarrow> \<not> checkToolAccess t a b opts"
  by (cases b) (auto simp: checkToolAccess_def blocked_names_def)

lemma checkToolAccess_default_iff:
  "checkToolAccess t a b default_access_options \<longleftrightarrow>
     t \<in> set (nullish a []) \<and> t \<notin> blocked_names b"
  by (cases a; cases b)
     (auto simp: checkToolAccess_def default_access_options_def blocked_names_def)

text \<open>What a caller may rely on: a positive answer means an explicit grant and no block.\<close>

locale tool_grant_check =
  fixes check :: "string \<Rightarrow> string list option \<Rightarrow> string list option \<Rightarrow> bool"
  assumes granted: "check t a b \<Longrightarrow> t \<in> set (nullish a [])"
    and not_blocked: "check t a b \<Longrightarrow> t \<notin> blocked_names b"
begin

lemma deny_without_grants: "\<not> check t None b" "\<not> check t (Some []) b"
  using granted [of t None b] granted [of t "Some []" b] by auto

lemma deny_revoked: "\<not> check t (Some (filter (\<lambda>x. x \<noteq> t) xs)) b"
  using granted [of t "Some (filter (\<lambda>x. x \<noteq> t) xs)" b] by auto

end

interpretation default_check:
  tool_grant_check "\<lambda>t a b. checkToolAccess t a b default_access_options"
  by unfold_locales (simp_all add: checkToolAccess_default_iff)

section \<open>Properties\<close>

text \<open>
  Access is granted by default options exactly to a tool that is on the allow-list and not on
  the block-list: the block-list wins over the allow-list, and a missing or empty allow-list
  grants nothing.
\<close>

theorem tool_access_deny_by_default:
  "checkToolAccess t a b default_access_options \<longleftrightarrow>
     (\<exists>xs. a = Some xs \<and> t \<in> set xs) \<and> \<not> (\<exists>ys. b = Some ys \<and> t \<in> set ys)"
  by (cases a; cases b) (auto simp: checkToolAccess_default_iff blocked_names_def)

text \<open>The source of grants that wins: the first non-empty one, in the order of priority.\<close>

fun first_non_empty :: "string list option list \<Rightarrow> string list" where
  "first_non_empty [] = []"
| "first_non_empty (x # xs) = (if non_empty x then nullish x [] else first_non_empty xs)"

lemma resolveAllowedTools_eq:
  "resolveAllowedTools s =
     filter (\<lambda>t. t \<notin> blocked_names (sourceBlockedTools s))
       (first_non_empty [extensionAllowedTools s, guardrailAllowedTools s, defaultTools s])"
  by (cases "sourceBlockedTools s"; cases "defaultTools s")
     (auto simp: resolveAllowedTools_def blocked_names_def Let_def)

text \<open>
  Resolving the grants and then checking a call against the resolved list and the same
  block-list grants exactly the unblocked tools of the winning source, and removing the explicit
  sources leaves no grant at all.
\<close>

theorem resolve_then_check:
  "(checkToolAccess t (Some (resolveAllowedTools s)) (sourceBlockedTools s) default_access_options
     \<longleftrightarrow>
       t \<in> set (first_non_empty [extensionAllowedTools s, guardrailAllowedTools s, defaultTools s])
       \<and> t \<notin> blocked_names (sourceBlockedTools s))
   \<and> \<not> checkToolAccess t
          (Some (resolveAllowedTools
             (s\<lparr>extensionAllowedTools := None, guardrailAllowedTools := None, defaultTools := None\<rparr>)))
          b default_access_options"
  by (auto simp: checkToolAccess_default_iff resolveAllowedTools_eq)

end
