(* ===== verification/Rag_Authorization.thy ===== *)
theory Rag_Authorization
  imports Gov_Prelude
begin

text \<open>
  Authorization of retrieved knowledge: \<open>governance/packages/permission/src/rag-authorization.port.ts\<close>
  and \<open>rag-authorization.ts\<close>. \<open>evaluateConservativeRagAuthorization\<close> is the default implementation of
  \<open>RagAuthorizationPort\<close>; the locale \<open>rag_port\<close> states what a retrieval owner relies on.
\<close>

record rag_input =
  rag_workspaceId :: string
  principalRoleId :: string
  rag_agentId :: string
  sourceRef :: string
  sourceWorkspaceId :: string
  sourceAccessLevel :: string
  sourceCreatedBy :: "string option"
  sourceOrgNodeId :: "string option"
  sourceType :: "string option"
  principalOrgSubtreeIds :: "string list"
  readableObjectApiNames :: "string list"
  rag_objectApiName :: "string option"
  rag_recordId :: "string option"

datatype rag_code =
    AUTHORIZED
  | AUTHORIZATION_DENIED
  | AUTHORIZATION_POLICY_MISSING
  | OBJECT_READ_DENIED
  | WORKSPACE_BOUNDARY_DENIED

record rag_decision =
  rag_allowed :: bool
  rag_decision_code :: rag_code
  decisionRef :: "string option"
  auditRequired :: bool

definition missingRagAuthorizationPolicyDecision :: rag_decision where
  "missingRagAuthorizationPolicyDecision =
     \<lparr>rag_allowed = False, rag_decision_code = AUTHORIZATION_POLICY_MISSING,
      decisionRef = None, auditRequired = True\<rparr>"

definition crossWorkspaceRagDecision :: "string \<Rightarrow> string \<Rightarrow> rag_decision option" where
  "crossWorkspaceRagDecision workspaceId sourceWs =
     (if workspaceId = sourceWs then None
      else Some \<lparr>rag_allowed = False, rag_decision_code = WORKSPACE_BOUNDARY_DENIED,
                 decisionRef = None, auditRequired = True\<rparr>)"

definition evaluateConservativeRagAuthorization :: "rag_input \<Rightarrow> rag_decision" where
  "evaluateConservativeRagAuthorization inp =
     (case crossWorkspaceRagDecision (rag_workspaceId inp) (sourceWorkspaceId inp) of
        Some crossWorkspace \<Rightarrow> crossWorkspace
      | None \<Rightarrow>
          if principalRoleId inp = [] then missingRagAuthorizationPolicyDecision
          else
            (let isSourceTypeMarker =
                   truthy (sourceType inp) \<and> rag_objectApiName inp = sourceType inp
             in if truthy (rag_objectApiName inp) \<and> \<not> isSourceTypeMarker
                   \<and> the (rag_objectApiName inp) \<notin> set (readableObjectApiNames inp)
                then \<lparr>rag_allowed = False, rag_decision_code = OBJECT_READ_DENIED,
                      decisionRef = None, auditRequired = True\<rparr>
                else
                  (let allowedBySharing =
                         sourceAccessLevel inp = ''public''
                         \<or> (sourceAccessLevel inp = ''private''
                            \<and> sourceCreatedBy inp = Some (rag_agentId inp))
                         \<or> (sourceAccessLevel inp = ''org_subtree''
                            \<and> truthy (sourceOrgNodeId inp)
                            \<and> the (sourceOrgNodeId inp) \<in> set (principalOrgSubtreeIds inp))
                   in if \<not> allowedBySharing
                      then \<lparr>rag_allowed = False, rag_decision_code = AUTHORIZATION_DENIED,
                            decisionRef = None, auditRequired = True\<rparr>
                      else \<lparr>rag_allowed = True, rag_decision_code = AUTHORIZED,
                            decisionRef = Some (''rag-auth:'' @ sourceRef inp),
                            auditRequired = True\<rparr>)))"

section \<open>The gates, in the order in which they are asked\<close>

definition same_tenant :: "rag_input \<Rightarrow> bool" where
  "same_tenant inp \<longleftrightarrow> rag_workspaceId inp = sourceWorkspaceId inp"

definition object_readable :: "rag_input \<Rightarrow> bool" where
  "object_readable inp \<longleftrightarrow>
     (\<forall>obj. rag_objectApiName inp = Some obj \<and> obj \<noteq> [] \<longrightarrow>
        sourceType inp = Some obj \<or> obj \<in> set (readableObjectApiNames inp))"

definition shared_with :: "rag_input \<Rightarrow> bool" where
  "shared_with inp \<longleftrightarrow>
     sourceAccessLevel inp = ''public''
     \<or> sourceAccessLevel inp = ''private'' \<and> sourceCreatedBy inp = Some (rag_agentId inp)
     \<or> sourceAccessLevel inp = ''org_subtree''
       \<and> (\<exists>n. sourceOrgNodeId inp = Some n \<and> n \<noteq> [] \<and> n \<in> set (principalOrgSubtreeIds inp))"

lemma object_gate:
  "(truthy (rag_objectApiName inp)
    \<and> \<not> (truthy (sourceType inp) \<and> rag_objectApiName inp = sourceType inp)
    \<and> the (rag_objectApiName inp) \<notin> set (readableObjectApiNames inp)) \<longleftrightarrow> \<not> object_readable inp"
  by (cases "rag_objectApiName inp") (auto simp: object_readable_def)

lemma sharing_gate:
  "(sourceAccessLevel inp = ''public''
    \<or> (sourceAccessLevel inp = ''private'' \<and> sourceCreatedBy inp = Some (rag_agentId inp))
    \<or> (sourceAccessLevel inp = ''org_subtree'' \<and> truthy (sourceOrgNodeId inp)
       \<and> the (sourceOrgNodeId inp) \<in> set (principalOrgSubtreeIds inp))) \<longleftrightarrow> shared_with inp"
  by (cases "sourceOrgNodeId inp") (auto simp: shared_with_def)

lemma evaluate_code:
  "rag_decision_code (evaluateConservativeRagAuthorization inp) =
     (if \<not> same_tenant inp then WORKSPACE_BOUNDARY_DENIED
      else if principalRoleId inp = [] then AUTHORIZATION_POLICY_MISSING
      else if \<not> object_readable inp then OBJECT_READ_DENIED
      else if \<not> shared_with inp then AUTHORIZATION_DENIED
      else AUTHORIZED)"
  unfolding evaluateConservativeRagAuthorization_def Let_def object_gate sharing_gate
  by (simp add: crossWorkspaceRagDecision_def missingRagAuthorizationPolicyDecision_def
      same_tenant_def)

lemma evaluate_shape:
  "rag_allowed (evaluateConservativeRagAuthorization inp) \<longleftrightarrow>
     rag_decision_code (evaluateConservativeRagAuthorization inp) = AUTHORIZED"
  "auditRequired (evaluateConservativeRagAuthorization inp)"
  "decisionRef (evaluateConservativeRagAuthorization inp) =
     (if rag_allowed (evaluateConservativeRagAuthorization inp)
      then Some (''rag-auth:'' @ sourceRef inp) else None)"
  by (simp_all add: evaluateConservativeRagAuthorization_def Let_def
      crossWorkspaceRagDecision_def missingRagAuthorizationPolicyDecision_def)

section \<open>The port a retrieval owner depends on\<close>

locale rag_port =
  fixes authorize :: "rag_input \<Rightarrow> rag_decision"
  assumes fail_closed: "rag_allowed (authorize inp) \<Longrightarrow> same_tenant inp \<and> principalRoleId inp \<noteq> []"
    and audited: "auditRequired (authorize inp)"
begin

text \<open>Filtering retrieved rows through the port never leaks a row of another tenant.\<close>

lemma retrieved_rows_same_tenant:
  "r \<in> set (filter (\<lambda>inp. rag_allowed (authorize inp)) rows) \<Longrightarrow> same_tenant r"
  using fail_closed by auto

lemma no_role_no_rows:
  "(\<And>r. r \<in> set rows \<Longrightarrow> principalRoleId r = []) \<Longrightarrow>
     filter (\<lambda>inp. rag_allowed (authorize inp)) rows = []"
  using fail_closed by (auto simp: filter_empty_conv)

end

interpretation conservative: rag_port evaluateConservativeRagAuthorization
proof
  fix inp
  show "auditRequired (evaluateConservativeRagAuthorization inp)" by (rule evaluate_shape(2))
  assume "rag_allowed (evaluateConservativeRagAuthorization inp)"
  then show "same_tenant inp \<and> principalRoleId inp \<noteq> []"
    by (auto simp: evaluate_shape(1) evaluate_code split: if_splits)
qed

section \<open>Properties\<close>

text \<open>
  The conservative policy decides by the first failing gate: tenant boundary, missing role,
  object read permission (waived for a source-type marker), sharing level; it allows exactly when
  every gate passes, and every decision must be audited.
\<close>

theorem rag_decision_first_failing_gate:
  "rag_decision_code (evaluateConservativeRagAuthorization inp) =
     (if \<not> same_tenant inp then WORKSPACE_BOUNDARY_DENIED
      else if principalRoleId inp = [] then AUTHORIZATION_POLICY_MISSING
      else if \<not> object_readable inp then OBJECT_READ_DENIED
      else if \<not> shared_with inp then AUTHORIZATION_DENIED
      else AUTHORIZED)
   \<and> (rag_allowed (evaluateConservativeRagAuthorization inp) \<longleftrightarrow>
        same_tenant inp \<and> principalRoleId inp \<noteq> [] \<and> object_readable inp \<and> shared_with inp)
   \<and> auditRequired (evaluateConservativeRagAuthorization inp)"
  by (auto simp: evaluate_code evaluate_shape)

end
