(* ===== verification/Data_Scope.thy ===== *)
theory Data_Scope
  imports Gov_Prelude
begin

text \<open>
  SQL filters for an agent's data scope: \<open>governance/packages/permission/src/data-scope-filter.ts\<close>
  and the exception of \<open>errors.ts\<close>. The two regular expressions are written out as scanners:
  \<open>and_sep\<close> and \<open>split_and\<close> for the separator \<open>/\s+AND\s+/i\<close>, \<open>match_condition\<close> for
  \<open>/^(\w+)\s*(=|!=|>|<|>=|<=)\s*'([^']*)'$/\<close>. Each class is disjoint from the one that follows it,
  so greedy matching never has to give characters back; where the operator alternatives overlap
  the longer one is the only one that can be followed by a quote.
\<close>

section \<open>The separator\<close>

definition quote_char :: char where
  "quote_char = CHR 0x27"

definition trim :: "string \<Rightarrow> string" where
  "trim s = rev (dropWhile is_space (rev (dropWhile is_space s)))"

text \<open>The text after a separator that starts at the head of the input.\<close>

fun strip_and :: "string \<Rightarrow> string option" where
  "strip_and (a # n # d # s # rest) =
     (if letter_ci (CHR ''A'') a \<and> letter_ci (CHR ''N'') n \<and> letter_ci (CHR ''D'') d \<and> is_space s
      then Some (dropWhile is_space rest) else None)"
| "strip_and _ = None"

definition and_sep :: "string \<Rightarrow> string option" where
  "and_sep s =
     (case s of [] \<Rightarrow> None
      | c # _ \<Rightarrow> if is_space c then strip_and (dropWhile is_space s) else None)"

lemma strip_and_shorter: "strip_and s = Some r \<Longrightarrow> length r < length s"
  by (cases s rule: strip_and.cases)
     (auto split: if_splits simp: less_Suc_eq_le intro: le_trans [OF length_dropWhile_le])

lemma and_sep_shorter: "and_sep s = Some r \<Longrightarrow> length r < length s"
proof -
  assume "and_sep s = Some r"
  then have "length r < length (dropWhile is_space s)"
    by (auto simp: and_sep_def split: list.splits if_splits dest!: strip_and_shorter)
  then show ?thesis using length_dropWhile_le [of is_space s] by simp
qed

function split_and :: "string \<Rightarrow> string \<Rightarrow> string list" where
  "split_and cur [] = [cur]"
| "split_and cur (c # s) =
     (case and_sep (c # s) of
        Some r \<Rightarrow> cur # split_and [] r
      | None \<Rightarrow> split_and (cur @ [c]) s)"
  by pat_completeness auto
termination
  by (relation "measure (\<lambda>(cur, s). length s)") (auto dest: and_sep_shorter)

declare split_and.simps [simp del]

section \<open>One condition\<close>

definition allowedOps :: "string list" where
  "allowedOps = [''='', ''!='', ''>'', ''<'', ''>='', ''<='']"

fun scan_operator :: "string \<Rightarrow> (string \<times> string) option" where
  "scan_operator (c # d # s) =
     (if c = CHR ''='' then Some (''='', d # s)
      else if c = CHR ''!'' then (if d = CHR ''='' then Some (''!='', s) else None)
      else if c = CHR ''>'' then (if d = CHR ''='' then Some (''>='', s) else Some (''>'', d # s))
      else if c = CHR ''<'' then (if d = CHR ''='' then Some (''<='', s) else Some (''<'', d # s))
      else None)"
| "scan_operator _ = None"

definition scan_literal :: "string \<Rightarrow> string option" where
  "scan_literal s =
     (case s of [] \<Rightarrow> None
      | q # r \<Rightarrow>
          if q = quote_char \<and> dropWhile (\<lambda>c. c \<noteq> quote_char) r = [quote_char]
          then Some (takeWhile (\<lambda>c. c \<noteq> quote_char) r) else None)"

definition match_condition :: "string \<Rightarrow> (string \<times> string \<times> string) option" where
  "match_condition s =
     (let field = takeWhile is_word s;
          r = dropWhile is_space (dropWhile is_word s)
      in if field = [] then None
         else (case scan_operator r of
                 None \<Rightarrow> None
               | Some (operator, r') \<Rightarrow>
                   (case scan_literal (dropWhile is_space r') of
                      None \<Rightarrow> None
                    | Some v \<Rightarrow> Some (field, operator, v))))"

section \<open>The service\<close>

record where_clause =
  sql :: string
  params :: "string list"

definition ALLOWED_FIELDS :: "string set" where
  "ALLOWED_FIELDS =
     {''id'', ''workspace_id'', ''org_node_id'', ''created_by'', ''owner_id'',
      ''record_type_id'', ''status'', ''stage'', ''type'', ''is_active'',
      ''created_at'', ''updated_at'', ''name'', ''account_id'', ''contact_id''}"

definition InvalidCustomFilterException :: "string \<Rightarrow> string" where
  "InvalidCustomFilterException message = ''Invalid custom filter expression: '' @ message"

definition join :: "string \<Rightarrow> string list \<Rightarrow> string" where
  "join sep xs = concat (case xs of [] \<Rightarrow> [] | y # ys \<Rightarrow> y # map (\<lambda>z. sep @ z) ys)"

definition placeholder :: "nat \<Rightarrow> string" where
  "placeholder i = CHR ''$'' # show_nat i"

definition buildOrgSubtreeClause :: "string list \<Rightarrow> where_clause" where
  "buildOrgSubtreeClause orgSubtreeIds =
     (if orgSubtreeIds = [] then \<lparr>sql = ''1 = 0'', params = []\<rparr>
      else \<lparr>sql = ''org_node_id IN ('' @
              join '', '' (map (\<lambda>i. placeholder (i + 1)) [0..<length orgSubtreeIds]) @ '')'',
            params = orgSubtreeIds\<rparr>)"

definition buildOwnClause :: "string \<Rightarrow> where_clause" where
  "buildOwnClause userId = \<lparr>sql = ''created_by = $1'', params = [userId]\<rparr>"

text \<open>The body of the loop over the conditions: \<open>paramIndex\<close> is the next placeholder.\<close>

fun parse_conditions ::
    "string list \<Rightarrow> nat \<Rightarrow> string list \<Rightarrow> string list \<Rightarrow> (string list \<times> string list) result" where
  "parse_conditions [] paramIndex sqlParts ps = Inr (sqlParts, ps)"
| "parse_conditions (condition # rest) paramIndex sqlParts ps =
     (case match_condition (trim condition) of
        None \<Rightarrow> Inl (InvalidCustomFilterException (''Invalid condition syntax: '' @ condition))
      | Some (fieldName, operator, value) \<Rightarrow>
          if fieldName \<notin> ALLOWED_FIELDS
          then Inl (InvalidCustomFilterException
                      (''Field not allowed in custom filter: '' @ fieldName))
          else if operator \<notin> set allowedOps
          then Inl (InvalidCustomFilterException (''Operator not allowed: '' @ operator))
          else parse_conditions rest (paramIndex + 1)
                 (sqlParts @ [fieldName @ '' '' @ operator @ '' '' @ placeholder paramIndex])
                 (ps @ [value]))"

definition buildCustomClause :: "string \<Rightarrow> where_clause result" where
  "buildCustomClause customFilter =
     (if customFilter = [] \<or> trim customFilter = []
      then Inl (InvalidCustomFilterException ''Empty custom filter expression'')
      else (case parse_conditions (split_and [] customFilter) 1 [] [] of
              Inl e \<Rightarrow> Inl e
            | Inr (sqlParts, ps) \<Rightarrow> Inr \<lparr>sql = join '' AND '' sqlParts, params = ps\<rparr>))"

record scope_options =
  so_orgSubtreeIds :: "string list option"
  so_userId :: "string option"
  so_customFilter :: "string option"

definition buildWhereClause :: "string \<Rightarrow> scope_options \<Rightarrow> where_clause result" where
  "buildWhereClause dataScopeType options =
     (if dataScopeType = ''all'' then Inr \<lparr>sql = [], params = []\<rparr>
      else if dataScopeType = ''org_subtree''
      then Inr (buildOrgSubtreeClause (nullish (so_orgSubtreeIds options) []))
      else if dataScopeType = ''own'' then Inr (buildOwnClause (nullish (so_userId options) []))
      else if dataScopeType = ''custom''
      then buildCustomClause (nullish (so_customFilter options) [])
      else Inr (buildOwnClause (nullish (so_userId options) [])))"

section \<open>Shape of a custom clause\<close>

text \<open>A condition of a filter: field, operator and value. Its SQL text never mentions the value.\<close>

type_synonym condition = "string \<times> string \<times> string"

definition condition_allowed :: "condition \<Rightarrow> bool" where
  "condition_allowed c = (case c of (f, op, v) \<Rightarrow> f \<in> ALLOWED_FIELDS \<and> op \<in> set allowedOps)"

fun condition_sql :: "nat \<Rightarrow> condition list \<Rightarrow> string list" where
  "condition_sql i [] = []"
| "condition_sql i ((f, op, v) # cs) =
     (f @ '' '' @ op @ '' '' @ placeholder i) # condition_sql (i + 1) cs"

definition condition_value :: "condition \<Rightarrow> string" where
  "condition_value c = snd (snd c)"

definition read_condition :: "string \<Rightarrow> condition option" where
  "read_condition s = match_condition (trim s)"

lemma parse_conditions_Inr:
  "parse_conditions cs i parts ps = Inr (parts', ps') \<longleftrightarrow>
     (\<exists>ms. map read_condition cs = map Some ms \<and> list_all condition_allowed ms
        \<and> parts' = parts @ condition_sql i ms \<and> ps' = ps @ map condition_value ms)"
proof (induction cs arbitrary: i parts ps)
  case Nil
  then show ?case by auto
next
  case (Cons c cs)
  show ?case
  proof (cases "read_condition c")
    case None
    then show ?thesis by (auto simp: read_condition_def)
  next
    case (Some m)
    obtain f op v where m: "m = (f, op, v)" by (cases m)
    from Some m show ?thesis
      by (auto simp: read_condition_def Cons.IH condition_allowed_def condition_value_def
          Cons_eq_map_conv)
  qed
qed

lemma map_Some_iff: "map f xs = map Some ys \<longleftrightarrow> length xs = length ys \<and> (\<forall>i<length xs. f (xs ! i) = Some (ys ! i))"
  by (auto simp: list_eq_iff_nth_eq)

lemma buildCustomClause_Inr:
  "buildCustomClause s = Inr w \<longleftrightarrow>
     trim s \<noteq> [] \<and> s \<noteq> [] \<and>
     (\<exists>ms. map read_condition (split_and [] s) = map Some ms \<and> list_all condition_allowed ms
        \<and> sql w = join '' AND '' (condition_sql 1 ms) \<and> params w = map condition_value ms)"
proof -
  have "buildCustomClause s = Inr w \<longleftrightarrow>
     trim s \<noteq> [] \<and> s \<noteq> [] \<and>
     (\<exists>parts ps. parse_conditions (split_and [] s) 1 [] [] = Inr (parts, ps)
        \<and> w = \<lparr>sql = join '' AND '' parts, params = ps\<rparr>)"
    by (auto simp: buildCustomClause_def split: sum.splits)
  then show ?thesis
    by (cases w) (auto simp: parse_conditions_Inr)
qed

lemma split_and_not_Nil: "split_and cur s \<noteq> []"
  by (induction cur s rule: split_and.induct) (auto simp: split_and.simps split: option.splits)

section \<open>Reading back a rendered filter\<close>

definition render_condition :: "condition \<Rightarrow> string" where
  "render_condition c = (case c of (f, op, v) \<Rightarrow> f @ '' '' @ op @ '' '' @ quote_char # v @ [quote_char])"

definition render_filter :: "condition list \<Rightarrow> string" where
  "render_filter cs = join '' AND '' (map render_condition cs)"

text \<open>A value the syntax can carry: no quote, and no separator inside it.\<close>

fun sep_free :: "string \<Rightarrow> bool" where
  "sep_free [] = True"
| "sep_free (c # s) = (and_sep (c # s) = None \<and> sep_free s)"

definition value_ok :: "string \<Rightarrow> bool" where
  "value_ok v \<longleftrightarrow> quote_char \<notin> set v \<and> sep_free (v @ [quote_char])"

lemma is_space_simps [simp]:
  "is_space (CHR '' '')" "\<not> is_space quote_char" "\<not> is_space (CHR ''='')"
  "\<not> is_space (CHR ''!'')" "\<not> is_space (CHR ''<'')" "\<not> is_space (CHR ''>'')" "\<not> is_space (CHR ''A'')"
  by (simp_all add: is_space_def code_of_def quote_char_def)

lemma quote_not_letter [simp]: "u \<in> {CHR ''A'', CHR ''N'', CHR ''D''} \<Longrightarrow> \<not> letter_ci u quote_char"
  by (auto simp: letter_ci_def quote_char_def code_of_def)

lemma word_not_space: "is_word c \<Longrightarrow> \<not> is_space c"
  by (auto simp: is_word_def is_space_def)

lemma strip_and_append:
  assumes "strip_and u = None" "u \<noteq> []" "last u = quote_char"
  shows "strip_and (u @ x) = None"
proof (cases u rule: strip_and.cases)
  case (1 a n d s rest)
  with assms(1) show ?thesis by (auto split: if_splits)
qed (use assms in \<open>cases x rule: strip_and.cases; force\<close>)+

lemma dropWhile_append_stop:
  "u \<noteq> [] \<Longrightarrow> \<not> P (last u) \<Longrightarrow> dropWhile P (u @ x) = dropWhile P u @ x"
  by (induction u) (auto split: if_splits)

lemma dropWhile_keeps_last:
  "u \<noteq> [] \<Longrightarrow> \<not> P (last u) \<Longrightarrow> dropWhile P u \<noteq> [] \<and> last (dropWhile P u) = last u"
  by (induction u) (auto split: if_splits)

lemma and_sep_append:
  assumes "and_sep u = None" "u \<noteq> []" "last u = quote_char"
  shows "and_sep (u @ x) = None"
proof -
  obtain c u' where u: "u = c # u'" using assms(2) by (cases u) auto
  have "dropWhile is_space (u @ x) = dropWhile is_space u @ x"
    using assms(2,3) by (simp add: dropWhile_append_stop)
  moreover have "strip_and (dropWhile is_space u) = None" if "is_space c"
    using assms(1) u that by (simp add: and_sep_def)
  ultimately show ?thesis
    using dropWhile_keeps_last [of u is_space] assms(2,3) u
    by (auto simp: and_sep_def strip_and_append)
qed

lemma split_and_chunk:
  assumes "sep_free u" "u \<noteq> []" "last u = quote_char"
  shows "split_and cur (u @ x) = split_and (cur @ u) x"
  using assms
proof (induction u arbitrary: cur)
  case (Cons c u)
  from Cons.prems have "and_sep (c # u) = None" by simp
  then have none: "and_sep (c # u @ x) = None"
    using and_sep_append [of "c # u" x] Cons.prems by simp
  show ?case
  proof (cases "u = []")
    case True
    with none show ?thesis by (simp add: split_and.simps)
  next
    case False
    with Cons.prems have "split_and (cur @ [c]) (u @ x) = split_and ((cur @ [c]) @ u) x"
      by (intro Cons.IH) auto
    with none show ?thesis by (simp add: split_and.simps)
  qed
qed simp

lemma and_sep_text: "\<not> is_space c \<Longrightarrow> and_sep ('' AND '' @ c # x) = Some (c # x)"
  by (simp add: and_sep_def letter_ci_def)

lemma split_and_separator:
  "\<not> is_space c \<Longrightarrow> split_and cur ('' AND '' @ c # x) = cur # split_and [] (c # x)"
  using and_sep_text [of c x] by (simp add: split_and.simps)

lemma render_last: "last (render_condition c) = quote_char" "render_condition c \<noteq> []"
  by (cases c; simp add: render_condition_def)+

lemma sep_free_prefix:
  assumes "\<And>c. c \<in> set w \<Longrightarrow> \<not> is_space c" "sep_free u"
  shows "sep_free (w @ u)"
  using assms by (induction w) (auto simp: and_sep_def)

lemma sep_free_space: "\<not> letter_ci (CHR ''A'') c \<Longrightarrow> \<not> is_space c \<Longrightarrow> sep_free (c # u) \<Longrightarrow>
    sep_free (CHR '' '' # c # u)"
  by (cases "c # u" rule: strip_and.cases) (auto simp: and_sep_def)

lemma ops_facts:
  assumes "op \<in> set allowedOps"
  obtains c t where "op = c # t" "\<not> letter_ci (CHR ''A'') c" "\<not> is_space c" "\<forall>d\<in>set t. \<not> is_space d"
proof -
  have "op \<noteq> [] \<and> \<not> letter_ci (CHR ''A'') (hd op) \<and> (\<forall>d\<in>set op. \<not> is_space d)"
    using assms unfolding allowedOps_def by (auto simp: letter_ci_def code_of_def)
  then show ?thesis using that [of "hd op" "tl op"] by (cases op) auto
qed

lemma fields_word: "f \<in> ALLOWED_FIELDS \<Longrightarrow> f \<noteq> [] \<and> (\<forall>c\<in>set f. is_word c)"
  by (auto simp: ALLOWED_FIELDS_def is_word_def code_of_def)

lemma sep_free_render:
  assumes "condition_allowed (f, op, v)" "value_ok v"
  shows "sep_free (render_condition (f, op, v))"
proof -
  from assms(1) obtain c t where op: "op = c # t" "\<not> letter_ci (CHR ''A'') c" "\<not> is_space c"
      "\<forall>d\<in>set t. \<not> is_space d"
    by (auto simp: condition_allowed_def elim: ops_facts)
  have "sep_free (quote_char # v @ [quote_char])"
    using assms(2) by (simp add: value_ok_def and_sep_def)
  then have "sep_free (CHR '' '' # quote_char # v @ [quote_char])"
    by (intro sep_free_space) auto
  then have "sep_free (op @ CHR '' '' # quote_char # v @ [quote_char])"
    using op by (intro sep_free_prefix) auto
  then have "sep_free (CHR '' '' # op @ CHR '' '' # quote_char # v @ [quote_char])"
    using op sep_free_space [of c "t @ CHR '' '' # quote_char # v @ [quote_char]"] by simp
  moreover have "\<And>c. c \<in> set f \<Longrightarrow> \<not> is_space c"
    using assms(1) fields_word [of f] word_not_space by (auto simp: condition_allowed_def)
  ultimately have "sep_free (f @ CHR '' '' # op @ CHR '' '' # quote_char # v @ [quote_char])"
    by (intro sep_free_prefix) auto
  then show ?thesis by (simp add: render_condition_def)
qed

lemma render_head:
  "condition_allowed c \<Longrightarrow> \<exists>h t. render_condition c = h # t \<and> \<not> is_space h"
proof (cases c)
  case (fields f op v)
  assume "condition_allowed c"
  with fields fields_word [of f] obtain h t where "f = h # t" "is_word h"
    by (cases f) (auto simp: condition_allowed_def)
  with fields show ?thesis by (auto simp: render_condition_def dest: word_not_space)
qed

lemma split_render:
  assumes "cs \<noteq> []" "list_all condition_allowed cs" "list_all (value_ok \<circ> condition_value) cs"
  shows "split_and [] (render_filter cs) = map render_condition cs"
  using assms
proof (induction cs)
  case (Cons c cs)
  obtain f op v where c: "c = (f, op, v)" by (cases c)
  have free: "sep_free (render_condition c)"
    using Cons.prems c by (auto intro: sep_free_render simp: condition_value_def)
  show ?case
  proof (cases cs)
    case Nil
    have "split_and [] (render_condition c @ []) = split_and ([] @ render_condition c) []"
      using free render_last by (intro split_and_chunk)
    with Nil show ?thesis by (simp add: render_filter_def join_def split_and.simps)
  next
    case (Cons d ds)
    then have rest: "render_filter (c # cs) = render_condition c @ '' AND '' @ render_filter cs"
      by (simp add: render_filter_def join_def)
    obtain h t where h: "render_filter cs = h # t" "\<not> is_space h"
      using Cons Cons.prems render_head [of d] by (auto simp: render_filter_def join_def)
    have "split_and [] (render_filter (c # cs)) = split_and (render_condition c) ('' AND '' @ h # t)"
      using free render_last rest h by (simp add: split_and_chunk)
    also have "\<dots> = render_condition c # split_and [] (render_filter cs)"
      using h split_and_separator by simp
    finally show ?thesis using Cons Cons.IH Cons.prems by simp
  qed
qed simp

lemma trim_render: "condition_allowed c \<Longrightarrow> trim (render_condition c) = render_condition c"
proof -
  assume "condition_allowed c"
  then obtain h t where h: "render_condition c = h # t" "\<not> is_space h" using render_head by blast
  have "render_condition c = butlast (render_condition c) @ [quote_char]"
    using render_last [of c] by (metis append_butlast_last_id)
  then obtain u where u: "render_condition c = u @ [quote_char]" by blast
  have "dropWhile is_space (render_condition c) = render_condition c"
    using h by simp
  then show ?thesis by (simp add: trim_def u)
qed

lemma scan_operator_allowed:
  "op \<in> set allowedOps \<Longrightarrow> scan_operator (op @ CHR '' '' # s) = Some (op, CHR '' '' # s)"
  by (auto simp: allowedOps_def)

lemma match_render:
  assumes "condition_allowed (f, op, v)" "quote_char \<notin> set v"
  shows "match_condition (render_condition (f, op, v)) = Some (f, op, v)"
proof -
  let ?lit = "quote_char # v @ [quote_char]"
  have op_in: "op \<in> set allowedOps" using assms(1) by (simp add: condition_allowed_def)
  obtain c t where op: "op = c # t" "\<not> is_space c" using ops_facts [OF op_in] by metis
  have f: "f \<noteq> []" "\<forall>x\<in>set f. is_word x"
    using assms(1) fields_word [of f] by (auto simp: condition_allowed_def)
  have sp: "\<not> is_word (CHR '' '')" by (simp add: is_word_def code_of_def)
  have tw: "takeWhile is_word (f @ CHR '' '' # r) = f" "dropWhile is_word (f @ CHR '' '' # r) = CHR '' '' # r" for r
    using f sp by (simp_all add: takeWhile_append2 dropWhile_append2)
  have lit: "scan_literal ?lit = Some v"
  proof -
    have "\<forall>x\<in>set v. x \<noteq> quote_char" using assms(2) by auto
    then show ?thesis
      by (simp add: scan_literal_def takeWhile_append2 dropWhile_append2)
  qed
  have "dropWhile is_space (CHR '' '' # op @ CHR '' '' # ?lit) = op @ CHR '' '' # ?lit"
    using op by simp
  then show ?thesis
    using f op lit tw scan_operator_allowed [OF op_in]
    by (simp add: match_condition_def render_condition_def)
qed

section \<open>Properties\<close>

lemma custom_filter_shape:
  assumes "buildCustomClause s = Inr w"
  shows "\<exists>ms. ms \<noteq> [] \<and> list_all condition_allowed ms
           \<and> sql w = join '' AND '' (condition_sql 1 ms)
           \<and> params w = map condition_value ms"
proof -
  from assms obtain ms where ms: "map read_condition (split_and [] s) = map Some ms"
      "list_all condition_allowed ms" "sql w = join '' AND '' (condition_sql 1 ms)"
      "params w = map condition_value ms"
    by (auto simp: buildCustomClause_Inr)
  then have "ms \<noteq> []" using split_and_not_Nil [of "[]" s] by auto
  with ms show ?thesis by blast
qed

text \<open>
  A custom filter that is accepted has been reduced to a non-empty list of conditions over the
  white-listed fields and operators; the SQL text consists of those fields, operators and the
  placeholders \<open>$1\<close>, ..., \<open>$n\<close> only, and every quoted value is bound as a parameter, in order.
\<close>

theorem custom_filter_no_injection:
  assumes "buildCustomClause s = Inr w"
  shows "\<exists>ms. ms \<noteq> [] \<and> list_all condition_allowed ms
           \<and> sql w = join '' AND '' (condition_sql 1 ms)
           \<and> params w = map condition_value ms"
  using assms by (rule custom_filter_shape)

theorem custom_filter_no_injection_witness:
  "\<exists>ms. ms \<noteq> [] \<and> list_all condition_allowed ms
     \<and> ''status = $1'' = join '' AND '' (condition_sql 1 ms) \<and> [''a;--''] = map condition_value ms"
proof -
  have h: "buildCustomClause (''status='' @ quote_char # ''a;--'' @ [quote_char]) =
      Inr \<lparr>sql = ''status = $1'', params = [''a;--'']\<rparr>"
    by code_simp
  show ?thesis using custom_filter_no_injection [OF h] by simp
qed

text \<open>
  Every list of allowed conditions whose values carry no quote and no separator is expressible:
  rendering it as a filter and building the clause gives back exactly those conditions.
\<close>

theorem custom_filter_roundtrip:
  assumes "cs \<noteq> []" "list_all condition_allowed cs" "list_all (value_ok \<circ> condition_value) cs"
  shows "buildCustomClause (render_filter cs) =
           Inr \<lparr>sql = join '' AND '' (condition_sql 1 cs), params = map condition_value cs\<rparr>"
proof -
  obtain c ds where cs: "cs = c # ds" using assms(1) by (cases cs) auto
  then obtain h t where h: "render_filter cs = h # t" "\<not> is_space h"
    using assms(2) render_head [of c] by (cases ds) (auto simp: render_filter_def join_def)
  then have "trim (render_filter cs) \<noteq> []" by (simp add: trim_def)
  moreover have "read_condition (render_condition d) = Some d" if "d \<in> set cs" for d
    using assms that trim_render [of d] match_render
    by (cases d) (auto simp: read_condition_def list_all_iff value_ok_def condition_value_def)
  then have "map read_condition (map render_condition cs) = map Some cs" by simp
  moreover have "render_filter cs \<noteq> []" using h by simp
  ultimately have "\<exists>ms. map read_condition (split_and [] (render_filter cs)) = map Some ms
      \<and> list_all condition_allowed ms
      \<and> join '' AND '' (condition_sql 1 cs) = join '' AND '' (condition_sql 1 ms)
      \<and> map condition_value cs = map condition_value ms"
    using assms by (intro exI [of _ cs]) (simp add: split_render del: map_map)
  then show ?thesis
    using \<open>trim (render_filter cs) \<noteq> []\<close> \<open>render_filter cs \<noteq> []\<close>
    by (simp add: buildCustomClause_Inr)
qed

theorem custom_filter_roundtrip_witness:
  "buildCustomClause (render_filter [(''stage'', ''!='', ''won''), (''owner_id'', ''='', ''u1'')]) =
     Inr \<lparr>sql = ''stage != $1 AND owner_id = $2'', params = [''won'', ''u1'']\<rparr>"
proof -
  have "list_all condition_allowed [(''stage'', ''!='', ''won''), (''owner_id'', ''='', ''u1'')]"
    and "list_all (value_ok \<circ> condition_value) [(''stage'', ''!='', ''won''), (''owner_id'', ''='', ''u1'')]"
    by code_simp+
  moreover have "join '' AND '' (condition_sql 1 [(''stage'', ''!='', ''won''), (''owner_id'', ''='', ''u1'')])
      = ''stage != $1 AND owner_id = $2''"
    by code_simp
  ultimately show ?thesis
    using custom_filter_roundtrip [of "[(''stage'', ''!='', ''won''), (''owner_id'', ''='', ''u1'')]"]
    by (simp add: condition_value_def)
qed

section \<open>Placeholders and parameters\<close>

definition dollars :: "string \<Rightarrow> nat" where
  "dollars s = length (filter (\<lambda>c. c = CHR ''$'') s)"

lemma dollars_append [simp]: "dollars (s @ t) = dollars s + dollars t"
  and dollars_Nil [simp]: "dollars [] = 0"
  and dollars_Cons [simp]: "dollars (c # s) = (if c = CHR ''$'' then 1 else 0) + dollars s"
  by (simp_all add: dollars_def)

lemma dollars_show_nat [simp]: "dollars (show_nat n) = 0"
proof -
  have "c \<noteq> CHR ''$''" if "c \<in> set (show_nat n)" for c
    using show_nat_digits [OF that] by (auto simp: is_digit_def)
  then show ?thesis by (auto simp: dollars_def filter_empty_conv)
qed

lemma dollars_placeholder [simp]: "dollars (placeholder i) = 1"
  by (simp add: placeholder_def)

lemma dollars_join: "dollars sep = 0 \<Longrightarrow> dollars (join sep xs) = sum_list (map dollars xs)"
proof (cases xs)
  case (Cons y ys)
  assume "dollars sep = 0"
  then have "dollars (concat (map ((@) sep) ys)) = sum_list (map dollars ys)"
    by (induction ys) simp_all
  with Cons show ?thesis by (simp add: join_def)
qed (simp add: join_def)

lemma dollars_join_placeholders [simp]:
  "dollars (join '', '' (map (\<lambda>i. placeholder (Suc i)) is)) = length is"
  by (simp add: dollars_join o_def) (induction "is"; simp)

lemma allowed_no_dollar:
  "f \<in> ALLOWED_FIELDS \<Longrightarrow> dollars f = 0" "op \<in> set allowedOps \<Longrightarrow> dollars op = 0"
  by (auto simp: ALLOWED_FIELDS_def allowedOps_def)

lemma dollars_condition_sql:
  "list_all condition_allowed ms \<Longrightarrow> sum_list (map dollars (condition_sql i ms)) = length ms"
  by (induction i ms rule: condition_sql.induct)
     (auto simp: condition_allowed_def allowed_no_dollar)

text \<open>
  Whatever the scope type and the options, a clause that is produced has exactly one placeholder
  per bound parameter; an organisation scope without nodes, and only a scope without restriction,
  binds none.
\<close>

theorem where_clause_params_aligned:
  assumes "buildWhereClause ty opts = Inr w"
  shows "dollars (sql w) = length (params w)
     \<and> (params w = [] \<longrightarrow> sql w = [] \<and> ty = ''all'' \<or> sql w = ''1 = 0'' \<and> ty = ''org_subtree'')"
proof -
  have custom: "dollars (sql w) = length (params w) \<and> params w \<noteq> []"
    if c: "buildCustomClause f = Inr w" for f
    using custom_filter_shape [OF c] by (auto simp: dollars_join dollars_condition_sql)
  show ?thesis
    using assms custom
    by (auto simp: buildWhereClause_def buildOwnClause_def buildOrgSubtreeClause_def split: if_splits)
qed

theorem where_clause_params_aligned_witness:
  "dollars (sql \<lparr>sql = ''org_node_id IN ($1, $2)'', params = [''n1'', ''n2'']\<rparr>) = 2"
proof -
  have h: "buildWhereClause ''org_subtree''
      \<lparr>so_orgSubtreeIds = Some [''n1'', ''n2''], so_userId = None, so_customFilter = None\<rparr> =
      Inr \<lparr>sql = ''org_node_id IN ($1, $2)'', params = [''n1'', ''n2'']\<rparr>"
    by code_simp
  show ?thesis using where_clause_params_aligned [OF h] by simp
qed

end
