(* ===== verification/Field_Masking.thy ===== *)
theory Field_Masking
  imports Gov_Prelude
begin

text \<open>
  Field masking: \<open>governance/packages/permission/src/field-masking.ts\<close>. A record is a JSON object.
  The three mask configurations are one record of optional properties, as the casts of the source
  read them. The digest of \<open>node:crypto\<close> and the conversion \<open>Number(string)\<close> are arguments; numbers are
  the integral ones, on which \<open>Math.floor(num / bucket) * bucket\<close> is \<open>(num div bucket) * bucket\<close>.
\<close>

record mask_config =
  prefixLength :: "int option"
  suffixLength :: "int option"
  maskChar :: "string option"
  algorithm :: "string option"
  truncateLength :: "int option"
  bucketSize :: "int option"
  mask_unit :: "string option"

record mask_rule =
  mr_objectApiName :: string
  mr_fieldApiName :: string
  maskType :: string
  maskConfig :: mask_config

section \<open>Repetition and slices\<close>

text \<open>\<open>s.repeat(n)\<close> and \<open>s.slice(0, n)\<close>.\<close>

definition repeat_string :: "nat \<Rightarrow> string \<Rightarrow> string" where
  "repeat_string n s = concat (replicate n s)"

definition slice_to :: "int \<Rightarrow> string \<Rightarrow> string" where
  "slice_to n s = (if 0 \<le> n then take (nat n) s else take (nat (int (length s) + n)) s)"

definition or_zero :: "int option \<Rightarrow> int" where
  "or_zero n = nullish n 0"

section \<open>The service\<close>

definition applyPartialMask :: "json \<Rightarrow> mask_config \<Rightarrow> string" where
  "applyPartialMask value config =
     (if value = JNull \<or> value = JStr [] then []
      else
        (let str = js_String value;
             mc = (if truthy (maskChar config) then the (maskChar config) else ''*'');
             prefixLen = nat (max 0 (or_zero (prefixLength config)));
             suffixLen = nat (max 0 (or_zero (suffixLength config)))
         in if length str \<le> prefixLen + suffixLen then repeat_string (length str) mc
            else
              (let prefix = take prefixLen str;
                   suffix = drop (length str - suffixLen) str;
                   middleLen = length str - prefixLen - suffixLen
               in prefix @ repeat_string middleLen mc @ suffix)))"

definition applyHashMask :: "(string \<Rightarrow> string \<Rightarrow> string) \<Rightarrow> json \<Rightarrow> mask_config \<Rightarrow> string" where
  "applyHashMask digestHex value config =
     (if value = JNull \<or> value = JStr [] then []
      else
        (let alg = (if algorithm config = Some ''md5'' then ''md5'' else ''sha256'');
             hash = digestHex alg (js_String value)
         in if or_zero (truncateLength config) \<noteq> 0
            then slice_to (or_zero (truncateLength config)) hash else hash))"

definition applyRangeMask :: "(string \<Rightarrow> int option) \<Rightarrow> json \<Rightarrow> mask_config \<Rightarrow> string" where
  "applyRangeMask numberOf value config =
     (if value = JNull then []
      else
        (case js_Number numberOf value of
           None \<Rightarrow> []
         | Some num \<Rightarrow>
             (let bucket = (if or_zero (bucketSize config) \<noteq> 0 then or_zero (bucketSize config) else 1);
                  lower = (num div bucket) * bucket;
                  upper = lower + bucket;
                  un = (if truthy (mask_unit config) then the (mask_unit config) else [])
              in show_int lower @ ''-'' @ show_int upper @ un)))"

text \<open>One iteration of the loop over the applicable rules.\<close>

definition apply_rule ::
    "(string \<Rightarrow> string \<Rightarrow> string) \<Rightarrow> (string \<Rightarrow> int option) \<Rightarrow> jobject \<Rightarrow> mask_rule \<Rightarrow> jobject" where
  "apply_rule digestHex numberOf masked rule =
     (case map_of masked (mr_fieldApiName rule) of
        None \<Rightarrow> masked
      | Some v \<Rightarrow>
          (if maskType rule = ''hide'' then jdelete (mr_fieldApiName rule) masked
           else if maskType rule = ''partial''
           then jset (mr_fieldApiName rule) (JStr (applyPartialMask v (maskConfig rule))) masked
           else if maskType rule = ''hash''
           then jset (mr_fieldApiName rule) (JStr (applyHashMask digestHex v (maskConfig rule))) masked
           else if maskType rule = ''range''
           then jset (mr_fieldApiName rule) (JStr (applyRangeMask numberOf v (maskConfig rule))) masked
           else masked))"

definition applyMasks ::
    "(string \<Rightarrow> string \<Rightarrow> string) \<Rightarrow> (string \<Rightarrow> int option) \<Rightarrow>
     jobject list \<Rightarrow> mask_rule list \<Rightarrow> string \<Rightarrow> jobject list" where
  "applyMasks digestHex numberOf records rules objectApiName =
     (let applicableRules = filter (\<lambda>r. mr_objectApiName r = objectApiName) rules
      in if applicableRules = [] then records
         else map (\<lambda>record. foldl (apply_rule digestHex numberOf) record applicableRules) records)"

section \<open>One rule\<close>

lemma apply_rule_other:
  "k \<noteq> mr_fieldApiName r \<Longrightarrow> map_of (apply_rule dig num ps r) k = map_of ps k"
  by (auto simp: apply_rule_def map_of_jset map_of_jdelete split: option.splits)

lemma apply_rule_absent:
  "map_of ps k = None \<Longrightarrow> map_of (apply_rule dig num ps r) k = None"
proof (cases "k = mr_fieldApiName r")
  case True
  moreover assume "map_of ps k = None"
  ultimately show ?thesis by (simp add: apply_rule_def)
qed (simp add: apply_rule_other)

lemma apply_rule_hide:
  "maskType r = ''hide'' \<Longrightarrow> map_of (apply_rule dig num ps r) (mr_fieldApiName r) = None"
  by (auto simp: apply_rule_def map_of_jdelete split: option.splits)

lemma rules_absent:
  "map_of ps k = None \<Longrightarrow> map_of (foldl (apply_rule dig num) ps rs) k = None"
  by (induction rs arbitrary: ps) (auto simp: apply_rule_absent)

lemma rules_other:
  "\<forall>r\<in>set rs. mr_fieldApiName r \<noteq> k \<Longrightarrow>
     map_of (foldl (apply_rule dig num) ps rs) k = map_of ps k"
  by (induction rs arbitrary: ps) (auto simp: apply_rule_other)

lemma rules_hide:
  assumes "r \<in> set rs" "maskType r = ''hide''" "mr_fieldApiName r = k"
  shows "map_of (foldl (apply_rule dig num) ps rs) k = None"
  using assms
proof (induction rs arbitrary: ps)
  case (Cons x rs)
  show ?case
  proof (cases "r \<in> set rs")
    case True
    with Cons show ?thesis by simp
  next
    case False
    with Cons.prems have "r = x" by simp
    with Cons.prems apply_rule_hide have "map_of (apply_rule dig num ps x) k = None" by auto
    then show ?thesis by (simp add: rules_absent)
  qed
qed simp

section \<open>Properties\<close>

text \<open>
  After masking, a field with an applicable \<open>hide\<close> rule is present in no record, wherever the
  rule stands among the rules; a field that no applicable rule names keeps its value; and the
  records are neither dropped nor reordered.
\<close>

theorem masking_hides_and_frames:
  assumes "r \<in> set rules" "mr_objectApiName r = obj" "maskType r = ''hide''"
    and "\<forall>x\<in>set rules. mr_objectApiName x = obj \<longrightarrow> mr_fieldApiName x \<noteq> k"
  shows "length (applyMasks dig num recs rules obj) = length recs
     \<and> (\<forall>i < length recs.
          map_of (applyMasks dig num recs rules obj ! i) (mr_fieldApiName r) = None
          \<and> map_of (applyMasks dig num recs rules obj ! i) k = map_of (recs ! i) k)"
proof -
  have "filter (\<lambda>x. mr_objectApiName x = obj) rules \<noteq> []"
    using assms(1,2) by (auto simp: filter_empty_conv)
  then have eq: "applyMasks dig num recs rules obj =
      map (\<lambda>rec. foldl (apply_rule dig num) rec (filter (\<lambda>x. mr_objectApiName x = obj) rules)) recs"
    by (simp add: applyMasks_def Let_def)
  have "map_of (foldl (apply_rule dig num) ps (filter (\<lambda>x. mr_objectApiName x = obj) rules))
          (mr_fieldApiName r) = None" for ps
    using assms(1-3) by (intro rules_hide [of r]) auto
  moreover have "map_of (foldl (apply_rule dig num) ps (filter (\<lambda>x. mr_objectApiName x = obj) rules)) k
      = map_of ps k" for ps
    using assms(4) by (intro rules_other) auto
  ultimately show ?thesis by (simp add: eq)
qed

definition no_config :: mask_config where
  "no_config = \<lparr>prefixLength = None, suffixLength = None, maskChar = None, algorithm = None,
     truncateLength = None, bucketSize = None, mask_unit = None\<rparr>"

theorem masking_hides_and_frames_witness:
  "map_of (applyMasks (\<lambda>_ s. s) (\<lambda>_. None) [[(''ssn'', JStr ''1''), (''name'', JStr ''Al'')]]
      [\<lparr>mr_objectApiName = ''Contact'', mr_fieldApiName = ''ssn'', maskType = ''hide'',
        maskConfig = no_config\<rparr>] ''Contact'' ! 0) ''ssn'' = None"
  using masking_hides_and_frames
    [of "\<lparr>mr_objectApiName = ''Contact'', mr_fieldApiName = ''ssn'', maskType = ''hide'',
          maskConfig = no_config\<rparr>"
        "[\<lparr>mr_objectApiName = ''Contact'', mr_fieldApiName = ''ssn'', maskType = ''hide'',
          maskConfig = no_config\<rparr>]" "''Contact''" "''name''" "\<lambda>_ s. s" "\<lambda>_. None"
        "[[(''ssn'', JStr ''1''), (''name'', JStr ''Al'')]]"]
  by simp

text \<open>The two ends of a value that a partial mask may show.\<close>

definition shown_prefix :: "mask_config \<Rightarrow> nat" where
  "shown_prefix config = nat (max 0 (or_zero (prefixLength config)))"

definition shown_suffix :: "mask_config \<Rightarrow> nat" where
  "shown_suffix config = nat (max 0 (or_zero (suffixLength config)))"

definition same_ends :: "mask_config \<Rightarrow> string \<Rightarrow> string \<Rightarrow> bool" where
  "same_ends config s t \<longleftrightarrow> length s = length t \<and>
     (shown_prefix config + shown_suffix config < length s \<longrightarrow>
        take (shown_prefix config) s = take (shown_prefix config) t
        \<and> drop (length s - shown_suffix config) s = drop (length t - shown_suffix config) t)"

text \<open>
  A partial mask reveals nothing but the length and the configured ends: two non-empty values
  that agree on these are masked to the same text. A value that is not longer than the two ends
  together is masked completely.
\<close>

theorem partial_mask_reveals_only_ends:
  assumes "s \<noteq> []" "same_ends config s t"
  shows "applyPartialMask (JStr s) config = applyPartialMask (JStr t) config"
proof -
  have "t \<noteq> []" using assms by (auto simp: same_ends_def)
  with assms show ?thesis
    by (auto simp: applyPartialMask_def same_ends_def shown_prefix_def shown_suffix_def Let_def)
qed

theorem partial_mask_reveals_only_ends_witness:
  "applyPartialMask (JStr ''13800001111'') (no_config\<lparr>prefixLength := Some 3, suffixLength := Some 2\<rparr>) =
   applyPartialMask (JStr ''13899992211'') (no_config\<lparr>prefixLength := Some 3, suffixLength := Some 2\<rparr>)"
  by (rule partial_mask_reveals_only_ends)
     (simp_all add: same_ends_def shown_prefix_def shown_suffix_def or_zero_def no_config_def)

lemma bucket_bounds:
  fixes n b :: int
  assumes "0 < b"
  shows "(n div b) * b \<le> n \<and> n < (n div b) * b + b"
  using assms pos_mod_bound [of b n] pos_mod_sign [of b n] div_mult_mod_eq [of n b] by linarith

text \<open>
  A range mask with a positive bucket size publishes only the bucket of a number: the printed
  bounds enclose the number, they are one bucket apart, and all numbers of a bucket print alike.
\<close>

theorem range_mask_buckets:
  assumes "bucketSize config = Some b" "0 < b"
  shows "\<exists>lower. lower \<le> n \<and> n < lower + b
      \<and> (\<forall>m. lower \<le> m \<and> m < lower + b \<longrightarrow>
           applyRangeMask num (JNum m) config =
             show_int lower @ ''-'' @ show_int (lower + b) @
             (if truthy (mask_unit config) then the (mask_unit config) else []))"
proof (intro exI conjI allI impI)
  show "(n div b) * b \<le> n" "n < (n div b) * b + b"
    using bucket_bounds [OF assms(2), of n] by simp_all
  fix m assume m: "(n div b) * b \<le> m \<and> m < (n div b) * b + b"
  have "m div b = n div b"
    using m by (intro int_div_pos_eq [of m b _ "m - (n div b) * b"]) (auto simp: algebra_simps)
  with assms show "applyRangeMask num (JNum m) config = show_int ((n div b) * b) @ ''-'' @
      show_int ((n div b) * b + b) @ (if truthy (mask_unit config) then the (mask_unit config) else [])"
    by (simp add: applyRangeMask_def js_Number_def or_zero_def Let_def)
qed

theorem range_mask_buckets_witness:
  "\<exists>lower. lower \<le> 27 \<and> 27 < lower + 10
     \<and> (\<forall>m. lower \<le> m \<and> m < lower + 10 \<longrightarrow>
          applyRangeMask (\<lambda>_. None) (JNum m)
            (no_config\<lparr>bucketSize := Some 10, mask_unit := Some ''k''\<rparr>) =
          show_int lower @ ''-'' @ show_int (lower + 10) @ ''k'')"
  using range_mask_buckets [of "no_config\<lparr>bucketSize := Some 10, mask_unit := Some ''k''\<rparr>" 10 27
      "\<lambda>_. None"]
  by simp

end
