(* ===== verification/Guardrail.thy ===== *)
theory Guardrail
  imports Gov_Prelude
begin

text \<open>
  The guardrail engine: \<open>governance/packages/guardrail/src/\<close> (\<open>guardrail-rule.entity.ts\<close>,
  \<open>rule-matcher.ts\<close>, \<open>risk-assessor.ts\<close>, \<open>guardrail-engine.ts\<close>, \<open>rule-provider.ts\<close>,
  \<open>rule-provider-typeorm.ts\<close>).

  The conditions and the action of a rule are typed columns; further properties of the conditions
  object matter only to \<open>Object.keys\<close> and are listed in \<open>c_otherKeys\<close>. The operation of a call is
  read from agent-supplied JSON and keeps the raw values, so that the comparisons of the matcher
  are JavaScript's, including the \<open>TypeError\<close> of \<open>includes\<close> on a value that is neither an array nor
  a string.
\<close>

section \<open>Rules\<close>

datatype risk_level = L0 | L1 | L2 | L3 | L4

fun RISK_ORDER :: "risk_level \<Rightarrow> nat" where
  "RISK_ORDER L0 = 0"
| "RISK_ORDER L1 = 1"
| "RISK_ORDER L2 = 2"
| "RISK_ORDER L3 = 3"
| "RISK_ORDER L4 = 4"

lemma RISK_ORDER_inject [simp]: "RISK_ORDER a = RISK_ORDER b \<longleftrightarrow> a = b"
  by (cases a; cases b) simp_all

instantiation risk_level :: linorder
begin

definition less_eq_risk_level :: "risk_level \<Rightarrow> risk_level \<Rightarrow> bool" where
  "less_eq_risk_level a b \<longleftrightarrow> RISK_ORDER a \<le> RISK_ORDER b"

definition less_risk_level :: "risk_level \<Rightarrow> risk_level \<Rightarrow> bool" where
  "less_risk_level a b \<longleftrightarrow> RISK_ORDER a < RISK_ORDER b"

instance
  by standard (auto simp: less_eq_risk_level_def less_risk_level_def)

end

lemmas risk_order_defs = less_eq_risk_level_def less_risk_level_def

fun show_risk :: "risk_level \<Rightarrow> string" where
  "show_risk L0 = ''L0''"
| "show_risk L1 = ''L1''"
| "show_risk L2 = ''L2''"
| "show_risk L3 = ''L3''"
| "show_risk L4 = ''L4''"

record rule_conditions =
  c_objectApiName :: "string option"
  c_operation :: "string option"
  c_fieldApiNames :: "string list option"
  c_amountThreshold :: "int option"
  c_batchSize :: "int option"
  c_otherKeys :: "string list"

record rule_action =
  approverRule :: "string option"
  approverUserId :: "string option"
  timeoutMinutes :: "int option"
  timeoutAction :: "string option"

record guardrail_rule =
  gr_id :: string
  gr_workspaceId :: string
  gr_name :: string
  gr_description :: "string option"
  gr_isActive :: bool
  gr_priority :: int
  gr_conditions :: "rule_conditions option"
  gr_riskLevel :: risk_level
  gr_action :: "rule_action option"

record tool_call_operation =
  op_objectApiName :: "json option"
  op_operation :: "json option"
  op_fieldApiNames :: "json option"
  op_amount :: "json option"
  op_batchSize :: "json option"

section \<open>Rule matcher\<close>

definition no_keys :: "rule_conditions \<Rightarrow> bool" where
  "no_keys cond \<longleftrightarrow>
     c_objectApiName cond = None \<and> c_operation cond = None \<and> c_fieldApiNames cond = None
     \<and> c_amountThreshold cond = None \<and> c_batchSize cond = None \<and> c_otherKeys cond = []"

definition hasExecutableCondition :: "rule_conditions \<Rightarrow> bool" where
  "hasExecutableCondition cond \<longleftrightarrow>
     c_objectApiName cond \<noteq> None
     \<or> c_operation cond \<noteq> None
     \<or> (case c_fieldApiNames cond of None \<Rightarrow> False | Some fs \<Rightarrow> length fs > 0)
     \<or> c_amountThreshold cond \<noteq> None
     \<or> c_batchSize cond \<noteq> None"

text \<open>\<open>a && (!b || a !== b)\<close> for a condition string and a raw property.\<close>

definition string_mismatch :: "string option \<Rightarrow> json option \<Rightarrow> bool" where
  "string_mismatch c v \<longleftrightarrow> truthy c \<and> (\<not> truthy_json v \<or> v \<noteq> map_option JStr c)"

text \<open>
  The field check: \<open>Inr True\<close> when the rule may still match. On an array \<open>includes\<close> is membership,
  on a string it is substring search, on another value the call throws.
\<close>

definition fields_check :: "string list option \<Rightarrow> json option \<Rightarrow> bool result" where
  "fields_check c v =
     (case c of
        None \<Rightarrow> Inr True
      | Some fs \<Rightarrow>
          if length fs = 0 then Inr True
          else if \<not> truthy_json v then Inr False
          else
            (case v of
               Some (JArr vs) \<Rightarrow>
                 Inr (vs \<noteq> [] \<and> filter (\<lambda>f. JStr f \<in> set vs) fs \<noteq> [])
             | Some (JStr s) \<Rightarrow> Inr (filter (\<lambda>f. contains f s) fs \<noteq> [])
             | _ \<Rightarrow> Inl ''op.fieldApiNames.includes is not a function''))"

text \<open>A numeric threshold: the property is present and not smaller.\<close>

definition threshold_reached :: "(string \<Rightarrow> int option) \<Rightarrow> int option \<Rightarrow> json option \<Rightarrow> bool" where
  "threshold_reached numberOf c v \<longleftrightarrow>
     (case c of
        None \<Rightarrow> True
      | Some t \<Rightarrow> \<not> missing v \<and> \<not> js_less numberOf (the v) (JNum t))"

definition matchRule ::
    "(string \<Rightarrow> int option) \<Rightarrow> tool_call_operation \<Rightarrow> guardrail_rule \<Rightarrow> bool result" where
  "matchRule numberOf op rule =
     (case gr_conditions rule of
        None \<Rightarrow> Inr False
      | Some cond \<Rightarrow>
          if no_keys cond then Inr True
          else if \<not> hasExecutableCondition cond then Inr False
          else if string_mismatch (c_objectApiName cond) (op_objectApiName op) then Inr False
          else if string_mismatch (c_operation cond) (op_operation op) then Inr False
          else
            (case fields_check (c_fieldApiNames cond) (op_fieldApiNames op) of
               Inl e \<Rightarrow> Inl e
             | Inr False \<Rightarrow> Inr False
             | Inr True \<Rightarrow>
                 Inr (threshold_reached numberOf (c_amountThreshold cond) (op_amount op)
                      \<and> threshold_reached numberOf (c_batchSize cond) (op_batchSize op))))"

fun matchRules ::
    "(string \<Rightarrow> int option) \<Rightarrow> tool_call_operation \<Rightarrow> guardrail_rule list \<Rightarrow> guardrail_rule list result" where
  "matchRules numberOf op [] = Inr []"
| "matchRules numberOf op (rule # rules) =
     (case matchRule numberOf op rule of
        Inl e \<Rightarrow> Inl e
      | Inr m \<Rightarrow>
          (case matchRules numberOf op rules of
             Inl e \<Rightarrow> Inl e
           | Inr ms \<Rightarrow> Inr (if m then rule # ms else ms)))"

section \<open>Risk assessor\<close>

definition higher_risk :: "guardrail_rule \<Rightarrow> guardrail_rule \<Rightarrow> guardrail_rule" where
  "higher_risk highest current =
     (let hLevel = RISK_ORDER (gr_riskLevel highest); cLevel = RISK_ORDER (gr_riskLevel current)
      in if cLevel > hLevel then current
         else if cLevel = hLevel \<and> gr_priority current < gr_priority highest then current
         else highest)"

definition assessRisk :: "guardrail_rule list \<Rightarrow> guardrail_rule option" where
  "assessRisk matchedRules =
     (case matchedRules of [] \<Rightarrow> None | r # rs \<Rightarrow> Some (foldl higher_risk r rs))"

section \<open>Engine\<close>

record action_result =
  ar_type :: string
  ar_blocked :: bool
  ar_escalated :: bool
  ar_approverRule :: "string option"
  ar_timeoutMinutes :: "int option"

record guardrail_evaluation =
  ev_matched :: bool
  ev_ruleId :: "string option"
  ev_ruleName :: "string option"
  ev_riskLevel :: risk_level
  ev_action :: action_result

definition extractOperation :: "string \<Rightarrow> jobject \<Rightarrow> tool_call_operation" where
  "extractOperation toolName inp =
     \<lparr>op_objectApiName = or_json (map_of inp ''objectApiName'') (map_of inp ''object''),
      op_operation = or_json (map_of inp ''operation'') (Some (JStr toolName)),
      op_fieldApiNames =
        (if truthy_json (map_of inp ''fields'')
         then Some (JArr (map JStr (js_keys (the (map_of inp ''fields'')))))
         else map_of inp ''fieldApiNames''),
      op_amount = or_json (map_of inp ''amount'') (map_of inp ''value''),
      op_batchSize =
        (case map_of inp ''records'' of
           Some (JArr rs) \<Rightarrow> Some (JNum (int (length rs)))
         | _ \<Rightarrow> map_of inp ''batchSize'')\<rparr>"

definition plain_action :: "string \<Rightarrow> bool \<Rightarrow> action_result" where
  "plain_action ty blocked =
     \<lparr>ar_type = ty, ar_blocked = blocked, ar_escalated = False,
      ar_approverRule = None, ar_timeoutMinutes = None\<rparr>"

definition mapRiskToAction :: "guardrail_rule \<Rightarrow> action_result" where
  "mapRiskToAction rule =
     (let escalate = (\<lambda>ty. \<lparr>ar_type = ty, ar_blocked = False, ar_escalated = True,
            ar_approverRule = Option.bind (gr_action rule) approverRule,
            ar_timeoutMinutes = Option.bind (gr_action rule) timeoutMinutes\<rparr>)
      in case gr_riskLevel rule of
           L0 \<Rightarrow> plain_action ''allow'' False
         | L1 \<Rightarrow> plain_action ''audit'' False
         | L2 \<Rightarrow> escalate ''confirm''
         | L3 \<Rightarrow> escalate ''approve''
         | L4 \<Rightarrow> plain_action ''block'' True)"

definition evaluation_of :: "guardrail_rule option \<Rightarrow> guardrail_evaluation" where
  "evaluation_of topRule =
     (case topRule of
        None \<Rightarrow> \<lparr>ev_matched = False, ev_ruleId = None, ev_ruleName = None, ev_riskLevel = L0,
                ev_action = plain_action ''allow'' False\<rparr>
      | Some rule \<Rightarrow> \<lparr>ev_matched = True, ev_ruleId = Some (gr_id rule),
                ev_ruleName = Some (gr_name rule), ev_riskLevel = gr_riskLevel rule,
                ev_action = mapRiskToAction rule\<rparr>)"

type_synonym 'w rule_loader = "string \<Rightarrow> string list option \<Rightarrow> ('w, guardrail_rule list) eff"

definition evaluate ::
    "(string \<Rightarrow> int option) \<Rightarrow> 'w rule_loader \<Rightarrow> string \<Rightarrow> string \<Rightarrow> jobject \<Rightarrow> string list option \<Rightarrow>
     ('w, guardrail_evaluation) eff" where
  "evaluate numberOf loadRules workspaceId toolName toolInput ruleIds =
     bindE (loadRules workspaceId ruleIds) (\<lambda>rules.
     bindE (lift_result (matchRules numberOf (extractOperation toolName toolInput) rules)) (\<lambda>matched.
     ret (evaluation_of (assessRisk matched))))"

section \<open>Rule providers\<close>

definition scoped :: "string list option \<Rightarrow> guardrail_rule \<Rightarrow> bool" where
  "scoped ruleIds rule \<longleftrightarrow>
     (case ruleIds of None \<Rightarrow> True | Some ids \<Rightarrow> length ids = 0 \<or> gr_id rule \<in> set ids)"

definition in_memory_loadRules :: "guardrail_rule list \<Rightarrow> 'w rule_loader" where
  "in_memory_loadRules rules workspaceId ruleIds =
     (let candidates = filter (\<lambda>r. gr_workspaceId r = workspaceId \<and> gr_isActive r) rules;
          kept = (if (case ruleIds of None \<Rightarrow> False | Some ids \<Rightarrow> length ids > 0)
                  then filter (\<lambda>r. gr_id r \<in> set (the ruleIds)) candidates else candidates)
      in ret (sort_key gr_priority kept))"

text \<open>
  The TypeORM provider: \<open>redisGet\<close> and \<open>redisSet\<close> are the optional cache client, \<open>parseRules\<close> and
  \<open>printRules\<close> are \<open>JSON.parse\<close> and \<open>JSON.stringify\<close> on it, \<open>ruleRows\<close> reads the rows of the
  table. A failing cache is not an error: the repository answers.
\<close>

record 'w rule_cache =
  redisGet :: "string \<Rightarrow> ('w, string option) eff"
  redisSet :: "string \<Rightarrow> string \<Rightarrow> nat \<Rightarrow> ('w, unit) eff"
  parseRules :: "string \<Rightarrow> guardrail_rule list option"
  printRules :: "guardrail_rule list \<Rightarrow> string"

definition sort_strings :: "string list \<Rightarrow> string list" where
  "sort_strings xs = foldr (\<lambda>x ys. takeWhile (\<lambda>y. string_less y x) ys @ x # dropWhile (\<lambda>y. string_less y x) ys) xs []"

definition rule_cache_key :: "string \<Rightarrow> string list option \<Rightarrow> string" where
  "rule_cache_key workspaceId ruleIds =
     (let scopeSuffix =
        (case ruleIds of None \<Rightarrow> []
         | Some ids \<Rightarrow> if length ids > 0 then '':agent:'' @ join_comma (sort_strings ids) else [])
      in ''guardrail_rules:'' @ workspaceId @ scopeSuffix)"

definition cached_rules ::
    "'w rule_cache option \<Rightarrow> string \<Rightarrow> ('w, guardrail_rule list option) eff" where
  "cached_rules redis cacheKey =
     (case redis of
        None \<Rightarrow> ret None
      | Some r \<Rightarrow>
          catchE
            (bindE (redisGet r cacheKey) (\<lambda>cached.
               if truthy cached
               then bindE (of_option ''Unexpected token'' (parseRules r (the cached))) (\<lambda>rules. ret (Some rules))
               else ret None))
            (\<lambda>_. ret None))"

definition typeorm_loadRules ::
    "('w \<Rightarrow> guardrail_rule list) \<Rightarrow> 'w rule_cache option \<Rightarrow> nat \<Rightarrow> 'w rule_loader" where
  "typeorm_loadRules ruleRows redis ruleCacheTtl workspaceId ruleIds =
     (let cacheKey = rule_cache_key workspaceId ruleIds
      in bindE (cached_rules redis cacheKey) (\<lambda>hit.
         case hit of
           Some rules \<Rightarrow> ret rules
         | None \<Rightarrow>
             bindE (reads (\<lambda>w. sort_key gr_priority
                (filter (\<lambda>r. gr_workspaceId r = workspaceId \<and> gr_isActive r \<and> scoped ruleIds r)
                   (ruleRows w)))) (\<lambda>rules.
             seqE (case redis of None \<Rightarrow> ret ()
                   | Some r \<Rightarrow> catchE (redisSet r cacheKey (printRules r rules) ruleCacheTtl) (\<lambda>_. ret ()))
               (ret rules))))"

section \<open>Lemmas on matching and assessment\<close>

lemma matchRules_Inr_iff:
  "matchRules num op rules = Inr ms \<longleftrightarrow>
     (\<forall>r\<in>set rules. \<exists>b. matchRule num op r = Inr b)
     \<and> ms = filter (\<lambda>r. matchRule num op r = Inr True) rules"
proof (induction rules arbitrary: ms)
  case (Cons r rules)
  show ?case
  proof (cases "matchRule num op r")
    case (Inr b)
    with Cons.IH show ?thesis
      by (cases b; cases "matchRules num op rules") auto
  qed simp
qed auto

text \<open>A rule without a field condition never throws.\<close>

lemma matchRule_total:
  "(\<And>cond. gr_conditions r = Some cond \<Longrightarrow> c_fieldApiNames cond = None) \<Longrightarrow>
     \<exists>b. matchRule num op r = Inr b"
  by (auto simp: matchRule_def fields_check_def split: option.splits)

lemma matchRule_Inr_True_iff:
  "matchRule num op r = Inr True \<longleftrightarrow>
     (\<exists>cond. gr_conditions r = Some cond \<and>
        (no_keys cond
         \<or> hasExecutableCondition cond
           \<and> \<not> string_mismatch (c_objectApiName cond) (op_objectApiName op)
           \<and> \<not> string_mismatch (c_operation cond) (op_operation op)
           \<and> fields_check (c_fieldApiNames cond) (op_fieldApiNames op) = Inr True
           \<and> threshold_reached num (c_amountThreshold cond) (op_amount op)
           \<and> threshold_reached num (c_batchSize cond) (op_batchSize op)))"
  by (auto simp: matchRule_def split: option.splits sum.splits bool.splits)

text \<open>How the assessor compares: by level, and at equal level by priority, the earlier rule on ties.\<close>

definition at_most :: "guardrail_rule \<Rightarrow> guardrail_rule \<Rightarrow> bool" where
  "at_most x r \<longleftrightarrow> gr_riskLevel x < gr_riskLevel r
     \<or> gr_riskLevel x = gr_riskLevel r \<and> gr_priority r \<le> gr_priority x"

lemma at_most_refl: "at_most r r"
  by (simp add: at_most_def)

lemma at_most_trans: "at_most x y \<Longrightarrow> at_most y z \<Longrightarrow> at_most x z"
  by (auto simp: at_most_def)

lemma higher_risk_upper: "at_most a (higher_risk a b)" "at_most b (higher_risk a b)"
  by (auto simp: higher_risk_def at_most_def Let_def risk_order_defs)

lemma higher_risk_cases: "higher_risk a b = a \<or> higher_risk a b = b"
  by (auto simp: higher_risk_def Let_def)

lemma foldl_higher_risk:
  "foldl higher_risk r rs \<in> insert r (set rs)
   \<and> (\<forall>x\<in>insert r (set rs). at_most x (foldl higher_risk r rs))"
proof (induction rs arbitrary: r)
  case Nil
  then show ?case by (simp add: at_most_refl)
next
  case (Cons y rs)
  have "at_most x (foldl higher_risk (higher_risk r y) rs)" if "at_most x (higher_risk r y)" for x
    using Cons [of "higher_risk r y"] that at_most_trans by blast
  then show ?case
    using Cons [of "higher_risk r y"] higher_risk_upper [of r y] higher_risk_upper(2) [of y r]
      higher_risk_cases [of r y] by auto
qed

lemma assessRisk_SomeD:
  "assessRisk ms = Some r \<Longrightarrow> r \<in> set ms \<and> (\<forall>x\<in>set ms. at_most x r)"
  using foldl_higher_risk by (cases ms) (fastforce simp: assessRisk_def)+

lemma assessRisk_None_iff: "assessRisk ms = None \<longleftrightarrow> ms = []"
  by (simp add: assessRisk_def split: list.splits)

lemma assessRisk_level:
  "assessRisk ms = Some r \<Longrightarrow> gr_riskLevel r = Max (gr_riskLevel ` set ms)"
  using assessRisk_SomeD [of ms r] by (intro Max_eqI [symmetric]) (auto simp: at_most_def)

lemma evaluation_of_simps [simp]:
  "ev_matched (evaluation_of t) \<longleftrightarrow> t \<noteq> None"
  "ev_riskLevel (evaluation_of t) = (case t of None \<Rightarrow> L0 | Some r \<Rightarrow> gr_riskLevel r)"
  "ev_ruleName (evaluation_of t) = map_option gr_name t"
  by (auto simp: evaluation_of_def split: option.splits)

lemma blocked_iff_L4: "ar_blocked (ev_action (evaluation_of t)) \<longleftrightarrow> ev_riskLevel (evaluation_of t) = L4"
  by (auto simp: evaluation_of_def mapRiskToAction_def plain_action_def
      split: option.splits risk_level.splits)

lemma escalated_iff: "ar_escalated (ev_action (evaluation_of t)) \<longleftrightarrow>
    ev_riskLevel (evaluation_of t) = L2 \<or> ev_riskLevel (evaluation_of t) = L3"
  by (auto simp: evaluation_of_def mapRiskToAction_def plain_action_def
      split: option.splits risk_level.splits)

section \<open>The interface of a rule provider\<close>

text \<open>
  What the engine needs from a provider: it answers with active rules of the workspace, within the
  rule scope of the agent. \<open>ok\<close> is the invariant of the provider's own state.
\<close>

definition in_scope :: "string \<Rightarrow> string list option \<Rightarrow> guardrail_rule \<Rightarrow> bool" where
  "in_scope ws ids r \<longleftrightarrow> gr_workspaceId r = ws \<and> gr_isActive r \<and> scoped ids r"

locale rule_provider =
  fixes load :: "'w rule_loader"
    and ok :: "'w \<Rightarrow> bool"
    and known :: "'w \<Rightarrow> guardrail_rule list"
  assumes load_returns: "ok w \<Longrightarrow> \<exists>rs w'. load ws ids w = (Inr rs, w') \<and> ok w'
      \<and> set rs = {r \<in> set (known w). in_scope ws ids r}"
begin

lemma load_in_scope: "ok w \<Longrightarrow> load ws ids w = (Inr rs, w') \<Longrightarrow> r \<in> set rs \<Longrightarrow> in_scope ws ids r"
  using load_returns [of w ws ids] by auto

text \<open>The verdict of the engine over any such provider.\<close>

lemma evaluate_verdict:
  assumes "ok w" "evaluate num load ws tool inp ids w = (Inr ev, w')"
  shows "ok w'"
    and "ev_matched ev \<longleftrightarrow> (\<exists>r\<in>set (known w). in_scope ws ids r
           \<and> matchRule num (extractOperation tool inp) r = Inr True)"
    and "ev_riskLevel ev = Max (insert L0 (gr_riskLevel ` {r \<in> set (known w). in_scope ws ids r
           \<and> matchRule num (extractOperation tool inp) r = Inr True}))"
proof -
  obtain rs where rs: "load ws ids w = (Inr rs, w')" "ok w'"
      "set rs = {r \<in> set (known w). in_scope ws ids r}"
    and ms: "matchRules num (extractOperation tool inp) rs = Inr
        (filter (\<lambda>r. matchRule num (extractOperation tool inp) r = Inr True) rs)"
    and ev: "ev = evaluation_of (assessRisk
        (filter (\<lambda>r. matchRule num (extractOperation tool inp) r = Inr True) rs))"
    using assms(2) load_returns [OF assms(1), of ws ids]
    by (auto simp: evaluate_def eff_Inr_iffs lift_result_apply matchRules_Inr_iff)
  let ?ms = "filter (\<lambda>r. matchRule num (extractOperation tool inp) r = Inr True) rs"
  have set_ms: "set ?ms = {r \<in> set (known w). in_scope ws ids r
      \<and> matchRule num (extractOperation tool inp) r = Inr True}"
    using rs(3) by auto
  show "ok w'" by (rule rs)
  show "ev_matched ev \<longleftrightarrow> (\<exists>r\<in>set (known w). in_scope ws ids r
      \<and> matchRule num (extractOperation tool inp) r = Inr True)"
    using set_ms by (auto simp: ev assessRisk_None_iff filter_empty_conv)
  show "ev_riskLevel ev = Max (insert L0 (gr_riskLevel ` {r \<in> set (known w). in_scope ws ids r
      \<and> matchRule num (extractOperation tool inp) r = Inr True}))"
  proof (cases "assessRisk ?ms")
    case None
    then have "?ms = []" by (simp only: assessRisk_None_iff)
    then have "{r \<in> set (known w). in_scope ws ids r
        \<and> matchRule num (extractOperation tool inp) r = Inr True} = {}"
      using set_ms by (metis set_empty)
    with None show ?thesis by (simp only: ev evaluation_of_simps) simp
  next
    case (Some r)
    have "L0 \<le> x" for x by (simp add: risk_order_defs)
    moreover have "set ?ms \<noteq> {}" using Some assessRisk_SomeD by fastforce
    ultimately have "Max (insert L0 (gr_riskLevel ` set ?ms)) = Max (gr_riskLevel ` set ?ms)"
      by (subst Max_insert) (auto simp: max_def)
    with Some assessRisk_level [OF Some] set_ms show ?thesis
      by (simp only: ev evaluation_of_simps option.case)
  qed
qed

end

lemma in_scope_all: "(case ids of None \<Rightarrow> True | Some xs \<Rightarrow> xs = []) \<Longrightarrow>
    in_scope ws ids = (\<lambda>r. gr_workspaceId r = ws \<and> gr_isActive r)"
  by (auto simp: in_scope_def scoped_def fun_eq_iff split: option.splits)

lemma in_scope_some: "xs \<noteq> [] \<Longrightarrow>
    in_scope ws (Some xs) = (\<lambda>r. gr_id r \<in> set xs \<and> gr_workspaceId r = ws \<and> gr_isActive r)"
  by (auto simp: in_scope_def scoped_def fun_eq_iff)

lemma set_in_memory: "in_memory_loadRules rules ws ids w =
    (Inr (sort_key gr_priority (filter (in_scope ws ids) rules)), w)"
proof (cases ids)
  case None
  then show ?thesis
    using in_scope_all [of ids ws] by (simp add: in_memory_loadRules_def ret_apply)
next
  case (Some xs)
  then show ?thesis
    using in_scope_all [of ids ws] in_scope_some [of xs ws]
    by (cases "xs = []") (auto simp: in_memory_loadRules_def ret_apply filter_filter conj_commute)
qed

interpretation in_memory: rule_provider "in_memory_loadRules rules" "\<lambda>_. True" "\<lambda>_. rules"
  by unfold_locales (auto simp: set_in_memory)

lemma typeorm_no_cache:
  "typeorm_loadRules rows None ttl ws ids w =
     (Inr (sort_key gr_priority (filter (in_scope ws ids) (rows w))), w)"
proof -
  have "(\<lambda>r. gr_workspaceId r = ws \<and> gr_isActive r \<and> scoped ids r) = in_scope ws ids"
    by (simp add: in_scope_def fun_eq_iff)
  then show ?thesis by (simp add: typeorm_loadRules_def cached_rules_def eff_simps)
qed

interpretation typeorm: rule_provider "typeorm_loadRules rows None ttl" "\<lambda>_. True" rows
  by unfold_locales (auto simp: typeorm_no_cache)

section \<open>Properties\<close>

definition sample_rule :: "string \<Rightarrow> risk_level \<Rightarrow> int \<Rightarrow> rule_conditions \<Rightarrow> guardrail_rule" where
  "sample_rule rid level prio cond =
     \<lparr>gr_id = rid, gr_workspaceId = ''ws'', gr_name = rid, gr_description = None, gr_isActive = True,
      gr_priority = prio, gr_conditions = Some cond, gr_riskLevel = level, gr_action = None\<rparr>"

definition on_operation :: "string \<Rightarrow> rule_conditions" where
  "on_operation t = \<lparr>c_objectApiName = None, c_operation = Some t, c_fieldApiNames = None,
     c_amountThreshold = None, c_batchSize = None, c_otherKeys = []\<rparr>"

lemma foldl_higher_risk_first:
  "\<exists>as bs. x # rs = as @ foldl higher_risk x rs # bs
     \<and> (\<forall>y\<in>set as. \<not> at_most (foldl higher_risk x rs) y)"
proof (induction rs arbitrary: x)
  case Nil
  then show ?case by (intro exI [of _ "[]"]) simp
next
  case (Cons z rs)
  let ?h = "foldl higher_risk (higher_risk x z) rs"
  obtain as bs where split: "higher_risk x z # rs = as @ ?h # bs"
    and below: "\<forall>y\<in>set as. \<not> at_most ?h y"
    using Cons [of "higher_risk x z"] by blast
  have up: "at_most (higher_risk x z) ?h" using foldl_higher_risk by blast
  consider (same) "higher_risk x z = x" | (other) "higher_risk x z = z" "higher_risk x z \<noteq> x"
    using higher_risk_cases by blast
  then show ?case
  proof cases
    case same
    show ?thesis
    proof (cases as)
      case Nil
      then have "?h = x" using split same by (metis append_Nil list.inject)
      then have "x # z # rs = [] @ foldl higher_risk x (z # rs) # z # rs" by simp
      then show ?thesis by (metis empty_iff list.set(1))
    next
      case (Cons a as')
      then have a: "a = x" "rs = as' @ ?h # bs" using split same by auto
      have "\<not> at_most ?h z"
        using below a Cons same higher_risk_upper(2) [of z x] at_most_trans by (metis list.set_intros(1))
      then have "x # z # rs = (x # z # as') @ foldl higher_risk x (z # rs) # bs
          \<and> (\<forall>y\<in>set (x # z # as'). \<not> at_most (foldl higher_risk x (z # rs)) y)"
        using a below Cons by simp
      then show ?thesis by blast
    qed
  next
    case other
    then have "\<not> at_most z x"
      by (auto simp: higher_risk_def at_most_def Let_def risk_order_defs split: if_splits)
    then have "\<not> at_most ?h x" using up other at_most_trans by metis
    then have "\<forall>y\<in>set (x # as). \<not> at_most (foldl higher_risk x (z # rs)) y"
      using below by simp
    moreover have "x # z # rs = (x # as) @ foldl higher_risk x (z # rs) # bs"
      unfolding foldl_Cons append_Cons using split unfolding other(1) by (rule arg_cong)
    ultimately show ?thesis by blast
  qed
qed

text \<open>
  The risk assessor decides by the worst rule: among the matched rules it returns one of the
  highest level and, at that level, of the smallest priority number; every rule listed before it is
  strictly below it, so ties go to the earlier rule.
\<close>

theorem assess_risk_worst_rule:
  "assessRisk ms = Some r \<Longrightarrow>
     (\<exists>as bs. ms = as @ r # bs \<and> (\<forall>x\<in>set as. \<not> at_most r x) \<and> (\<forall>x\<in>set ms. at_most x r))"
proof -
  assume r: "assessRisk ms = Some r"
  then obtain x rs where ms: "ms = x # rs" "r = foldl higher_risk x rs"
    by (auto simp: assessRisk_def split: list.splits)
  have "\<forall>x\<in>set ms. at_most x r" using assessRisk_SomeD [OF r] by blast
  then show ?thesis
    using foldl_higher_risk_first [of x rs] unfolding ms by blast
qed

lemma assess_risk_worst_rule_witness:
  "\<exists>as bs. [sample_rule ''a'' L2 5 (on_operation ''x''), sample_rule ''b'' L3 9 (on_operation ''x'')]
      = as @ sample_rule ''b'' L3 9 (on_operation ''x'') # bs
    \<and> (\<forall>x\<in>set as. \<not> at_most (sample_rule ''b'' L3 9 (on_operation ''x'')) x)
    \<and> (\<forall>x\<in>set [sample_rule ''a'' L2 5 (on_operation ''x''), sample_rule ''b'' L3 9 (on_operation ''x'')].
         at_most x (sample_rule ''b'' L3 9 (on_operation ''x'')))"
  by (rule assess_risk_worst_rule) (simp add: assessRisk_def higher_risk_def sample_rule_def Let_def)

text \<open>
  The verdict of the engine over the rule table: evaluation reads and never writes; its level is
  the maximum level of the active rules of the workspace, within the rule scope of the agent, that
  match the operation of the call (L0 when none does); the call is blocked exactly at level L4 and
  escalated exactly at levels L2 and L3.
\<close>

theorem guardrail_verdict:
  assumes "evaluate num (typeorm_loadRules rows None ttl) ws tool inp ids w = (Inr ev, w')"
  shows "w' = w
    \<and> ev_riskLevel ev = Max (insert L0 (gr_riskLevel ` {r \<in> set (rows w).
         gr_workspaceId r = ws \<and> gr_isActive r \<and> scoped ids r
         \<and> matchRule num (extractOperation tool inp) r = Inr True}))
    \<and> (ar_blocked (ev_action ev) \<longleftrightarrow> ev_riskLevel ev = L4)
    \<and> (ar_escalated (ev_action ev) \<longleftrightarrow> ev_riskLevel ev = L2 \<or> ev_riskLevel ev = L3)"
proof -
  obtain t where "ev = evaluation_of t" "w' = w"
    using assms by (auto simp: evaluate_def eff_Inr_iffs lift_result_apply typeorm_no_cache)
  then show ?thesis
    using typeorm.evaluate_verdict(3) [OF TrueI assms]
    by (simp only: blocked_iff_L4 escalated_iff in_scope_def) (simp add: conj_assoc)
qed

lemma guardrail_verdict_witness:
  "fst (evaluate (\<lambda>_. None) (typeorm_loadRules (\<lambda>w. w) None 0) ''ws'' ''send'' [] None
        [sample_rule ''a'' L4 0 (on_operation ''send'')])
     = Inr (evaluation_of (Some (sample_rule ''a'' L4 0 (on_operation ''send''))))
   \<and> ar_blocked (ev_action (evaluation_of (Some (sample_rule ''a'' L4 0 (on_operation ''send'')))))"
proof -
  have run: "evaluate (\<lambda>_. None) (typeorm_loadRules (\<lambda>w. w) None 0) ''ws'' ''send'' [] None
        [sample_rule ''a'' L4 0 (on_operation ''send'')]
     = (Inr (evaluation_of (Some (sample_rule ''a'' L4 0 (on_operation ''send'')))),
        [sample_rule ''a'' L4 0 (on_operation ''send'')])"
    by (simp add: evaluate_def typeorm_no_cache bindE_apply lift_result_apply ret_apply in_scope_def
        scoped_def sample_rule_def on_operation_def matchRule_def no_keys_def hasExecutableCondition_def
        string_mismatch_def extractOperation_def or_json_def fields_check_def threshold_reached_def
        assessRisk_def)
  show ?thesis
    using guardrail_verdict [OF run] run by (simp add: sample_rule_def)
qed

text \<open>
  Tenants are isolated: a verdict for a workspace depends only on the active rules of that
  workspace, so adding, changing or deactivating rules of any other workspace never changes it.
\<close>

theorem guardrail_tenant_isolation:
  "evaluate num (in_memory_loadRules rules) ws tool inp ids =
     evaluate num (in_memory_loadRules (filter (\<lambda>r. gr_workspaceId r = ws \<and> gr_isActive r) rules))
       ws tool inp ids"
proof -
  have "filter (in_scope ws ids) (filter (\<lambda>r. gr_workspaceId r = ws \<and> gr_isActive r) rules)
      = filter (in_scope ws ids) rules"
    by (simp add: filter_filter in_scope_def conj_ac cong: filter_cong)
  then show ?thesis by (simp add: evaluate_def bindE_def set_in_memory fun_eq_iff)
qed

text \<open>
  A failing rule cache fails over to the rule table: when the cache read throws, misses, or
  returns text that does not parse, the provider answers what it answers without a cache, and a
  failing cache write does not change the answer.
\<close>

theorem rule_cache_failover:
  assumes "redisGet r (rule_cache_key ws ids) w = (c, w1)"
    and "\<And>s. c = Inr (Some s) \<Longrightarrow> s = [] \<or> parseRules r s = None"
  shows "fst (typeorm_loadRules rows (Some r) ttl ws ids w)
       = fst (typeorm_loadRules rows None ttl ws ids w1)"
proof -
  have "cached_rules (Some r) (rule_cache_key ws ids) w = (Inr None, w1)"
    using assms(1) assms(2)
    by (cases c) (auto simp: cached_rules_def eff_simps truthy_iff split: option.splits)
  then show ?thesis
    by (auto simp: typeorm_loadRules_def Let_def cached_rules_def [of None] eff_simps
        split: sum.splits prod.splits)
qed

lemma rule_cache_failover_witness:
  "fst (typeorm_loadRules (\<lambda>w. w) (Some \<lparr>redisGet = \<lambda>_. throw ''down'', redisSet = \<lambda>_ _ _. throw ''down'',
       parseRules = \<lambda>_. None, printRules = \<lambda>_. []\<rparr>) 60 ''ws'' None [])
   = fst (typeorm_loadRules (\<lambda>w. w) None 60 ''ws'' None ([] :: guardrail_rule list))"
  by (rule rule_cache_failover [of _ _ _ _ "Inl ''down''"]) (simp_all add: throw_apply)

text \<open>
  The rule providers are interchangeable: over the same rules the in-memory provider and the provider
  over the rule table give every call the same verdict or the same error, without a cache and also
  behind a cache that is down, has no entry or holds text that does not parse.
\<close>

theorem rule_providers_agree:
  assumes "\<And>r. redis = Some r \<Longrightarrow> \<exists>c w1. redisGet r (rule_cache_key ws ids) w = (c, w1) \<and> rows w1 = rows w
      \<and> (\<forall>s. c = Inr (Some s) \<longrightarrow> s = [] \<or> parseRules r s = None)"
  shows "fst (evaluate num (typeorm_loadRules rows redis ttl) ws tool inp ids w)
       = fst (evaluate num (in_memory_loadRules (rows w)) ws tool inp ids w)"
proof -
  have "fst (typeorm_loadRules rows redis ttl ws ids w) = fst (in_memory_loadRules (rows w) ws ids w)"
  proof (cases redis)
    case (Some r)
    then obtain c w1 where get: "redisGet r (rule_cache_key ws ids) w = (c, w1)" "rows w1 = rows w"
      "\<And>s. c = Inr (Some s) \<Longrightarrow> s = [] \<or> parseRules r s = None"
      using assms by blast
    have "fst (typeorm_loadRules rows (Some r) ttl ws ids w) = fst (typeorm_loadRules rows None ttl ws ids w1)"
      using get(1,3) by (rule rule_cache_failover)
    then show ?thesis by (simp add: Some typeorm_no_cache set_in_memory get(2))
  qed (simp add: typeorm_no_cache set_in_memory)
  then show ?thesis
    by (auto simp: evaluate_def bindE_def lift_result_def ret_def split: prod.splits sum.splits)
qed

lemma rule_providers_agree_witness:
  "fst (evaluate (\<lambda>_. None) (typeorm_loadRules (\<lambda>w. w)
        (Some \<lparr>redisGet = \<lambda>_. throw ''down'', redisSet = \<lambda>_ _ _. throw ''down'',
               parseRules = \<lambda>_. None, printRules = \<lambda>_. []\<rparr>) 60) ''ws'' ''send'' [] None
        [sample_rule ''a'' L4 0 (on_operation ''send'')])
   = fst (evaluate (\<lambda>_. None) (in_memory_loadRules [sample_rule ''a'' L4 0 (on_operation ''send'')])
        ''ws'' ''send'' [] None [sample_rule ''a'' L4 0 (on_operation ''send'')])"
  by (rule rule_providers_agree) (auto simp: throw_def)

lemma operation_rule_matches:
  "gr_conditions r = Some (on_operation t) \<Longrightarrow> t \<noteq> [] \<Longrightarrow>
     matchRule num op r = Inr (op_operation op = Some (JStr t))"
  by (auto simp: matchRule_def on_operation_def no_keys_def hasExecutableCondition_def
      string_mismatch_def fields_check_def threshold_reached_def)

text \<open>
  What an operation rule sees is the input's own \<open>operation\<close> property before the name of the
  tool: a rule on the operation \<open>t\<close> matches a call of the tool \<open>t\<close> whose input has no such property,
  and does not match the same call of the same tool once the input carries any other non-empty
  \<open>operation\<close> string.
\<close>

theorem operation_rule_evaded:
  assumes "gr_conditions r = Some (on_operation t)" "t \<noteq> []" "x \<noteq> []" "x \<noteq> t"
    and "map_of inp ''operation'' = None"
  shows "matchRule num (extractOperation t inp) r = Inr True
    \<and> matchRule num (extractOperation t (jset ''operation'' (JStr x) inp)) r = Inr False"
  using assms
  by (simp add: operation_rule_matches extractOperation_def or_json_def map_of_jset)

lemma operation_rule_evaded_witness:
  "matchRule (\<lambda>_. None) (extractOperation ''send_email'' [(''to'', JStr ''a'')])
      (sample_rule ''a'' L3 0 (on_operation ''send_email'')) = Inr True
   \<and> matchRule (\<lambda>_. None)
      (extractOperation ''send_email'' (jset ''operation'' (JStr ''x'') [(''to'', JStr ''a'')]))
      (sample_rule ''a'' L3 0 (on_operation ''send_email'')) = Inr False"
  by (rule operation_rule_evaded) (simp_all add: sample_rule_def)

end
