(* ===== verification/Governor.thy ===== *)
theory Governor
  imports Gov_Prelude
begin

text \<open>
  The governor limits: \<open>governance/packages/governor/src/\<close> (\<open>governor-limit.constants.ts\<close>,
  \<open>governor-limit.exception.ts\<close>, \<open>governor-limit.service.ts\<close>, \<open>governor-limit.types.ts\<close>).

  The \<open>AsyncLocalStorage\<close> gives every asynchronous call chain its own store, so the state of an
  operation is the store its chain sees: \<open>None\<close> outside \<open>runInContext\<close>. The tables are objects
  keyed by strings. A limit read from a merged table is \<open>Some n\<close>, or \<open>None\<close> when the caller's
  partial overrides carry the key with the value \<open>undefined\<close>.
\<close>

section \<open>Limit tables\<close>

type_synonym limit_table = "string \<Rightarrow> int option option"

definition SYNC_GOVERNOR_LIMITS :: "(string \<times> int) list" where
  "SYNC_GOVERNOR_LIMITS =
     [(''maxSoqlQueries'', 100), (''maxQueryRows'', 50000), (''maxDmlStatements'', 150),
      (''maxDmlRows'', 10000), (''maxCpuTime'', 10000), (''maxHeapSize'', 6291456),
      (''maxCallStackDepth'', 16), (''maxFutureCalls'', 50), (''maxCallouts'', 100),
      (''maxCalloutTime'', 120000)]"

definition ASYNC_GOVERNOR_LIMITS :: "(string \<times> int) list" where
  "ASYNC_GOVERNOR_LIMITS =
     [(''maxSoqlQueries'', 200), (''maxQueryRows'', 50000), (''maxDmlStatements'', 150),
      (''maxDmlRows'', 10000), (''maxCpuTime'', 60000), (''maxHeapSize'', 12582912),
      (''maxCallStackDepth'', 16), (''maxFutureCalls'', 50), (''maxCallouts'', 100),
      (''maxCalloutTime'', 120000)]"

definition DEFAULT_GOVERNOR_LIMITS :: "(string \<times> int) list" where
  "DEFAULT_GOVERNOR_LIMITS =
     [(''maxSoqlQueries'', 100), (''maxQueryRows'', 50000), (''maxDmlStatements'', 150),
      (''maxDmlRows'', 10000), (''maxCpuTime'', 10000), (''maxHeapSize'', 6291456),
      (''maxCallStackDepth'', 16), (''maxFutureCalls'', 50), (''maxCallouts'', 100),
      (''maxCalloutTime'', 120000)]"

definition RESOURCE_TO_LIMIT_KEY :: "(string \<times> string) list" where
  "RESOURCE_TO_LIMIT_KEY =
     [(''soqlQueries'', ''maxSoqlQueries''), (''queryRows'', ''maxQueryRows''),
      (''dmlStatements'', ''maxDmlStatements''), (''dmlRows'', ''maxDmlRows''),
      (''cpuTime'', ''maxCpuTime''), (''heapSize'', ''maxHeapSize''),
      (''callStackDepth'', ''maxCallStackDepth''), (''futureCalls'', ''maxFutureCalls''),
      (''callouts'', ''maxCallouts''), (''calloutTime'', ''maxCalloutTime'')]"

datatype governor_mode = Sync | Async

record governor_context_options =
  go_mode :: governor_mode
  go_limits :: "(string \<Rightarrow> int option option) option"
  go_userId :: "string option"
  go_workspaceId :: "string option"

record execution_context =
  counters :: "string \<Rightarrow> int option"
  limits :: limit_table
  gov_userId :: "string option"
  gov_workspaceId :: "string option"
  gov_mode :: governor_mode

type_synonym store = "execution_context option"

section \<open>Errors\<close>

definition GovernorLimitException :: "string \<Rightarrow> int \<Rightarrow> int \<Rightarrow> string" where
  "GovernorLimitException resource currentValue limitValue =
     ''Governor limit exceeded: '' @ resource @ '' ('' @ show_int currentValue @ ''/''
       @ show_int limitValue @ '')''"

definition GovernorLimitContextMissingException :: "string \<Rightarrow> string" where
  "GovernorLimitContextMissingException resource =
     ''Governor limit context missing when checking resource: '' @ resource @ ''. ''
       @ ''Ensure the code path is wrapped by GovernorLimitInterceptor or runInContext().''"

section \<open>Service\<close>

text \<open>\<open>{ ...baseLimits, ...options.limits }\<close>.\<close>

definition merged_limits :: "governor_context_options \<Rightarrow> limit_table" where
  "merged_limits options =
     (let baseLimits = (case go_mode options of Async \<Rightarrow> ASYNC_GOVERNOR_LIMITS
                                              | Sync \<Rightarrow> SYNC_GOVERNOR_LIMITS);
          base = map_option Some \<circ> map_of baseLimits
      in case go_limits options of None \<Rightarrow> base | Some overrides \<Rightarrow> base ++ overrides)"

definition new_context :: "governor_context_options \<Rightarrow> execution_context" where
  "new_context options =
     \<lparr>counters = (\<lambda>_. None), limits = merged_limits options, gov_userId = go_userId options,
      gov_workspaceId = go_workspaceId options, gov_mode = go_mode options\<rparr>"

text \<open>The inner function sees the new store, the caller its own again.\<close>

definition runInContext :: "(store, 'a) eff \<Rightarrow> governor_context_options \<Rightarrow> (store, 'a) eff" where
  "runInContext fn options = (\<lambda>outer. (fst (fn (Some (new_context options))), outer))"

definition getStore :: "string \<Rightarrow> (store, execution_context) eff" where
  "getStore resource =
     bindE (reads id) (of_option (GovernorLimitContextMissingException resource))"

definition counter_of :: "execution_context \<Rightarrow> string \<Rightarrow> int" where
  "counter_of ctx resource = nullish (counters ctx resource) 0"

text \<open>
  \<open>limitKey ? ctx.limits[limitKey] : Infinity\<close>; \<open>None\<close> is a bound nothing exceeds, \<open>Infinity\<close> or
  \<open>undefined\<close>.
\<close>

definition limit_bound :: "execution_context \<Rightarrow> string \<Rightarrow> int option" where
  "limit_bound ctx resource =
     (case map_of RESOURCE_TO_LIMIT_KEY resource of
        None \<Rightarrow> None
      | Some limitKey \<Rightarrow> nullish (limits ctx limitKey) None)"

definition checkAndIncrement :: "string \<Rightarrow> int \<Rightarrow> (store, unit) eff" where
  "checkAndIncrement resource amount =
     bindE (getStore resource) (\<lambda>ctx.
       let current = counter_of ctx resource; limit = limit_bound ctx resource
       in seqE (case limit of None \<Rightarrow> ret ()
                | Some l \<Rightarrow> throw_if (current + amount > l)
                    (GovernorLimitException resource (current + amount) l))
            (modify (\<lambda>_. Some (ctx\<lparr>counters := (counters ctx)(resource \<mapsto> current + amount)\<rparr>))))"

definition getUsage :: "string \<Rightarrow> (store, int) eff" where
  "getUsage resource = bindE (getStore resource) (\<lambda>ctx. ret (counter_of ctx resource))"

text \<open>A resource outside the table has limit 0 here, although the check lets it through.\<close>

definition getLimit :: "string \<Rightarrow> (store, int option) eff" where
  "getLimit resource =
     bindE (getStore resource) (\<lambda>ctx.
       ret (case map_of RESOURCE_TO_LIMIT_KEY resource of
              None \<Rightarrow> Some 0
            | Some limitKey \<Rightarrow> nullish (limits ctx limitKey) None))"

record limits_usage =
  lu_resource :: string
  lu_current :: int
  lu_limit :: "int option"

definition getLimitsUsage :: "(store, limits_usage list) eff" where
  "getLimitsUsage =
     bindE (getStore ''all'') (\<lambda>ctx.
       ret (map (\<lambda>(resource, limitKey).
                  \<lparr>lu_resource = resource, lu_current = counter_of ctx resource,
                   lu_limit = nullish (limits ctx limitKey) None\<rparr>) RESOURCE_TO_LIMIT_KEY))"

definition hasContext :: "(store, bool) eff" where
  "hasContext = reads (\<lambda>s. s \<noteq> None)"

section \<open>The contract of a limiter\<close>

text \<open>
  A limiter keeps one running total per resource. \<open>charge\<close> either accepts an amount, adding it to
  the total of that resource alone, or refuses and changes nothing; it refuses exactly what would
  take the total over the cap, and caps do not move.
\<close>

locale limiter =
  fixes charge :: "'r \<Rightarrow> int \<Rightarrow> 'c \<Rightarrow> 'c option"
    and total :: "'c \<Rightarrow> 'r \<Rightarrow> int"
    and cap :: "'c \<Rightarrow> 'r \<Rightarrow> int option"
  assumes refuse_iff: "charge r n c = None \<longleftrightarrow> (\<exists>l. cap c r = Some l \<and> total c r + n > l)"
    and accept_total: "charge r n c = Some c' \<Longrightarrow> total c' = (total c)(r := total c r + n)"
    and accept_cap: "charge r n c = Some c' \<Longrightarrow> cap c' = cap c"
begin

text \<open>A sequence of charges; a refused one is reported and the sequence goes on.\<close>

fun charges :: "('r \<times> int) list \<Rightarrow> 'c \<Rightarrow> bool list \<times> 'c" where
  "charges [] c = ([], c)"
| "charges ((r, n) # xs) c =
     (case charge r n c of
        None \<Rightarrow> (let (bs, c') = charges xs c in (False # bs, c'))
      | Some d \<Rightarrow> (let (bs, c') = charges xs d in (True # bs, c')))"

fun accepted :: "('r \<times> int) list \<Rightarrow> bool list \<Rightarrow> 'r \<Rightarrow> int" where
  "accepted ((r, n) # xs) (b # bs) q = (if b \<and> r = q then n else 0) + accepted xs bs q"
| "accepted _ _ q = 0"

lemma charges_total: "charges xs c = (bs, c') \<Longrightarrow> total c' q = total c q + accepted xs bs q"
  by (induction xs c arbitrary: bs c' rule: charges.induct)
    (auto simp: Let_def accept_total split: option.splits prod.splits if_splits)

lemma charges_cap: "charges xs c = (bs, c') \<Longrightarrow> cap c' = cap c"
  by (induction xs c arbitrary: bs c' rule: charges.induct)
    (auto simp: Let_def accept_cap split: option.splits prod.splits)

lemma charge_within:
  assumes "charge r n c = Some d" "\<forall>q l. cap c q = Some l \<longrightarrow> total c q \<le> max l b"
  shows "\<forall>q l. cap d q = Some l \<longrightarrow> total d q \<le> max l b"
  using assms refuse_iff [of r n c] by (fastforce simp: accept_total accept_cap)

lemma charges_within:
  "charges xs c = (bs, c') \<Longrightarrow> \<forall>q l. cap c q = Some l \<longrightarrow> total c q \<le> max l b \<Longrightarrow>
     \<forall>q l. cap c' q = Some l \<longrightarrow> total c' q \<le> max l b"
proof (induction xs c arbitrary: bs c' rule: charges.induct)
  case (2 r n xs c)
  show ?case
  proof (cases "charge r n c")
    case None
    with 2 show ?thesis by (auto simp: Let_def split: prod.splits)
  next
    case (Some d)
    with "2.prems" obtain bs' where "charges xs d = (bs', c')"
      by (auto simp: Let_def split: prod.splits)
    with Some "2.IH"(2) charge_within [OF Some "2.prems"(2)] show ?thesis by blast
  qed
qed simp

end

text \<open>The service as a limiter of the context: a throw refuses.\<close>

definition charge_context :: "string \<Rightarrow> int \<Rightarrow> execution_context \<Rightarrow> execution_context option" where
  "charge_context resource amount ctx =
     (case checkAndIncrement resource amount (Some ctx) of
        (Inl _, _) \<Rightarrow> None
      | (Inr _, store') \<Rightarrow> store')"

lemma getStore_apply [eff_simps]:
  "getStore r None = (Inl (GovernorLimitContextMissingException r), None)"
  "getStore r (Some ctx) = (Inr ctx, Some ctx)"
  by (simp_all add: getStore_def eff_simps)

lemma checkAndIncrement_Some:
  "checkAndIncrement r n (Some ctx) =
     (case limit_bound ctx r of
        Some l \<Rightarrow> if counter_of ctx r + n > l
                 then (Inl (GovernorLimitException r (counter_of ctx r + n) l), Some ctx)
                 else (Inr (), Some (ctx\<lparr>counters := (counters ctx)(r \<mapsto> counter_of ctx r + n)\<rparr>))
      | None \<Rightarrow> (Inr (), Some (ctx\<lparr>counters := (counters ctx)(r \<mapsto> counter_of ctx r + n)\<rparr>)))"
  by (simp add: checkAndIncrement_def eff_simps Let_def split: option.split)

lemma charge_context_eq:
  "charge_context r n ctx =
     (if (\<exists>l. limit_bound ctx r = Some l \<and> counter_of ctx r + n > l) then None
      else Some (ctx\<lparr>counters := (counters ctx)(r \<mapsto> counter_of ctx r + n)\<rparr>))"
  by (auto simp: charge_context_def checkAndIncrement_Some split: option.splits)

lemma counter_of_update [simp]:
  "counter_of (ctx\<lparr>counters := (counters ctx)(r \<mapsto> n)\<rparr>) = (counter_of ctx)(r := n)"
  by (auto simp: counter_of_def fun_eq_iff)

lemma limit_bound_update [simp]: "limit_bound (ctx\<lparr>counters := m\<rparr>) = limit_bound ctx"
  by (auto simp: limit_bound_def fun_eq_iff split: option.splits)

interpretation gov: limiter charge_context counter_of limit_bound
  by unfold_locales (auto simp: charge_context_eq split: if_splits)

section \<open>Properties\<close>

text \<open>A sequence of checks in one context, each thrown error caught by the caller.\<close>

fun attempts :: "(string \<times> int) list \<Rightarrow> (store, bool list) eff" where
  "attempts [] = ret []"
| "attempts ((r, n) # xs) =
     bindE (catchE (seqE (checkAndIncrement r n) (ret True)) (\<lambda>_. ret False)) (\<lambda>b.
     bindE (attempts xs) (\<lambda>bs. ret (b # bs)))"

fun accepted_sum :: "(string \<times> int) list \<Rightarrow> bool list \<Rightarrow> string \<Rightarrow> int" where
  "accepted_sum ((r, n) # xs) (b # bs) q = (if b \<and> r = q then n else 0) + accepted_sum xs bs q"
| "accepted_sum _ _ q = 0"

lemma accepted_sum_eq: "gov.accepted xs bs q = accepted_sum xs bs q"
  by (induction xs bs q rule: gov.accepted.induct) auto

lemma check_catch:
  "catchE (seqE (checkAndIncrement r n) (ret True)) (\<lambda>_. ret False) (Some ctx) =
     (case charge_context r n ctx of None \<Rightarrow> (Inr False, Some ctx) | Some d \<Rightarrow> (Inr True, Some d))"
  by (auto simp: eff_simps checkAndIncrement_Some charge_context_eq split: option.splits)

lemma attempts_charges:
  "attempts xs (Some ctx) = (let (bs, c') = gov.charges xs ctx in (Inr bs, Some c'))"
  by (induction xs ctx rule: gov.charges.induct)
    (auto simp: ret_apply bindE_apply check_catch Let_def split: option.splits prod.splits)

lemma counter_new [simp]: "counter_of (new_context opts) q = 0"
  by (simp add: counter_of_def new_context_def)

lemma charges_new:
  assumes "gov.charges xs (new_context opts) = (bs, c')"
  shows "counter_of c' q = accepted_sum xs bs q"
    and "limit_bound c' = limit_bound (new_context opts)"
    and "limit_bound (new_context opts) q = Some l \<Longrightarrow> counter_of c' q \<le> max l 0"
proof -
  show "counter_of c' q = accepted_sum xs bs q"
    using gov.charges_total [OF assms, of q] by (simp add: accepted_sum_eq)
  show "limit_bound c' = limit_bound (new_context opts)" by (rule gov.charges_cap [OF assms])
  then show "limit_bound (new_context opts) q = Some l \<Longrightarrow> counter_of c' q \<le> max l 0"
    using gov.charges_within [OF assms, of 0] by simp
qed

lemma distinct_resources: "distinct (map fst RESOURCE_TO_LIMIT_KEY)"
  by code_simp

lemma usage_entry:
  "(r, k) \<in> set RESOURCE_TO_LIMIT_KEY \<Longrightarrow> nullish (limits ctx k) None = limit_bound ctx r"
  using map_of_is_SomeI [OF distinct_resources] by (simp add: limit_bound_def)

lemma getLimitsUsage_Some:
  "getLimitsUsage (Some ctx) =
     (Inr (map (\<lambda>(r, k). \<lparr>lu_resource = r, lu_current = counter_of ctx r,
                          lu_limit = limit_bound ctx r\<rparr>) RESOURCE_TO_LIMIT_KEY), Some ctx)"
  by (auto simp: getLimitsUsage_def eff_simps usage_entry)

text \<open>
  A governor context meters exactly what it accepted and never goes over a limit: after any
  sequence of checks in a fresh context, with refused ones caught and the work going on, the report
  of \<open>getLimitsUsage\<close> lists for each of the ten resources the sum of the accepted amounts, and that
  sum is at most the limit of the context (a limit below zero leaves zero).
\<close>

theorem governor_usage_within_limits:
  "\<exists>bs us. runInContext (bindE (attempts xs) (\<lambda>bs. bindE getLimitsUsage (\<lambda>us. ret (bs, us)))) opts outer
       = (Inr (bs, us), outer)
     \<and> map lu_resource us = map fst RESOURCE_TO_LIMIT_KEY
     \<and> list_all (\<lambda>u. lu_current u = accepted_sum xs bs (lu_resource u)
          \<and> lu_limit u = limit_bound (new_context opts) (lu_resource u)
          \<and> (case lu_limit u of None \<Rightarrow> True | Some l \<Rightarrow> lu_current u \<le> max l 0)) us"
proof -
  obtain bs c' where run: "gov.charges xs (new_context opts) = (bs, c')" by fastforce
  let ?us = "map (\<lambda>(r, k). \<lparr>lu_resource = r, lu_current = counter_of c' r,
      lu_limit = limit_bound c' r\<rparr>) RESOURCE_TO_LIMIT_KEY"
  have "runInContext (bindE (attempts xs) (\<lambda>bs. bindE getLimitsUsage (\<lambda>us. ret (bs, us)))) opts outer
      = (Inr (bs, ?us), outer)"
    by (simp add: runInContext_def bindE_apply ret_apply attempts_charges run getLimitsUsage_Some)
  moreover have "map lu_resource ?us = map fst RESOURCE_TO_LIMIT_KEY" by auto
  moreover have "list_all (\<lambda>u. lu_current u = accepted_sum xs bs (lu_resource u)
          \<and> lu_limit u = limit_bound (new_context opts) (lu_resource u)
          \<and> (case lu_limit u of None \<Rightarrow> True | Some l \<Rightarrow> lu_current u \<le> max l 0)) ?us"
    using charges_new [OF run] by (auto simp: list_all_iff split: option.splits)
  ultimately show ?thesis by blast
qed

text \<open>
  A check either counts or leaves no trace: with the resource at \<open>c\<close> of its limit \<open>l\<close>, an amount
  that fits sets the counter of that resource alone to \<open>c + n\<close>, an amount that does not fit throws
  with the attempted total and the limit and changes nothing, and outside a context it throws.
\<close>

theorem check_and_increment_outcomes:
  "checkAndIncrement r n None = (Inl (GovernorLimitContextMissingException r), None)
   \<and> checkAndIncrement r n (Some ctx) =
      (if (case limit_bound ctx r of None \<Rightarrow> True | Some l \<Rightarrow> counter_of ctx r + n \<le> l)
       then (Inr (), Some (ctx\<lparr>counters := (counters ctx)(r \<mapsto> counter_of ctx r + n)\<rparr>))
       else (Inl (GovernorLimitException r (counter_of ctx r + n) (the (limit_bound ctx r))), Some ctx))"
proof -
  have "checkAndIncrement r n None = (Inl (GovernorLimitContextMissingException r), None)"
    by (simp add: checkAndIncrement_def eff_simps)
  then show ?thesis by (auto simp: checkAndIncrement_Some split: option.split)
qed

text \<open>
  The limits of the default contexts: the merged table of a context without overrides gives
  each resource the value of its mode's table; an override replaces one limit and leaves the
  others; an override that is present but \<open>undefined\<close> removes the limit of that resource.
\<close>

theorem limit_overrides:
  "limit_bound (new_context \<lparr>go_mode = m, go_limits = None, go_userId = u, go_workspaceId = ws\<rparr>) r
     = Option.bind (map_of RESOURCE_TO_LIMIT_KEY r)
         (map_of (case m of Async \<Rightarrow> ASYNC_GOVERNOR_LIMITS | Sync \<Rightarrow> SYNC_GOVERNOR_LIMITS))
   \<and> limit_bound (new_context \<lparr>go_mode = m, go_limits = Some [k \<mapsto> v], go_userId = u,
         go_workspaceId = ws\<rparr>) r
     = (if map_of RESOURCE_TO_LIMIT_KEY r = Some k then v
        else limit_bound (new_context \<lparr>go_mode = m, go_limits = None, go_userId = u,
               go_workspaceId = ws\<rparr>) r)"
  by (auto simp: limit_bound_def new_context_def merged_limits_def Let_def nullish_def
      split: option.splits governor_mode.splits)

end
