(* ===== verification/Canonical.thy ===== *)
theory Canonical
  imports Gov_Prelude "HOL-Library.Word" "HOL-Library.List_Lexorder" "HOL-Library.Multiset"
begin

text \<open>
  Canonical JSON and its digests: \<open>governance/packages/audit-chain/src/canonical.ts\<close>.

  Strings are sequences of 16-bit code units, as JavaScript has them. Numbers are the integers that
  \<open>JSON.stringify\<close> prints without an exponent (below \<open>10 ^ 21\<close> in absolute value), negative zero and
  the non-finite ones. An object lists its own properties in insertion order, each key once; a
  property may be present with the value \<open>undefined\<close>. The SHA-256 digest is an argument.
\<close>

section \<open>Values\<close>

type_synonym code_units = "16 word list"

datatype js_number = Finite int | NegativeZero | NonFinite

datatype jval =
    VNull
  | VBool bool
  | VNumber js_number
  | VString code_units
  | VArray "jval list"
  | VObject "(code_units \<times> jval option) list"

section \<open>Serialisation\<close>

definition HEX :: string where
  "HEX = ''0123456789abcdef''"

text \<open>\<open>HEX[(n >> 12) & 0xf] + HEX[(n >> 8) & 0xf] + HEX[(n >> 4) & 0xf] + HEX[n & 0xf]\<close>.\<close>

definition hex4 :: "nat \<Rightarrow> string" where
  "hex4 n = [HEX ! (n div 4096 mod 16), HEX ! (n div 256 mod 16), HEX ! (n div 16 mod 16), HEX ! (n mod 16)]"

text \<open>
  One code unit. The source's last branch, for a unit of \<open>0x10000\<close> or more, is never taken:
  \<open>charCodeAt\<close> returns 16 bits, so a surrogate pair is written as two escapes.
\<close>

definition escape_unit :: "16 word \<Rightarrow> string" where
  "escape_unit u =
     (let c = unat u in
      if c = 34 then [CHR 0x5C, CHR 0x22]
      else if c = 92 then [CHR 0x5C, CHR 0x5C]
      else if 32 \<le> c \<and> c < 127 then [char_of c]
      else if c = 8 then [CHR 0x5C, CHR ''b'']
      else if c = 9 then [CHR 0x5C, CHR ''t'']
      else if c = 10 then [CHR 0x5C, CHR ''n'']
      else if c = 12 then [CHR 0x5C, CHR ''f'']
      else if c = 13 then [CHR 0x5C, CHR ''r'']
      else [CHR 0x5C, CHR ''u''] @ hex4 c)"

definition serializeString :: "code_units \<Rightarrow> string" where
  "serializeString s = CHR 0x22 # concat (map escape_unit s) @ [CHR 0x22]"

definition serializeNumber :: "js_number \<Rightarrow> string result" where
  "serializeNumber n =
     (case n of
        NonFinite \<Rightarrow> Inl ''canonicalJsonString: non-finite number is not JSON''
      | NegativeZero \<Rightarrow> Inr ''0''
      | Finite i \<Rightarrow> Inr (show_int i))"

text \<open>Collecting results in order, the first error wins.\<close>

fun collect :: "'a result list \<Rightarrow> 'a list result" where
  "collect [] = Inr []"
| "collect (Inl e # rs) = Inl e"
| "collect (Inr a # rs) = (case collect rs of Inl e \<Rightarrow> Inl e | Inr as \<Rightarrow> Inr (a # as))"

definition braced :: "char \<Rightarrow> char \<Rightarrow> string list result \<Rightarrow> string result" where
  "braced a b parts = (case parts of Inl e \<Rightarrow> Inl e | Inr ss \<Rightarrow> Inr (a # join_comma ss @ [b]))"

definition defined_members :: "(code_units \<times> jval option) list \<Rightarrow> (code_units \<times> jval) list" where
  "defined_members ps = concat (map (\<lambda>(k, v). case v of None \<Rightarrow> [] | Some x \<Rightarrow> [(k, x)]) ps)"

lemma set_defined_members: "(k, v) \<in> set (defined_members ps) \<longleftrightarrow> (k, Some v) \<in> set ps"
  by (force simp: defined_members_def split: option.splits)

lemma member_size: "(k, Some v) \<in> set ps \<Longrightarrow>
    size v < Suc (size_list (size_prod (\<lambda>_. 0) (size_option size)) ps)"
  by (induction ps) auto

function canonicalJsonString :: "jval \<Rightarrow> string result" where
  "canonicalJsonString VNull = Inr ''null''"
| "canonicalJsonString (VBool b) = Inr (if b then ''true'' else ''false'')"
| "canonicalJsonString (VNumber n) = serializeNumber n"
| "canonicalJsonString (VString s) = Inr (serializeString s)"
| "canonicalJsonString (VArray vs) =
     braced (CHR ''['') (CHR '']'') (collect (map canonicalJsonString vs))"
| "canonicalJsonString (VObject ps) =
     braced (CHR ''{'') (CHR ''}'')
       (collect (map (\<lambda>p. case canonicalJsonString (snd p) of
                            Inl e \<Rightarrow> Inl e
                          | Inr t \<Rightarrow> Inr (serializeString (fst p) @ CHR '':'' # t))
                  (defined_members (sort_key fst ps))))"
  by pat_completeness auto

termination
proof (relation "measure size", goal_cases)
  case (2 vs v)
  then show ?case by (induction vs) auto
next
  case (3 ps p)
  then have "(fst p, Some (snd p)) \<in> set ps"
    using set_defined_members [of "fst p" "snd p"] by simp
  then show ?case using member_size by simp
qed simp

definition canonicalJsonDigest :: "(string \<Rightarrow> string) \<Rightarrow> jval \<Rightarrow> string result" where
  "canonicalJsonDigest sha256Hex v =
     (case canonicalJsonString v of Inl e \<Rightarrow> Inl e | Inr s \<Rightarrow> Inr (''sha256:'' @ sha256Hex s))"

text \<open>The values of the other components, whose strings stay below 256, are such values.\<close>

definition units_of :: "string \<Rightarrow> code_units" where
  "units_of s = map (\<lambda>c. of_nat (of_char c)) s"

fun jval_of :: "json \<Rightarrow> jval" where
  "jval_of JNull = VNull"
| "jval_of (JBool b) = VBool b"
| "jval_of (JNum n) = VNumber (Finite n)"
| "jval_of (JStr s) = VString (units_of s)"
| "jval_of (JArr vs) = VArray (map jval_of vs)"
| "jval_of (JObj ps) = VObject (map (\<lambda>(k, v). (units_of k, Some (jval_of v))) ps)"

section \<open>Reading an escaped string back\<close>

definition hex_value :: "char \<Rightarrow> nat" where
  "hex_value c = (let n = of_char c in if n < 58 then n - 48 else n - 87)"

text \<open>One unit off the front of an escaped string.\<close>

fun unescape :: "string \<Rightarrow> (nat \<times> string) option" where
  "unescape [] = None"
| "unescape (c # s) =
     (if c \<noteq> CHR 0x5C then (if c = CHR 0x22 then None else Some (of_char c, s))
      else case s of
        [] \<Rightarrow> None
      | e # s1 \<Rightarrow>
          if e = CHR 0x22 then Some (34, s1)
          else if e = CHR 0x5C then Some (92, s1)
          else if e = CHR ''b'' then Some (8, s1)
          else if e = CHR ''t'' then Some (9, s1)
          else if e = CHR ''n'' then Some (10, s1)
          else if e = CHR ''f'' then Some (12, s1)
          else if e = CHR ''r'' then Some (13, s1)
          else (case s1 of
                  p # q # r # t # s2 \<Rightarrow>
                    Some (4096 * hex_value p + 256 * hex_value q + 16 * hex_value r + hex_value t, s2)
                | _ \<Rightarrow> None))"

lemma hex_value_digits: "\<forall>k\<in>set [0..<16]. hex_value (HEX ! k) = k"
  by code_simp

lemma hex_value_HEX: "k < 16 \<Longrightarrow> hex_value (HEX ! k) = k"
  using hex_value_digits by simp

lemma digits_recompose: "n = 16 * m + a \<Longrightarrow> m = 16 * k + b \<Longrightarrow> k = 16 * d + c \<Longrightarrow>
    4096 * d + 256 * c + 16 * b + a = (n::nat)"
  by simp

lemma hex_digits_nat: "n < 65536 \<Longrightarrow>
    4096 * (n div 4096 mod 16) + 256 * (n div 256 mod 16) + 16 * (n div 16 mod 16) + n mod 16 = (n::nat)"
proof (rule digits_recompose)
  assume "n < 65536"
  then have "n div 4096 mod 16 = n div 4096" by simp
  also have "\<dots> = n div 256 div 16" by (simp add: div_mult2_eq [symmetric])
  finally show "n div 256 = 16 * (n div 4096 mod 16) + n div 256 mod 16" by simp
  have "n div 256 = n div 16 div 16" by (simp add: div_mult2_eq [symmetric])
  then show "n div 16 = 16 * (n div 256) + n div 16 mod 16" by simp
qed simp

lemma unescape_printable:
  "32 \<le> n \<Longrightarrow> n < 127 \<Longrightarrow> n \<noteq> 34 \<Longrightarrow> n \<noteq> 92 \<Longrightarrow> unescape (char_of n # x) = Some (n, x)"
proof -
  assume n: "32 \<le> n" "n < 127" "n \<noteq> 34" "n \<noteq> 92"
  have code: "of_char (char_of n :: char) = n" using n by (simp add: of_char_of)
  have "(of_char (char_of n :: char) :: nat) \<noteq> of_char (CHR 0x5C)"
    "(of_char (char_of n :: char) :: nat) \<noteq> of_char (CHR 0x22)"
    unfolding code using n by simp_all
  then have "char_of n \<noteq> CHR 0x5C" "char_of n \<noteq> CHR 0x22" by metis+
  then show ?thesis using code by simp
qed

lemma unescape_escape: "unescape (escape_unit u @ x) = Some (unat u, x)"
proof -
  have "unat u < 2 ^ LENGTH(16)" by (rule unsigned_less)
  then have lt: "unat u < 65536" by simp
  consider (printable) "32 \<le> unat u" "unat u < 127" "unat u \<noteq> 34" "unat u \<noteq> 92"
    | (short) "unat u \<in> {34, 92, 8, 9, 10, 12, 13}"
    | (hex) "unat u \<notin> {34, 92, 8, 9, 10, 12, 13}" "\<not> (32 \<le> unat u \<and> unat u < 127)"
    by auto
  then show ?thesis
  proof cases
    case printable
    then show ?thesis using unescape_printable by (simp add: escape_unit_def)
  next
    case short
    then show ?thesis by (auto simp: escape_unit_def)
  next
    case hex
    then have "escape_unit u = [CHR 0x5C, CHR ''u''] @ hex4 (unat u)"
      by (auto simp: escape_unit_def)
    then show ?thesis using lt hex_digits_nat [OF lt] by (simp add: hex4_def hex_value_HEX)
  qed
qed

lemma unescape_quote: "unescape (CHR 0x22 # x) = None"
  by simp

lemma units_unambiguous:
  "concat (map escape_unit us) @ CHR 0x22 # x = concat (map escape_unit vs) @ CHR 0x22 # y \<Longrightarrow>
     us = vs \<and> x = y"
proof (induction us arbitrary: vs)
  case Nil
  show ?case
  proof (cases vs)
    case (Cons v vs')
    with Nil have "unescape (CHR 0x22 # x) = Some (unat v, concat (map escape_unit vs') @ CHR 0x22 # y)"
      using unescape_escape by (metis append_Nil append_assoc concat.simps list.map)
    then show ?thesis by simp
  qed (use Nil in simp)
next
  case (Cons u us)
  let ?rest = "\<lambda>ws z. concat (map escape_unit ws) @ CHR 0x22 # z"
  have eq: "escape_unit u @ ?rest us x = ?rest vs y" using Cons.prems by simp
  show ?case
  proof (cases vs)
    case Nil
    then have "unescape (escape_unit u @ ?rest us x) = None" using eq by simp
    then show ?thesis by (simp add: unescape_escape)
  next
    case (Cons v vs')
    with eq have "unescape (escape_unit u @ ?rest us x) = unescape (escape_unit v @ ?rest vs' y)"
      by simp
    then have "unat u = unat v" "?rest us x = ?rest vs' y" by (simp_all add: unescape_escape)
    then have "u = v" "?rest us x = ?rest vs' y" by (simp_all add: word_eq_iff_unsigned [where ?'a = nat])
    then show ?thesis using Cons.IH [of vs'] Cons by simp
  qed
qed

lemma serializeString_unambiguous:
  "serializeString us @ x = serializeString vs @ y \<Longrightarrow> us = vs \<and> x = y"
  using units_unambiguous [of us x vs y] by (simp add: serializeString_def)

section \<open>Unambiguous values\<close>

definition closer :: "char \<Rightarrow> bool" where
  "closer c \<longleftrightarrow> c = CHR '','' \<or> c = CHR '']'' \<or> c = CHR ''}''"

definition delimited :: "string \<Rightarrow> bool" where
  "delimited x \<longleftrightarrow> (case x of [] \<Rightarrow> True | c # _ \<Rightarrow> closer c)"

text \<open>
  What a canonical text determines: the value with object members sorted by key, undefined members
  gone and negative zero turned into zero.
\<close>

function norm :: "jval \<Rightarrow> jval" where
  "norm VNull = VNull"
| "norm (VBool b) = VBool b"
| "norm (VNumber n) = VNumber (case n of NegativeZero \<Rightarrow> Finite 0 | _ \<Rightarrow> n)"
| "norm (VString s) = VString s"
| "norm (VArray vs) = VArray (map norm vs)"
| "norm (VObject ps) = VObject (map (\<lambda>p. (fst p, Some (norm (snd p)))) (defined_members (sort_key fst ps)))"
  by pat_completeness auto

termination
proof (relation "measure size", goal_cases)
  case (2 vs v)
  then show ?case by (induction vs) auto
next
  case (3 ps p)
  then have "(fst p, Some (snd p)) \<in> set ps"
    using set_defined_members [of "fst p" "snd p"] by simp
  then show ?case using member_size by simp
qed simp

text \<open>
  Reading off a comma-separated sequence: \<open>prints a s\<close> says that \<open>a\<close> is printed as \<open>s\<close>, and a printed
  item followed by a delimiter determines the item and the rest.
\<close>

definition determines :: "('a \<Rightarrow> string \<Rightarrow> bool) \<Rightarrow> ('a \<Rightarrow> 'b) \<Rightarrow> 'a \<Rightarrow> bool" where
  "determines prints f a \<longleftrightarrow>
     (\<forall>s b t x y. prints a s \<longrightarrow> prints b t \<longrightarrow> s @ x = t @ y \<longrightarrow> delimited x \<longrightarrow> delimited y \<longrightarrow>
        f a = f b \<and> x = y)"

definition tail_items :: "string list \<Rightarrow> string" where
  "tail_items ss = concat (map (\<lambda>z. CHR '','' # z) ss)"

lemma tail_items_simps [simp]:
  "tail_items [] = []" "tail_items (s # ss) = CHR '','' # s @ tail_items ss"
  by (simp_all add: tail_items_def)

lemma join_comma_Cons: "join_comma (s # ss) = s @ tail_items ss"
  by (simp add: join_comma_def tail_items_def)

lemma join_comma_Nil [simp]: "join_comma [] = []"
  by (simp add: join_comma_def)

lemma delimited_tail: "closer c \<Longrightarrow> delimited (tail_items ss @ c # x)"
  by (cases ss) (simp_all add: delimited_def closer_def)

lemma tail_items_determine:
  assumes "closer c" "c \<noteq> CHR '',''"
  shows "list_all2 prints as ss \<Longrightarrow> list_all2 prints bs ts \<Longrightarrow> \<forall>a\<in>set as. determines prints f a \<Longrightarrow>
    tail_items ss @ c # x = tail_items ts @ c # y \<Longrightarrow> map f as = map f bs \<and> x = y"
proof (induction as ss arbitrary: bs ts rule: list_all2_induct)
  case Nil
  then show ?case using assms by (cases ts) auto
next
  case (Cons a as s ss)
  show ?case
  proof (cases ts)
    case Nil
    then show ?thesis using Cons.prems assms by auto
  next
    case (Cons t ts')
    then obtain b bs' where bs: "bs = b # bs'" "prints b t" "list_all2 prints bs' ts'"
      using Cons.prems by (auto simp: list_all2_Cons2)
    have "s @ tail_items ss @ c # x = t @ tail_items ts' @ c # y"
      using Cons.prems(3) Cons by simp
    then have "f a = f b" and rest: "tail_items ss @ c # x = tail_items ts' @ c # y"
      using Cons.prems(2) \<open>prints a s\<close> bs(2) delimited_tail [OF assms(1)]
      unfolding determines_def by (metis list.set_intros(1))+
    then show ?thesis using Cons.IH [OF bs(3) _ rest] Cons.prems(2) bs(1) by simp
  qed
qed

lemma joined_determine:
  assumes "closer c" "c \<noteq> CHR '',''"
    and "\<And>b t. prints b t \<Longrightarrow> t \<noteq> [] \<and> \<not> closer (hd t)"
    and "list_all2 prints as ss" "list_all2 prints bs ts" "\<forall>a\<in>set as. determines prints f a"
    and eq: "join_comma ss @ c # x = join_comma ts @ c # y"
  shows "map f as = map f bs \<and> x = y"
proof (cases ss; cases ts)
  fix t ts' assume l: "ss = []" "ts = t # ts'"
  then obtain b bs' where "bs = b # bs'" "prints b t" using assms(5) by (auto simp: list_all2_Cons2)
  then show ?thesis using assms(1) assms(3) [of b t] eq l by (cases t) (auto simp: join_comma_Cons)
next
  fix s ss' assume l: "ts = []" "ss = s # ss'"
  then obtain a as' where "as = a # as'" "prints a s" using assms(4) by (auto simp: list_all2_Cons2)
  then show ?thesis using assms(1) assms(3) [of a s] eq l by (cases s) (auto simp: join_comma_Cons)
next
  fix s ss' t ts' assume l: "ss = s # ss'" "ts = t # ts'"
  then show ?thesis
    using tail_items_determine [OF assms(1,2,4,5,6), of x y] eq by (simp add: join_comma_Cons)
qed (use assms in auto)

lemma collect_Inr_iff: "collect (map f xs) = Inr ss \<longleftrightarrow> list_all2 (\<lambda>a s. f a = Inr s) xs ss"
proof (induction xs arbitrary: ss)
  case (Cons a xs)
  show ?case
    by (cases "f a"; cases "collect (map f xs)") (auto simp: list_all2_Cons1 Cons.IH [symmetric])
qed auto

text \<open>The first character of a text tells the kind of the value.\<close>

definition number_char :: "char \<Rightarrow> bool" where
  "number_char c \<longleftrightarrow> is_digit c \<or> c = CHR ''-''"

definition kind_char :: "jval \<Rightarrow> char \<Rightarrow> bool" where
  "kind_char v c \<longleftrightarrow>
     (case v of
        VNull \<Rightarrow> c = CHR ''n''
      | VBool b \<Rightarrow> c = (if b then CHR ''t'' else CHR ''f'')
      | VNumber _ \<Rightarrow> number_char c
      | VString _ \<Rightarrow> c = CHR 0x22
      | VArray _ \<Rightarrow> c = CHR ''[''
      | VObject _ \<Rightarrow> c = CHR ''{'')"

lemma show_int_chars: "c \<in> set (show_int i) \<Longrightarrow> number_char c"
  using show_nat_digits by (auto simp: show_int_def number_char_def split: if_splits)

lemma show_int_not_Nil [simp]: "show_int i \<noteq> []"
  by (simp add: show_int_def)

lemma show_int_0: "show_int 0 = ''0''"
  by code_simp

lemma serializeNumber_Inr:
  "serializeNumber n = Inr s \<Longrightarrow> \<exists>i. s = show_int i \<and> norm (VNumber n) = VNumber (Finite i)"
  using show_int_0 by (cases n) (auto simp: serializeNumber_def)

lemma kind_of_text: "canonicalJsonString v = Inr s \<Longrightarrow> s \<noteq> [] \<and> kind_char v (hd s)"
proof (cases v)
  case (VNumber n)
  assume "canonicalJsonString v = Inr s"
  with VNumber obtain i where "s = show_int i" using serializeNumber_Inr [of n s] by auto
  moreover have "number_char (hd (show_int i))" using show_int_chars [OF hd_in_set [OF show_int_not_Nil]] .
  ultimately show ?thesis using VNumber by (simp add: kind_char_def)
qed (auto simp: kind_char_def serializeString_def braced_def split: sum.splits)

lemma not_closer_kind: "kind_char v c \<Longrightarrow> \<not> closer c"
  by (auto simp: kind_char_def closer_def number_char_def is_digit_def split: jval.splits)

lemma not_closer_text: "canonicalJsonString v = Inr s \<Longrightarrow> s \<noteq> [] \<and> \<not> closer (hd s)"
  using kind_of_text not_closer_kind by blast

lemma same_kind:
  assumes "kind_char v c" "kind_char w c"
  shows "case v of VNull \<Rightarrow> w = VNull | VBool b \<Rightarrow> w = VBool b | VNumber _ \<Rightarrow> (\<exists>n. w = VNumber n)
    | VString _ \<Rightarrow> (\<exists>t. w = VString t) | VArray _ \<Rightarrow> (\<exists>ws. w = VArray ws)
    | VObject _ \<Rightarrow> (\<exists>qs. w = VObject qs)"
  using assms
  by (cases v; cases w) (auto simp: kind_char_def number_char_def is_digit_def split: if_splits)

lemma number_unambiguous:
  assumes "show_int i @ x = show_int j @ y" "delimited x" "delimited y"
  shows "i = j \<and> x = y"
proof -
  have stop: "takeWhile number_char (show_int k @ z) = show_int k" if "delimited z" for k z
    using that show_int_chars [of _ k]
    by (cases z) (auto simp: delimited_def closer_def number_char_def is_digit_def)
  have "show_int i = show_int j" using stop [OF assms(2)] stop [OF assms(3)] assms(1) by metis
  then show ?thesis using assms(1) by simp
qed

definition prints_member :: "code_units \<times> jval \<Rightarrow> string \<Rightarrow> bool" where
  "prints_member p s \<longleftrightarrow> (case canonicalJsonString (snd p) of
       Inl e \<Rightarrow> Inl e | Inr t \<Rightarrow> Inr (serializeString (fst p) @ CHR '':'' # t)) = Inr s"

lemma prints_member_iff: "prints_member p s \<longleftrightarrow>
    (\<exists>t. canonicalJsonString (snd p) = Inr t \<and> s = serializeString (fst p) @ CHR '':'' # t)"
  by (auto simp: prints_member_def split: sum.splits)

lemma collect_members:
  "collect (map (\<lambda>p. case canonicalJsonString (snd p) of
       Inl e \<Rightarrow> Inl e | Inr t \<Rightarrow> Inr (serializeString (fst p) @ CHR '':'' # t)) ms) = Inr ss
   \<longleftrightarrow> list_all2 prints_member ms ss"
  unfolding collect_Inr_iff prints_member_def [abs_def] ..

abbreviation prints_value :: "jval \<Rightarrow> string \<Rightarrow> bool" where
  "prints_value v s \<equiv> canonicalJsonString v = Inr s"

lemma member_determines:
  assumes "determines prints_value norm (snd p)"
  shows "determines prints_member (\<lambda>p. (fst p, Some (norm (snd p)))) p"
proof (unfold determines_def, intro allI impI)
  fix s q t x y
  assume p: "prints_member p s" and q: "prints_member q t"
    and eq: "s @ x = t @ y" and d: "delimited x" "delimited y"
  obtain sv where sv: "prints_value (snd p) sv" "s = serializeString (fst p) @ CHR '':'' # sv"
    using p by (auto simp: prints_member_iff)
  obtain tv where tv: "prints_value (snd q) tv" "t = serializeString (fst q) @ CHR '':'' # tv"
    using q by (auto simp: prints_member_iff)
  have "fst p = fst q" "sv @ x = tv @ y"
    using eq serializeString_unambiguous [of "fst p" _ "fst q"] by (auto simp: sv tv)
  then show "(fst p, Some (norm (snd p))) = (fst q, Some (norm (snd q))) \<and> x = y"
    using assms sv(1) tv(1) d unfolding determines_def by blast
qed

lemma meet:
  assumes "prints_value v s" "prints_value w t" "s @ x = t @ y"
  shows "case v of VNull \<Rightarrow> w = VNull | VBool b \<Rightarrow> w = VBool b | VNumber _ \<Rightarrow> (\<exists>n. w = VNumber n)
    | VString _ \<Rightarrow> (\<exists>t. w = VString t) | VArray _ \<Rightarrow> (\<exists>ws. w = VArray ws)
    | VObject _ \<Rightarrow> (\<exists>qs. w = VObject qs)"
proof -
  have "s \<noteq> []" "t \<noteq> []" using assms kind_of_text by blast+
  then have "hd s = hd t" using assms(3) by (metis hd_append2)
  then show ?thesis
    using same_kind kind_of_text [OF assms(1)] kind_of_text [OF assms(2)] by metis
qed

lemma text_determines: "determines prints_value norm v"
proof (induction v rule: canonicalJsonString.induct)
  case 1
  show ?case
    unfolding determines_def
  proof (intro allI impI)
    fix s w t x y
    assume a: "prints_value VNull s" "prints_value w t" "s @ x = t @ y"
    show "norm VNull = norm w \<and> x = y" using meet [OF a] a by simp
  qed
next
  case (2 b)
  show ?case
    unfolding determines_def
  proof (intro allI impI)
    fix s w t x y
    assume a: "prints_value (VBool b) s" "prints_value w t" "s @ x = t @ y"
    show "norm (VBool b) = norm w \<and> x = y" using meet [OF a] a by simp
  qed
next
  case (3 n)
  show ?case
    unfolding determines_def
  proof (intro allI impI)
    fix s w t x y
    assume a: "prints_value (VNumber n) s" "prints_value w t" "s @ x = t @ y"
      and d: "delimited x" "delimited y"
    obtain m where w: "w = VNumber m" using meet [OF a] by auto
    obtain i where i: "s = show_int i" "norm (VNumber n) = VNumber (Finite i)"
      using a(1) serializeNumber_Inr [of n s] by auto
    obtain j where j: "t = show_int j" "norm w = VNumber (Finite j)"
      using a(2) w serializeNumber_Inr [of m t] by auto
    show "norm (VNumber n) = norm w \<and> x = y"
      using number_unambiguous [OF _ d, of i j] a(3) by (simp only: i j)
  qed
next
  case (4 u)
  show ?case
    unfolding determines_def
  proof (intro allI impI)
    fix s w t x y
    assume a: "prints_value (VString u) s" "prints_value w t" "s @ x = t @ y"
    obtain m where w: "w = VString m" using meet [OF a] by auto
    show "norm (VString u) = norm w \<and> x = y"
      using a w serializeString_unambiguous [of u x m y] by simp
  qed
next
  case (5 vs)
  show ?case
  proof (unfold determines_def, intro allI impI)
    fix s w t x y
    assume a: "prints_value (VArray vs) s" "prints_value w t" "s @ x = t @ y"
    then obtain ws where w: "w = VArray ws" using meet [OF a] by auto
    obtain ss where ss: "list_all2 prints_value vs ss" "s = CHR ''['' # join_comma ss @ [CHR '']'']"
      using a(1) by (auto simp: braced_def collect_Inr_iff split: sum.splits)
    obtain ts where ts: "list_all2 prints_value ws ts" "t = CHR ''['' # join_comma ts @ [CHR '']'']"
      using a(2) w by (auto simp: braced_def collect_Inr_iff split: sum.splits)
    have "map norm vs = map norm ws \<and> x = y"
      by (rule joined_determine [OF _ _ not_closer_text ss(1) ts(1), of "CHR '']''"])
        (use a(3) 5 in \<open>auto simp: closer_def ss(2) ts(2)\<close>)
    then show "norm (VArray vs) = norm w \<and> x = y" by (simp add: w)
  qed
next
  case (6 ps)
  let ?ms = "\<lambda>ps. defined_members (sort_key fst ps)"
  show ?case
  proof (unfold determines_def, intro allI impI)
    fix s w t x y
    assume a: "prints_value (VObject ps) s" "prints_value w t" "s @ x = t @ y"
    then obtain qs where w: "w = VObject qs" using meet [OF a] by auto
    obtain ss where ss: "list_all2 prints_member (?ms ps) ss" "s = CHR ''{'' # join_comma ss @ [CHR ''}'']"
      using a(1) by (auto simp: braced_def collect_members split: sum.splits)
    obtain ts where ts: "list_all2 prints_member (?ms qs) ts" "t = CHR ''{'' # join_comma ts @ [CHR ''}'']"
      using a(2) w by (auto simp: braced_def collect_members split: sum.splits)
    have "map (\<lambda>p. (fst p, Some (norm (snd p)))) (?ms ps) = map (\<lambda>p. (fst p, Some (norm (snd p)))) (?ms qs)
        \<and> x = y"
      by (rule joined_determine [OF _ _ _ ss(1) ts(1), of "CHR ''}''"])
        (use a(3) 6 member_determines in
          \<open>auto simp: closer_def ss(2) ts(2) prints_member_iff serializeString_def\<close>)
    then show "norm (VObject ps) = norm w \<and> x = y" by (simp add: w)
  qed
qed

section \<open>Properties\<close>

lemma sorted_defined_members: "sorted (map fst ps) \<Longrightarrow> sorted (map fst (defined_members ps))"
proof (induction ps)
  case (Cons p ps)
  have "fst ` set (defined_members ps) \<subseteq> fst ` set ps"
    using set_defined_members by (force simp: image_iff)
  then show ?case
    using Cons by (cases p; cases "snd p") (auto simp: defined_members_def image_iff)
qed (simp add: defined_members_def)

lemma defined_members_Some: "defined_members (map (\<lambda>p. (g p, Some (h p))) ms) = map (\<lambda>p. (g p, h p)) ms"
  by (induction ms) (simp_all add: defined_members_def)

lemma text_norm: "canonicalJsonString (norm v) = canonicalJsonString v"
proof (induction v rule: norm.induct)
  case (3 n)
  show ?case by (cases n) (simp_all add: serializeNumber_def show_int_0)
next
  case (5 vs)
  then have "map canonicalJsonString (map norm vs) = map canonicalJsonString vs" by simp
  then show ?case by (simp only: norm.simps canonicalJsonString.simps)
next
  case (6 ps)
  let ?ms = "defined_members (sort_key fst ps)"
  let ?ns = "map (\<lambda>p. (fst p, Some (norm (snd p)))) ?ms"
  have "sorted (map fst ?ns)"
    using sorted_defined_members [of "sort_key fst ps"] by (simp add: o_def)
  then have "defined_members (sort_key fst ?ns) = map (\<lambda>p. (fst p, norm (snd p))) ?ms"
    by (simp only: sort_key_id_if_sorted defined_members_Some)
  then show ?case using 6 by (simp add: o_def cong: map_cong sum.case_cong)
qed simp_all

text \<open>
  A canonical text determines its value: two values have the same canonical text exactly when
  they agree up to the order of object members, members that are \<open>undefined\<close>, and the sign of zero.
  No other two values share a text, so distinct inputs of a digest stay distinct up to SHA-256.
\<close>

theorem canonical_text_determines_value:
  "canonicalJsonString v = Inr s \<Longrightarrow> canonicalJsonString w = Inr s \<longleftrightarrow> norm v = norm w"
proof -
  assume v: "canonicalJsonString v = Inr s"
  have "norm v = norm w" if w: "canonicalJsonString w = Inr s"
  proof -
    have "s @ [] = s @ []" "delimited []" by (simp_all add: delimited_def)
    then show ?thesis using text_determines [of v] v w unfolding determines_def by blast
  qed
  then show ?thesis using v text_norm [of v] text_norm [of w] by metis
qed

lemma canonical_text_determines_value_witness:
  "canonicalJsonString (VObject [(units_of ''b'', Some VNull), (units_of ''a'', Some (VNumber (Finite 1)))])
     = Inr (CHR ''{'' # serializeString (units_of ''a'') @ '':1,'' @ serializeString (units_of ''b'') @ '':null}'')
   \<and> (canonicalJsonString (VObject [(units_of ''b'', Some VNull)])
        = Inr (CHR ''{'' # serializeString (units_of ''a'') @ '':1,'' @ serializeString (units_of ''b'') @ '':null}'')
      \<longleftrightarrow> norm (VObject [(units_of ''b'', Some VNull), (units_of ''a'', Some (VNumber (Finite 1)))])
          = norm (VObject [(units_of ''b'', Some VNull)]))"
proof -
  have run: "canonicalJsonString (VObject [(units_of ''b'', Some VNull), (units_of ''a'', Some (VNumber (Finite 1)))])
     = Inr (CHR ''{'' # serializeString (units_of ''a'') @ '':1,'' @ serializeString (units_of ''b'') @ '':null}'')"
    by code_simp
  show ?thesis using run canonical_text_determines_value [OF run] by blast
qed

text \<open>
  The canonical text does not depend on the insertion order of the members of an object.
\<close>

theorem canonical_text_order_independent:
  "distinct (map fst ps) \<Longrightarrow> mset ps = mset qs \<Longrightarrow>
     canonicalJsonString (VObject ps) = canonicalJsonString (VObject qs)"
proof -
  assume d: "distinct (map fst ps)" and m: "mset ps = mset qs"
  have "sort_key fst ps = sort_key fst qs"
    using sort_key_inj_key_eq [of ps "sort_key fst qs" fst] d m by (simp add: distinct_map)
  then show ?thesis by simp
qed

lemma canonical_text_order_independent_witness:
  "canonicalJsonString (VObject [(units_of ''b'', Some VNull), (units_of ''a'', Some (VBool True))])
     = canonicalJsonString (VObject [(units_of ''a'', Some (VBool True)), (units_of ''b'', Some VNull)])"
  by (rule canonical_text_order_independent) (simp_all add: units_of_def)

definition printable :: "char \<Rightarrow> bool" where
  "printable c \<longleftrightarrow> 32 \<le> (of_char c :: nat) \<and> (of_char c :: nat) < 127"

lemma printable_HEX: "\<forall>k\<in>set [0..<16]. printable (HEX ! k)"
  by code_simp

lemma printable_escape: "c \<in> set (escape_unit u) \<Longrightarrow> printable c"
  using printable_HEX
  by (auto simp: escape_unit_def Let_def printable_def hex4_def of_char_of split: if_splits)

lemma printable_string: "c \<in> set (serializeString s) \<Longrightarrow> printable c"
  using printable_escape by (auto simp: serializeString_def printable_def)

lemma printable_int: "c \<in> set (show_int i) \<Longrightarrow> printable c"
  using show_int_chars [of c i] by (auto simp: number_char_def is_digit_def printable_def)

lemma set_join_comma: "set (join_comma ss) \<subseteq> insert (CHR '','') (\<Union> (set ` set ss))"
  by (cases ss) (auto simp: join_comma_Cons tail_items_def split: if_splits)

lemma printable_join: "\<forall>s\<in>set ss. \<forall>c\<in>set s. printable c \<Longrightarrow> c \<in> set (join_comma ss) \<Longrightarrow> printable c"
  using set_join_comma [of ss] by (auto simp: printable_def)

lemma list_all2_setD: "list_all2 P xs ys \<Longrightarrow> y \<in> set ys \<Longrightarrow> \<exists>x\<in>set xs. P x y"
  by (induction rule: list_all2_induct) auto

lemma printable_text: "canonicalJsonString v = Inr s \<Longrightarrow> list_all printable s"
proof (induction v arbitrary: s rule: canonicalJsonString.induct)
  case (3 n)
  then obtain i where "s = show_int i" using serializeNumber_Inr by fastforce
  then show ?case using printable_int by (simp add: list_all_iff)
next
  case (4 u)
  then show ?case using printable_string by (auto simp: list_all_iff)
next
  case (5 vs)
  then obtain ss where ss: "list_all2 prints_value vs ss" "s = CHR ''['' # join_comma ss @ [CHR '']'']"
    by (auto simp: braced_def collect_Inr_iff split: sum.splits)
  have "\<forall>t\<in>set ss. \<forall>c\<in>set t. printable c"
    using list_all2_setD [OF ss(1)] 5(1) by (fastforce simp: list_all_iff)
  then show ?case using printable_join by (auto simp: ss(2) list_all_iff printable_def)
next
  case (6 ps)
  let ?ms = "defined_members (sort_key fst ps)"
  obtain ss where ss: "list_all2 prints_member ?ms ss" "s = CHR ''{'' # join_comma ss @ [CHR ''}'']"
    using 6 by (auto simp: braced_def collect_members split: sum.splits)
  have "\<forall>c\<in>set t. printable c" if "p \<in> set ?ms" "prints_member p t" for p t
    using 6(1) [OF that(1)] that(2) printable_string
    by (auto simp: prints_member_iff list_all_iff) (simp add: printable_def)
  then have "\<forall>t\<in>set ss. \<forall>c\<in>set t. printable c"
    using list_all2_setD [OF ss(1)] by blast
  then show ?case using printable_join by (auto simp: ss(2) list_all_iff printable_def)
qed (auto simp: printable_def)

text \<open>
  A canonical text is printable ASCII, whatever the strings contain: every code unit from 127
  on is written as an escape. RFC 8785, which the source names, prescribes the characters
  themselves from U+007F on, so the texts and digests of such strings differ from those of a
  conforming implementation.
\<close>

theorem canonical_text_ascii:
  "(case canonicalJsonString v of Inl e \<Rightarrow> True | Inr s \<Rightarrow> list_all printable s)
   \<and> canonicalJsonString (VString [0xE9]) = Inr ([CHR 0x22, CHR 0x5C] @ ''u00e9'' @ [CHR 0x22])"
proof -
  have "canonicalJsonString (VString [0xE9]) = Inr ([CHR 0x22, CHR 0x5C] @ ''u00e9'' @ [CHR 0x22])"
    by code_simp
  then show ?thesis using printable_text by (auto split: sum.splits)
qed

end
