(* ===== verification/Execution_States.thy ===== *)
theory Execution_States
  imports Gov_Prelude
begin

text \<open>
  The statuses of executions and tool calls: \<open>governance/packages/audit-chain/src/\<close>
  (\<open>execution-state-machine.ts\<close>, \<open>tool-call-status.ts\<close>), with the transition table as code and as
  a step relation on statuses.
\<close>

section \<open>Execution statuses\<close>

datatype execution_status =
    Pending | Running | GuardrailPending | Done | Failed | Timeout | Cancelled

fun VALID_TRANSITIONS :: "execution_status \<Rightarrow> execution_status list" where
  "VALID_TRANSITIONS Pending = [Running, GuardrailPending, Cancelled]"
| "VALID_TRANSITIONS Running = [Done, Failed, Timeout, GuardrailPending, Cancelled]"
| "VALID_TRANSITIONS GuardrailPending = [Running, Failed, Cancelled]"
| "VALID_TRANSITIONS Done = []"
| "VALID_TRANSITIONS Failed = []"
| "VALID_TRANSITIONS Timeout = []"
| "VALID_TRANSITIONS Cancelled = []"

fun show_status :: "execution_status \<Rightarrow> string" where
  "show_status Pending = ''pending''"
| "show_status Running = ''running''"
| "show_status GuardrailPending = ''guardrail_pending''"
| "show_status Done = ''done''"
| "show_status Failed = ''failed''"
| "show_status Timeout = ''timeout''"
| "show_status Cancelled = ''cancelled''"

definition isValidTransition :: "execution_status \<Rightarrow> execution_status \<Rightarrow> bool" where
  "isValidTransition old new \<longleftrightarrow> new \<in> set (VALID_TRANSITIONS old)"

text \<open>The arrow of the message is U+2192, outside the characters of the model, and is written out.\<close>

definition IllegalStateTransitionError :: "execution_status \<Rightarrow> execution_status \<Rightarrow> string" where
  "IllegalStateTransitionError old new =
     ''Illegal state transition: '' @ show_status old @ '' -> '' @ show_status new"

definition handleStateTransition :: "execution_status \<Rightarrow> execution_status \<Rightarrow> execution_status result" where
  "handleStateTransition currentStatus newStatus =
     (if \<not> isValidTransition currentStatus newStatus
      then Inl (IllegalStateTransitionError currentStatus newStatus)
      else Inr newStatus)"

definition isTerminal :: "execution_status \<Rightarrow> bool" where
  "isTerminal status \<longleftrightarrow> length (VALID_TRANSITIONS status) = 0"

section \<open>Tool call statuses\<close>

datatype tool_call_status =
    STARTED | DENIED | BLOCKED | REQUIRES_APPROVAL | RUNNING | SUCCEEDED | FAILED | COMPLETION_UNKNOWN

fun show_call_status :: "tool_call_status \<Rightarrow> string" where
  "show_call_status STARTED = ''STARTED''"
| "show_call_status DENIED = ''DENIED''"
| "show_call_status BLOCKED = ''BLOCKED''"
| "show_call_status REQUIRES_APPROVAL = ''REQUIRES_APPROVAL''"
| "show_call_status RUNNING = ''RUNNING''"
| "show_call_status SUCCEEDED = ''SUCCEEDED''"
| "show_call_status FAILED = ''FAILED''"
| "show_call_status COMPLETION_UNKNOWN = ''COMPLETION_UNKNOWN''"

section \<open>The transition relation\<close>

inductive transition :: "execution_status \<Rightarrow> execution_status \<Rightarrow> bool" where
  accept: "handleStateTransition s t = Inr u \<Longrightarrow> transition s u"

inductive_cases transitionE: "transition s t"

text \<open>Histories of one execution: the statuses it goes through, in order.\<close>

inductive history :: "execution_status \<Rightarrow> execution_status list \<Rightarrow> execution_status \<Rightarrow> bool" where
  start: "history s [] s"
| step: "history s hs t \<Longrightarrow> transition t u \<Longrightarrow> history s (hs @ [t]) u"

inductive_cases history_NilE: "history s [] t"

lemma transition_iff: "transition s t \<longleftrightarrow> t \<in> set (VALID_TRANSITIONS s)"
  by (auto simp: transition.simps handleStateTransition_def isValidTransition_def split: if_splits)

lemma terminal_stuck: "isTerminal s \<longleftrightarrow> (\<forall>t. \<not> transition s t)"
  by (cases s) (auto simp: transition_iff isTerminal_def)

lemma history_statuses: "history s hs t \<Longrightarrow> \<forall>u\<in>set hs. \<not> isTerminal u"
  by (induction rule: history.induct) (auto simp: terminal_stuck)

lemma done_from_running: "transition s Done \<longleftrightarrow> s = Running"
  "transition s Timeout \<longleftrightarrow> s = Running"
  "transition s Pending \<longleftrightarrow> False"
  by (cases s; simp add: transition_iff)+

text \<open>
  The execution state machine along every history of accepted transitions: a status is terminal
  exactly when no transition leaves it, no history goes through a terminal status, nothing returns
  to \<open>pending\<close>, and an execution that is done or timed out was running just before.
\<close>

theorem execution_history_safe:
  assumes "history Pending hs t"
  shows "(\<forall>u. u \<in> set hs \<longrightarrow> \<not> isTerminal u)
    \<and> (isTerminal t \<longleftrightarrow> (\<forall>u. \<not> transition t u))
    \<and> (t = Pending \<longrightarrow> hs = [])
    \<and> (t = Done \<or> t = Timeout \<longrightarrow> hs \<noteq> [] \<and> last hs = Running)"
proof -
  have "t = Pending \<longrightarrow> hs = []" "t = Done \<or> t = Timeout \<longrightarrow> hs \<noteq> [] \<and> last hs = Running"
    using assms by (cases rule: history.cases; auto simp: done_from_running)+
  then show ?thesis using history_statuses [OF assms] terminal_stuck by blast
qed

lemma execution_history_safe_witness:
  "history Pending [Pending, GuardrailPending, Running] Done
   \<and> last [Pending, GuardrailPending, Running] = Running"
proof -
  have "history Pending (([] @ [Pending]) @ [GuardrailPending] @ [Running]) Done"
    using history.step [OF history.step [OF history.step [OF history.start [of Pending]]]]
    by (auto simp: transition_iff)
  then have h: "history Pending [Pending, GuardrailPending, Running] Done" by simp
  show ?thesis using execution_history_safe [OF h] h by blast
qed

text \<open>
  Rejecting an illegal transition leaves an error that names both statuses, and accepting one
  returns the new status: the two cases are decided by the transition table alone.
\<close>

theorem handle_state_transition_outcomes:
  "handleStateTransition s t =
     (if t \<in> set (VALID_TRANSITIONS s) then Inr t
      else Inl (''Illegal state transition: '' @ show_status s @ '' -> '' @ show_status t))
   \<and> (isTerminal s \<longleftrightarrow> s = Done \<or> s = Failed \<or> s = Timeout \<or> s = Cancelled)"
  by (cases s) (auto simp: handleStateTransition_def isValidTransition_def
      IllegalStateTransitionError_def isTerminal_def)

end
