(* ===== verification/Audit_Store.thy ===== *)
theory Audit_Store
  imports Guardrail Execution_States
begin

text \<open>
  The tables of the audit chain and of the approvals, and the world the stateful services run in:
  the entities of \<open>governance/packages/audit-chain/src/entities/\<close>,
  \<open>governance/packages/approval/src/entities/\<close> and \<open>governance/packages/outbox/src/\<close>.

  A nullable column is an option, a timestamp is its milliseconds, a decimal is counted in units of
  its last digit. Columns that belong together sit in a record of their own. The relations of the
  ORM (\<open>execution\<close>, \<open>step\<close>, \<open>reactSteps\<close>, \<open>toolCallRecords\<close>) are the identifier columns.
\<close>

section \<open>Executions\<close>

record execution_release =
  er_sourceWorkspaceId :: "string option"
  er_resolutionMode :: "string option"
  er_candidateIsolationBindingId :: "string option"
  er_candidateIsolationSnapshotHash :: "string option"
  er_releaseSetId :: "string option"
  er_agentVersionId :: "string option"
  er_bundleDigest :: "string option"
  er_goalSnapshotId :: "string option"
  er_goalSnapshotHash :: "string option"
  er_initialContextManifestId :: "string option"
  er_initialContextManifestHash :: "string option"
  er_principalSnapshot :: "json option"
  er_parentFlowExecutionId :: "string option"
  er_parentFlowStepLogId :: "string option"

record execution_outcome =
  eo_intent :: "string option"
  eo_intentConfidence :: "int option"
  eo_outputType :: "string option"
  eo_outputContent :: "json option"
  eo_aiProviderSummary :: "json option"
  eo_outcomeType :: "string option"
  eo_outcomeRecordId :: "string option"
  eo_participationScore :: "int option"
  eo_targetObjectName :: "string option"
  eo_targetRecordId :: "string option"
  eo_targetRecordName :: "string option"
  eo_startedAt :: "int option"
  eo_durationMs :: "int option"

text \<open>The \<open>policy\<close> object the executor stores in \<open>triggerPayload\<close>.\<close>

record execution_policy =
  pol_allowedTools :: "string list"
  pol_blockedTools :: "string list"
  pol_guardrailRuleIds :: "string list"

record agent_execution =
  ex_id :: string
  ex_workspaceId :: string
  ex_release :: execution_release
  ex_traceId :: "string option"
  ex_correlationId :: "string option"
  ex_agentId :: string
  ex_triggerType :: string
  ex_triggerSource :: string
  ex_triggeredBy :: "string option"
  ex_policy :: "execution_policy option"
  ex_rawInput :: "string option"
  ex_status :: execution_status
  ex_outputSummary :: "string option"
  ex_totalInputTokens :: int
  ex_totalOutputTokens :: int
  ex_totalCost :: int
  ex_outcome :: execution_outcome
  ex_completedAt :: "int option"
  ex_createdAt :: int

definition no_release :: execution_release where
  "no_release = \<lparr>er_sourceWorkspaceId = None, er_resolutionMode = None,
     er_candidateIsolationBindingId = None, er_candidateIsolationSnapshotHash = None,
     er_releaseSetId = None, er_agentVersionId = None, er_bundleDigest = None,
     er_goalSnapshotId = None, er_goalSnapshotHash = None, er_initialContextManifestId = None,
     er_initialContextManifestHash = None, er_principalSnapshot = None,
     er_parentFlowExecutionId = None, er_parentFlowStepLogId = None\<rparr>"

definition no_outcome :: execution_outcome where
  "no_outcome = \<lparr>eo_intent = None, eo_intentConfidence = None, eo_outputType = None,
     eo_outputContent = None, eo_aiProviderSummary = None, eo_outcomeType = None,
     eo_outcomeRecordId = None, eo_participationScore = None, eo_targetObjectName = None,
     eo_targetRecordId = None, eo_targetRecordName = None, eo_startedAt = None, eo_durationMs = None\<rparr>"

section \<open>Steps of the loop\<close>

record step_lineage =
  sl_workspaceId :: "string option"
  sl_sourceWorkspaceId :: "string option"
  sl_resolutionMode :: "string option"
  sl_candidateIsolationBindingId :: "string option"
  sl_candidateIsolationSnapshotHash :: "string option"
  sl_releaseSetId :: "string option"
  sl_flowVersionId :: "string option"
  sl_flowNodeId :: "string option"
  sl_traceId :: "string option"
  sl_correlationId :: "string option"
  sl_actorType :: "string option"
  sl_actorId :: "string option"
  sl_source :: "string option"

record react_step =
  rs_id :: string
  rs_executionId :: string
  rs_lineage :: step_lineage
  rs_stepIndex :: nat
  rs_thoughtReasoning :: "string option"
  rs_thoughtPlan :: "string option"
  rs_thoughtConfidence :: "int option"
  rs_actionType :: string
  rs_toolName :: "string option"
  rs_toolInput :: "json option"
  rs_generatePrompt :: "string option"
  rs_observationSuccess :: "bool option"
  rs_observationOutput :: "json option"
  rs_observationError :: "string option"
  rs_guardrailTriggered :: bool
  rs_inputTokens :: int
  rs_outputTokens :: int
  rs_model :: "string option"
  rs_aiProviderStamp :: "json option"
  rs_durationMs :: "int option"
  rs_createdAt :: int

definition no_step_lineage :: step_lineage where
  "no_step_lineage = \<lparr>sl_workspaceId = None, sl_sourceWorkspaceId = None, sl_resolutionMode = None,
     sl_candidateIsolationBindingId = None, sl_candidateIsolationSnapshotHash = None,
     sl_releaseSetId = None, sl_flowVersionId = None, sl_flowNodeId = None, sl_traceId = None,
     sl_correlationId = None, sl_actorType = None, sl_actorId = None, sl_source = None\<rparr>"

section \<open>Tool calls\<close>

record call_release =
  cr_sourceWorkspaceId :: "string option"
  cr_resolutionMode :: "string option"
  cr_candidateIsolationBindingId :: "string option"
  cr_candidateIsolationSnapshotHash :: "string option"
  cr_releaseSetId :: "string option"
  cr_functionRevisionId :: "string option"
  cr_functionExecutionId :: "string option"
  cr_descriptorHash :: "string option"
  cr_publishedChecksum :: "string option"
  cr_runtimeProviderId :: "string option"
  cr_idempotencyKeyHash :: "string option"

record call_parent =
  cp_agentExecutionId :: "string option"
  cp_stepId :: "string option"
  cp_flowExecutionId :: "string option"
  cp_flowStepLogId :: "string option"
  cp_flowVersionId :: "string option"
  cp_flowNodeId :: "string option"

record static_binding =
  sb_revisionId :: "string option"
  sb_checksum :: "string option"
  sb_generation :: "string option"
  sb_subcallOrdinal :: "int option"
  sb_requestDigest :: "string option"

record tool_call_record =
  tc_id :: string
  tc_executionId :: "string option"
  tc_workspaceId :: "string option"
  tc_release :: call_release
  tc_parent :: call_parent
  tc_static :: static_binding
  tc_toolName :: string
  tc_toolCategory :: "string option"
  tc_traceId :: "string option"
  tc_correlationId :: "string option"
  tc_actorType :: "string option"
  tc_actorId :: "string option"
  tc_source :: "string option"
  tc_input :: "json option"
  tc_output :: "json option"
  tc_status :: "tool_call_status option"
  tc_leaseExpiresAt :: "int option"
  tc_lastHeartbeatAt :: "int option"
  tc_inputDigest :: "string option"
  tc_outputDigest :: "string option"
  tc_redactionApplied :: "bool option"
  tc_attempt :: "int option"
  tc_errorCode :: "string option"
  tc_permissionCheck :: "string option"
  tc_permissionDetail :: "string option"
  tc_guardrailCheck :: "string option"
  tc_guardrailRuleId :: "string option"
  tc_durationMs :: "int option"
  tc_createdAt :: int

definition no_call_release :: call_release where
  "no_call_release = \<lparr>cr_sourceWorkspaceId = None, cr_resolutionMode = None,
     cr_candidateIsolationBindingId = None, cr_candidateIsolationSnapshotHash = None,
     cr_releaseSetId = None, cr_functionRevisionId = None, cr_functionExecutionId = None,
     cr_descriptorHash = None, cr_publishedChecksum = None, cr_runtimeProviderId = None,
     cr_idempotencyKeyHash = None\<rparr>"

definition no_call_parent :: call_parent where
  "no_call_parent = \<lparr>cp_agentExecutionId = None, cp_stepId = None, cp_flowExecutionId = None,
     cp_flowStepLogId = None, cp_flowVersionId = None, cp_flowNodeId = None\<rparr>"

definition no_binding :: static_binding where
  "no_binding = \<lparr>sb_revisionId = None, sb_checksum = None, sb_generation = None,
     sb_subcallOrdinal = None, sb_requestDigest = None\<rparr>"

section \<open>Approvals\<close>

datatype approval_status = PENDING | APPROVED | REJECTED | RECALLED | EXPIRED

datatype history_action = Submitted | Approve | Reject | Recall | Delegate | Expire

record history_entry =
  he_stepIndex :: nat
  he_stepName :: string
  he_action :: history_action
  he_actorId :: string
  he_actorName :: string
  he_comments :: "string option"
  he_timestamp :: int
  he_queueContext :: "string option"

record approval_subject =
  as_policyRevisionId :: "string option"
  as_policyChecksum :: "string option"
  as_subjectType :: "string option"
  as_subjectId :: "string option"
  as_toolCallId :: "string option"
  as_governanceContext :: "json option"
  as_governanceContextDigest :: "string option"
  as_idempotencyKeyHash :: "string option"
  as_expiresAt :: "int option"
  as_stepVersion :: "nat option"
  as_decisionVersion :: "nat option"
  as_decisionActorKind :: "string option"
  as_decisionActorId :: "string option"

record approval_supersession =
  sp_supersedesApprovalId :: "string option"
  sp_supersededByApprovalId :: "string option"
  sp_supersededAt :: "int option"
  sp_supersessionReason :: "string option"
  sp_supersededByActorId :: "string option"
  sp_consumedAt :: "int option"
  sp_consumedByKind :: "string option"
  sp_consumedById :: "string option"

record approval_instance =
  ai_id :: string
  ai_workspaceId :: string
  ai_processId :: string
  ai_recordId :: string
  ai_objectName :: string
  ai_status :: approval_status
  ai_currentStepIndex :: nat
  ai_subject :: approval_subject
  ai_supersession :: approval_supersession
  ai_history :: "history_entry list"
  ai_submittedBy :: string
  ai_submittedAt :: int
  ai_completedAt :: "int option"

definition no_subject :: approval_subject where
  "no_subject = \<lparr>as_policyRevisionId = None, as_policyChecksum = None, as_subjectType = None,
     as_subjectId = None, as_toolCallId = None, as_governanceContext = None,
     as_governanceContextDigest = None, as_idempotencyKeyHash = None, as_expiresAt = None,
     as_stepVersion = Some 0, as_decisionVersion = Some 0, as_decisionActorKind = None,
     as_decisionActorId = None\<rparr>"

definition no_supersession :: approval_supersession where
  "no_supersession = \<lparr>sp_supersedesApprovalId = None, sp_supersededByApprovalId = None,
     sp_supersededAt = None, sp_supersessionReason = None, sp_supersededByActorId = None,
     sp_consumedAt = None, sp_consumedByKind = None, sp_consumedById = None\<rparr>"

record approval_step =
  st_id :: string
  st_approvalProcessId :: string
  st_stepOrder :: int
  st_stepName :: "string option"
  st_stepType :: string
  st_approverType :: string
  st_approverId :: "string option"
  st_timeoutMinutes :: "int option"
  st_timeoutAction :: string
  st_aiConfig :: "json option"
  st_createdAt :: int

record governed_step =
  gs_name :: string
  gs_approverIds :: "string list"

record policy_revision =
  pr_id :: string
  pr_workspaceId :: string
  pr_approvalProcessId :: string
  pr_policyApiName :: string
  pr_purpose :: string
  pr_revisionKey :: string
  pr_stepsSnapshot :: "governed_step list option"
  pr_approverRulesDigest :: string
  pr_humanOnly :: bool
  pr_expiresAfterSeconds :: int
  pr_checksum :: string
  pr_createdBy :: string
  pr_createdAt :: int

section \<open>Outbox rows\<close>

record outbox_trace =
  ot_traceId :: string
  ot_correlationId :: string
  ot_executionId :: "string option"

record outbox_event =
  oe_id :: string
  oe_workspaceId :: string
  oe_topic :: string
  oe_eventType :: string
  oe_aggregateType :: string
  oe_aggregateId :: string
  oe_payload :: jobject
  oe_traceContext :: outbox_trace
  oe_idempotencyKey :: "string option"
  oe_createdAt :: int
  oe_publishedAt :: "int option"
  oe_attemptCount :: nat
  oe_lastError :: "string option"

section \<open>The world\<close>

text \<open>
  The database, the sinks the services write to, and the sources they read from: \<open>uuid_of\<close> lists what
  \<open>generateId\<close> and \<open>randomUUID\<close> return in order, \<open>clock_of\<close> the successive readings of the clock.
  \<open>notifications\<close> are the topics \<open>pg_notify\<close> has queued, \<open>buffered_topics\<close> those of the in-memory
  transport. \<open>txn_topics\<close> is the set of topics of the running transaction. \<open>tool_runs\<close> is a record of
  the tool bodies run so far, which no code reads.
\<close>

record world =
  executions :: "agent_execution list"
  react_steps :: "react_step list"
  tool_calls :: "tool_call_record list"
  approvals :: "approval_instance list"
  approval_steps :: "approval_step list"
  policy_revisions :: "policy_revision list"
  rules :: "guardrail_rule list"
  outbox_events :: "outbox_event list"
  notifications :: "string list"
  buffered_topics :: "string list"
  txn_topics :: "string list"
  emitted :: "(string \<times> jobject) list"
  guardrail_log :: "(string \<times> jobject) list"
  trace_context :: "outbox_trace option"
  tool_runs :: "(string \<times> json) list"
  uuid_of :: "nat \<Rightarrow> string"
  next_uuid :: nat
  clock_of :: "nat \<Rightarrow> int"
  next_tick :: nat

type_synonym 'a act = "(world, 'a) eff"

definition fresh_id :: "string act" where
  "fresh_id = (\<lambda>w. (Inr (uuid_of w (next_uuid w)), w\<lparr>next_uuid := Suc (next_uuid w)\<rparr>))"

definition now :: "int act" where
  "now = (\<lambda>w. (Inr (clock_of w (next_tick w)), w\<lparr>next_tick := Suc (next_tick w)\<rparr>))"

lemma fresh_id_apply [eff_simps]:
  "fresh_id w = (Inr (uuid_of w (next_uuid w)), w\<lparr>next_uuid := Suc (next_uuid w)\<rparr>)"
  by (simp add: fresh_id_def)

lemma now_apply [eff_simps]:
  "now w = (Inr (clock_of w (next_tick w)), w\<lparr>next_tick := Suc (next_tick w)\<rparr>)"
  by (simp add: now_def)

subsection \<open>Statements\<close>

definition update_executions ::
    "(agent_execution \<Rightarrow> bool) \<Rightarrow> (agent_execution \<Rightarrow> agent_execution) \<Rightarrow> nat act" where
  "update_executions P f = (\<lambda>w. (Inr (tb_affected P (executions w)),
      w\<lparr>executions := tb_update P f (executions w)\<rparr>))"

definition update_calls ::
    "(tool_call_record \<Rightarrow> bool) \<Rightarrow> (tool_call_record \<Rightarrow> tool_call_record) \<Rightarrow> nat act" where
  "update_calls P f = (\<lambda>w. (Inr (tb_affected P (tool_calls w)),
      w\<lparr>tool_calls := tb_update P f (tool_calls w)\<rparr>))"

definition update_approvals ::
    "(approval_instance \<Rightarrow> bool) \<Rightarrow> (approval_instance \<Rightarrow> approval_instance) \<Rightarrow> nat act" where
  "update_approvals P f = (\<lambda>w. (Inr (tb_affected P (approvals w)),
      w\<lparr>approvals := tb_update P f (approvals w)\<rparr>))"

lemma update_executions_apply [eff_simps]:
  "update_executions P f w = (Inr (tb_affected P (executions w)),
      w\<lparr>executions := tb_update P f (executions w)\<rparr>)"
  by (simp add: update_executions_def)

lemma update_calls_apply [eff_simps]:
  "update_calls P f w = (Inr (tb_affected P (tool_calls w)),
      w\<lparr>tool_calls := tb_update P f (tool_calls w)\<rparr>)"
  by (simp add: update_calls_def)

lemma update_approvals_apply [eff_simps]:
  "update_approvals P f w = (Inr (tb_affected P (approvals w)),
      w\<lparr>approvals := tb_update P f (approvals w)\<rparr>)"
  by (simp add: update_approvals_def)

definition find_execution :: "string \<Rightarrow> agent_execution option act" where
  "find_execution i = reads (\<lambda>w. tb_find (\<lambda>e. ex_id e = i) (executions w))"

definition find_approval :: "string \<Rightarrow> approval_instance option act" where
  "find_approval i = reads (\<lambda>w. tb_find (\<lambda>a. ai_id a = i) (approvals w))"

text \<open>\<open>findOneByOrFail\<close>.\<close>

definition execution_or_fail :: "string \<Rightarrow> agent_execution act" where
  "execution_or_fail i = bindE (find_execution i) (of_option ''EntityNotFoundError'')"

definition approval_or_fail :: "string \<Rightarrow> approval_instance act" where
  "approval_or_fail i = bindE (find_approval i) (of_option ''EntityNotFoundError'')"

subsection \<open>Well-formed worlds\<close>

text \<open>
  Primary keys are unique, and every key in use came from the source of identifiers, whose values
  are distinct; so the next identifier is new in every table.
\<close>

definition issued :: "world \<Rightarrow> string set" where
  "issued w = uuid_of w ` {..<next_uuid w}"

definition wf_world :: "world \<Rightarrow> bool" where
  "wf_world w \<longleftrightarrow> inj (uuid_of w)
     \<and> keyed ex_id (executions w) \<and> ex_id ` set (executions w) \<subseteq> issued w
     \<and> keyed tc_id (tool_calls w) \<and> tc_id ` set (tool_calls w) \<subseteq> issued w
     \<and> keyed ai_id (approvals w) \<and> ai_id ` set (approvals w) \<subseteq> issued w
     \<and> keyed oe_id (outbox_events w) \<and> oe_id ` set (outbox_events w) \<subseteq> issued w"

lemma fresh_not_issued: "inj (uuid_of w) \<Longrightarrow> uuid_of w (next_uuid w) \<notin> issued w"
  by (auto simp: issued_def inj_def)

lemma issued_Suc: "issued (w\<lparr>next_uuid := Suc (next_uuid w)\<rparr>) = insert (uuid_of w (next_uuid w)) (issued w)"
  by (auto simp: issued_def lessThan_Suc)

definition empty_world :: "guardrail_rule list \<Rightarrow> outbox_trace option \<Rightarrow> world" where
  "empty_world rs trace =
     \<lparr>executions = [], react_steps = [], tool_calls = [], approvals = [], approval_steps = [],
      policy_revisions = [], rules = rs, outbox_events = [], notifications = [],
      buffered_topics = [], txn_topics = [], emitted = [], guardrail_log = [],
      trace_context = trace, tool_runs = [], uuid_of = (\<lambda>n. ''id-'' @ show_nat n), next_uuid = 0,
      clock_of = int, next_tick = 0\<rparr>"

lemma wf_empty_world: "wf_world (empty_world rs trace)"
  by (simp add: wf_world_def empty_world_def keyed_def issued_def inj_def)

end
