(* ===== verification/Tool_Call_Lifecycle.thy ===== *)
theory Tool_Call_Lifecycle
  imports Audit_Store Canonical Redaction
begin

text \<open>
  The single writer of tool call rows:
  \<open>governance/packages/audit-chain/src/tool-call-lifecycle.service.ts\<close>. Every insert and update of a
  row goes through one of these operations; the updates are compare-and-set statements on the status.

  A value of type \<open>unknown\<close> is a JSON value or none. The SHA-256 digest and \<open>Number\<close> on pointer
  segments are arguments. Stored previews hold what \<open>JSON.parse\<close> returns for the canonical text.
\<close>

record library =
  sha256Hex :: "string \<Rightarrow> string"
  numberOf :: "string \<Rightarrow> int option"

section \<open>Previews\<close>

datatype payload = NotJson | Json json

datatype direction = InputSide | OutputSide

record redaction_spec =
  rd_logPolicy :: "string option"
  rd_inputJsonPointers :: "string list option"
  rd_outputJsonPointers :: "string list option"

text \<open>\<open>AgentCodeToolExportV1\<close>, whose only property is the optional redaction.\<close>

type_synonym export_descriptor = "redaction_spec option"

definition MAX_PREVIEW_BYTES :: nat where
  "MAX_PREVIEW_BYTES = 8 * 1024"

definition too_long :: "string \<Rightarrow> bool" where
  "too_long canonical \<longleftrightarrow> length canonical > MAX_PREVIEW_BYTES"

declare too_long_def [simp]

lemma too_long_code [code]: "too_long canonical \<longleftrightarrow> int (length canonical) > 8192"
  by (simp add: MAX_PREVIEW_BYTES_def)

text \<open>\<open>JSON.parse\<close> of a canonical text: the members of every object in key order.\<close>

fun canonical_value :: "json \<Rightarrow> json" where
  "canonical_value (JArr vs) = JArr (map canonical_value vs)"
| "canonical_value (JObj ps) =
     JObj (sort_key (\<lambda>p. units_of (fst p)) (map (\<lambda>(k, v). (k, canonical_value v)) ps))"
| "canonical_value v = v"

definition wrapped :: "json \<Rightarrow> json" where
  "wrapped scrubbed = (case scrubbed of JObj ps \<Rightarrow> scrubbed | _ \<Rightarrow> JObj [(''value'', scrubbed)])"

definition show_direction :: "direction \<Rightarrow> string" where
  "show_direction d = (case d of InputSide \<Rightarrow> ''INPUT'' | OutputSide \<Rightarrow> ''OUTPUT'')"

definition preview_pointers :: "export_descriptor option \<Rightarrow> direction \<Rightarrow> string list" where
  "preview_pointers descriptor dir =
     (case Option.bind descriptor id of
        None \<Rightarrow> []
      | Some r \<Rightarrow> nullish (case dir of InputSide \<Rightarrow> rd_inputJsonPointers r
                                     | OutputSide \<Rightarrow> rd_outputJsonPointers r) [])"

definition buildPreview ::
    "library \<Rightarrow> payload \<Rightarrow> export_descriptor option \<Rightarrow> direction \<Rightarrow> (string \<times> json) result" where
  "buildPreview lib raw descriptor dir =
     (case raw of
        NotJson \<Rightarrow> Inl (''TOOL_CALL_'' @ show_direction dir @ ''_NOT_JSON'')
      | Json v \<Rightarrow>
          (case canonicalJsonDigest (sha256Hex lib) (jval_of v) of
             Inl e \<Rightarrow> Inl e
           | Inr digest \<Rightarrow>
               if Option.bind (Option.bind descriptor id) rd_logPolicy = Some ''metadata_only''
               then Inr (digest, JObj [(''redacted'', JBool True), (''digest'', JStr digest)])
               else
                 (case applyJsonRedactionPointers (numberOf lib) v (preview_pointers descriptor dir)
                         ''TOOL_CALL_REDACTION_POINTER_INVALID'' of
                    Inl e \<Rightarrow> Inl e
                  | Inr pointerRedacted \<Rightarrow>
                      (let scrubbed = redactSensitivePayload DropKeys pointerRedacted;
                           doc = wrapped scrubbed
                       in case canonicalJsonString (jval_of doc) of
                            Inl e \<Rightarrow> Inl e
                          | Inr canonical \<Rightarrow>
                              if too_long canonical
                              then Inr (digest, JObj [(''redacted'', JBool True),
                                          (''truncated'', JBool True), (''digest'', JStr digest)])
                              else Inr (digest, canonical_value doc)))))"

definition deriveInputDigest :: "library \<Rightarrow> payload \<Rightarrow> string result" where
  "deriveInputDigest lib raw =
     (case buildPreview lib raw None InputSide of Inl e \<Rightarrow> Inl e | Inr (digest, _) \<Rightarrow> Inr digest)"

section \<open>Contexts\<close>

record legacy_context =
  lc_executionId :: string
  lc_workspaceId :: string
  lc_actorType :: "string option"
  lc_actorId :: "string option"
  lc_triggeredBy :: "string option"
  lc_source :: "string option"

datatype call_parent_context =
    AgentParent (agentExecutionId: string) (reactStepId: "string option")
  | FlowParent (flowExecutionId: string) (flowStepLogId: string) (flowVersionId: string) (flowNodeId: string)

record isolation_binding =
  ib_isolationBindingId :: string
  ib_isolationSnapshotHash :: string

record governed_context =
  gc_executionWorkspaceId :: string
  gc_sourceWorkspaceId :: string
  gc_mode :: string
  gc_isolationBinding :: "isolation_binding option"
  gc_releaseSetId :: string
  gc_actorType :: string
  gc_serviceIdentityId :: string
  gc_parent :: call_parent_context

datatype call_scope = Legacy legacy_context | Governed governed_context

record call_context =
  cc_scope :: call_scope
  cc_traceId :: "string option"
  cc_correlationId :: "string option"
  cc_timeoutMs :: int

record resolved_tool =
  rt_descriptorHash :: "string option"
  rt_exportDescriptor :: export_descriptor
  rt_functionRevisionId :: "string option"
  rt_publishedChecksum :: "string option"
  rt_runtimeProviderId :: "string option"

record begin_input =
  bi_id :: "string option"
  bi_toolName :: string
  bi_toolCategory :: string
  bi_input :: payload
  bi_context :: call_context
  bi_resolvedTool :: "resolved_tool option"

section \<open>Begin\<close>

definition governed_release :: "governed_context \<Rightarrow> resolved_tool \<Rightarrow> call_release" where
  "governed_release g tool =
     no_call_release\<lparr>cr_sourceWorkspaceId := Some (gc_sourceWorkspaceId g),
       cr_resolutionMode := Some (gc_mode g),
       cr_candidateIsolationBindingId := map_option ib_isolationBindingId (gc_isolationBinding g),
       cr_candidateIsolationSnapshotHash := map_option ib_isolationSnapshotHash (gc_isolationBinding g),
       cr_releaseSetId := Some (gc_releaseSetId g),
       cr_functionRevisionId := rt_functionRevisionId tool,
       cr_descriptorHash := rt_descriptorHash tool,
       cr_publishedChecksum := rt_publishedChecksum tool,
       cr_runtimeProviderId := rt_runtimeProviderId tool\<rparr>"

definition governed_parent :: "call_parent_context \<Rightarrow> call_parent" where
  "governed_parent p =
     (case p of
        AgentParent a s \<Rightarrow> no_call_parent\<lparr>cp_agentExecutionId := Some a, cp_stepId := s\<rparr>
      | FlowParent e l v n \<Rightarrow> no_call_parent\<lparr>cp_flowExecutionId := Some e, cp_flowStepLogId := Some l,
          cp_flowVersionId := Some v, cp_flowNodeId := Some n\<rparr>)"

text \<open>\<open>s || null\<close>.\<close>

definition non_empty_string :: "string \<Rightarrow> string option" where
  "non_empty_string s = (if s = [] then None else Some s)"

definition base_record ::
    "begin_input \<Rightarrow> string \<Rightarrow> int \<Rightarrow> string \<times> json \<Rightarrow> tool_call_record" where
  "base_record inp i startedAt preview =
     \<lparr>tc_id = i, tc_executionId = None, tc_workspaceId = None, tc_release = no_call_release,
      tc_parent = no_call_parent, tc_static = no_binding, tc_toolName = bi_toolName inp,
      tc_toolCategory = Some (bi_toolCategory inp), tc_traceId = cc_traceId (bi_context inp),
      tc_correlationId = (case cc_correlationId (bi_context inp) of
                            None \<Rightarrow> cc_traceId (bi_context inp) | Some c \<Rightarrow> Some c),
      tc_actorType = None, tc_actorId = None, tc_source = None,
      tc_input = Some (snd preview), tc_output = None, tc_status = Some STARTED,
      tc_leaseExpiresAt = Some (startedAt + max 1 (cc_timeoutMs (bi_context inp))),
      tc_lastHeartbeatAt = Some startedAt, tc_inputDigest = Some (fst preview),
      tc_outputDigest = None, tc_redactionApplied = Some True, tc_attempt = Some 0,
      tc_errorCode = None, tc_permissionCheck = None, tc_permissionDetail = None,
      tc_guardrailCheck = None, tc_guardrailRuleId = None, tc_durationMs = Some 0,
      tc_createdAt = startedAt\<rparr>"

definition scoped_record :: "begin_input \<Rightarrow> tool_call_record \<Rightarrow> tool_call_record" where
  "scoped_record inp base =
     (case (bi_resolvedTool inp, cc_scope (bi_context inp)) of
        (Some tool, Governed g) \<Rightarrow>
          base\<lparr>tc_workspaceId := Some (gc_executionWorkspaceId g), tc_release := governed_release g tool,
            tc_actorType := Some (gc_actorType g), tc_actorId := Some (gc_serviceIdentityId g),
            tc_source := Some ''agent_executable_tool'', tc_parent := governed_parent (gc_parent g)\<rparr>
      | (None, Legacy l) \<Rightarrow>
          base\<lparr>tc_executionId := non_empty_string (lc_executionId l),
            tc_workspaceId := Some (lc_workspaceId l),
            tc_parent := no_call_parent\<lparr>cp_agentExecutionId := non_empty_string (lc_executionId l)\<rparr>,
            tc_actorType := lc_actorType l,
            tc_actorId := (case lc_actorId l of None \<Rightarrow> lc_triggeredBy l | Some a \<Rightarrow> Some a),
            tc_source := lc_source l\<rparr>
      | _ \<Rightarrow> base)"

text \<open>\<open>save\<close>: an entity whose key exists replaces that row.\<close>

definition save_call :: "tool_call_record \<Rightarrow> unit act" where
  "save_call r = modify (\<lambda>w.
     if tc_id r \<in> tc_id ` set (tool_calls w)
     then w\<lparr>tool_calls := tb_update (\<lambda>x. tc_id x = tc_id r) (\<lambda>_. r) (tool_calls w)\<rparr>
     else w\<lparr>tool_calls := tb_insert r (tool_calls w)\<rparr>)"

definition context_matches :: "begin_input \<Rightarrow> bool" where
  "context_matches inp \<longleftrightarrow>
     (case (bi_resolvedTool inp, cc_scope (bi_context inp)) of
        (Some _, Governed _) \<Rightarrow> True
      | (None, Legacy _) \<Rightarrow> True
      | _ \<Rightarrow> False)"

definition begin_call :: "library \<Rightarrow> begin_input \<Rightarrow> tool_call_record act" where
  "begin_call lib inp =
     seqE (throw_if (\<not> context_matches inp) ''TOOL_CALL_RESOLUTION_CONTEXT_MISMATCH'')
    (bindE (lift_result (buildPreview lib (bi_input inp)
              (map_option rt_exportDescriptor (bi_resolvedTool inp)) InputSide)) (\<lambda>preview.
     bindE now (\<lambda>startedAt.
     bindE (case bi_id inp of Some i \<Rightarrow> ret i | None \<Rightarrow> fresh_id) (\<lambda>i.
     let row = scoped_record inp (base_record inp i startedAt preview)
     in seqE (save_call row) (ret row)))))"

section \<open>Transitions\<close>

definition status_in :: "tool_call_status list \<Rightarrow> tool_call_record \<Rightarrow> bool" where
  "status_in expected r \<longleftrightarrow> (case tc_status r of None \<Rightarrow> False | Some s \<Rightarrow> s \<in> set expected)"

definition transition_call ::
    "string \<Rightarrow> tool_call_status list \<Rightarrow> tool_call_status \<Rightarrow> (tool_call_record \<Rightarrow> tool_call_record) \<Rightarrow>
     unit act" where
  "transition_call i expected status patch =
     bindE (update_calls (\<lambda>r. tc_id r = i \<and> status_in expected r)
              (\<lambda>r. (patch r)\<lparr>tc_status := Some status\<rparr>)) (\<lambda>affected.
     throw_if (affected \<noteq> 1)
       (''TOOL_CALL_STATE_CONFLICT:'' @ i @ '':'' @ show_call_status status))"

definition running_patch :: "int \<Rightarrow> int \<Rightarrow> tool_call_record \<Rightarrow> tool_call_record" where
  "running_patch t timeoutMs r =
     r\<lparr>tc_lastHeartbeatAt := Some t, tc_leaseExpiresAt := Some (t + max 1 timeoutMs),
       tc_permissionCheck := Some ''passed'', tc_guardrailCheck := Some ''passed''\<rparr>"

definition markRunning :: "string \<Rightarrow> int \<Rightarrow> tool_call_status list option \<Rightarrow> unit act" where
  "markRunning i timeoutMs expected =
     bindE now (\<lambda>t. transition_call i (nullish expected [STARTED]) RUNNING (running_patch t timeoutMs))"

definition heartbeat :: "string \<Rightarrow> unit act" where
  "heartbeat i =
     bindE now (\<lambda>t.
     bindE (update_calls (\<lambda>r. tc_id r = i \<and> tc_status r = Some RUNNING
              \<and> (case tc_leaseExpiresAt r of None \<Rightarrow> False | Some lease \<Rightarrow> lease > t))
              (\<lambda>r. r\<lparr>tc_lastHeartbeatAt := Some t\<rparr>)) (\<lambda>affected.
     throw_if (affected \<noteq> 1) (''TOOL_CALL_HEARTBEAT_REJECTED:'' @ i)))"

datatype final_status = FinalSucceeded | FinalFailed | FinalCompletionUnknown

fun call_status_of :: "final_status \<Rightarrow> tool_call_status" where
  "call_status_of FinalSucceeded = SUCCEEDED"
| "call_status_of FinalFailed = FAILED"
| "call_status_of FinalCompletionUnknown = COMPLETION_UNKNOWN"

record finalize_input =
  fi_status :: final_status
  fi_output :: "payload option"
  fi_permissionCheck :: string
  fi_permissionDetail :: "string option"
  fi_guardrailCheck :: string
  fi_durationMs :: int
  fi_errorCode :: "string option"

definition final_patch ::
    "finalize_input \<Rightarrow> (string \<times> json) option \<Rightarrow> tool_call_record \<Rightarrow> tool_call_record" where
  "final_patch inp preview r =
     r\<lparr>tc_outputDigest := map_option fst preview, tc_output := map_option snd preview,
       tc_permissionCheck := Some (fi_permissionCheck inp),
       tc_permissionDetail := fi_permissionDetail inp,
       tc_guardrailCheck := Some (fi_guardrailCheck inp),
       tc_durationMs := Some (fi_durationMs inp), tc_errorCode := fi_errorCode inp,
       tc_leaseExpiresAt := None\<rparr>"

definition finalize ::
    "library \<Rightarrow> string \<Rightarrow> finalize_input \<Rightarrow> export_descriptor option \<Rightarrow> unit act" where
  "finalize lib i inp descriptor =
     bindE (case fi_output inp of
              None \<Rightarrow> ret None
            | Some output \<Rightarrow>
                bindE (lift_result (buildPreview lib output descriptor OutputSide)) (\<lambda>p. ret (Some p)))
       (\<lambda>preview. transition_call i [STARTED, RUNNING] (call_status_of (fi_status inp))
                    (final_patch inp preview))"

section \<open>Static connectors\<close>

definition is_lower_hex :: "char \<Rightarrow> bool" where
  "is_lower_hex c \<longleftrightarrow> is_digit c \<or> 97 \<le> code_of c \<and> code_of c \<le> 102"

text \<open>\<open>/^sha256:[0-9a-f]{64}$/\<close> and \<open>/^[1-9][0-9]*$/\<close>.\<close>

definition is_sha256_digest :: "string \<Rightarrow> bool" where
  "is_sha256_digest s \<longleftrightarrow> take 7 s = ''sha256:'' \<and> length s = 71 \<and> list_all is_lower_hex (drop 7 s)"

definition is_generation :: "string \<Rightarrow> bool" where
  "is_generation s \<longleftrightarrow>
     (case s of [] \<Rightarrow> False | c # cs \<Rightarrow> is_digit c \<and> c \<noteq> CHR ''0'' \<and> list_all is_digit cs)"

record binding_snapshot =
  bs_workspaceId :: string
  bs_toolCallId :: string
  bs_agentExecutionId :: string
  bs_staticToolCode :: string
  bs_revisionId :: string
  bs_checksum :: string
  bs_generation :: string

definition snapshot_where :: "binding_snapshot \<Rightarrow> tool_call_record \<Rightarrow> bool" where
  "snapshot_where inp r \<longleftrightarrow> tc_id r = bs_toolCallId inp \<and> tc_workspaceId r = Some (bs_workspaceId inp)
     \<and> cp_agentExecutionId (tc_parent r) = Some (bs_agentExecutionId inp)"

definition assertStaticBindingSnapshot :: "tool_call_record \<Rightarrow> binding_snapshot \<Rightarrow> unit act" where
  "assertStaticBindingSnapshot r inp =
     throw_if (sb_revisionId (tc_static r) \<noteq> Some (bs_revisionId inp)
         \<or> sb_checksum (tc_static r) \<noteq> Some (bs_checksum inp)
         \<or> nullish (sb_generation (tc_static r)) ''null'' \<noteq> bs_generation inp)
       ''STATIC_CONNECTOR_BINDING_SNAPSHOT_CONFLICT''"

definition bind_patch :: "binding_snapshot \<Rightarrow> tool_call_record \<Rightarrow> tool_call_record" where
  "bind_patch inp r =
     r\<lparr>tc_static := (tc_static r)\<lparr>sb_revisionId := Some (bs_revisionId inp),
         sb_checksum := Some (bs_checksum inp), sb_generation := Some (bs_generation inp)\<rparr>\<rparr>"

definition bindStaticConnectorSnapshot :: "binding_snapshot \<Rightarrow> tool_call_record act" where
  "bindStaticConnectorSnapshot inp =
     seqE (throw_if (\<not> is_sha256_digest (bs_checksum inp) \<or> \<not> is_generation (bs_generation inp))
             ''STATIC_CONNECTOR_BINDING_SNAPSHOT_INVALID'')
    (bindE (reads (\<lambda>w. tb_find (snapshot_where inp) (tool_calls w))) (\<lambda>found.
     bindE (of_option ''STATIC_CONNECTOR_TOOL_CALL_NOT_PREPARABLE'' found) (\<lambda>current.
     seqE (throw_if (tc_toolName current \<noteq> bs_staticToolCode inp \<or> tc_status current \<noteq> Some STARTED)
             ''STATIC_CONNECTOR_TOOL_CALL_NOT_PREPARABLE'')
    (if truthy (sb_revisionId (tc_static current))
     then seqE (assertStaticBindingSnapshot current inp) (ret current)
     else
       bindE (update_calls (\<lambda>r. snapshot_where inp r \<and> tc_status r = Some STARTED
                \<and> sb_revisionId (tc_static r) = None) (bind_patch inp)) (\<lambda>affected.
       bindE (reads (\<lambda>w. tb_find (snapshot_where inp) (tool_calls w))) (\<lambda>found'.
       bindE (of_option ''STATIC_CONNECTOR_BINDING_SNAPSHOT_CONFLICT'' found') (\<lambda>persisted.
       seqE (throw_if (affected = 0 \<and> \<not> truthy (sb_revisionId (tc_static persisted)))
               ''STATIC_CONNECTOR_BINDING_SNAPSHOT_CONFLICT'')
       (seqE (assertStaticBindingSnapshot persisted inp) (ret persisted)))))))))"

definition subcall_patch :: "string \<Rightarrow> tool_call_record \<Rightarrow> tool_call_record" where
  "subcall_patch digest r =
     r\<lparr>tc_static := (tc_static r)\<lparr>sb_subcallOrdinal := Some 1, sb_requestDigest := Some digest\<rparr>\<rparr>"

definition allocateSubcallOrdinal :: "string \<Rightarrow> string \<Rightarrow> string \<Rightarrow> int act" where
  "allocateSubcallOrdinal toolCallId kind requestDigest =
     seqE (throw_if (kind \<noteq> ''static_connector'' \<or> \<not> is_sha256_digest requestDigest)
             ''STATIC_CONNECTOR_SUBCALL_INVALID'')
    (bindE (reads (\<lambda>w. tb_find (\<lambda>r. tc_id r = toolCallId) (tool_calls w))) (\<lambda>found.
     bindE (of_option ''STATIC_CONNECTOR_TOOL_CALL_NOT_RUNNING'' found) (\<lambda>current.
     seqE (throw_if (tc_status current \<noteq> Some RUNNING) ''STATIC_CONNECTOR_TOOL_CALL_NOT_RUNNING'')
    (if sb_subcallOrdinal (tc_static current) \<noteq> None
     then seqE (throw_if (sb_subcallOrdinal (tc_static current) \<noteq> Some 1
                  \<or> sb_requestDigest (tc_static current) \<noteq> Some requestDigest)
                  ''STATIC_CONNECTOR_SUBCALL_CONFLICT'') (ret 1)
     else
       seqE (update_calls (\<lambda>r. tc_id r = toolCallId \<and> tc_status r = Some RUNNING
               \<and> sb_subcallOrdinal (tc_static r) = None) (subcall_patch requestDigest))
      (bindE (reads (\<lambda>w. tb_find (\<lambda>r. tc_id r = toolCallId) (tool_calls w))) (\<lambda>found'.
       bindE (of_option ''STATIC_CONNECTOR_SUBCALL_CONFLICT'' found') (\<lambda>persisted.
       seqE (throw_if (sb_subcallOrdinal (tc_static persisted) \<noteq> Some 1
               \<or> sb_requestDigest (tc_static persisted) \<noteq> Some requestDigest)
               ''STATIC_CONNECTOR_SUBCALL_CONFLICT'') (ret 1))))))))"

section \<open>Resuming approved calls\<close>

record approval_grant =
  ag_toolName :: string
  ag_approvalInstanceId :: string
  ag_toolCallId :: "string option"
  ag_inputDigest :: "string option"
  ag_releaseSetId :: "string option"
  ag_publishedChecksum :: "string option"

record resume_input =
  ri_toolName :: string
  ri_input :: payload
  ri_context :: governed_context
  ri_resolvedTool :: resolved_tool
  ri_grant :: approval_grant

text \<open>\<open>row !== tool\<close> for a nullable column and an optional property: \<open>null\<close> differs from \<open>undefined\<close>.\<close>

definition differs :: "string option \<Rightarrow> string option \<Rightarrow> bool" where
  "differs column property \<longleftrightarrow>
     (case (column, property) of (Some x, Some y) \<Rightarrow> x \<noteq> y | _ \<Rightarrow> True)"

definition resumeApproved :: "library \<Rightarrow> resume_input \<Rightarrow> tool_call_record act" where
  "resumeApproved lib inp =
     (let g = ri_grant inp; tool = ri_resolvedTool inp; ctx = ri_context inp in
     seqE (throw_if (ag_toolName g \<noteq> ri_toolName inp \<or> ag_approvalInstanceId g = []
              \<or> \<not> truthy (ag_toolCallId g) \<or> \<not> truthy (ag_inputDigest g)
              \<or> \<not> truthy (ag_releaseSetId g) \<or> \<not> truthy (ag_publishedChecksum g))
             ''TOOL_APPROVAL_GRANT_INVALID'')
    (bindE (lift_result (buildPreview lib (ri_input inp) (Some (rt_exportDescriptor tool)) InputSide)) (\<lambda>p.
     seqE (throw_if (Some (fst p) \<noteq> ag_inputDigest g
              \<or> ag_releaseSetId g \<noteq> Some (gc_releaseSetId ctx)
              \<or> ag_publishedChecksum g \<noteq> rt_publishedChecksum tool)
             ''TOOL_APPROVAL_GRANT_MISMATCH'')
    (bindE (reads (\<lambda>w. tb_find (\<lambda>r. Some (tc_id r) = ag_toolCallId g
              \<and> tc_workspaceId r = Some (gc_executionWorkspaceId ctx)
              \<and> status_in [REQUIRES_APPROVAL, RUNNING] r) (tool_calls w))) (\<lambda>found.
     bindE (of_option ''TOOL_APPROVAL_TOOL_CALL_NOT_FOUND'' found) (\<lambda>row.
     seqE (throw_if (tc_toolName row \<noteq> ri_toolName inp
              \<or> tc_inputDigest row \<noteq> ag_inputDigest g
              \<or> cr_sourceWorkspaceId (tc_release row) \<noteq> Some (gc_sourceWorkspaceId ctx)
              \<or> cr_releaseSetId (tc_release row) \<noteq> ag_releaseSetId g
              \<or> differs (cr_functionRevisionId (tc_release row)) (rt_functionRevisionId tool)
              \<or> differs (cr_descriptorHash (tc_release row)) (rt_descriptorHash tool)
              \<or> cr_publishedChecksum (tc_release row) \<noteq> ag_publishedChecksum g
              \<or> differs (cr_runtimeProviderId (tc_release row)) (rt_runtimeProviderId tool))
             ''TOOL_APPROVAL_TOOL_CALL_MISMATCH'')
     (ret row)))))))"

record static_resume_input =
  sr_toolName :: string
  sr_input :: payload
  sr_workspaceId :: string
  sr_grant :: approval_grant

definition resumeApprovedStatic :: "library \<Rightarrow> static_resume_input \<Rightarrow> tool_call_record act" where
  "resumeApprovedStatic lib inp =
     (let g = sr_grant inp in
     seqE (throw_if (ag_toolName g \<noteq> sr_toolName inp \<or> ag_approvalInstanceId g = []
              \<or> \<not> truthy (ag_toolCallId g) \<or> \<not> truthy (ag_inputDigest g))
             ''TOOL_APPROVAL_GRANT_INVALID'')
    (bindE (lift_result (buildPreview lib (sr_input inp) None InputSide)) (\<lambda>p.
     seqE (throw_if (Some (fst p) \<noteq> ag_inputDigest g) ''TOOL_APPROVAL_GRANT_MISMATCH'')
    (bindE (reads (\<lambda>w. tb_find (\<lambda>r. Some (tc_id r) = ag_toolCallId g
              \<and> tc_workspaceId r = Some (sr_workspaceId inp) \<and> tc_toolName r = sr_toolName inp
              \<and> status_in [REQUIRES_APPROVAL, RUNNING] r) (tool_calls w))) (\<lambda>found.
     bindE (of_option ''TOOL_APPROVAL_TOOL_CALL_MISMATCH'' found) (\<lambda>row.
     seqE (throw_if (tc_inputDigest row \<noteq> ag_inputDigest g
              \<or> \<not> truthy (sb_revisionId (tc_static row))
              \<or> \<not> truthy (sb_checksum (tc_static row))
              \<or> \<not> truthy (sb_generation (tc_static row)))
             ''TOOL_APPROVAL_TOOL_CALL_MISMATCH'')
     (ret row)))))))"

section \<open>How rows evolve\<close>

definition terminal_status :: "tool_call_status \<Rightarrow> bool" where
  "terminal_status s \<longleftrightarrow> s \<in> {DENIED, BLOCKED, SUCCEEDED, FAILED, COMPLETION_UNKNOWN}"

definition terminal_call :: "tool_call_record \<Rightarrow> bool" where
  "terminal_call r \<longleftrightarrow> (case tc_status r of None \<Rightarrow> False | Some s \<Rightarrow> terminal_status s)"

text \<open>What a row records of the call itself, and never changes.\<close>

definition call_identity :: "tool_call_record \<Rightarrow>
    string \<times> string option \<times> string option \<times> call_release \<times> call_parent \<times> string \<times> string option
    \<times> json option \<times> int" where
  "call_identity r = (tc_id r, tc_executionId r, tc_workspaceId r, tc_release r, tc_parent r,
     tc_toolName r, tc_inputDigest r, tc_input r, tc_createdAt r)"

definition row_evolves :: "tool_call_record \<Rightarrow> tool_call_record \<Rightarrow> bool" where
  "row_evolves r r' \<longleftrightarrow> call_identity r' = call_identity r \<and> (terminal_call r \<longrightarrow> r' = r)"

definition calls_ok :: "world \<Rightarrow> bool" where
  "calls_ok w \<longleftrightarrow> inj (uuid_of w) \<and> keyed tc_id (tool_calls w) \<and> tc_id ` set (tool_calls w) \<subseteq> issued w"

definition calls_kept :: "world \<Rightarrow> world \<Rightarrow> bool" where
  "calls_kept w w' \<longleftrightarrow> (calls_ok w \<longrightarrow>
     calls_ok w' \<and> (\<forall>r\<in>set (tool_calls w). \<exists>r'\<in>set (tool_calls w'). row_evolves r r'))"

lemma row_evolves_refl: "row_evolves r r"
  by (simp add: row_evolves_def)

lemma row_evolves_trans: "row_evolves a b \<Longrightarrow> row_evolves b c \<Longrightarrow> row_evolves a c"
  by (auto simp: row_evolves_def)

interpretation kept: state_preorder calls_kept
proof
  show "calls_kept w w" for w by (auto simp: calls_kept_def intro: row_evolves_refl)
  show "calls_kept u v \<Longrightarrow> calls_kept v w \<Longrightarrow> calls_kept u w" for u v w
    unfolding calls_kept_def by (metis row_evolves_trans)
qed

lemma calls_ok_same: "tool_calls w' = tool_calls w \<Longrightarrow> uuid_of w' = uuid_of w \<Longrightarrow>
    next_uuid w \<le> next_uuid w' \<Longrightarrow> calls_ok w \<Longrightarrow> calls_ok w'"
  by (auto simp: calls_ok_def issued_def)

lemma kept_same: "tool_calls w' = tool_calls w \<Longrightarrow> uuid_of w' = uuid_of w \<Longrightarrow>
    next_uuid w \<le> next_uuid w' \<Longrightarrow> calls_kept w w'"
  using calls_ok_same [of w' w] by (auto simp: calls_kept_def intro: row_evolves_refl)

lemma kept_now: "steps_in calls_kept now"
  by (rule steps_inI) (auto simp: now_apply intro!: kept_same)

lemma kept_fresh_id: "steps_in calls_kept fresh_id"
  by (rule steps_inI) (auto simp: fresh_id_apply intro!: kept_same)

lemma kept_update_calls:
  assumes "\<And>r. P r \<Longrightarrow> \<not> terminal_call r" "\<And>r. call_identity (f r) = call_identity r"
  shows "steps_in calls_kept (update_calls P f)"
proof (rule steps_inI)
  fix w r w' assume "update_calls P f w = (r, w')"
  then have w': "w' = w\<lparr>tool_calls := tb_update P f (tool_calls w)\<rparr>" by (simp add: update_calls_apply)
  have ids: "tc_id (f r) = tc_id r" for r using assms(2) [of r] by (simp add: call_identity_def)
  have step: "row_evolves r (if P r then f r else r)" for r
    using assms by (auto simp: row_evolves_def)
  show "calls_kept w w'"
    unfolding calls_kept_def
  proof (intro impI conjI ballI)
    assume ok: "calls_ok w"
    have "tc_id ` set (tb_update P f (tool_calls w)) = tc_id ` set (tool_calls w)"
      by (metis list.set_map map_pk_update ids)
    then show "calls_ok w'"
      using ok keyed_update [of tc_id f, OF ids] by (simp add: w' calls_ok_def issued_def)
  next
    fix r assume "r \<in> set (tool_calls w)"
    then have "(if P r then f r else r) \<in> set (tool_calls w')" by (simp add: w' set_tb_update)
    then show "\<exists>r'\<in>set (tool_calls w'). row_evolves r r'" using step by blast
  qed
qed

lemma kept_transition:
  assumes "\<forall>s\<in>set expected. \<not> terminal_status s" "\<And>r. call_identity (patch r) = call_identity r"
  shows "steps_in calls_kept (transition_call i expected s patch)"
proof -
  have "call_identity ((patch r)\<lparr>tc_status := x\<rparr>) = call_identity r" for r x
    using assms(2) [of r] by (simp add: call_identity_def)
  then show ?thesis
    unfolding transition_call_def using assms(1)
    by (intro kept.in_bindE kept.in_throw_if kept_update_calls)
      (auto simp: status_in_def terminal_call_def split: option.splits)
qed

text \<open>A new row, under the identifier the source of identifiers just issued.\<close>

lemma base_identity: "tc_id (scoped_record inp (base_record inp i t p)) = i"
  by (auto simp: scoped_record_def base_record_def split: option.splits call_scope.splits)

lemma kept_insert_fresh:
  "steps_in calls_kept (bindE fresh_id (\<lambda>i. seqE (save_call (row i)) (ret (row i))))"
  if row: "\<And>i. tc_id (row i) = i"
proof (rule steps_inI)
  fix w r w' assume run: "bindE fresh_id (\<lambda>i. seqE (save_call (row i)) (ret (row i))) w = (r, w')"
  let ?i = "uuid_of w (next_uuid w)"
  show "calls_kept w w'"
    unfolding calls_kept_def
  proof
    assume ok: "calls_ok w"
    then have new: "?i \<notin> tc_id ` set (tool_calls w)"
      using fresh_not_issued by (auto simp: calls_ok_def)
    then have "w' = w\<lparr>next_uuid := Suc (next_uuid w), tool_calls := tb_insert (row ?i) (tool_calls w)\<rparr>"
      using run by (auto simp: eff_simps save_call_def row)
    then show "calls_ok w' \<and> (\<forall>r\<in>set (tool_calls w). \<exists>r'\<in>set (tool_calls w'). row_evolves r r')"
      using ok new keyed_insert [of tc_id "tool_calls w" "row ?i"] row_evolves_refl
      by (auto simp: calls_ok_def issued_def tb_insert_def row lessThan_Suc image_subset_iff)
  qed
qed

lemma kept_begin:
  assumes "bi_id inp = None"
  shows "steps_in calls_kept (begin_call lib inp)"
  unfolding begin_call_def Let_def assms
  by (simp only: option.case)
    (intro kept.in_seqE kept.in_bindE kept.in_throw_if kept.in_lift_result kept_now
      kept_insert_fresh base_identity)

lemma running_patch_identity: "call_identity (running_patch t n r) = call_identity r"
  by (simp add: running_patch_def call_identity_def)

lemma final_patch_identity: "call_identity (final_patch inp p r) = call_identity r"
  by (simp add: final_patch_def call_identity_def)

lemma kept_finalize: "steps_in calls_kept (finalize lib i inp d)"
  unfolding finalize_def
  by (intro kept.in_bindE kept.in_case_option kept.in_ret kept.in_lift_result kept_transition
      final_patch_identity) (auto simp: terminal_status_def)

lemma kept_markRunning:
  "(\<forall>s\<in>set (nullish e [STARTED]). \<not> terminal_status s) \<Longrightarrow> steps_in calls_kept (markRunning i n e)"
  unfolding markRunning_def
  by (intro kept.in_bindE kept_now kept_transition running_patch_identity) auto

lemma kept_heartbeat: "steps_in calls_kept (heartbeat i)"
  unfolding heartbeat_def
  by (intro kept.in_bindE kept_now kept.in_throw_if kept_update_calls)
    (auto simp: terminal_call_def terminal_status_def call_identity_def)

lemma kept_bind: "steps_in calls_kept (bindStaticConnectorSnapshot inp)"
  unfolding bindStaticConnectorSnapshot_def assertStaticBindingSnapshot_def
  by (intro kept.in_rules kept_update_calls)
    (auto simp: terminal_call_def terminal_status_def call_identity_def bind_patch_def)

lemma kept_allocate: "steps_in calls_kept (allocateSubcallOrdinal i k d)"
  unfolding allocateSubcallOrdinal_def
  by (intro kept.in_rules kept_update_calls)
    (auto simp: terminal_call_def terminal_status_def call_identity_def subcall_patch_def)

section \<open>Sequences of operations\<close>

datatype lifecycle_op =
    OpBegin begin_input
  | OpTransition string "tool_call_status list" tool_call_status "string option" "string option"
      "string option"
  | OpMarkRunning string int
  | OpHeartbeat string
  | OpFinalize string finalize_input "export_descriptor option"
  | OpBind binding_snapshot
  | OpAllocate string string

text \<open>The patch of a verdict: permission check, guardrail check, error code.\<close>

definition verdict_patch ::
    "string option \<Rightarrow> string option \<Rightarrow> string option \<Rightarrow> tool_call_record \<Rightarrow> tool_call_record" where
  "verdict_patch perm guard err r =
     r\<lparr>tc_permissionCheck := perm, tc_guardrailCheck := guard, tc_errorCode := err\<rparr>"

fun run_op :: "library \<Rightarrow> lifecycle_op \<Rightarrow> unit act" where
  "run_op lib (OpBegin inp) = seqE (begin_call lib inp) (ret ())"
| "run_op lib (OpTransition i e s perm guard err) = transition_call i e s (verdict_patch perm guard err)"
| "run_op lib (OpMarkRunning i n) = markRunning i n None"
| "run_op lib (OpHeartbeat i) = heartbeat i"
| "run_op lib (OpFinalize i inp d) = finalize lib i inp d"
| "run_op lib (OpBind inp) = seqE (bindStaticConnectorSnapshot inp) (ret ())"
| "run_op lib (OpAllocate i d) = seqE (allocateSubcallOrdinal i ''static_connector'' d) (ret ())"

text \<open>
  As the code calls them: the source issues the identifier, and no transition expects a terminal
  status.
\<close>

fun regular_op :: "lifecycle_op \<Rightarrow> bool" where
  "regular_op (OpBegin inp) = (bi_id inp = None)"
| "regular_op (OpTransition i e s perm guard err) = list_all (\<lambda>x. \<not> terminal_status x) e"
| "regular_op _ = True"

text \<open>A history of operations, each of which may throw.\<close>

fun run_ops :: "library \<Rightarrow> lifecycle_op list \<Rightarrow> world \<Rightarrow> world" where
  "run_ops lib [] w = w"
| "run_ops lib (x # xs) w = run_ops lib xs (snd (run_op lib x w))"

lemma verdict_patch_identity: "call_identity (verdict_patch a b c r) = call_identity r"
  by (simp add: verdict_patch_def call_identity_def)

lemma kept_run_op: "regular_op x \<Longrightarrow> steps_in calls_kept (run_op lib x)"
proof (cases x)
  case (OpTransition i e s perm guard err)
  assume "regular_op x"
  then have "\<forall>x\<in>set e. \<not> terminal_status x" by (simp add: OpTransition list_all_iff)
  then show ?thesis
    unfolding OpTransition run_op.simps by (rule kept_transition) (rule verdict_patch_identity)
next
  case (OpMarkRunning i n)
  show ?thesis
    unfolding OpMarkRunning run_op.simps by (rule kept_markRunning) (simp add: terminal_status_def)
qed (simp_all add: kept.in_seqE kept.in_ret kept_begin kept_heartbeat kept_finalize kept_bind kept_allocate)

lemma kept_run_ops: "list_all regular_op xs \<Longrightarrow> calls_kept w (run_ops lib xs w)"
proof (induction xs arbitrary: w)
  case (Cons x xs)
  have "calls_kept w (snd (run_op lib x w))"
    using Cons.prems kept_run_op [of x lib] by (auto simp: steps_in_def)
  then show ?case using Cons kept.R_trans by auto
qed (simp add: kept.R_refl)

section \<open>Compare and set\<close>

lemma cas_affected:
  assumes "keyed tc_id (tool_calls w)"
  shows "tb_affected (\<lambda>r. tc_id r = i \<and> P r) (tool_calls w)
    = (if \<exists>r\<in>set (tool_calls w). tc_id r = i \<and> P r then 1 else 0)"
proof (cases "\<exists>r\<in>set (tool_calls w). tc_id r = i \<and> P r")
  case True
  then show ?thesis
    using keyed_affected_1_iff [OF assms, of "\<lambda>r. tc_id r = i \<and> P r" i] by simp
next
  case False
  then show ?thesis by (auto simp: tb_affected_def filter_empty_conv)
qed

lemma tb_update_unchanged: "(\<And>r. r \<in> set tb \<Longrightarrow> \<not> P r) \<Longrightarrow> tb_update P f tb = tb"
  by (auto simp: tb_update_def intro: map_idI)

lemma tb_update_key:
  assumes "keyed k tb" "r \<in> set tb" "k r = i" "P r"
  shows "tb_update (\<lambda>x. k x = i \<and> P x) f tb = tb_update (\<lambda>x. k x = i) f tb"
  using assms unfolding tb_update_def keyed_def
  by (intro map_cong) (auto simp: distinct_map inj_on_def)

lemma transition_call_outcome:
  assumes "keyed tc_id (tool_calls w)"
  shows "transition_call i expected s patch w =
    (if \<exists>r\<in>set (tool_calls w). tc_id r = i \<and> status_in expected r
     then (Inr (), w\<lparr>tool_calls := tb_update (\<lambda>r. tc_id r = i)
                        (\<lambda>r. (patch r)\<lparr>tc_status := Some s\<rparr>) (tool_calls w)\<rparr>)
     else (Inl (''TOOL_CALL_STATE_CONFLICT:'' @ i @ '':'' @ show_call_status s), w))"
proof (cases "\<exists>r\<in>set (tool_calls w). tc_id r = i \<and> status_in expected r")
  case True
  then obtain r where "r \<in> set (tool_calls w)" "tc_id r = i" "status_in expected r" by blast
  then show ?thesis
    using tb_update_key [OF assms, of r i "status_in expected"] True
    by (auto simp: transition_call_def eff_simps cas_affected [OF assms])
next
  case False
  then have "tb_update (\<lambda>r. tc_id r = i \<and> status_in expected r) f (tool_calls w) = tool_calls w" for f
    by (intro tb_update_unchanged) blast
  then show ?thesis
    unfolding if_not_P [OF False]
    by (simp add: transition_call_def eff_simps cas_affected [OF assms] if_not_P [OF False])
qed

text \<open>
  Transitions of a tool call are compare-and-set: when the row exists in one of the expected
  statuses, that row and no other gets the patch and the new status; otherwise the transition throws
  a conflict naming the row and the status, and nothing changes.
\<close>

theorem transition_compare_and_set:
  assumes "keyed tc_id (tool_calls w)"
  shows "transition_call i expected s patch w =
    (case tb_find (\<lambda>r. tc_id r = i) (tool_calls w) of
       Some r \<Rightarrow>
         if status_in expected r
         then (Inr (), w\<lparr>tool_calls := map (\<lambda>x. if tc_id x = i then (patch x)\<lparr>tc_status := Some s\<rparr> else x)
                           (tool_calls w)\<rparr>)
         else (Inl (''TOOL_CALL_STATE_CONFLICT:'' @ i @ '':'' @ show_call_status s), w)
     | None \<Rightarrow> (Inl (''TOOL_CALL_STATE_CONFLICT:'' @ i @ '':'' @ show_call_status s), w))"
proof (cases "tb_find (\<lambda>r. tc_id r = i) (tool_calls w)")
  case None
  then have "\<not> (\<exists>r\<in>set (tool_calls w). tc_id r = i \<and> status_in expected r)"
    by (auto simp: tb_find_None_iff)
  then show ?thesis unfolding transition_call_outcome [OF assms] None option.case by (rule if_not_P)
next
  case (Some r)
  then have r: "r \<in> set (tool_calls w)" "tc_id r = i" using tb_find_SomeD by fastforce+
  then have "(\<exists>x\<in>set (tool_calls w). tc_id x = i \<and> status_in expected x) \<longleftrightarrow> status_in expected r"
    using keyed_find_unique [OF assms] Some by (metis option.inject)
  then show ?thesis unfolding transition_call_outcome [OF assms] Some option.case tb_update_def by simp
qed

definition sample_begin :: "string \<Rightarrow> begin_input" where
  "sample_begin tool =
     \<lparr>bi_id = None, bi_toolName = tool, bi_toolCategory = ''crm'', bi_input = Json (JObj []),
      bi_context = \<lparr>cc_scope = Legacy \<lparr>lc_executionId = ''e'', lc_workspaceId = ''ws'',
          lc_actorType = None, lc_actorId = None, lc_triggeredBy = None, lc_source = None\<rparr>,
        cc_traceId = None, cc_correlationId = None, cc_timeoutMs = 1000\<rparr>,
      bi_resolvedTool = None\<rparr>"

definition sample_library :: library where
  "sample_library = \<lparr>sha256Hex = (\<lambda>_. ''00''), numberOf = (\<lambda>_. None)\<rparr>"

definition sample_row :: "string \<Rightarrow> tool_call_status \<Rightarrow> tool_call_record" where
  "sample_row i s = (base_record (sample_begin ''t'') i 0 (''d'', JObj []))\<lparr>tc_status := Some s\<rparr>"

definition sample_calls :: "tool_call_record list \<Rightarrow> world" where
  "sample_calls rs = (empty_world [] None)\<lparr>tool_calls := rs, next_uuid := length rs\<rparr>"

lemma transition_compare_and_set_witness:
  "transition_call ''id-0'' [STARTED] DENIED (\<lambda>r. r) (sample_calls [sample_row ''id-0'' STARTED])
     = (Inr (), sample_calls [sample_row ''id-0'' DENIED])"
proof -
  have "keyed tc_id (tool_calls (sample_calls [sample_row ''id-0'' STARTED]))"
    by (simp add: keyed_def sample_calls_def)
  then show ?thesis
    by (subst transition_compare_and_set) (simp_all add: sample_calls_def sample_row_def
        base_record_def tb_find_def status_in_def)
qed



text \<open>Closing a call twice.\<close>

lemma finalize_closes:
  assumes ok: "keyed tc_id (tool_calls w)" and run: "finalize lib i inp d w = (Inr (), w')"
  shows "keyed tc_id (tool_calls w')"
    and "\<not> (\<exists>r\<in>set (tool_calls w'). tc_id r = i \<and> status_in [STARTED, RUNNING] r)"
proof -
  obtain p where step: "transition_call i [STARTED, RUNNING] (call_status_of (fi_status inp))
      (final_patch inp p) w = (Inr (), w')"
    using run by (auto simp: finalize_def bindE_apply ret_apply lift_result_apply
        split: option.splits sum.splits)
  then have w': "w' = w\<lparr>tool_calls := tb_update (\<lambda>r. tc_id r = i)
      (\<lambda>r. (final_patch inp p r)\<lparr>tc_status := Some (call_status_of (fi_status inp))\<rparr>) (tool_calls w)\<rparr>"
    unfolding transition_call_outcome [OF ok] by (auto split: if_splits)
  show "keyed tc_id (tool_calls w')"
    unfolding w' using keyed_update [OF _ ok] by (simp add: final_patch_def)
  have "call_status_of x \<notin> {STARTED, RUNNING}" for x by (cases x) simp_all
  then show "\<not> (\<exists>r\<in>set (tool_calls w'). tc_id r = i \<and> status_in [STARTED, RUNNING] r)"
    by (auto simp: w' set_tb_update status_in_def)
qed

lemma finalize_closed:
  assumes "keyed tc_id (tool_calls w)"
    and "\<not> (\<exists>r\<in>set (tool_calls w). tc_id r = i \<and> status_in [STARTED, RUNNING] r)"
  shows "\<exists>e. finalize lib i inp d w = (Inl e, w)"
proof (cases "fi_output inp")
  case None
  then show ?thesis
    using transition_call_outcome [OF assms(1)] assms(2) by (simp add: finalize_def eff_simps)
next
  case (Some out)
  then show ?thesis
    using transition_call_outcome [OF assms(1)] assms(2)
    by (cases "buildPreview lib out d OutputSide") (simp_all add: finalize_def eff_simps)
qed

text \<open>
  A tool call is finalized at most once: after a successful finalization, finalizing the same
  call again throws and changes nothing, whatever outcome the second report carries.
\<close>

theorem finalize_at_most_once:
  assumes "keyed tc_id (tool_calls w)" "finalize lib i inp d w = (Inr (), w')"
  shows "\<exists>e. finalize lib i inp' d' w' = (Inl e, w')"
  using finalize_closed [OF finalize_closes [OF assms]] by blast

definition sample_final :: finalize_input where
  "sample_final = \<lparr>fi_status = FinalSucceeded, fi_output = None, fi_permissionCheck = ''passed'',
     fi_permissionDetail = None, fi_guardrailCheck = ''passed'', fi_durationMs = 5, fi_errorCode = None\<rparr>"

lemma finalize_at_most_once_witness:
  "\<exists>e. finalize sample_library ''id-0'' sample_final None
          (snd (finalize sample_library ''id-0'' sample_final None (sample_calls [sample_row ''id-0'' STARTED])))
        = (Inl e, snd (finalize sample_library ''id-0'' sample_final None
                    (sample_calls [sample_row ''id-0'' STARTED])))"
proof -
  let ?w = "sample_calls [sample_row ''id-0'' STARTED]"
  have k: "keyed tc_id (tool_calls ?w)" by (simp add: keyed_def sample_calls_def)
  have "fst (finalize sample_library ''id-0'' sample_final None ?w) = Inr ()"
    by (simp add: finalize_def sample_final_def eff_simps transition_call_def sample_calls_def
        tb_affected_def status_in_def sample_row_def base_record_def)
  then have "finalize sample_library ''id-0'' sample_final None ?w
      = (Inr (), snd (finalize sample_library ''id-0'' sample_final None ?w))"
    by (metis prod.collapse)
  then show ?thesis using finalize_at_most_once [OF k] by blast
qed

subsection \<open>Bounded, scrubbed previews\<close>

lemma set_all_keys: "set (all_keys (JObj ps)) = (\<Union>p\<in>set ps. insert (fst p) (set (all_keys (snd p))))"
  by (simp add: case_prod_beta)

lemma keys_canonical_value: "set (all_keys (canonical_value v)) = set (all_keys v)"
proof (induction v rule: canonical_value.induct)
  case (1 vs)
  then show ?case by simp
next
  case (2 ps)
  have "set (all_keys (canonical_value (JObj ps)))
      = (\<Union>p\<in>set ps. insert (fst p) (set (all_keys (canonical_value (snd p)))))"
    unfolding canonical_value.simps set_all_keys by (simp add: case_prod_beta)
  also have "\<dots> = set (all_keys (JObj ps))"
    unfolding set_all_keys
  proof (rule SUP_cong [OF refl])
    fix p assume "p \<in> set ps"
    then show "insert (fst p) (set (all_keys (canonical_value (snd p))))
        = insert (fst p) (set (all_keys (snd p)))"
      using "2.IH" [of p "fst p" "snd p"] by simp
  qed
  finally show ?case .
qed simp_all

lemma members_map_Some: "defined_members (map (\<lambda>(k, v). (f k, Some (g v))) ps) = map (\<lambda>(k, v). (f k, g v)) ps"
  by (induction ps) (auto simp: defined_members_def)

lemma sort_units: "sort_key fst (map (\<lambda>(k, v). (units_of k, g v)) ps)
    = map (\<lambda>(k, v). (units_of k, g v)) (sort_key (\<lambda>p. units_of (fst p)) ps)"
proof -
  have ins: "insort_key fst (units_of k, g v) (map (\<lambda>(k, v). (units_of k, g v)) qs)
      = map (\<lambda>(k, v). (units_of k, g v)) (insort_key (\<lambda>p. units_of (fst p)) (k, v) qs)" for k v qs
    by (induction qs) auto
  show ?thesis by (induction ps) (auto simp: ins sort_key_def)
qed

lemma text_of_object: "canonicalJsonString (jval_of (JObj ps)) =
    braced (CHR ''{'') (CHR ''}'') (collect (map (\<lambda>p. case canonicalJsonString (jval_of (snd p)) of
        Inl e \<Rightarrow> Inl e | Inr t \<Rightarrow> Inr (serializeString (units_of (fst p)) @ CHR '':'' # t))
      (sort_key (\<lambda>p. units_of (fst p)) ps)))"
  by (simp add: sort_units members_map_Some o_def case_prod_beta cong: sum.case_cong)

lemma text_canonical_value: "canonicalJsonString (jval_of (canonical_value v)) = canonicalJsonString (jval_of v)"
proof (induction v rule: canonical_value.induct)
  case (1 vs)
  then have "map canonicalJsonString (map jval_of (map canonical_value vs))
      = map canonicalJsonString (map jval_of vs)" by simp
  then show ?case by (simp only: canonical_value.simps jval_of.simps canonicalJsonString.simps)
next
  case (2 ps)
  let ?k = "\<lambda>p. units_of (fst p)"
  have srt: "sort_key ?k (map (\<lambda>(k, v). (k, canonical_value v)) ps)
      = map (\<lambda>(k, v). (k, canonical_value v)) (sort_key ?k ps)"
  proof -
    have ins: "insort_key ?k (k, canonical_value v) (map (\<lambda>(k, v). (k, canonical_value v)) qs)
        = map (\<lambda>(k, v). (k, canonical_value v)) (insort_key ?k (k, v) qs)" for k v qs
      by (induction qs) auto
    show ?thesis by (induction ps) (auto simp: ins sort_key_def)
  qed
  have idem: "sort_key ?k (sort_key ?k qs) = sort_key ?k qs" for qs :: "(string \<times> json) list"
    by (simp add: sort_key_id_if_sorted)
  show ?case
    unfolding canonical_value.simps text_of_object idem unfolding srt map_map
    using 2 by (intro arg_cong [where f = "braced (CHR ''{'') (CHR ''}'')"]
        arg_cong [where f = collect] map_cong) (auto simp: case_prod_beta cong: sum.case_cong)
qed simp_all

lemma length_escape: "length (escape_unit u) \<le> 6"
  by (simp add: escape_unit_def Let_def hex4_def)

lemma length_serializeString: "length (serializeString us) \<le> 6 * length us + 2"
proof -
  have "length (concat (map escape_unit us)) \<le> 6 * length us"
  proof (induction us)
    case (Cons u us)
    then show ?case using length_escape [of u] by simp
  qed simp
  then show ?thesis by (simp add: serializeString_def)
qed

text \<open>The stand-ins for a preview that is withheld: the keys are in order, so the text is immediate.\<close>

lemma withheld_text:
  "canonicalJsonString (jval_of (JObj [(''redacted'', JBool True), (''digest'', JStr d)]))
     = Inr (CHR ''{'' # serializeString (units_of ''digest'') @ CHR '':'' # serializeString (units_of d)
            @ '','' @ serializeString (units_of ''redacted'') @ '':true}'')"
  "canonicalJsonString (jval_of (JObj [(''redacted'', JBool True), (''truncated'', JBool True),
      (''digest'', JStr d)]))
     = Inr (CHR ''{'' # serializeString (units_of ''digest'') @ CHR '':'' # serializeString (units_of d)
            @ '','' @ serializeString (units_of ''redacted'') @ '':true,''
            @ serializeString (units_of ''truncated'') @ '':true}'')"
proof -
  let ?d = "units_of ''digest''" and ?r = "units_of ''redacted''" and ?t = "units_of ''truncated''"
  have le: "?d \<le> ?r" "?d \<le> ?t" "?r \<le> ?t" "\<not> ?r \<le> ?d" "\<not> ?t \<le> ?d"
    by code_simp+
  show "canonicalJsonString (jval_of (JObj [(''redacted'', JBool True), (''digest'', JStr d)]))
     = Inr (CHR ''{'' # serializeString ?d @ CHR '':'' # serializeString (units_of d)
            @ '','' @ serializeString ?r @ '':true}'')"
    unfolding text_of_object by (simp add: le braced_def join_comma_def)
  show "canonicalJsonString (jval_of (JObj [(''redacted'', JBool True), (''truncated'', JBool True),
      (''digest'', JStr d)]))
     = Inr (CHR ''{'' # serializeString ?d @ CHR '':'' # serializeString (units_of d)
            @ '','' @ serializeString ?r @ '':true,'' @ serializeString ?t @ '':true}'')"
    unfolding text_of_object by (simp add: le braced_def join_comma_def)
qed

lemma withheld_length:
  assumes "length d \<le> 71"
  shows "length (CHR ''{'' # serializeString (units_of ''digest'') @ CHR '':'' # serializeString (units_of d)
            @ '','' @ serializeString (units_of ''redacted'') @ x
            @ serializeString (units_of ''truncated'') @ y) \<le> 600 + length x + length y"
  using length_serializeString [of "units_of d"] length_serializeString [of "units_of ''digest''"]
    length_serializeString [of "units_of ''redacted''"] length_serializeString [of "units_of ''truncated''"]
    assms
  by (simp add: units_of_def)

lemma plain_keys: "\<not> sensitive_key ''value''" "\<not> sensitive_key ''redacted''"
  "\<not> sensitive_key ''truncated''" "\<not> sensitive_key ''digest''"
  by code_simp+

lemma digest_length:
  "canonicalJsonDigest sha v = Inr d \<Longrightarrow> (\<And>s. length (sha s) = 64) \<Longrightarrow> length d = 71"
  by (auto simp: canonicalJsonDigest_def split: sum.splits)

definition text_within :: "nat \<Rightarrow> json \<Rightarrow> bool" where
  "text_within n v \<longleftrightarrow> (case canonicalJsonString (jval_of v) of Inl e \<Rightarrow> False | Inr t \<Rightarrow> length t \<le> n)"

lemma withheld_within:
  assumes "length d = 71"
  shows "text_within 8192 (JObj [(''redacted'', JBool True), (''digest'', JStr d)])"
    and "text_within 8192 (JObj [(''redacted'', JBool True), (''truncated'', JBool True), (''digest'', JStr d)])"
proof -
  have "length (serializeString (units_of d)) \<le> 428"
    "length (serializeString (units_of ''digest'')) \<le> 38"
    "length (serializeString (units_of ''redacted'')) \<le> 50"
    "length (serializeString (units_of ''truncated'')) \<le> 56"
    using length_serializeString [of "units_of d"] length_serializeString [of "units_of ''digest''"]
      length_serializeString [of "units_of ''redacted''"]
      length_serializeString [of "units_of ''truncated''"] assms
    by (simp_all add: units_of_def)
  then show "text_within 8192 (JObj [(''redacted'', JBool True), (''digest'', JStr d)])"
    "text_within 8192 (JObj [(''redacted'', JBool True), (''truncated'', JBool True), (''digest'', JStr d)])"
    unfolding text_within_def withheld_text by simp_all
qed

lemma keys_wrapped: "k \<in> set (all_keys (wrapped v)) \<Longrightarrow> k = ''value'' \<or> k \<in> set (all_keys v)"
  by (cases v) (auto simp: wrapped_def)

lemma preview_cases:
  assumes "buildPreview lib raw d dir = Inr (digest, v)"
  obtains (withheld) x where "raw = Json x"
      "canonicalJsonDigest (sha256Hex lib) (jval_of x) = Inr digest"
      "v = JObj [(''redacted'', JBool True), (''digest'', JStr digest)]
       \<or> v = JObj [(''redacted'', JBool True), (''truncated'', JBool True), (''digest'', JStr digest)]"
    | (shown) x y t where "raw = Json x"
      "canonicalJsonDigest (sha256Hex lib) (jval_of x) = Inr digest"
      "v = canonical_value (wrapped (redactSensitivePayload DropKeys y))"
      "canonicalJsonString (jval_of (wrapped (redactSensitivePayload DropKeys y))) = Inr t"
      "length t \<le> MAX_PREVIEW_BYTES"
  using assms
  by (auto simp: buildPreview_def Let_def split: payload.splits sum.splits if_splits)

text \<open>
  C40. Whatever a tool is called with or returns, what is stored of it is small and scrubbed: the
  canonical text of a preview has at most 8 KiB, and at no depth does a preview carry a key that
  names a password, token, credential, card or phone.
\<close>

theorem preview_bounded_and_scrubbed:
  assumes "\<And>s. length (sha256Hex lib s) = 64" and "buildPreview lib raw d dir = Inr (digest, v)"
  shows "(\<exists>t. canonicalJsonString (jval_of v) = Inr t \<and> length t \<le> 8192)
    \<and> list_all (\<lambda>k. \<not> sensitive_key k) (all_keys v)"
proof -
  have "text_within 8192 v \<and> list_all (\<lambda>k. \<not> sensitive_key k) (all_keys v)"
    using assms(2)
  proof (cases rule: preview_cases)
    case (withheld x)
    then have "length digest = 71" using digest_length assms(1) by blast
    with withheld(3) show ?thesis using withheld_within plain_keys by auto
  next
    case (shown x y t)
    have "\<not> sensitive_key k" if "k \<in> set (all_keys v)" for k
      using that keys_wrapped [of k "redactSensitivePayload DropKeys y"] plain_keys redact_drop_keys [of k y]
      by (auto simp: shown(3) keys_canonical_value)
    then show ?thesis
      using shown by (simp add: text_within_def text_canonical_value MAX_PREVIEW_BYTES_def list_all_iff)
  qed
  then show ?thesis by (auto simp: text_within_def split: sum.splits)
qed

lemma preview_bounded_and_scrubbed_witness:
  "list_all (\<lambda>k. \<not> sensitive_key k) (all_keys (JObj [(''a'', JNum 1)]))"
proof -
  let ?lib = "\<lparr>sha256Hex = (\<lambda>_. replicate 64 (CHR ''0'')), numberOf = (\<lambda>_. None)\<rparr>"
  let ?dg = "''sha256:'' @ replicate 64 (CHR ''0'')"
  have "buildPreview ?lib (Json (JObj [(''password'', JStr ''x''), (''a'', JNum 1)])) None InputSide
      = Inr (?dg, JObj [(''a'', JNum 1)])"
    by code_simp
  then show ?thesis
    using preview_bounded_and_scrubbed [of ?lib "Json (JObj [(''password'', JStr ''x''), (''a'', JNum 1)])"
        None InputSide ?dg "JObj [(''a'', JNum 1)]"] by simp
qed

subsection \<open>Grants\<close>

text \<open>
  What resumes after an approval is what was approved: \<open>resumeApproved\<close> writes nothing, and
  returns a row only when it is the tool call the grant names, of that workspace, awaiting approval
  or running, of the same tool, release and checksum, and recorded under the digest of exactly the
  input now presented.
\<close>

theorem resume_matches_grant:
  assumes "resumeApproved lib inp w = (Inr row, w')"
  shows "w' = w \<and> row \<in> set (tool_calls w)
    \<and> ag_toolCallId (ri_grant inp) = Some (tc_id row)
    \<and> tc_workspaceId row = Some (gc_executionWorkspaceId (ri_context inp))
    \<and> (tc_status row = Some REQUIRES_APPROVAL \<or> tc_status row = Some RUNNING)
    \<and> tc_toolName row = ri_toolName inp \<and> ag_toolName (ri_grant inp) = ri_toolName inp
    \<and> cr_releaseSetId (tc_release row) = Some (gc_releaseSetId (ri_context inp))
    \<and> cr_publishedChecksum (tc_release row) = rt_publishedChecksum (ri_resolvedTool inp)
    \<and> (\<exists>p. buildPreview lib (ri_input inp) (Some (rt_exportDescriptor (ri_resolvedTool inp))) InputSide = Inr p
         \<and> tc_inputDigest row = Some (fst p))"
proof -
  obtain found p where "tb_find (\<lambda>r. Some (tc_id r) = ag_toolCallId (ri_grant inp)
        \<and> tc_workspaceId r = Some (gc_executionWorkspaceId (ri_context inp))
        \<and> status_in [REQUIRES_APPROVAL, RUNNING] r) (tool_calls w) = Some row"
    and p: "buildPreview lib (ri_input inp) (Some (rt_exportDescriptor (ri_resolvedTool inp))) InputSide = Inr p"
      "Some (fst p) = ag_inputDigest (ri_grant inp)"
    and rest: "w' = w" "tc_toolName row = ri_toolName inp" "ag_toolName (ri_grant inp) = ri_toolName inp"
      "tc_inputDigest row = ag_inputDigest (ri_grant inp)"
      "ag_releaseSetId (ri_grant inp) = Some (gc_releaseSetId (ri_context inp))"
      "cr_releaseSetId (tc_release row) = ag_releaseSetId (ri_grant inp)"
      "ag_publishedChecksum (ri_grant inp) = rt_publishedChecksum (ri_resolvedTool inp)"
      "cr_publishedChecksum (tc_release row) = ag_publishedChecksum (ri_grant inp)"
    using assms by (auto simp: resumeApproved_def Let_def eff_Inr_iffs lift_result_apply)
  then have "row \<in> set (tool_calls w)" "Some (tc_id row) = ag_toolCallId (ri_grant inp)"
    "tc_workspaceId row = Some (gc_executionWorkspaceId (ri_context inp))"
    "status_in [REQUIRES_APPROVAL, RUNNING] row"
    by (auto dest: tb_find_SomeD)
  then show ?thesis using p rest by (auto simp: status_in_def split: option.splits)
qed

definition sample_resume :: resume_input where
  "sample_resume =
     \<lparr>ri_toolName = ''t'', ri_input = Json (JObj []),
      ri_context = \<lparr>gc_executionWorkspaceId = ''ws'', gc_sourceWorkspaceId = ''src'', gc_mode = ''m'',
        gc_isolationBinding = None, gc_releaseSetId = ''rel'', gc_actorType = ''agent'',
        gc_serviceIdentityId = ''svc'', gc_parent = AgentParent ''e'' None\<rparr>,
      ri_resolvedTool = \<lparr>rt_descriptorHash = Some ''dh'', rt_exportDescriptor = None,
        rt_functionRevisionId = Some ''fr'', rt_publishedChecksum = Some ''pc'',
        rt_runtimeProviderId = Some ''rp''\<rparr>,
      ri_grant = \<lparr>ag_toolName = ''t'', ag_approvalInstanceId = ''a'', ag_toolCallId = Some ''id-0'',
        ag_inputDigest = Some ''sha256:00'', ag_releaseSetId = Some ''rel'',
        ag_publishedChecksum = Some ''pc''\<rparr>\<rparr>"

definition sample_governed_row :: tool_call_record where
  "sample_governed_row = (sample_row ''id-0'' REQUIRES_APPROVAL)
     \<lparr>tc_workspaceId := Some ''ws'', tc_inputDigest := Some ''sha256:00'',
      tc_release := governed_release (ri_context sample_resume) (ri_resolvedTool sample_resume)\<rparr>"

lemma sample_preview:
  "buildPreview sample_library (Json (JObj [])) (Some None) InputSide = Inr (''sha256:00'', JObj [])"
  by code_simp

lemma resume_matches_grant_witness:
  "resumeApproved sample_library sample_resume (sample_calls [sample_governed_row])
     = (Inr sample_governed_row, sample_calls [sample_governed_row])
   \<and> tc_inputDigest sample_governed_row = Some ''sha256:00''"
proof -
  have run: "resumeApproved sample_library sample_resume (sample_calls [sample_governed_row])
     = (Inr sample_governed_row, sample_calls [sample_governed_row])"
    by (simp add: resumeApproved_def Let_def sample_resume_def eff_simps sample_preview
        sample_calls_def tb_find_def sample_governed_row_def sample_row_def base_record_def
        status_in_def governed_release_def no_call_release_def differs_def sample_begin_def)
  show ?thesis using resume_matches_grant [OF run] run by (auto simp: sample_resume_def sample_preview)
qed

subsection \<open>First writer of a connector binding\<close>

text \<open>
  A static connector binding is write-once: a bound call accepts the exact same snapshot again,
  without a write, and refuses any other snapshot, so an approval can never be switched to another
  connector instance.
\<close>

theorem binding_write_once:
  assumes "tb_find (snapshot_where inp) (tool_calls w) = Some r"
    and "sb_revisionId (tc_static r) = Some bound" "bound \<noteq> []"
  shows "(\<exists>res. bindStaticConnectorSnapshot inp w = (res, w)
     \<and> (case res of
          Inr row \<Rightarrow> row = r \<and> bound = bs_revisionId inp \<and> sb_checksum (tc_static r) = Some (bs_checksum inp)
        | Inl e \<Rightarrow> \<not> is_sha256_digest (bs_checksum inp) \<or> \<not> is_generation (bs_generation inp)
            \<or> tc_status r \<noteq> Some STARTED \<or> tc_toolName r \<noteq> bs_staticToolCode inp
            \<or> bound \<noteq> bs_revisionId inp \<or> sb_checksum (tc_static r) \<noteq> Some (bs_checksum inp)
            \<or> nullish (sb_generation (tc_static r)) ''null'' \<noteq> bs_generation inp))"
  using assms
  by (auto simp: bindStaticConnectorSnapshot_def assertStaticBindingSnapshot_def eff_simps)

lemma binding_write_once_witness:
  "\<exists>res. bindStaticConnectorSnapshot
      \<lparr>bs_workspaceId = ''ws'', bs_toolCallId = ''id-0'', bs_agentExecutionId = ''e'',
       bs_staticToolCode = ''t'', bs_revisionId = ''other'', bs_checksum = ''c'', bs_generation = ''1''\<rparr>
      (sample_calls [(sample_row ''id-0'' STARTED)\<lparr>tc_workspaceId := Some ''ws'',
          tc_parent := no_call_parent\<lparr>cp_agentExecutionId := Some ''e''\<rparr>,
          tc_static := no_binding\<lparr>sb_revisionId := Some ''rev''\<rparr>\<rparr>])
    = (res, sample_calls [(sample_row ''id-0'' STARTED)\<lparr>tc_workspaceId := Some ''ws'',
          tc_parent := no_call_parent\<lparr>cp_agentExecutionId := Some ''e''\<rparr>,
          tc_static := no_binding\<lparr>sb_revisionId := Some ''rev''\<rparr>\<rparr>])"
proof -
  let ?r = "(sample_row ''id-0'' STARTED)\<lparr>tc_workspaceId := Some ''ws'',
          tc_parent := no_call_parent\<lparr>cp_agentExecutionId := Some ''e''\<rparr>,
          tc_static := no_binding\<lparr>sb_revisionId := Some ''rev''\<rparr>\<rparr>"
  let ?i = "\<lparr>bs_workspaceId = ''ws'', bs_toolCallId = ''id-0'', bs_agentExecutionId = ''e'',
       bs_staticToolCode = ''t'', bs_revisionId = ''other'', bs_checksum = ''c'', bs_generation = ''1''\<rparr>"
  have "tb_find (snapshot_where ?i) (tool_calls (sample_calls [?r])) = Some ?r"
    by (simp add: tb_find_def snapshot_where_def sample_calls_def sample_row_def base_record_def)
  then show ?thesis using binding_write_once [of ?i "sample_calls [?r]" ?r "''rev''"] by auto
qed

end
