(* ===== verification/Outbox.thy ===== *)
theory Outbox
  imports Audit_Store
begin

text \<open>
  The transactional outbox: \<open>governance/packages/outbox/src/\<close> (\<open>outbox.service.ts\<close>,
  \<open>outbox-topic.enum.ts\<close>, \<open>contracts/outbox-event.ts\<close>, \<open>transport/\<close>).

  A database transaction undoes what its own manager wrote, here the outbox rows and the queued
  \<open>pg_notify\<close>; what a callback does through other repositories stays. The set \<open>enqueuedTopics\<close> of the
  running call is the field \<open>txn_topics\<close> of the world, in insertion order.
\<close>

section \<open>Topics\<close>

definition OutboxTopic :: "(string \<times> string) list" where
  "OutboxTopic =
     [(''FILE_EVENTS'', ''file_events''), (''WEBHOOK_EVENTS'', ''webhook_events''),
      (''CDC_EVENTS'', ''cdc_events''), (''AGENT_EVENTS'', ''agent_events''),
      (''APPROVAL_EVENTS'', ''approval_events''), (''WORKFORCE_FLOW_EVENTS'', ''workforce_flow_events''),
      (''WORKFORCE_RELEASE_EVENTS'', ''workforce_release_events''),
      (''BILLING_EVENTS'', ''billing_events''), (''AUDIT_EVENTS'', ''audit_events''),
      (''GATEWAY_DLQ'', ''gateway_dlq''), (''LICENSE_EVENTS'', ''license_events''),
      (''PERMISSION_SET_EVENTS'', ''permission_set_events''), (''MFA_EVENTS'', ''mfa_events''),
      (''SESSION_EVENTS'', ''session_events''),
      (''USER_NOTIFICATION_EVENTS'', ''user_notification_events''),
      (''RECYCLEBIN_EVENTS'', ''recyclebin_events''), (''DSAR_EVENTS'', ''dsar_events''),
      (''QUEUE_EVENTS'', ''queue_events''), (''CASE_EVENTS'', ''case_events''),
      (''INBOUND_EVENTS'', ''inbound_events''), (''ACTIVITY_EVENTS'', ''activity_events''),
      (''CHATTER_EVENTS'', ''chatter_events''), (''EXECUTION_LOG_EVENTS'', ''execution_log_events''),
      (''SSE_EVENTS'', ''sse_events''), (''EXPERIENCE_SITE_EVENTS'', ''experience_site_events''),
      (''SITE_SEO_EVENTS'', ''site_seo_events''), (''RECORD_EVENTS'', ''record_events''),
      (''METADATA_EVENTS'', ''metadata_events''), (''DATA_SHARING_EVENTS'', ''data_sharing_events''),
      (''DEPLOYMENT_EVENTS'', ''deployment_events''), (''IMPORT_EVENTS'', ''import_events''),
      (''EXTERNAL_PROFILE_EVENTS'', ''external_profile_events''),
      (''WORKFLOW_PLATFORM_EVENTS'', ''workflow_platform_events''),
      (''SITE_COMMUNITY_EVENTS'', ''site_community_events''), (''SANDBOX_EVENTS'', ''sandbox_events''),
      (''SEARCH_EVENTS'', ''search_events''), (''SCHEDULED_JOB_EVENTS'', ''scheduled_job_events'')]"

definition AGENT_EVENTS :: string where
  "AGENT_EVENTS = ''agent_events''"

definition OUTBOX_DLQ_SUFFIX :: string where
  "OUTBOX_DLQ_SUFFIX = ''::dlq''"

definition toDlqTopic :: "string \<Rightarrow> string" where
  "toDlqTopic topic = topic @ OUTBOX_DLQ_SUFFIX"

definition isDlqTopic :: "string \<Rightarrow> bool" where
  "isDlqTopic topic \<longleftrightarrow> starts_with (rev OUTBOX_DLQ_SUFFIX) (rev topic)"

section \<open>Envelope\<close>

record outbox_input =
  oi_workspaceId :: string
  oi_topic :: string
  oi_eventType :: string
  oi_aggregateType :: string
  oi_aggregateId :: string
  oi_payload :: jobject
  oi_idempotencyKey :: "string option"

definition OutboxRequestContextMissingError :: string where
  "OutboxRequestContextMissingError =
     ''OutboxService.enqueue requires a RequestTraceContext to be bound. ''
     @ ''Public mutations enter through createRequestContextMiddleware; ''
     @ ''background jobs MUST wrap their logic in `runWithTraceContext` ''
     @ ''(see common/request-context/request-context.ts).''"

definition OutboxPayloadInvalidError :: string where
  "OutboxPayloadInvalidError =
     ''OutboxService.enqueue payload failed outboxEventSchema validation. ''
     @ ''See `common/contracts/outbox-event.ts` for the canonical shape.''"

definition min1_optional :: "string option \<Rightarrow> bool" where
  "min1_optional s \<longleftrightarrow> s \<noteq> Some []"

definition trace_schema :: "outbox_trace \<Rightarrow> bool" where
  "trace_schema t \<longleftrightarrow> ot_traceId t \<noteq> [] \<and> ot_correlationId t \<noteq> [] \<and> min1_optional (ot_executionId t)"

definition outboxEventSchema :: "outbox_event \<Rightarrow> bool" where
  "outboxEventSchema e \<longleftrightarrow>
     oe_id e \<noteq> [] \<and> oe_workspaceId e \<noteq> [] \<and> oe_topic e \<noteq> [] \<and> oe_eventType e \<noteq> []
     \<and> oe_aggregateType e \<noteq> [] \<and> oe_aggregateId e \<noteq> [] \<and> trace_schema (oe_traceContext e)
     \<and> min1_optional (oe_idempotencyKey e) \<and> min1_optional (oe_lastError e)"

section \<open>Service\<close>

definition envelope :: "outbox_input \<Rightarrow> string \<Rightarrow> int \<Rightarrow> outbox_trace \<Rightarrow> outbox_event" where
  "envelope event i t ctx =
     \<lparr>oe_id = i, oe_workspaceId = oi_workspaceId event, oe_topic = oi_topic event,
      oe_eventType = oi_eventType event, oe_aggregateType = oi_aggregateType event,
      oe_aggregateId = oi_aggregateId event, oe_payload = oi_payload event, oe_traceContext = ctx,
      oe_idempotencyKey = oi_idempotencyKey event, oe_createdAt = t, oe_publishedAt = None,
      oe_attemptCount = 0, oe_lastError = None\<rparr>"

definition enqueueInTransaction :: "outbox_input \<Rightarrow> string act" where
  "enqueueInTransaction event =
     bindE (reads trace_context) (\<lambda>c.
     bindE (of_option OutboxRequestContextMissingError c) (\<lambda>ctx.
     bindE fresh_id (\<lambda>i.
     bindE now (\<lambda>t.
     let row = envelope event i t ctx
     in seqE (throw_if (\<not> outboxEventSchema row) OutboxPayloadInvalidError)
       (seqE (modify (\<lambda>w. w\<lparr>outbox_events := tb_insert row (outbox_events w)\<rparr>))
        (ret i))))))"

definition add_topic :: "string \<Rightarrow> string list \<Rightarrow> string list" where
  "add_topic t ts = (if t \<in> set ts then ts else ts @ [t])"

text \<open>The handle of a running transaction.\<close>

definition enqueue :: "outbox_input \<Rightarrow> string act" where
  "enqueue event =
     bindE (enqueueInTransaction event) (\<lambda>i.
     seqE (modify (\<lambda>w. w\<lparr>txn_topics := add_topic (oi_topic event) (txn_topics w)\<rparr>)) (ret i))"

type_synonym transport = "string \<Rightarrow> unit act"

definition pg_notify :: transport where
  "pg_notify topic = modify (\<lambda>w. w\<lparr>notifications := notifications w @ [topic]\<rparr>)"

definition in_memory_notify :: transport where
  "in_memory_notify topic = modify (\<lambda>w. w\<lparr>buffered_topics := buffered_topics w @ [topic]\<rparr>)"

definition transaction :: "'a act \<Rightarrow> 'a act" where
  "transaction m = (\<lambda>w.
     case m w of
       (Inl e, w') \<Rightarrow> (Inl e, w'\<lparr>outbox_events := outbox_events w, notifications := notifications w\<rparr>)
     | (Inr a, w') \<Rightarrow> (Inr a, w'))"

definition runInTransaction :: "transport \<Rightarrow> 'a act \<Rightarrow> 'a act" where
  "runInTransaction transport cb = (\<lambda>w.
     let (r, w') = transaction
           (seqE (modify (\<lambda>v. v\<lparr>txn_topics := []\<rparr>))
           (bindE cb (\<lambda>result.
            bindE (reads txn_topics) (\<lambda>topics.
            seqE (for_each transport topics) (ret result))))) w
     in (r, w'\<lparr>txn_topics := txn_topics w\<rparr>))"

section \<open>The interface of a transport\<close>

text \<open>
  A transport delivers one wake-up per call: it never throws, appends the topic to the log of what
  it delivered, and touches nothing else that the service reads.
\<close>

locale notify_transport =
  fixes notify :: transport
    and delivered :: "world \<Rightarrow> string list"
    and frame :: "world \<Rightarrow> 'f"
  assumes notify_ok: "\<exists>w'. notify t w = (Inr (), w') \<and> delivered w' = delivered w @ [t]
      \<and> outbox_events w' = outbox_events w \<and> frame w' = frame w"
begin

lemma for_each_notify: "\<exists>w'. for_each notify ts w = (Inr (), w') \<and> delivered w' = delivered w @ ts
    \<and> outbox_events w' = outbox_events w \<and> frame w' = frame w"
proof (induction ts arbitrary: w)
  case (Cons t ts)
  obtain w1 where w1: "notify t w = (Inr (), w1)" "delivered w1 = delivered w @ [t]"
    "outbox_events w1 = outbox_events w" "frame w1 = frame w"
    using notify_ok by blast
  obtain w2 where "for_each notify ts w1 = (Inr (), w2)" "delivered w2 = delivered w1 @ ts"
    "outbox_events w2 = outbox_events w1" "frame w2 = frame w1"
    using Cons.IH by blast
  with w1 show ?case by (auto simp: seqE_apply)
qed (auto simp: ret_apply)

end

interpretation pg: notify_transport pg_notify notifications
    "\<lambda>w. (buffered_topics w, executions w, tool_calls w, approvals w)"
  by unfold_locales (auto simp: pg_notify_def modify_apply)

interpretation in_memory_transport: notify_transport in_memory_notify buffered_topics
    "\<lambda>w. (notifications w, executions w, tool_calls w, approvals w)"
  by unfold_locales (auto simp: in_memory_notify_def modify_apply)

section \<open>Outcomes\<close>

lemma enqueueInTransaction_eq:
  "enqueueInTransaction event w =
     (case trace_context w of
        None \<Rightarrow> (Inl OutboxRequestContextMissingError, w)
      | Some ctx \<Rightarrow>
          (let i = uuid_of w (next_uuid w); t = clock_of w (next_tick w);
               w1 = w\<lparr>next_uuid := Suc (next_uuid w), next_tick := Suc (next_tick w)\<rparr>
           in if outboxEventSchema (envelope event i t ctx)
              then (Inr i, w1\<lparr>outbox_events := outbox_events w @ [envelope event i t ctx]\<rparr>)
              else (Inl OutboxPayloadInvalidError, w1)))"
  by (auto simp: enqueueInTransaction_def eff_simps Let_def tb_insert_def split: option.split)

lemma transaction_Inl: "transaction m w = (Inl e, w') \<Longrightarrow>
    outbox_events w' = outbox_events w \<and> notifications w' = notifications w"
  by (auto simp: transaction_def split: prod.splits sum.splits)

text \<open>Enqueueing a list of events through the handle.\<close>

fun enqueue_all :: "outbox_input list \<Rightarrow> string list act" where
  "enqueue_all [] = ret []"
| "enqueue_all (e # es) = bindE (enqueue e) (\<lambda>i. bindE (enqueue_all es) (\<lambda>is. ret (i # is)))"

definition carries :: "outbox_trace option \<Rightarrow> outbox_input \<Rightarrow> outbox_event \<Rightarrow> bool" where
  "carries ctx e row \<longleftrightarrow> outboxEventSchema row \<and> (\<exists>i t c. ctx = Some c \<and> row = envelope e i t c)"

lemma enqueue_all_Inr:
  "enqueue_all es w = (Inr is, w') \<Longrightarrow>
     \<exists>rows. outbox_events w' = outbox_events w @ rows \<and> map oe_id rows = is
       \<and> list_all2 (carries (trace_context w)) es rows
       \<and> txn_topics w' = fold (\<lambda>e. add_topic (oi_topic e)) es (txn_topics w)
       \<and> notifications w' = notifications w \<and> trace_context w' = trace_context w"
proof (induction es arbitrary: "is" w)
  case (Cons e es)
  obtain i w1 js where run: "enqueue e w = (Inr i, w1)" "enqueue_all es w1 = (Inr js, w')" "is = i # js"
    using Cons.prems by (auto simp: eff_Inr_iffs)
  obtain ctx where ctx: "trace_context w = Some ctx"
    using run(1) by (cases "trace_context w") (auto simp: enqueue_def eff_Inr_iffs enqueueInTransaction_eq)
  let ?row = "envelope e i (clock_of w (next_tick w)) ctx"
  have e: "outboxEventSchema ?row" "i = uuid_of w (next_uuid w)"
    "outbox_events w1 = outbox_events w @ [?row]" "notifications w1 = notifications w"
    "trace_context w1 = trace_context w" "txn_topics w1 = add_topic (oi_topic e) (txn_topics w)"
    using run(1) ctx
    by (auto simp: enqueue_def eff_Inr_iffs enqueueInTransaction_eq Let_def split: if_splits)
  obtain rows where rows: "outbox_events w' = outbox_events w1 @ rows" "map oe_id rows = js"
    "list_all2 (carries (trace_context w1)) es rows"
    "txn_topics w' = fold (\<lambda>e. add_topic (oi_topic e)) es (txn_topics w1)"
    "notifications w' = notifications w1" "trace_context w' = trace_context w1"
    using Cons.IH [OF run(2)] by blast
  have "carries (trace_context w) e ?row" using e(1) ctx by (auto simp: carries_def)
  then show ?case
    using e rows run(3) by (intro exI [of _ "?row # rows"]) (simp add: envelope_def)
qed (auto simp: ret_apply)

lemma add_topics: "distinct ts \<Longrightarrow> distinct (fold (\<lambda>e. add_topic (oi_topic e)) es ts)
    \<and> set (fold (\<lambda>e. add_topic (oi_topic e)) es ts) = oi_topic ` set es \<union> set ts"
proof (induction es arbitrary: ts)
  case (Cons e es)
  have "distinct (add_topic (oi_topic e) ts)" using Cons.prems by (simp add: add_topic_def)
  then show ?case using Cons.IH by (auto simp: add_topic_def)
qed simp

lemma runInTransaction_Inr:
  assumes "cb (w\<lparr>txn_topics := []\<rparr>) = (Inr a, w1)"
  shows "runInTransaction pg_notify cb w
    = (Inr a, (snd (for_each pg_notify (txn_topics w1) w1))\<lparr>txn_topics := txn_topics w\<rparr>)"
  using pg.for_each_notify [of "txn_topics w1" w1] assms
  by (auto simp: runInTransaction_def transaction_def eff_simps split: prod.splits)

lemma runInTransaction_Inl:
  assumes "cb (w\<lparr>txn_topics := []\<rparr>) = (Inl e, w1)"
  shows "runInTransaction transport cb w = (Inl e, w1\<lparr>outbox_events := outbox_events w,
      notifications := notifications w, txn_topics := txn_topics w\<rparr>)"
  using assms by (simp add: runInTransaction_def transaction_def eff_simps)

section \<open>Properties\<close>


text \<open>
  Trace identifiers are never minted: without a bound request context every enqueue throws and
  writes nothing, and with one the inserted row carries exactly that context.
\<close>

theorem enqueue_trace_from_request:
  "\<exists>r w'. enqueueInTransaction event w = (r, w')
     \<and> (case trace_context w of
          None \<Rightarrow> r = Inl OutboxRequestContextMissingError \<and> w' = w
        | Some ctx \<Rightarrow>
            (case r of
               Inl e \<Rightarrow> e = OutboxPayloadInvalidError \<and> outbox_events w' = outbox_events w
             | Inr i \<Rightarrow> (\<exists>row. outbox_events w' = outbox_events w @ [row] \<and> oe_id row = i
                           \<and> oe_traceContext row = ctx \<and> outboxEventSchema row
                           \<and> oe_publishedAt row = None \<and> oe_attemptCount row = 0)))"
  by (cases "trace_context w") (auto simp: enqueueInTransaction_eq Let_def envelope_def)

lemma isDlqTopic_iff: "isDlqTopic t \<longleftrightarrow> (\<exists>p. t = toDlqTopic p)"
proof -
  have "isDlqTopic t \<longleftrightarrow> (\<exists>q. rev t = rev OUTBOX_DLQ_SUFFIX @ q)"
    by (simp add: isDlqTopic_def starts_with_iff)
  also have "\<dots> \<longleftrightarrow> (\<exists>q. t = rev q @ OUTBOX_DLQ_SUFFIX)"
    by (metis rev_append rev_rev_ident)
  finally show ?thesis unfolding toDlqTopic_def by (metis rev_rev_ident)
qed

text \<open>
  Dead-letter topics are separate from primary ones: a topic is recognised as a dead letter
  exactly when it is the dead-letter topic of some topic, two topics never share one, the names of
  the catalogue are distinct, and none of them, \<open>gateway_dlq\<close> included, is a dead letter.
\<close>

theorem dead_letter_topics_disjoint:
  "(isDlqTopic t \<longleftrightarrow> (\<exists>p. t = toDlqTopic p)) \<and> (toDlqTopic p = toDlqTopic q \<longleftrightarrow> p = q)
   \<and> distinct (map snd OutboxTopic) \<and> list_all (\<lambda>p. \<not> isDlqTopic p) (map snd OutboxTopic)"
proof -
  have "distinct (map snd OutboxTopic) \<and> list_all (\<lambda>p. \<not> isDlqTopic p) (map snd OutboxTopic)"
    by code_simp
  then show ?thesis by (simp add: isDlqTopic_iff) (simp add: toDlqTopic_def)
qed

end
