(* ===== verification/Json_Text.thy ===== *)
theory Json_Text
  imports Canonical
begin

text \<open>
  \<open>JSON.stringify\<close> and \<open>JSON.parse\<close> on the values of the model, which the approval engine, the
  executor and the sidecar use to carry a tool call through a text column. The parser is a
  recursive-descent reader of the JSON grammar with fuel; the length of the text is enough. Numbers
  with a fraction or an exponent and escapes from \<open>0x100\<close> on have no value in the model and are
  refused; member names are not array indices, so members keep their order.
\<close>

section \<open>Printing\<close>

definition quote_unit :: "char \<Rightarrow> string" where
  "quote_unit c =
     (if c = CHR 0x22 then [CHR 0x5C, CHR 0x22]
      else if c = CHR 0x5C then [CHR 0x5C, CHR 0x5C]
      else if code_of c = 8 then [CHR 0x5C, CHR ''b'']
      else if code_of c = 9 then [CHR 0x5C, CHR ''t'']
      else if code_of c = 10 then [CHR 0x5C, CHR ''n'']
      else if code_of c = 12 then [CHR 0x5C, CHR ''f'']
      else if code_of c = 13 then [CHR 0x5C, CHR ''r'']
      else if code_of c < 32 then [CHR 0x5C, CHR ''u''] @ hex4 (code_of c)
      else [c])"

definition quote_string :: "string \<Rightarrow> string" where
  "quote_string s = CHR 0x22 # concat (map quote_unit s) @ [CHR 0x22]"

fun stringify :: "json \<Rightarrow> string" where
  "stringify JNull = ''null''"
| "stringify (JBool b) = (if b then ''true'' else ''false'')"
| "stringify (JNum n) = show_int n"
| "stringify (JStr s) = quote_string s"
| "stringify (JArr vs) = CHR ''['' # join_comma (map stringify vs) @ [CHR '']'']"
| "stringify (JObj ps) =
     CHR ''{'' # join_comma (map (\<lambda>(k, v). quote_string k @ CHR '':'' # stringify v) ps) @ [CHR ''}'']"

section \<open>Parsing\<close>

definition is_json_space :: "char \<Rightarrow> bool" where
  "is_json_space c \<longleftrightarrow> code_of c \<in> {9, 10, 13, 32}"

definition skip :: "string \<Rightarrow> string" where
  "skip s = dropWhile is_json_space s"

definition is_hex :: "char \<Rightarrow> bool" where
  "is_hex c \<longleftrightarrow> is_digit c \<or> 97 \<le> code_of c \<and> code_of c \<le> 102 \<or> 65 \<le> code_of c \<and> code_of c \<le> 70"

definition hex_digit_value :: "char \<Rightarrow> nat" where
  "hex_digit_value c = (if is_digit c then code_of c - 48
     else if 97 \<le> code_of c then code_of c - 87 else code_of c - 55)"

definition simple_escape :: "char \<Rightarrow> char option" where
  "simple_escape e =
     (if e = CHR 0x22 \<or> e = CHR 0x5C \<or> e = CHR ''/'' then Some e
      else if e = CHR ''b'' then Some (char_of (8 :: nat))
      else if e = CHR ''t'' then Some (char_of (9 :: nat))
      else if e = CHR ''n'' then Some (char_of (10 :: nat))
      else if e = CHR ''f'' then Some (char_of (12 :: nat))
      else if e = CHR ''r'' then Some (char_of (13 :: nat))
      else None)"

definition put_char :: "char \<Rightarrow> (string \<times> string) option \<Rightarrow> (string \<times> string) option" where
  "put_char c r = map_option (\<lambda>(t, rest). (c # t, rest)) r"

text \<open>The rest of a string literal, after the opening quote.\<close>

fun read_string :: "string \<Rightarrow> (string \<times> string) option" where
  "read_string [] = None"
| "read_string [c] = (if c = CHR 0x22 then Some ([], []) else None)"
| "read_string (c # d # s) =
     (if c = CHR 0x22 then Some ([], d # s)
      else if c = CHR 0x5C then
        (case simple_escape d of
           Some x \<Rightarrow> put_char x (read_string s)
         | None \<Rightarrow>
             if d = CHR ''u'' then
               (case s of
                  p # q # r # t # s' \<Rightarrow>
                    (let n = 4096 * hex_digit_value p + 256 * hex_digit_value q
                           + 16 * hex_digit_value r + hex_digit_value t
                     in if is_hex p \<and> is_hex q \<and> is_hex r \<and> is_hex t \<and> n < 256
                        then put_char (char_of n) (read_string s') else None)
                | _ \<Rightarrow> None)
             else None)
      else if code_of c < 32 then None
      else put_char c (read_string (d # s)))"

text \<open>An integer literal: no leading zero, nothing of a fraction or an exponent after it.\<close>

definition read_number :: "string \<Rightarrow> (json \<times> string) option" where
  "read_number s =
     (let neg = (case s of [] \<Rightarrow> False | c # _ \<Rightarrow> c = CHR ''-'');
          body = (if neg then tl s else s);
          ds = takeWhile is_digit body; rest = dropWhile is_digit body
      in if ds = [] \<or> (hd ds = CHR ''0'' \<and> length ds > 1)
            \<or> (case rest of [] \<Rightarrow> False | c # _ \<Rightarrow> c \<in> {CHR ''.'', CHR ''e'', CHR ''E''})
         then None
         else Some (JNum (if neg then - int (read_digits ds) else int (read_digits ds)), rest))"

definition keyword :: "string \<Rightarrow> json \<Rightarrow> string \<Rightarrow> (json \<times> string) option" where
  "keyword k v s = (if starts_with k s then Some (v, drop (length k) s) else None)"

fun read_value :: "nat \<Rightarrow> string \<Rightarrow> (json \<times> string) option"
and read_items :: "nat \<Rightarrow> string \<Rightarrow> (json list \<times> string) option"
and read_members :: "nat \<Rightarrow> string \<Rightarrow> ((string \<times> json) list \<times> string) option" where
  "read_value 0 s = None"
| "read_value (Suc n) s =
     (case skip s of
        [] \<Rightarrow> None
      | c # s' \<Rightarrow>
          if c = CHR ''n'' then keyword ''null'' JNull (c # s')
          else if c = CHR ''t'' then keyword ''true'' (JBool True) (c # s')
          else if c = CHR ''f'' then keyword ''false'' (JBool False) (c # s')
          else if c = CHR 0x22 then map_option (\<lambda>(t, r). (JStr t, r)) (read_string s')
          else if c = CHR ''['' then
            (case skip s' of
               [] \<Rightarrow> None
             | d # s'' \<Rightarrow> if d = CHR '']'' then Some (JArr [], s'')
                        else map_option (\<lambda>(vs, r). (JArr vs, r)) (read_items n s'))
          else if c = CHR ''{'' then
            (case skip s' of
               [] \<Rightarrow> None
             | d # s'' \<Rightarrow> if d = CHR ''}'' then Some (JObj [], s'')
                        else map_option (\<lambda>(ps, r). (JObj (foldl (\<lambda>o' (k, v). jset k v o') [] ps), r))
                               (read_members n s'))
          else read_number (c # s'))"
| "read_items 0 s = None"
| "read_items (Suc n) s =
     (case read_value n s of
        None \<Rightarrow> None
      | Some (v, r) \<Rightarrow>
          (case skip r of
             [] \<Rightarrow> None
           | c # r' \<Rightarrow>
               if c = CHR '','' then map_option (\<lambda>(vs, r''). (v # vs, r'')) (read_items n r')
               else if c = CHR '']'' then Some ([v], r')
               else None))"
| "read_members 0 s = None"
| "read_members (Suc n) s =
     (case skip s of
        [] \<Rightarrow> None
      | q # s1 \<Rightarrow>
          if q \<noteq> CHR 0x22 then None
          else (case read_string s1 of
             None \<Rightarrow> None
           | Some (k, s2) \<Rightarrow>
               (case skip s2 of
                  [] \<Rightarrow> None
                | c # s3 \<Rightarrow>
                    if c \<noteq> CHR '':'' then None
                    else (case read_value n s3 of
                       None \<Rightarrow> None
                     | Some (v, r) \<Rightarrow>
                         (case skip r of
                            [] \<Rightarrow> None
                          | d # r' \<Rightarrow>
                              if d = CHR '','' then map_option (\<lambda>(ps, r''). ((k, v) # ps, r'')) (read_members n r')
                              else if d = CHR ''}'' then Some ([(k, v)], r')
                              else None)))))"

definition parse_json :: "string \<Rightarrow> json option" where
  "parse_json s =
     (case read_value (Suc (length s)) s of
        None \<Rightarrow> None
      | Some (v, r) \<Rightarrow> if skip r = [] then Some v else None)"

section \<open>Round trip\<close>

lemma hex_digits_read: "\<forall>k\<in>set [0..<16]. is_hex (HEX ! k) \<and> hex_digit_value (HEX ! k) = k"
  by code_simp

lemma hex_digit_read: "k < 16 \<Longrightarrow> is_hex (HEX ! k) \<and> hex_digit_value (HEX ! k) = k"
  using hex_digits_read by simp

lemma read_string_plain:
  "c \<noteq> CHR 0x22 \<Longrightarrow> c \<noteq> CHR 0x5C \<Longrightarrow> 32 \<le> code_of c \<Longrightarrow> x \<noteq> [] \<Longrightarrow>
     read_string (c # x) = put_char c (read_string x)"
  by (cases x) simp_all

lemma read_string_hex:
  assumes "code_of c < 32"
  shows "read_string ([CHR 0x5C, CHR ''u''] @ hex4 (code_of c) @ x) = put_char c (read_string x)"
proof -
  have "char_of (code_of c) = c" by (simp add: code_of_def)
  then show ?thesis
    using assms hex_digit_read hex_digits_nat [of "code_of c"]
    by (simp add: hex4_def simple_escape_def)
qed

lemma char_of_code: "code_of c = n \<Longrightarrow> char_of n = c"
  by (auto simp: code_of_def)

lemma read_quote_unit:
  assumes "x \<noteq> []"
  shows "read_string (quote_unit c @ x) = put_char c (read_string x)"
proof -
  consider (q) "c = CHR 0x22 \<or> c = CHR 0x5C" | (short) "code_of c \<in> {8, 9, 10, 12, 13}"
    | (hex) "c \<noteq> CHR 0x22" "c \<noteq> CHR 0x5C" "code_of c \<notin> {8, 9, 10, 12, 13}" "code_of c < 32"
    | (plain) "c \<noteq> CHR 0x22" "c \<noteq> CHR 0x5C" "32 \<le> code_of c"
    by fastforce
  then show ?thesis
  proof cases
    case q
    then show ?thesis by (auto simp: quote_unit_def simple_escape_def)
  next
    case short
    then have "c \<noteq> CHR 0x22" "c \<noteq> CHR 0x5C" by (auto simp: code_of_def)
    then show ?thesis
      using short char_of_code [of c] by (auto simp: quote_unit_def simple_escape_def)
  next
    case hex
    then have "quote_unit c = [CHR 0x5C, CHR ''u''] @ hex4 (code_of c)" by (simp add: quote_unit_def)
    then show ?thesis using read_string_hex [OF hex(4)] by simp
  next
    case plain
    then show ?thesis using assms by (simp add: quote_unit_def read_string_plain)
  qed
qed

lemma read_quoted: "read_string (concat (map quote_unit s) @ CHR 0x22 # r) = Some (s, r)"
proof (induction s)
  case Nil
  show ?case by (cases r) simp_all
next
  case (Cons c s)
  then show ?case by (simp add: read_quote_unit put_char_def)
qed

lemma hd_show_nat: "hd (show_nat n) = CHR ''0'' \<Longrightarrow> n = 0"
proof (induction n rule: show_nat.induct)
  case (1 n)
  show ?case
  proof (cases "n < 10")
    case True
    then have "of_char (hd (show_nat n)) = 48 + n"
      by (subst show_nat.simps) (simp add: of_char_digit_char)
    with "1.prems" show ?thesis by simp
  next
    case False
    then have "hd (show_nat n) = hd (show_nat (n div 10))"
      by (subst show_nat.simps) simp
    with 1 False have "n div 10 = 0" by simp
    with False show ?thesis by simp
  qed
qed

lemma show_nat_0_length: "hd (show_nat n) = CHR ''0'' \<Longrightarrow> length (show_nat n) = 1"
  using hd_show_nat [of n] by (auto simp: show_nat_digits_small)

lemma digits_prefix:
  assumes "delimited r"
  shows "takeWhile is_digit (show_nat n @ r) = show_nat n" "dropWhile is_digit (show_nat n @ r) = r"
  using show_nat_digits [of _ n] assms
  by (cases r; auto simp: delimited_def closer_def is_digit_def)+

lemma delimited_no_fraction: "delimited r \<Longrightarrow>
    \<not> (case r of [] \<Rightarrow> False | c # _ \<Rightarrow> c \<in> {CHR ''.'', CHR ''e'', CHR ''E''})"
  by (cases r) (auto simp: delimited_def closer_def)

lemma read_show_int: "delimited r \<Longrightarrow> read_number (show_int i @ r) = Some (JNum i, r)"
proof (cases "i < 0")
  case True
  assume d: "delimited r"
  show ?thesis
    using True show_nat_0_length [of "nat (- i)"] delimited_no_fraction [OF d]
    by (simp add: read_number_def show_int_def digits_prefix [OF d] Let_def)
next
  case False
  assume d: "delimited r"
  have "\<not> (case show_nat (nat i) @ r of [] \<Rightarrow> False | c # _ \<Rightarrow> c = CHR ''-'')"
    using show_nat_no_minus [of "nat i"] by (cases "show_nat (nat i)") auto
  then show ?thesis
    using False show_nat_0_length [of "nat i"] delimited_no_fraction [OF d]
    by (simp add: read_number_def show_int_def digits_prefix [OF d] Let_def)
qed

text \<open>Values whose objects have each key once, as every object of the program does.\<close>

fun json_ok :: "json \<Rightarrow> bool" where
  "json_ok (JArr vs) = list_all json_ok vs"
| "json_ok (JObj ps) = (distinct (map fst ps) \<and> list_all (\<lambda>(k, v). json_ok v) ps)"
| "json_ok JNull = True"
| "json_ok (JBool b) = True"
| "json_ok (JNum i) = True"
| "json_ok (JStr t) = True"

lemma foldl_jset: "distinct (map fst (acc @ ps)) \<Longrightarrow> foldl (\<lambda>o' (k, v). jset k v o') acc ps = acc @ ps"
proof (induction ps arbitrary: acc)
  case (Cons p ps)
  obtain k v where p: "p = (k, v)" by (cases p)
  have "jset k v acc = acc @ [(k, v)]"
    using Cons.prems unfolding p by (induction acc) auto
  then show ?case using Cons by (simp add: p)
qed simp

lemma skip_id: "s \<noteq> [] \<Longrightarrow> \<not> is_json_space (hd s) \<Longrightarrow> skip s = s"
  by (cases s) (simp_all add: skip_def)

lemma skip_Cons: "\<not> is_json_space c \<Longrightarrow> skip (c # s) = c # s"
  by (simp add: skip_def)

lemma punctuation_not_space: "c \<in> set ''{}[],:ntf-\"'' \<or> is_digit c \<Longrightarrow> \<not> is_json_space c"
  by (auto simp: is_json_space_def code_of_def is_digit_def)

lemma join_comma_single [simp]: "join_comma [x] = x"
  by (simp add: join_comma_def)

lemma join_comma_more: "ys \<noteq> [] \<Longrightarrow> join_comma (x # ys) = x @ CHR '','' # join_comma ys"
  by (cases ys) (simp_all add: join_comma_def)

definition reads_back :: "json \<Rightarrow> bool" where
  "reads_back v \<longleftrightarrow> (\<forall>n r. length (stringify v) \<le> n \<longrightarrow> delimited r \<longrightarrow>
     read_value n (stringify v @ r) = Some (v, r))"

lemma delimited_closers [simp]: "delimited (CHR '','' # r)" "delimited (CHR '']'' # r)" "delimited (CHR ''}'' # r)"
  by (simp_all add: delimited_def closer_def)

lemma skip_closers [simp]: "skip (CHR '','' # r) = CHR '','' # r" "skip (CHR '']'' # r) = CHR '']'' # r"
  "skip (CHR ''}'' # r) = CHR ''}'' # r" "skip (CHR '':'' # r) = CHR '':'' # r"
  "skip (CHR 0x22 # r) = CHR 0x22 # r" "skip (CHR ''['' # r) = CHR ''['' # r"
  "skip (CHR ''{'' # r) = CHR ''{'' # r"
  by (simp_all add: skip_def is_json_space_def code_of_def)

lemma items_back:
  assumes "vs \<noteq> []" "\<forall>v\<in>set vs. reads_back v" "length (join_comma (map stringify vs)) + 1 \<le> n"
  shows "read_items n (join_comma (map stringify vs) @ CHR '']'' # r) = Some (vs, r)"
  using assms
proof (induction vs arbitrary: n)
  case (Cons v vs)
  obtain m where n: "n = Suc m" using Cons.prems(3) by (cases n) auto
  show ?case
  proof (cases "vs = []")
    case True
    then have "read_value m (stringify v @ CHR '']'' # r) = Some (v, CHR '']'' # r)"
      using Cons.prems n by (simp add: reads_back_def)
    then show ?thesis using True n by simp
  next
    case False
    let ?rest = "join_comma (map stringify vs) @ CHR '']'' # r"
    have len: "length (stringify v) + 1 + length (join_comma (map stringify vs)) \<le> m"
      using Cons.prems(3) n False by (simp add: join_comma_more)
    then have "read_value m (stringify v @ CHR '','' # ?rest) = Some (v, CHR '','' # ?rest)"
      using Cons.prems(2) by (simp add: reads_back_def)
    moreover have "read_items m ?rest = Some (vs, r)"
      using Cons.IH [OF False, of m] Cons.prems(2) len by simp
    ultimately show ?thesis using False n by (simp add: join_comma_more)
  qed
qed simp

definition member_text :: "string \<times> json \<Rightarrow> string" where
  "member_text p = quote_string (fst p) @ CHR '':'' # stringify (snd p)"

lemma stringify_object: "stringify (JObj ps) = CHR ''{'' # join_comma (map member_text ps) @ [CHR ''}'']"
proof -
  have "(\<lambda>(k, v). quote_string k @ CHR '':'' # stringify v) = member_text"
    by (auto simp: member_text_def fun_eq_iff)
  then show ?thesis by simp
qed

lemma member_back:
  assumes "reads_back v" "length (member_text (k, v)) \<le> m" "delimited x" "x \<noteq> []"
  shows "read_members (Suc m) (member_text (k, v) @ x)
    = (case skip x of [] \<Rightarrow> None
       | d # r' \<Rightarrow> if d = CHR '','' then map_option (\<lambda>(ps, r''). ((k, v) # ps, r'')) (read_members m r')
                  else if d = CHR ''}'' then Some ([(k, v)], r') else None)"
proof -
  have "read_string (concat (map quote_unit k) @ CHR 0x22 # CHR '':'' # stringify v @ x)
      = Some (k, CHR '':'' # stringify v @ x)"
    by (rule read_quoted)
  moreover have "read_value m (stringify v @ x) = Some (v, x)"
    using assms by (simp add: reads_back_def member_text_def)
  ultimately show ?thesis by (simp add: member_text_def quote_string_def)
qed

lemma members_back:
  assumes "ps \<noteq> []" "\<forall>p\<in>set ps. reads_back (snd p)" "length (join_comma (map member_text ps)) + 1 \<le> n"
  shows "read_members n (join_comma (map member_text ps) @ CHR ''}'' # r) = Some (ps, r)"
  using assms
proof (induction ps arbitrary: n)
  case (Cons p ps)
  obtain k v where p: "p = (k, v)" by (cases p)
  obtain m where n: "n = Suc m" using Cons.prems(3) by (cases n) auto
  show ?case
  proof (cases "ps = []")
    case True
    then show ?thesis
      using Cons.prems n p member_back [of v k m "CHR ''}'' # r"] by simp
  next
    case False
    let ?rest = "join_comma (map member_text ps) @ CHR ''}'' # r"
    have len: "length (member_text p) + 1 + length (join_comma (map member_text ps)) \<le> m"
      using Cons.prems(3) n False by (simp add: join_comma_more)
    moreover have "read_members m ?rest = Some (ps, r)"
      using Cons.IH [OF False, of m] Cons.prems(2) len by simp
    ultimately show ?thesis
      using False n p Cons.prems(2) member_back [of v k m "CHR '','' # ?rest"]
      by (simp add: join_comma_more)
  qed
qed simp

text \<open>The first character of a printed value is never white space nor a closing bracket.\<close>

lemma stringify_head: "\<exists>c s. stringify v = c # s \<and> \<not> is_json_space c \<and> c \<noteq> CHR '']'' \<and> c \<noteq> CHR ''}''"
proof (cases v)
  case (JNum i)
  obtain c s where cs: "show_int i = c # s" using show_int_not_Nil [of i] by (cases "show_int i") auto
  then have "number_char c" using show_int_chars [of c i] by simp
  then show ?thesis
    using cs JNum by (auto simp: number_char_def is_digit_def is_json_space_def code_of_def)
qed (auto simp: quote_string_def is_json_space_def code_of_def)

lemma read_number_head:
  "read_value (Suc n) (show_int i @ r) = read_number (show_int i @ r)"
proof -
  obtain c s where cs: "show_int i = c # s" using show_int_not_Nil [of i] by (cases "show_int i") auto
  then have "number_char c" using show_int_chars [of c i] by simp
  then have "\<not> is_json_space c" "c \<notin> {CHR ''n'', CHR ''t'', CHR ''f'', CHR 0x22, CHR ''['', CHR ''{''}"
    by (auto simp: number_char_def is_digit_def is_json_space_def code_of_def)
  then show ?thesis using cs by (simp add: skip_Cons)
qed

lemma stringify_back: "json_ok v \<Longrightarrow> reads_back v"
proof (induction v rule: json_ok.induct)
  case (1 vs)
  show ?case
    unfolding reads_back_def
  proof (intro allI impI)
    fix n r assume n: "length (stringify (JArr vs)) \<le> n" and d: "delimited r"
    obtain m where m: "n = Suc m" using n by (cases n) auto
    show "read_value n (stringify (JArr vs) @ r) = Some (JArr vs, r)"
    proof (cases "vs = []")
      case True
      then show ?thesis using m by simp
    next
      case False
      let ?s = "join_comma (map stringify vs) @ CHR '']'' # r"
      have rd: "read_items m ?s = Some (vs, r)"
        using items_back [OF False, of m r] 1 n m by (simp add: list_all_iff)
      obtain v vs' where vs: "vs = v # vs'" using False by (cases vs) auto
      obtain c t where "stringify v = c # t" "\<not> is_json_space c" "c \<noteq> CHR '']''"
        using stringify_head [of v] by blast
      then obtain t' where "?s = c # t'" "\<not> is_json_space c" "c \<noteq> CHR '']''"
        unfolding vs by (cases "vs' = []") (auto simp: join_comma_more)
      then show ?thesis using rd m by (simp add: skip_Cons)
    qed
  qed
next
  case (2 ps)
  show ?case
    unfolding reads_back_def
  proof (intro allI impI)
    fix n r assume n: "length (stringify (JObj ps)) \<le> n" and d: "delimited r"
    obtain m where m: "n = Suc m" using n by (cases n) auto
    show "read_value n (stringify (JObj ps) @ r) = Some (JObj ps, r)"
    proof (cases "ps = []")
      case True
      then show ?thesis using m by simp
    next
      case False
      let ?s = "join_comma (map member_text ps) @ CHR ''}'' # r"
      have "\<forall>p\<in>set ps. reads_back (snd p)"
        using 2 by (auto simp: list_all_iff)
      moreover have "length (join_comma (map member_text ps)) + 1 \<le> m"
        using n m unfolding stringify_object by simp
      ultimately have rd: "read_members m ?s = Some (ps, r)"
        using members_back [OF False] by simp
      obtain p ps' where ps: "ps = p # ps'" using False by (cases ps) auto
      obtain t where "?s = CHR 0x22 # t"
        unfolding ps by (cases "ps' = []") (auto simp: join_comma_more member_text_def quote_string_def)
      then show ?thesis
        using rd m 2(2) foldl_jset [of "[]" ps] unfolding stringify_object by simp
    qed
  qed
next
  case (5 i)
  show ?case
    unfolding reads_back_def
  proof (intro allI impI)
    fix n r assume n: "length (stringify (JNum i)) \<le> n" and d: "delimited r"
    obtain m where m: "n = Suc m" using n show_int_not_Nil [of i] by (cases n) auto
    show "read_value n (stringify (JNum i) @ r) = Some (JNum i, r)"
      unfolding m stringify.simps read_number_head by (rule read_show_int [OF d])
  qed
next
  case (6 t)
  show ?case
    unfolding reads_back_def
  proof (intro allI impI)
    fix n r assume n: "length (stringify (JStr t)) \<le> n" and d: "delimited r"
    obtain m where m: "n = Suc m" using n by (cases n) (auto simp: quote_string_def)
    show "read_value n (stringify (JStr t) @ r) = Some (JStr t, r)"
      by (simp add: m quote_string_def read_quoted)
  qed
next
  case 3
  show ?case
    unfolding reads_back_def
  proof (intro allI impI)
    fix n r assume n: "length (stringify JNull) \<le> n"
    then obtain m where m: "n = Suc m" by (cases n) auto
    show "read_value n (stringify JNull @ r) = Some (JNull, r)"
      by (simp add: m skip_def is_json_space_def code_of_def keyword_def)
  qed
next
  case (4 b)
  show ?case
    unfolding reads_back_def
  proof (intro allI impI)
    fix n r assume n: "length (stringify (JBool b)) \<le> n"
    then obtain m where m: "n = Suc m" by (cases n; cases b) auto
    show "read_value n (stringify (JBool b) @ r) = Some (JBool b, r)"
      by (cases b) (simp_all add: m skip_def is_json_space_def code_of_def keyword_def)
  qed
qed

lemma parse_stringify: "json_ok v \<Longrightarrow> parse_json (stringify v) = Some v"
proof -
  assume "json_ok v"
  then have "reads_back v" by (rule stringify_back)
  moreover have "delimited []" by (simp add: delimited_def)
  ultimately have "read_value (Suc (length (stringify v))) (stringify v @ []) = Some (v, [])"
    unfolding reads_back_def using le_SucI by blast
  then show ?thesis by (simp only: parse_json_def append_Nil2 option.case prod.case skip_def) simp
qed

text \<open>
  What \<open>JSON.stringify\<close> prints \<open>JSON.parse\<close> reads back: every value whose objects have each key
  once comes back as it was.
\<close>

theorem stringify_parse_roundtrip:
  "json_ok v \<Longrightarrow> parse_json (stringify v) = Some v"
  by (rule parse_stringify)

lemma stringify_parse_roundtrip_witness:
  "parse_json (stringify (JObj [(''a'', JArr [JNum (- 12), JStr [CHR 0x22, CHR 0x0A]]), (''b'', JBool True)]))
     = Some (JObj [(''a'', JArr [JNum (- 12), JStr [CHR 0x22, CHR 0x0A]]), (''b'', JBool True)])"
  by (rule stringify_parse_roundtrip) simp

end
