(* ===== verification/Approval.thy ===== *)
theory Approval
  imports Audit_Store Json_Text
begin

text \<open>
  The approval engine: \<open>governance/packages/approval/src/\<close> (\<open>approval-engine.ts\<close>, \<open>ports.ts\<close>).

  The sinks of the ports are the logs \<open>emitted\<close> and \<open>guardrail_log\<close> of the world. A decision reads the
  row, computes its next version and writes it with a compare-and-set; the read and the write are
  separate definitions, because other decisions may run between them. The dash of the submission
  comment, outside the characters of the model, is written as a hyphen.
\<close>

definition NIL_UUID :: string where
  "NIL_UUID = ''00000000-0000-0000-0000-000000000000''"

definition AGENT_SENSITIVE_OP_PROCESS_ID :: string where
  "AGENT_SENSITIVE_OP_PROCESS_ID = ''00000000-0000-0000-0000-000000000001''"

section \<open>Ports\<close>

type_synonym approver_check = "approval_step \<Rightarrow> string \<Rightarrow> bool act"

record approval_options =
  ao_policyRevisionRepo :: bool
  ao_approverCheck :: approver_check

definition exactApproverCheck :: approver_check where
  "exactApproverCheck step approverId =
     (if st_approverType step = ''queue'' then ret False
      else ret (st_approverId step = Some approverId))"

definition emit :: "string \<Rightarrow> jobject \<Rightarrow> unit act" where
  "emit event payload = modify (\<lambda>w. w\<lparr>emitted := emitted w @ [(event, payload)]\<rparr>)"

definition logGuardrailEvent :: "jobject \<Rightarrow> unit act" where
  "logGuardrailEvent inp = modify (\<lambda>w. w\<lparr>guardrail_log := guardrail_log w @ [(''log'', inp)]\<rparr>)"

definition updateGuardrailLogByApprovalId :: "string \<Rightarrow> jobject \<Rightarrow> unit act" where
  "updateGuardrailLogByApprovalId approvalId patch =
     modify (\<lambda>w. w\<lparr>guardrail_log := guardrail_log w @ [(''update:'' @ approvalId, patch)]\<rparr>)"

section \<open>Step configuration\<close>

record step_input =
  si_stepOrder :: int
  si_stepName :: "string option"
  si_stepType :: string
  si_approverType :: string
  si_approverId :: "string option"
  si_timeoutMinutes :: "int option"
  si_timeoutAction :: "string option"

fun save_steps :: "string \<Rightarrow> step_input list \<Rightarrow> approval_step list act" where
  "save_steps approvalProcessId [] = ret []"
| "save_steps approvalProcessId (s # ss) =
     bindE fresh_id (\<lambda>i.
     bindE now (\<lambda>t.
     let row = \<lparr>st_id = i, st_approvalProcessId = approvalProcessId, st_stepOrder = si_stepOrder s,
          st_stepName = si_stepName s, st_stepType = si_stepType s,
          st_approverType = si_approverType s, st_approverId = si_approverId s,
          st_timeoutMinutes = si_timeoutMinutes s,
          st_timeoutAction = (if truthy (si_timeoutAction s) then the (si_timeoutAction s) else ''reject''),
          st_aiConfig = None, st_createdAt = t\<rparr>
     in seqE (modify (\<lambda>w. w\<lparr>approval_steps := tb_insert row (approval_steps w)\<rparr>))
       (bindE (save_steps approvalProcessId ss) (\<lambda>rows. ret (row # rows)))))"

definition configureSteps :: "string \<Rightarrow> step_input list \<Rightarrow> approval_step list act" where
  "configureSteps approvalProcessId steps =
     seqE (modify (\<lambda>w. w\<lparr>approval_steps :=
             filter (\<lambda>s. st_approvalProcessId s \<noteq> approvalProcessId) (approval_steps w)\<rparr>))
       (save_steps approvalProcessId steps)"

definition getSteps :: "string \<Rightarrow> approval_step list act" where
  "getSteps approvalProcessId =
     reads (\<lambda>w. sort_key st_stepOrder
       (filter (\<lambda>s. st_approvalProcessId s = approvalProcessId) (approval_steps w)))"

section \<open>Agent approvals\<close>

record governance_context =
  gx_agentExecutionId :: string
  gx_toolCallId :: string
  gx_json :: json

record approval_preparation =
  ap_toolCallId :: string
  ap_inputDigest :: string
  ap_policyRevisionId :: string
  ap_policyChecksum :: string
  ap_governanceContext :: governance_context

record approval_request =
  aq_workspaceId :: string
  aq_agentExecutionId :: string
  aq_toolName :: string
  aq_toolInput :: json
  aq_riskLevel :: string
  aq_description :: string
  aq_traceId :: "string option"
  aq_correlationId :: "string option"
  aq_actorType :: "string option"
  aq_actorId :: "string option"
  aq_source :: "string option"
  aq_preparation :: "approval_preparation option"

definition PAUSED_MARKER :: string where
  "PAUSED_MARKER = ''__pausedToolCall__:''"

definition paused_call :: "approval_request \<Rightarrow> jobject" where
  "paused_call q =
     [(''toolName'', JStr (aq_toolName q)), (''toolInput'', aq_toolInput q),
      (''riskLevel'', JStr (aq_riskLevel q)), (''description'', JStr (aq_description q))]
     @ (case aq_preparation q of
          None \<Rightarrow> []
        | Some p \<Rightarrow> [(''toolCallId'', JStr (ap_toolCallId p)), (''inputDigest'', JStr (ap_inputDigest p))])"

definition submission_text :: "approval_request \<Rightarrow> string" where
  "submission_text q =
     ''Tool: '' @ aq_toolName q @ '', Risk: '' @ aq_riskLevel q @ '' - '' @ aq_description q @ [CHR 0x0A]"

definition submission_comments :: "approval_request \<Rightarrow> string" where
  "submission_comments q = submission_text q @ PAUSED_MARKER @ stringify (JObj (paused_call q))"

text \<open>The columns of a governed instance; a request without preparation has none.\<close>

definition governed_columns ::
    "approval_options \<Rightarrow> approval_request \<Rightarrow> (string \<times> approval_subject) act" where
  "governed_columns opts q =
     (case aq_preparation q of
        None \<Rightarrow> ret (AGENT_SENSITIVE_OP_PROCESS_ID, no_subject)
      | Some p \<Rightarrow>
          seqE (throw_if (\<not> ao_policyRevisionRepo opts) ''APPROVAL_POLICY_REVISION_OWNER_UNAVAILABLE'')
         (bindE (reads (\<lambda>w. tb_find (\<lambda>r. pr_workspaceId r = aq_workspaceId q
                    \<and> pr_id r = ap_policyRevisionId p \<and> pr_checksum r = ap_policyChecksum p)
                  (policy_revisions w))) (\<lambda>found.
          bindE (of_option ''APPROVAL_POLICY_REVISION_MISMATCH'' found) (\<lambda>policy.
          seqE (throw_if (pr_purpose policy \<noteq> ''tool_call'' \<or> \<not> pr_humanOnly policy)
                  ''APPROVAL_POLICY_REVISION_MISMATCH'')
         (seqE (throw_if (gx_agentExecutionId (ap_governanceContext p) \<noteq> aq_agentExecutionId q
                    \<or> gx_toolCallId (ap_governanceContext p) \<noteq> ap_toolCallId p)
                  ''APPROVAL_GOVERNANCE_CONTEXT_MISMATCH'')
         (bindE now (\<lambda>t.
          ret (pr_approvalProcessId policy,
               no_subject\<lparr>as_policyRevisionId := Some (pr_id policy),
                 as_policyChecksum := Some (pr_checksum policy), as_subjectType := Some ''agent_tool'',
                 as_subjectId := Some (ap_toolCallId p), as_toolCallId := Some (ap_toolCallId p),
                 as_governanceContext := Some (gx_json (ap_governanceContext p)),
                 as_expiresAt := Some (t + pr_expiresAfterSeconds policy * 1000),
                 as_stepVersion := Some 0, as_decisionVersion := Some 0\<rparr>))))))))"

definition optional_member :: "string \<Rightarrow> string option \<Rightarrow> jobject" where
  "optional_member k s = (case s of None \<Rightarrow> [] | Some t \<Rightarrow> [(k, JStr t)])"

definition createAgentApproval :: "approval_options \<Rightarrow> approval_request \<Rightarrow> approval_instance act" where
  "createAgentApproval opts q =
     bindE (governed_columns opts q) (\<lambda>(processId, subject).
     bindE now (\<lambda>t.
     bindE fresh_id (\<lambda>i.
     bindE now (\<lambda>submittedAt.
     let row = \<lparr>ai_id = i, ai_workspaceId = aq_workspaceId q, ai_processId = processId,
           ai_recordId = aq_agentExecutionId q, ai_objectName = ''AgentExecution'',
           ai_status = PENDING, ai_currentStepIndex = 0, ai_subject = subject,
           ai_supersession = no_supersession,
           ai_history = [\<lparr>he_stepIndex = 0, he_stepName = ''Agent Sensitive Operation'',
              he_action = Submitted, he_actorId = ''system'', he_actorName = ''Agent Runtime'',
              he_comments = Some (submission_comments q), he_timestamp = t, he_queueContext = None\<rparr>],
           ai_submittedBy = NIL_UUID, ai_submittedAt = submittedAt, ai_completedAt = None\<rparr>
     in seqE (modify (\<lambda>w. w\<lparr>approvals := tb_insert row (approvals w)\<rparr>))
       (seqE (emit ''approval.created''
          [(''workspaceId'', JStr (aq_workspaceId q)), (''instanceId'', JStr i),
           (''agentExecutionId'', JStr (aq_agentExecutionId q)), (''toolName'', JStr (aq_toolName q)),
           (''riskLevel'', JStr (aq_riskLevel q))])
       (seqE (logGuardrailEvent
          ([(''workspaceId'', JStr (aq_workspaceId q)), (''executionId'', JStr (aq_agentExecutionId q)),
            (''ruleName'', JStr ''Approval Degradation Gate''), (''riskLevel'', JStr (aq_riskLevel q)),
            (''operationType'', JStr (aq_toolName q))]
           @ (case prop_of ''objectApiName'' (aq_toolInput q) of
                Some (JStr o') \<Rightarrow> [(''objectApiName'', JStr o')] | _ \<Rightarrow> [])
           @ [(''actionTaken'', JStr ''approve''), (''approvalStatus'', JStr ''pending''),
              (''approvalId'', JStr i),
              (''context'', JObj ([(''governanceCategory'', JStr ''approval_degradation'')]
                 @ optional_member ''traceId'' (aq_traceId q)
                 @ optional_member ''correlationId''
                     (case aq_correlationId q of None \<Rightarrow> aq_traceId q | Some c \<Rightarrow> Some c)
                 @ optional_member ''actorType'' (aq_actorType q)
                 @ optional_member ''actorId'' (aq_actorId q)
                 @ optional_member ''source'' (aq_source q)
                 @ [(''toolName'', JStr (aq_toolName q)), (''description'', JStr (aq_description q))]))]))
       (ret row)))))))"

section \<open>Decisions\<close>

datatype decision_action = ApproveDecision | RejectDecision

record approval_decision =
  ad_instanceId :: string
  ad_approverId :: string
  ad_approverName :: string
  ad_action :: decision_action
  ad_comments :: "string option"

definition isAgentApproval :: "approval_instance \<Rightarrow> bool" where
  "isAgentApproval a \<longleftrightarrow>
     ai_processId a = AGENT_SENSITIVE_OP_PROCESS_ID \<or> as_subjectType (ai_subject a) = Some ''agent_tool''"

text \<open>The tool call stored behind the marker of the first history entry.\<close>

definition extractPausedToolCall :: "approval_instance \<Rightarrow> json option" where
  "extractPausedToolCall a =
     (case ai_history a of
        [] \<Rightarrow> None
      | e # _ \<Rightarrow>
          if \<not> truthy (he_comments e) then None
          else (case index_of PAUSED_MARKER (the (he_comments e)) of
                  None \<Rightarrow> None
                | Some i \<Rightarrow> parse_json (drop (i + length PAUSED_MARKER) (the (he_comments e)))))"

definition getStepsForInstance :: "approval_instance \<Rightarrow> approval_step list act" where
  "getStepsForInstance a = (if isAgentApproval a then ret [] else getSteps (ai_processId a))"

definition resolveGovernedSteps ::
    "approval_options \<Rightarrow> approval_instance \<Rightarrow> governed_step list option act" where
  "resolveGovernedSteps opts a =
     (let s = ai_subject a in
      if \<not> truthy (as_subjectType s) then ret None
      else
        seqE (throw_if (\<not> truthy (as_policyRevisionId s) \<or> \<not> truthy (as_policyChecksum s)
                \<or> \<not> ao_policyRevisionRepo opts) ''APPROVAL_GOVERNED_POLICY_UNAVAILABLE'')
       (bindE (reads (\<lambda>w. tb_find (\<lambda>r. pr_workspaceId r = ai_workspaceId a
                  \<and> Some (pr_id r) = as_policyRevisionId s \<and> Some (pr_checksum r) = as_policyChecksum s)
                (policy_revisions w))) (\<lambda>found.
        bindE (of_option ''APPROVAL_GOVERNED_POLICY_MISMATCH'' found) (\<lambda>revision.
        seqE (throw_if (pr_purpose revision \<noteq> ''tool_call'' \<or> \<not> pr_humanOnly revision)
                ''APPROVAL_GOVERNED_POLICY_MISMATCH'')
         (ret (Some (nullish (pr_stepsSnapshot revision) [])))))))"

definition nth_opt :: "'a list \<Rightarrow> nat \<Rightarrow> 'a option" where
  "nth_opt xs i = (if i < length xs then Some (xs ! i) else None)"

definition step_label :: "nat \<Rightarrow> string" where
  "step_label i = ''Step '' @ show_nat (i + 1)"

definition history_action_of :: "decision_action \<Rightarrow> history_action" where
  "history_action_of a = (case a of ApproveDecision \<Rightarrow> Approve | RejectDecision \<Rightarrow> Reject)"

text \<open>
  A decision ready to be written: the step it was taken at, the next version of the row, and
  whether it advances to a further step.
\<close>

record prepared =
  pd_expectedStepIndex :: nat
  pd_instance :: approval_instance
  pd_advances :: bool

text \<open>The columns a terminal decision of a governed subject gets.\<close>

definition terminal_subject :: "string \<Rightarrow> approval_subject \<Rightarrow> approval_subject" where
  "terminal_subject approverId s =
     (if truthy (as_subjectType s)
      then s\<lparr>as_decisionVersion := Some 1, as_decisionActorKind := Some ''human'',
             as_decisionActorId := Some approverId\<rparr>
      else s)"

definition bump_step_version :: "approval_subject \<Rightarrow> approval_subject" where
  "bump_step_version s =
     (if truthy (as_subjectType s)
      then s\<lparr>as_stepVersion := Some (nullish (as_stepVersion s) 0 + 1)\<rparr> else s)"

definition decided_instance ::
    "approval_decision \<Rightarrow> nat \<Rightarrow> approval_instance \<Rightarrow> prepared act" where
  "decided_instance d stepCount a =
     (let next = ai_currentStepIndex a + 1 in
      if ad_action d = ApproveDecision \<and> next < stepCount
      then ret \<lparr>pd_expectedStepIndex = ai_currentStepIndex a,
                pd_instance = a\<lparr>ai_currentStepIndex := next, ai_subject := bump_step_version (ai_subject a)\<rparr>,
                pd_advances = True\<rparr>
      else bindE now (\<lambda>t.
        ret \<lparr>pd_expectedStepIndex = ai_currentStepIndex a,
             pd_instance = a\<lparr>ai_status := (case ad_action d of ApproveDecision \<Rightarrow> APPROVED
                                                            | RejectDecision \<Rightarrow> REJECTED),
                             ai_completedAt := Some t,
                             ai_subject := terminal_subject (ad_approverId d) (ai_subject a)\<rparr>,
             pd_advances = False\<rparr>))"

definition prepareDecision :: "approval_options \<Rightarrow> approval_decision \<Rightarrow> prepared act" where
  "prepareDecision opts d =
     bindE (find_approval (ad_instanceId d)) (\<lambda>found.
     bindE (of_option (''Approval instance '' @ ad_instanceId d @ '' not found'') found) (\<lambda>a.
     seqE (throw_if (truthy (as_subjectType (ai_subject a))) ''APPROVAL_V2_DECISION_OWNER_REQUIRED'')
    (seqE (throw_if (ai_status a \<noteq> PENDING)
             (''Approval instance '' @ ad_instanceId d @ '' is not pending''))
    (bindE (resolveGovernedSteps opts a) (\<lambda>governedSteps.
     bindE (case governedSteps of Some _ \<Rightarrow> ret [] | None \<Rightarrow> getStepsForInstance a) (\<lambda>steps.
     let i = ai_currentStepIndex a;
         currentStep = nth_opt steps i;
         governedStep = Option.bind governedSteps (\<lambda>gs. nth_opt gs i);
         queueContext = (case currentStep of
            None \<Rightarrow> None | Some s \<Rightarrow> if st_approverType s = ''queue'' then st_approverId s else None)
     in bindE (case governedStep of
                 Some g \<Rightarrow> ret (ad_approverId d \<in> set (gs_approverIds g))
               | None \<Rightarrow> (case currentStep of
                            None \<Rightarrow> ret True
                          | Some s \<Rightarrow> ao_approverCheck opts s (ad_approverId d))) (\<lambda>allowed.
        seqE (throw_if (\<not> allowed) (''User '' @ ad_approverId d @ '' is not the current approver''))
       (bindE now (\<lambda>t.
        let entry = \<lparr>he_stepIndex = i,
              he_stepName = (if truthy (map_option gs_name governedStep) then gs_name (the governedStep)
                             else if truthy (Option.bind currentStep st_stepName)
                                  then the (Option.bind currentStep st_stepName)
                             else step_label i),
              he_action = history_action_of (ad_action d), he_actorId = ad_approverId d,
              he_actorName = ad_approverName d, he_comments = ad_comments d, he_timestamp = t,
              he_queueContext = queueContext\<rparr>
        in decided_instance d
             (case governedSteps of Some gs \<Rightarrow> length gs | None \<Rightarrow> length steps)
             (a\<lparr>ai_history := ai_history a @ [entry]\<rparr>))))))))))"

text \<open>The compare-and-set: the row still pending, at the step the decision was taken at.\<close>

definition first_writer_where :: "approval_instance \<Rightarrow> nat \<Rightarrow> approval_instance \<Rightarrow> bool" where
  "first_writer_where a expectedStepIndex r \<longleftrightarrow>
     ai_id r = ai_id a \<and> ai_workspaceId r = ai_workspaceId a \<and> ai_status r = PENDING
     \<and> ai_currentStepIndex r = expectedStepIndex"

definition decision_patch :: "approval_instance \<Rightarrow> approval_instance \<Rightarrow> approval_instance" where
  "decision_patch a r =
     r\<lparr>ai_history := ai_history a, ai_status := ai_status a, ai_currentStepIndex := ai_currentStepIndex a,
       ai_subject := (ai_subject r)\<lparr>as_stepVersion := as_stepVersion (ai_subject a),
         as_decisionVersion := as_decisionVersion (ai_subject a),
         as_decisionActorKind := as_decisionActorKind (ai_subject a),
         as_decisionActorId := as_decisionActorId (ai_subject a)\<rparr>,
       ai_completedAt := (case ai_completedAt a of None \<Rightarrow> ai_completedAt r | Some t \<Rightarrow> Some t)\<rparr>"

definition saveDecisionFirstWriter :: "approval_instance \<Rightarrow> nat \<Rightarrow> approval_instance act" where
  "saveDecisionFirstWriter a expectedStepIndex =
     bindE (update_approvals (first_writer_where a expectedStepIndex) (decision_patch a)) (\<lambda>affected.
     seqE (throw_if (affected \<noteq> 1) ''APPROVAL_DECISION_CONCURRENT_MODIFICATION'') (ret a))"

definition resume_payload :: "approval_instance \<Rightarrow> jobject" where
  "resume_payload a =
     [(''workspaceId'', JStr (ai_workspaceId a)), (''agentExecutionId'', JStr (ai_recordId a)),
      (''instanceId'', JStr (ai_id a)), (''pausedToolCall'', nullish (extractPausedToolCall a) JNull)]"

definition terminate_payload :: "approval_instance \<Rightarrow> string \<Rightarrow> jobject" where
  "terminate_payload a reason =
     [(''workspaceId'', JStr (ai_workspaceId a)), (''agentExecutionId'', JStr (ai_recordId a)),
      (''instanceId'', JStr (ai_id a)), (''reason'', JStr reason)]"

definition commitDecision :: "approval_decision \<Rightarrow> prepared \<Rightarrow> approval_instance act" where
  "commitDecision d p =
     (let a = pd_instance p; completedAt = JNum (nullish (ai_completedAt a) 0) in
     seqE (saveDecisionFirstWriter a (pd_expectedStepIndex p))
    (seqE
      (if pd_advances p
       then emit ''approval.step.advanced''
              [(''instanceId'', JStr (ai_id a)), (''stepIndex'', JNum (int (ai_currentStepIndex a)))]
       else if \<not> isAgentApproval a then ret ()
       else (case ad_action d of
          ApproveDecision \<Rightarrow>
            seqE (emit ''approval.agent.resume'' (resume_payload a))
              (updateGuardrailLogByApprovalId (ai_id a)
                 [(''approvalStatus'', JStr ''approved''), (''approverId'', JStr (ad_approverId d)),
                  (''approvedAt'', completedAt)])
        | RejectDecision \<Rightarrow>
            seqE (emit ''approval.agent.terminate''
                    (terminate_payload a (if truthy (ad_comments d) then the (ad_comments d)
                                          else ''Approval rejected'')))
              (updateGuardrailLogByApprovalId (ai_id a)
                 [(''approvalStatus'', JStr ''rejected''), (''approverId'', JStr (ad_approverId d)),
                  (''approvedAt'', completedAt)])))
     (ret a)))"

definition processDecision :: "approval_options \<Rightarrow> approval_decision \<Rightarrow> approval_instance act" where
  "processDecision opts d = bindE (prepareDecision opts d) (commitDecision d)"

section \<open>Timeouts\<close>

text \<open>\<open>save\<close> of a loaded entity writes the whole row back, without a condition.\<close>

definition save_approval :: "approval_instance \<Rightarrow> unit act" where
  "save_approval a = modify (\<lambda>w.
     if ai_id a \<in> ai_id ` set (approvals w)
     then w\<lparr>approvals := tb_update (\<lambda>r. ai_id r = ai_id a) (\<lambda>_. a) (approvals w)\<rparr>
     else w\<lparr>approvals := tb_insert a (approvals w)\<rparr>)"

record prepared_timeout =
  pt_instance :: approval_instance
  pt_timeoutAction :: string
  pt_escalatesTo :: "nat option"

definition or_zero_minutes :: "int option \<Rightarrow> int" where
  "or_zero_minutes m = nullish m 0"

definition prepareTimeout :: "string \<Rightarrow> prepared_timeout option act" where
  "prepareTimeout instanceId =
     bindE (find_approval instanceId) (\<lambda>found.
     case found of
       None \<Rightarrow> ret None
     | Some a \<Rightarrow>
         if ai_status a \<noteq> PENDING then ret None
         else
           seqE (throw_if (truthy (as_subjectType (ai_subject a))) ''APPROVAL_V2_EXPIRY_OWNER_REQUIRED'')
          (bindE (getStepsForInstance a) (\<lambda>steps.
           let i = ai_currentStepIndex a; currentStep = nth_opt steps i;
               timeoutAction = (case currentStep of
                  None \<Rightarrow> ''reject''
                | Some s \<Rightarrow> if st_timeoutAction s = [] then ''reject'' else st_timeoutAction s)
           in bindE now (\<lambda>t.
              let entry = \<lparr>he_stepIndex = i,
                    he_stepName = (if truthy (Option.bind currentStep st_stepName)
                                   then the (Option.bind currentStep st_stepName) else step_label i),
                    he_action = Reject, he_actorId = ''system'', he_actorName = ''Timeout Handler'',
                    he_comments = Some (''Auto-'' @ timeoutAction @ '' due to timeout (''
                       @ show_int (or_zero_minutes (Option.bind currentStep st_timeoutMinutes))
                       @ '' minutes)''),
                    he_timestamp = t, he_queueContext = None\<rparr>;
                  a1 = a\<lparr>ai_history := ai_history a @ [entry]\<rparr>
              in if timeoutAction = ''escalate'' \<and> i + 1 < length steps
                 then ret (Some \<lparr>pt_instance = a1\<lparr>ai_currentStepIndex := i + 1\<rparr>,
                                 pt_timeoutAction = timeoutAction, pt_escalatesTo = Some (i + 1)\<rparr>)
                 else bindE now (\<lambda>t'.
                      ret (Some \<lparr>pt_instance = a1\<lparr>ai_status := REJECTED, ai_completedAt := Some t'\<rparr>,
                                 pt_timeoutAction = timeoutAction, pt_escalatesTo = None\<rparr>))))))"

definition commitTimeout :: "prepared_timeout \<Rightarrow> unit act" where
  "commitTimeout p =
     (let a = pt_instance p in
     seqE (save_approval a)
     (case pt_escalatesTo p of
        Some toStep \<Rightarrow>
          emit ''approval.escalated''
            [(''instanceId'', JStr (ai_id a)), (''fromStep'', JNum (int toStep - 1)),
             (''toStep'', JNum (int toStep))]
      | None \<Rightarrow>
          if isAgentApproval a
          then seqE (updateGuardrailLogByApprovalId (ai_id a)
                       [(''approvalStatus'', JStr ''timeout''),
                        (''approvedAt'', JNum (nullish (ai_completedAt a) 0))])
                 (emit ''approval.agent.terminate''
                    (terminate_payload a (''Approval timed out (auto-'' @ pt_timeoutAction p @ '')'')))
          else ret ()))"

definition processTimeout :: "string \<Rightarrow> unit act" where
  "processTimeout instanceId =
     bindE (prepareTimeout instanceId) (\<lambda>p. case p of None \<Rightarrow> ret () | Some q \<Rightarrow> commitTimeout q)"

section \<open>Audit trail\<close>

definition getAuditTrail ::
    "string \<Rightarrow> (approval_instance \<times> approval_step list \<times> history_entry list) act" where
  "getAuditTrail instanceId =
     bindE (find_approval instanceId) (\<lambda>found.
     bindE (of_option (''Approval instance '' @ instanceId @ '' not found'') found) (\<lambda>a.
     bindE (getStepsForInstance a) (\<lambda>steps. ret (a, steps, ai_history a))))"

section \<open>The marker\<close>

lemma starts_with_append: "starts_with p s \<Longrightarrow> starts_with p (s @ t)"
  by (auto simp: starts_with_iff)

lemma index_of_skip:
  assumes "\<And>i. i < length pre \<Longrightarrow> \<not> starts_with p (drop i pre @ p @ t)"
  shows "index_of p (pre @ p @ t) = Some (length pre)"
  using assms
proof (induction pre)
  case Nil
  have "starts_with p (p @ t)" by (auto simp: starts_with_iff)
  then show ?case by (cases "p @ t") auto
next
  case (Cons c pre)
  have "\<not> starts_with p (c # pre @ p @ t)" using Cons.prems [of 0] by simp
  moreover have "index_of p (pre @ p @ t) = Some (length pre)"
    using Cons.IH Cons.prems [of "Suc i" for i] by simp
  ultimately show ?case by simp
qed

text \<open>A text that ends in a character the marker does not have cannot overlap with it.\<close>

lemma index_of_after_stop:
  assumes "\<not> contains p (pre @ [c])" "c \<notin> set p"
  shows "index_of p ((pre @ [c]) @ p @ t) = Some (length (pre @ [c]))"
proof (rule index_of_skip)
  fix i assume i: "i < length (pre @ [c])"
  show "\<not> starts_with p (drop i (pre @ [c]) @ p @ t)"
  proof
    let ?d = "drop i (pre @ [c])"
    assume "starts_with p (?d @ p @ t)"
    then obtain u where u: "?d @ p @ t = p @ u" by (auto simp: starts_with_iff)
    show False
    proof (cases "length p < length ?d")
      case True
      then have "p = take (length p) ?d" using u by (metis append_eq_conv_conj take_append diff_is_0_eq
            less_imp_le_nat take0 append_Nil2)
      then have "pre @ [c] = take i (pre @ [c]) @ p @ drop (length p) ?d"
        by (metis append_take_drop_id)
      then show False using assms(1) contains_iff by blast
    next
      case False
      then obtain v where "p = ?d @ v" using u by (metis append_eq_append_conv_if append_take_drop_id linorder_not_less)
      moreover have "c \<in> set ?d" using i by (cases "i \<le> length pre") auto
      ultimately show False using assms(2) by (metis Un_iff set_append)
    qed
  qed
qed

lemma newline_not_marker: "CHR 0x0A \<notin> set PAUSED_MARKER"
  by (simp add: PAUSED_MARKER_def)

lemma marker_found:
  "\<not> contains PAUSED_MARKER (submission_text q) \<Longrightarrow>
     index_of PAUSED_MARKER (submission_comments q) = Some (length (submission_text q))"
  using index_of_after_stop [OF _ newline_not_marker] newline_not_marker
  unfolding submission_comments_def submission_text_def append_assoc [symmetric] by blast

lemma extract_submitted:
  assumes "\<not> contains PAUSED_MARKER (submission_text q)" "json_ok (JObj (paused_call q))"
    and "ai_history a = e # es" "he_comments e = Some (submission_comments q)"
  shows "extractPausedToolCall a = Some (JObj (paused_call q))"
proof -
  have "parse_json (stringify (JObj (paused_call q))) = Some (JObj (paused_call q))"
    using assms(2) by (rule parse_stringify)
  moreover have "drop (length (submission_text q) + length PAUSED_MARKER) (submission_comments q)
      = stringify (JObj (paused_call q))"
    by (simp add: submission_comments_def)
  moreover have "submission_comments q \<noteq> []" by (simp add: submission_comments_def submission_text_def)
  ultimately show ?thesis
    using assms(3,4) marker_found [OF assms(1)] by (simp add: extractPausedToolCall_def)
qed

section \<open>The interface of an approver check\<close>

text \<open>The steps an instance goes through; an agent approval has none, and takes one decision.\<close>

definition steps_of :: "approval_step list \<Rightarrow> approval_instance \<Rightarrow> approval_step list" where
  "steps_of configured a = (if isAgentApproval a then []
     else sort_key st_stepOrder (filter (\<lambda>s. st_approvalProcessId s = ai_processId a) configured))"

lemma getStepsForInstance_apply [eff_simps]:
  "getStepsForInstance a w = (Inr (steps_of (approval_steps w) a), w)"
  by (simp add: getStepsForInstance_def getSteps_def steps_of_def eff_simps)

text \<open>A check answers from what it reads: it neither throws nor writes.\<close>

locale approver_port =
  fixes check :: approver_check
    and permits :: "world \<Rightarrow> approval_step \<Rightarrow> string \<Rightarrow> bool"
  assumes check_reads: "check st u w = (Inr (permits w st u), w)"
begin

text \<open>What a prepared decision is: the row as read, one history entry, and the next step or the end.\<close>

lemma prepared_decision:
  assumes "ao_approverCheck opts = check" "prepareDecision opts d w = (Inr p, w')"
  shows "\<exists>a h. tb_find (\<lambda>r. ai_id r = ad_instanceId d) (approvals w) = Some a
    \<and> \<not> truthy (as_subjectType (ai_subject a)) \<and> ai_status a = PENDING
    \<and> (case nth_opt (steps_of (approval_steps w) a) (ai_currentStepIndex a) of
         None \<Rightarrow> True | Some s \<Rightarrow> permits w s (ad_approverId d))
    \<and> he_action h = history_action_of (ad_action d) \<and> he_actorId h = ad_approverId d
    \<and> he_stepIndex h = ai_currentStepIndex a
    \<and> pd_expectedStepIndex p = ai_currentStepIndex a
    \<and> (pd_advances p \<longleftrightarrow> ad_action d = ApproveDecision
         \<and> ai_currentStepIndex a + 1 < length (steps_of (approval_steps w) a))
    \<and> (if pd_advances p
       then pd_instance p = a\<lparr>ai_history := ai_history a @ [h], ai_currentStepIndex := ai_currentStepIndex a + 1\<rparr>
       else \<exists>t. pd_instance p = a\<lparr>ai_history := ai_history a @ [h],
              ai_status := (case ad_action d of ApproveDecision \<Rightarrow> APPROVED | RejectDecision \<Rightarrow> REJECTED),
              ai_completedAt := Some t\<rparr>)
    \<and> w' = w\<lparr>next_tick := next_tick w'\<rparr>"
proof -
  obtain a where a: "tb_find (\<lambda>r. ai_id r = ad_instanceId d) (approvals w) = Some a"
    "\<not> truthy (as_subjectType (ai_subject a))" "ai_status a = PENDING"
    using assms(2)
    by (auto simp: prepareDecision_def find_approval_def eff_Inr_iffs)
  let ?steps = "steps_of (approval_steps w) a" and ?i = "ai_currentStepIndex a"
  let ?ok = "case nth_opt ?steps ?i of None \<Rightarrow> True | Some s \<Rightarrow> permits w s (ad_approverId d)"
  let ?entry = "\<lparr>he_stepIndex = ?i,
      he_stepName = (if truthy (Option.bind (nth_opt ?steps ?i) st_stepName)
                     then the (Option.bind (nth_opt ?steps ?i) st_stepName) else step_label ?i),
      he_action = history_action_of (ad_action d), he_actorId = ad_approverId d,
      he_actorName = ad_approverName d, he_comments = ad_comments d,
      he_timestamp = clock_of w (next_tick w),
      he_queueContext = (case nth_opt ?steps ?i of None \<Rightarrow> None
         | Some s \<Rightarrow> if st_approverType s = ''queue'' then st_approverId s else None)\<rparr>"
  have run: "prepareDecision opts d w =
      (if ?ok then decided_instance d (length ?steps) (a\<lparr>ai_history := ai_history a @ [?entry]\<rparr>)
                     (w\<lparr>next_tick := Suc (next_tick w)\<rparr>)
       else (Inl (''User '' @ ad_approverId d @ '' is not the current approver''), w))"
    using a assms(1)
    by (cases "nth_opt ?steps ?i")
      (simp_all add: prepareDecision_def find_approval_def eff_simps resolveGovernedSteps_def Let_def
        check_reads)
  then have ok: "?ok" and
    dec: "decided_instance d (length ?steps) (a\<lparr>ai_history := ai_history a @ [?entry]\<rparr>)
            (w\<lparr>next_tick := Suc (next_tick w)\<rparr>) = (Inr p, w')"
    using assms(2) by (auto split: if_splits)
  show ?thesis
  proof (cases "ad_action d = ApproveDecision \<and> ?i + 1 < length ?steps")
    case True
    then have "p = \<lparr>pd_expectedStepIndex = ?i, pd_instance = a\<lparr>ai_history := ai_history a @ [?entry],
        ai_currentStepIndex := ?i + 1\<rparr>, pd_advances = True\<rparr>"
      "w' = w\<lparr>next_tick := Suc (next_tick w)\<rparr>"
      using dec a(2) by (auto simp: decided_instance_def eff_simps bump_step_version_def)
    then show ?thesis
      using a ok True by (intro exI [of _ a] exI [of _ ?entry]) simp
  next
    case False
    then have "p = \<lparr>pd_expectedStepIndex = ?i, pd_instance = a\<lparr>ai_history := ai_history a @ [?entry],
        ai_status := (case ad_action d of ApproveDecision \<Rightarrow> APPROVED | RejectDecision \<Rightarrow> REJECTED),
        ai_completedAt := Some (clock_of w (Suc (next_tick w)))\<rparr>, pd_advances = False\<rparr>"
      "w' = w\<lparr>next_tick := Suc (Suc (next_tick w))\<rparr>"
      using dec a(2) by (auto simp: decided_instance_def eff_simps terminal_subject_def Let_def)
    then show ?thesis
      using a ok False by (intro exI [of _ a] exI [of _ ?entry]) auto
  qed
qed

end

interpretation exact: approver_port exactApproverCheck
    "\<lambda>w st u. st_approverType st \<noteq> ''queue'' \<and> st_approverId st = Some u"
  by unfold_locales (simp add: exactApproverCheck_def ret_apply)

section \<open>What a commit does\<close>

definition decision_events :: "approval_decision \<Rightarrow> prepared \<Rightarrow> (string \<times> jobject) list" where
  "decision_events d p =
     (let a = pd_instance p in
      if pd_advances p
      then [(''approval.step.advanced'',
             [(''instanceId'', JStr (ai_id a)), (''stepIndex'', JNum (int (ai_currentStepIndex a)))])]
      else if \<not> isAgentApproval a then []
      else (case ad_action d of
         ApproveDecision \<Rightarrow> [(''approval.agent.resume'', resume_payload a)]
       | RejectDecision \<Rightarrow> [(''approval.agent.terminate'', terminate_payload a
           (if truthy (ad_comments d) then the (ad_comments d) else ''Approval rejected''))]))"

definition decision_log :: "approval_decision \<Rightarrow> prepared \<Rightarrow> (string \<times> jobject) list" where
  "decision_log d p =
     (let a = pd_instance p in
      if pd_advances p \<or> \<not> isAgentApproval a then []
      else [(''update:'' @ ai_id a,
             [(''approvalStatus'', JStr (case ad_action d of ApproveDecision \<Rightarrow> ''approved''
                                                          | RejectDecision \<Rightarrow> ''rejected'')),
              (''approverId'', JStr (ad_approverId d)),
              (''approvedAt'', JNum (nullish (ai_completedAt a) 0))])])"

lemma commitDecision_run:
  fixes p :: prepared
  defines "W \<equiv> first_writer_where (pd_instance p) (pd_expectedStepIndex p)"
  shows "commitDecision d p w =
    (if tb_affected W (approvals w) = 1
     then (Inr (pd_instance p), w\<lparr>approvals := tb_update W (decision_patch (pd_instance p)) (approvals w),
             emitted := emitted w @ decision_events d p,
             guardrail_log := guardrail_log w @ decision_log d p\<rparr>)
     else (Inl ''APPROVAL_DECISION_CONCURRENT_MODIFICATION'',
           w\<lparr>approvals := tb_update W (decision_patch (pd_instance p)) (approvals w)\<rparr>))"
  by (cases "ad_action d")
    (simp_all add: commitDecision_def saveDecisionFirstWriter_def Let_def eff_simps emit_def
      updateGuardrailLogByApprovalId_def decision_events_def decision_log_def W_def)

lemma decision_patch_id [simp]: "ai_id (decision_patch a r) = ai_id r"
  by (simp add: decision_patch_def)

lemma commitDecision_refused:
  assumes "keyed ai_id (approvals w)"
    and "\<forall>r\<in>set (approvals w). \<not> first_writer_where (pd_instance p) (pd_expectedStepIndex p) r"
  shows "commitDecision d p w = (Inl ''APPROVAL_DECISION_CONCURRENT_MODIFICATION'', w)"
proof -
  have "tb_affected (first_writer_where (pd_instance p) (pd_expectedStepIndex p)) (approvals w) = 0"
    using assms(2) by (simp add: tb_affected_def filter_empty_conv)
  then show ?thesis by (simp add: commitDecision_run tb_affected_0_update)
qed

section \<open>Concurrent decisions\<close>

definition exact_options :: "bool \<Rightarrow> approval_options" where
  "exact_options repo = \<lparr>ao_policyRevisionRepo = repo, ao_approverCheck = exactApproverCheck\<rparr>"

lemma exact_options_check [simp]: "ao_approverCheck (exact_options repo) = exactApproverCheck"
  by (simp add: exact_options_def)

lemma prepareDecision_approvals:
  assumes "prepareDecision (exact_options repo) d w = (Inr p, w')"
  shows "approvals w' = approvals w" "approval_steps w' = approval_steps w"
    "uuid_of w' = uuid_of w" "next_uuid w' = next_uuid w"
proof -
  have "w' = w\<lparr>next_tick := next_tick w'\<rparr>"
    using exact.prepared_decision [OF exact_options_check assms] by blast
  from arg_cong [OF this, of approvals] arg_cong [OF this, of approval_steps]
    arg_cong [OF this, of uuid_of] arg_cong [OF this, of next_uuid]
  show "approvals w' = approvals w" "approval_steps w' = approval_steps w"
    "uuid_of w' = uuid_of w" "next_uuid w' = next_uuid w" by simp_all
qed

lemma update_under_key:
  assumes "keyed pk tb" "r \<in> set tb" "P r" "\<And>x. P x \<Longrightarrow> pk x = pk r" "\<And>x. pk (f x) = pk x"
  shows "tb_affected P tb = 1" "tb_find (\<lambda>x. pk x = pk r) (tb_update P f tb) = Some (f r)"
    "\<And>x. x \<in> set (tb_update P f tb) \<Longrightarrow> pk x = pk r \<Longrightarrow> x = f r"
proof -
  show "tb_affected P tb = 1" using keyed_affected_1_iff [OF assms(1,4)] assms(2,3) by blast
  have found: "tb_find (\<lambda>x. pk x = pk r) tb = Some r" using assms(1,2) by (rule keyed_find_unique)
  show upd: "tb_find (\<lambda>x. pk x = pk r) (tb_update P f tb) = Some (f r)"
    by (subst tb_find_update) (simp_all add: assms(3,5) found)
  fix x assume "x \<in> set (tb_update P f tb)" "pk x = pk r"
  moreover have "keyed pk (tb_update P f tb)" using assms(1,5) by (simp add: keyed_update)
  ultimately have "tb_find (\<lambda>y. pk y = pk r) (tb_update P f tb) = Some x"
    by (metis keyed_find_unique)
  then show "x = f r" using upd by simp
qed

text \<open>The row a prepared decision was read from, the next version, and why no other commit fits it.\<close>

definition next_version :: "approval_instance \<Rightarrow> prepared \<Rightarrow> bool" where
  "next_version a p \<longleftrightarrow> ai_status a = PENDING \<and> pd_expectedStepIndex p = ai_currentStepIndex a
     \<and> ai_id (pd_instance p) = ai_id a \<and> ai_workspaceId (pd_instance p) = ai_workspaceId a
     \<and> decision_patch (pd_instance p) a = pd_instance p
     \<and> (ai_status (pd_instance p) \<noteq> PENDING \<or> ai_currentStepIndex (pd_instance p) \<noteq> ai_currentStepIndex a)"

lemma prepared_next_version:
  assumes "prepareDecision (exact_options repo) d w = (Inr p, w')"
  shows "\<exists>a. tb_find (\<lambda>r. ai_id r = ad_instanceId d) (approvals w) = Some a \<and> next_version a p"
proof -
  obtain a h where a: "tb_find (\<lambda>r. ai_id r = ad_instanceId d) (approvals w) = Some a"
    "ai_status a = PENDING" "pd_expectedStepIndex p = ai_currentStepIndex a"
    "if pd_advances p
     then pd_instance p = a\<lparr>ai_history := ai_history a @ [h], ai_currentStepIndex := ai_currentStepIndex a + 1\<rparr>
     else \<exists>t. pd_instance p = a\<lparr>ai_history := ai_history a @ [h],
            ai_status := (case ad_action d of ApproveDecision \<Rightarrow> APPROVED | RejectDecision \<Rightarrow> REJECTED),
            ai_completedAt := Some t\<rparr>"
    using exact.prepared_decision [OF exact_options_check assms] by blast
  have "next_version a p"
    using a by (cases "ad_action d"; cases "ai_completedAt a")
      (auto simp: next_version_def decision_patch_def split: if_splits)
  with a(1) show ?thesis by blast
qed

lemma commit_once:
  assumes "keyed ai_id (approvals w)" "a \<in> set (approvals w)" "next_version a p" "next_version a q"
  shows "fst (commitDecision d p w) = Inr (pd_instance p)"
    "tb_find (\<lambda>r. ai_id r = ai_id a) (approvals (snd (commitDecision d p w))) = Some (pd_instance p)"
    "commitDecision e q (snd (commitDecision d p w))
       = (Inl ''APPROVAL_DECISION_CONCURRENT_MODIFICATION'', snd (commitDecision d p w))"
proof -
  let ?W = "first_writer_where (pd_instance p) (pd_expectedStepIndex p)"
  let ?tb = "tb_update ?W (decision_patch (pd_instance p)) (approvals w)"
  have W: "?W a" "\<And>r. ?W r \<Longrightarrow> ai_id r = ai_id a"
    using assms(3) by (auto simp: next_version_def first_writer_where_def)
  note u = update_under_key [of ai_id "approvals w" a ?W "decision_patch (pd_instance p)",
      OF assms(1,2) W decision_patch_id]
  have patched: "decision_patch (pd_instance p) a = pd_instance p"
    using assms(3) by (simp add: next_version_def)
  show "fst (commitDecision d p w) = Inr (pd_instance p)"
    using u(1) by (simp add: commitDecision_run)
  have tb: "approvals (snd (commitDecision d p w)) = ?tb" by (simp add: commitDecision_run)
  then show "tb_find (\<lambda>r. ai_id r = ai_id a) (approvals (snd (commitDecision d p w))) = Some (pd_instance p)"
    using u(2) patched by simp
  show "commitDecision e q (snd (commitDecision d p w))
       = (Inl ''APPROVAL_DECISION_CONCURRENT_MODIFICATION'', snd (commitDecision d p w))"
  proof (rule commitDecision_refused)
    show "keyed ai_id (approvals (snd (commitDecision d p w)))"
      unfolding tb using assms(1) by (simp add: keyed_update)
    show "\<forall>r\<in>set (approvals (snd (commitDecision d p w))).
        \<not> first_writer_where (pd_instance q) (pd_expectedStepIndex q) r"
    proof
      fix r assume r: "r \<in> set (approvals (snd (commitDecision d p w)))"
      show "\<not> first_writer_where (pd_instance q) (pd_expectedStepIndex q) r"
      proof (cases "ai_id r = ai_id a")
        case True
        with r u(3) patched tb have "r = pd_instance p" by simp
        with assms(3,4) show ?thesis by (auto simp: next_version_def first_writer_where_def)
      next
        case False
        with assms(4) show ?thesis by (auto simp: next_version_def first_writer_where_def)
      qed
    qed
  qed
qed

text \<open>
  C22. First writer wins: when two decisions on one instance are both read before either is written, the
  one that commits first is stored as it was prepared and the other, whichever it is, fails with
  \<open>APPROVAL_DECISION_CONCURRENT_MODIFICATION\<close> and changes nothing, events included.
\<close>

theorem decision_first_writer_wins:
  assumes "keyed ai_id (approvals w)"
    and "prepareDecision (exact_options repo) d1 w = (Inr p1, w1)"
    and "prepareDecision (exact_options repo) d2 w1 = (Inr p2, w2)"
    and "ad_instanceId d1 = ad_instanceId d2"
    and "(d, p, e, q) \<in> {(d1, p1, d2, p2), (d2, p2, d1, p1)}"
  shows "fst (commitDecision d p w2) = Inr (pd_instance p)
    \<and> tb_find (\<lambda>r. ai_id r = ad_instanceId d) (approvals (snd (commitDecision d p w2))) = Some (pd_instance p)
    \<and> commitDecision e q (snd (commitDecision d p w2))
        = (Inl ''APPROVAL_DECISION_CONCURRENT_MODIFICATION'', snd (commitDecision d p w2))"
proof -
  have same: "approvals w1 = approvals w" "approvals w2 = approvals w"
    using prepareDecision_approvals(1) [OF assms(2)] prepareDecision_approvals(1) [OF assms(3)] by simp_all
  obtain a where a: "tb_find (\<lambda>r. ai_id r = ad_instanceId d1) (approvals w) = Some a"
    "next_version a p1" "next_version a p2"
    using prepared_next_version [OF assms(2)] prepared_next_version [OF assms(3)] same assms(4) by auto
  then have "a \<in> set (approvals w2)" "ai_id a = ad_instanceId d" "next_version a p" "next_version a q"
    using tb_find_SomeD [OF a(1)] same assms(4,5) by auto
  then show ?thesis using commit_once [of w2 a p q] assms(1) same by simp
qed

section \<open>Creating an agent approval\<close>

lemma governed_columns_run:
  assumes "governed_columns opts q w = (Inr (processId, subject), w')"
  shows "w' = w\<lparr>next_tick := next_tick w'\<rparr>
    \<and> (processId = AGENT_SENSITIVE_OP_PROCESS_ID \<or> as_subjectType subject = Some ''agent_tool'')"
proof (cases "aq_preparation q")
  case None
  with assms show ?thesis by (auto simp: governed_columns_def eff_simps)
next
  case (Some p)
  with assms show ?thesis by (auto simp: governed_columns_def eff_Inr_iffs now_apply)
qed

definition submitted_row :: "approval_request \<Rightarrow> approval_instance \<Rightarrow> bool" where
  "submitted_row q a \<longleftrightarrow> ai_workspaceId a = aq_workspaceId q \<and> ai_recordId a = aq_agentExecutionId q
     \<and> ai_status a = PENDING \<and> ai_currentStepIndex a = 0 \<and> isAgentApproval a
     \<and> (\<exists>e. ai_history a = [e] \<and> he_action e = Submitted \<and> he_comments e = Some (submission_comments q))"

definition created_payload :: "approval_request \<Rightarrow> string \<Rightarrow> jobject" where
  "created_payload q i =
     [(''workspaceId'', JStr (aq_workspaceId q)), (''instanceId'', JStr i),
      (''agentExecutionId'', JStr (aq_agentExecutionId q)), (''toolName'', JStr (aq_toolName q)),
      (''riskLevel'', JStr (aq_riskLevel q))]"

lemma createAgentApproval_run:
  assumes "createAgentApproval opts q w = (Inr a, w')"
  shows "submitted_row q a \<and> ai_id a = uuid_of w (next_uuid w)
    \<and> w' = w\<lparr>approvals := tb_insert a (approvals w), next_uuid := Suc (next_uuid w),
         next_tick := next_tick w', emitted := emitted w @ [(''approval.created'', created_payload q (ai_id a))],
         guardrail_log := guardrail_log w'\<rparr>"
proof -
  obtain processId subject w1 where
    cols: "governed_columns opts q w = (Inr (processId, subject), w1)"
    using assms by (auto simp: createAgentApproval_def bindE_eq_Inr_iff)
  note c = governed_columns_run [OF cols]
  from c have w1: "w1 = w\<lparr>next_tick := next_tick w1\<rparr>" ..
  have keep: "uuid_of w1 = uuid_of w" "next_uuid w1 = next_uuid w" "approvals w1 = approvals w"
    "emitted w1 = emitted w" "guardrail_log w1 = guardrail_log w"
    using arg_cong [OF w1, of uuid_of] arg_cong [OF w1, of next_uuid] arg_cong [OF w1, of approvals]
      arg_cong [OF w1, of emitted] arg_cong [OF w1, of guardrail_log] by simp_all
  have run: "createAgentApproval opts q w = (Inr a, w')" by (rule assms)
  then have "submitted_row q a \<and> ai_id a = uuid_of w1 (next_uuid w1)
    \<and> w' = w1\<lparr>approvals := tb_insert a (approvals w1), next_uuid := Suc (next_uuid w1),
         next_tick := next_tick w', emitted := emitted w1 @ [(''approval.created'', created_payload q (ai_id a))],
         guardrail_log := guardrail_log w'\<rparr>"
    using c by (auto simp: createAgentApproval_def cols eff_simps emit_def logGuardrailEvent_def submitted_row_def isAgentApproval_def
        created_payload_def Let_def)
  moreover have "w1\<lparr>approvals := tb_insert a (approvals w1), next_uuid := Suc (next_uuid w1),
         next_tick := next_tick w', emitted := emitted w1 @ [(''approval.created'', created_payload q (ai_id a))],
         guardrail_log := guardrail_log w'\<rparr>
     = w\<lparr>approvals := tb_insert a (approvals w), next_uuid := Suc (next_uuid w),
         next_tick := next_tick w', emitted := emitted w @ [(''approval.created'', created_payload q (ai_id a))],
         guardrail_log := guardrail_log w'\<rparr>"
    by (subst (1) w1) (simp add: keep)
  ultimately show ?thesis unfolding keep by (elim conjE, intro conjI) (assumption, assumption, erule trans)
qed

text \<open>
  Creating an agent approval adds one pending row under a new identifier and emits one
  \<open>approval.created\<close>; unless the header line itself contains the marker, the tool call the agent was
  paused at is read back unchanged from the row, whatever strings its arguments contain.
\<close>

theorem agent_approval_keeps_tool_call:
  assumes "createAgentApproval opts q w = (Inr a, w')" "wf_world w"
    and "\<not> contains PAUSED_MARKER (submission_text q)" "json_ok (JObj (paused_call q))"
  shows "approvals w' = approvals w @ [a] \<and> ai_id a \<notin> ai_id ` set (approvals w)
    \<and> ai_status a = PENDING \<and> isAgentApproval a
    \<and> emitted w' = emitted w @ [(''approval.created'', created_payload q (ai_id a))]
    \<and> extractPausedToolCall a = Some (JObj (paused_call q))"
proof -
  have w': "w' = w\<lparr>approvals := tb_insert a (approvals w), next_uuid := Suc (next_uuid w),
         next_tick := next_tick w', emitted := emitted w @ [(''approval.created'', created_payload q (ai_id a))],
         guardrail_log := guardrail_log w'\<rparr>"
    and row: "submitted_row q a" "ai_id a = uuid_of w (next_uuid w)"
    using createAgentApproval_run [OF assms(1)] by - (elim conjE, assumption)+
  have "ai_id a \<notin> ai_id ` set (approvals w)"
    using assms(2) row(2) fresh_not_issued by (metis subsetD wf_world_def)
  moreover have "extractPausedToolCall a = Some (JObj (paused_call q))"
    using row(1) extract_submitted [OF assms(3,4)] by (auto simp: submitted_row_def)
  ultimately show ?thesis
    using row(1) arg_cong [OF w', of approvals] arg_cong [OF w', of emitted]
    by (simp add: submitted_row_def tb_insert_def)
qed

section \<open>Interleaved decisions\<close>

text \<open>
  The engine while requests are served concurrently: new approvals are created, a decision is read
  and checked, and a decision read earlier is written, in any order. The second component holds the
  decisions read and not yet written.
\<close>

type_synonym decisions_state = "world \<times> (approval_decision \<times> prepared) list"

inductive decision_step :: "bool \<Rightarrow> decisions_state \<Rightarrow> decisions_state \<Rightarrow> bool" for repo where
  create: "createAgentApproval (exact_options repo) q w = (Inr a, w') \<Longrightarrow>
     decision_step repo (w, ps) (w', ps)"
| prepare: "prepareDecision (exact_options repo) d w = (Inr p, w') \<Longrightarrow>
     decision_step repo (w, ps) (w', (d, p) # ps)"
| commit: "commitDecision d p w = (r, w') \<Longrightarrow>
     decision_step repo (w, (d, p) # ps @ qs) (w', ps @ qs)"
| reorder: "decision_step repo (w, ps @ x # qs) (w, x # ps @ qs)"

definition decisions_of :: "approval_instance \<Rightarrow> history_entry list" where
  "decisions_of a = filter (\<lambda>h. he_action h = Approve \<or> he_action h = Reject) (ai_history a)"

definition permitted :: "approval_step list \<Rightarrow> approval_instance \<Rightarrow> history_entry \<Rightarrow> bool" where
  "permitted configured a h \<longleftrightarrow>
     (case nth_opt (steps_of configured a) (he_stepIndex h) of
        None \<Rightarrow> True
      | Some s \<Rightarrow> st_approverType s \<noteq> ''queue'' \<and> st_approverId s = Some (he_actorId h))"

definition rounds :: "approval_step list \<Rightarrow> approval_instance \<Rightarrow> nat" where
  "rounds configured a = max 1 (length (steps_of configured a))"

text \<open>The history tells, step by step, who decided; it fits the status and the current step.\<close>

definition signed_off :: "approval_step list \<Rightarrow> approval_instance \<Rightarrow> bool" where
  "signed_off configured a \<longleftrightarrow>
     (let ds = decisions_of a; n = rounds configured a in
      map he_stepIndex ds = [0..<length ds] \<and> (\<forall>h\<in>set ds. permitted configured a h)
      \<and> (\<forall>h\<in>set (butlast ds). he_action h = Approve)
      \<and> (case ai_status a of
           PENDING \<Rightarrow> length ds = ai_currentStepIndex a \<and> length ds < n \<and> (\<forall>h\<in>set ds. he_action h = Approve)
         | APPROVED \<Rightarrow> length ds = n \<and> (\<forall>h\<in>set ds. he_action h = Approve)
         | REJECTED \<Rightarrow> ds \<noteq> [] \<and> length ds \<le> n \<and> he_action (last ds) = Reject
         | _ \<Rightarrow> True))"

definition same_process :: "approval_instance \<Rightarrow> approval_instance \<Rightarrow> bool" where
  "same_process a b \<longleftrightarrow> ai_processId a = ai_processId b
     \<and> as_subjectType (ai_subject a) = as_subjectType (ai_subject b)"

lemma steps_of_same_process: "same_process a b \<Longrightarrow> steps_of configured a = steps_of configured b"
  by (simp add: same_process_def steps_of_def isAgentApproval_def)

lemma signed_off_cong:
  assumes "same_process a b" "ai_history a = ai_history b" "ai_status a = ai_status b"
    "ai_currentStepIndex a = ai_currentStepIndex b"
  shows "signed_off configured a = signed_off configured b"
  using assms steps_of_same_process [OF assms(1)]
  by (cases "ai_status b") (simp_all add: signed_off_def decisions_of_def permitted_def rounds_def)

lemma signed_off_decision:
  assumes "signed_off configured a" "ai_status a = PENDING"
    and h: "he_action h = Approve \<or> he_action h = Reject" "he_stepIndex h = ai_currentStepIndex a"
      "permitted configured a h"
    and b: "same_process b a" "ai_history b = ai_history a @ [h]"
      "case ai_status b of
         PENDING \<Rightarrow> he_action h = Approve \<and> ai_currentStepIndex b = Suc (ai_currentStepIndex a)
           \<and> Suc (ai_currentStepIndex a) < length (steps_of configured a)
       | APPROVED \<Rightarrow> he_action h = Approve \<and> \<not> Suc (ai_currentStepIndex a) < length (steps_of configured a)
       | REJECTED \<Rightarrow> he_action h = Reject
       | _ \<Rightarrow> True"
  shows "signed_off configured b"
proof -
  have s: "steps_of configured b = steps_of configured a" by (rule steps_of_same_process [OF b(1)])
  have d: "decisions_of b = decisions_of a @ [h]" using b(2) h(1) by (auto simp: decisions_of_def)
  have p: "permitted configured b = permitted configured a" by (rule ext) (simp add: permitted_def s)
  have l: "length (decisions_of a) = ai_currentStepIndex a"
    "length (decisions_of a) < rounds configured a" "\<forall>h\<in>set (decisions_of a). he_action h = Approve"
    "map he_stepIndex (decisions_of a) = [0..<length (decisions_of a)]"
    "\<forall>h\<in>set (decisions_of a). permitted configured a h"
    using assms(1,2) by (simp_all add: signed_off_def Let_def)
  have r: "rounds configured b = rounds configured a" by (simp add: rounds_def s)
  show ?thesis
    using l h b(3) unfolding signed_off_def Let_def d p r
    by (cases "ai_status b") (auto simp: rounds_def)
qed

lemma prepared_signed_off:
  assumes "prepareDecision (exact_options repo) d w = (Inr p, w')"
    and "\<forall>a\<in>set (approvals w). signed_off (approval_steps w) a"
  shows "signed_off (approval_steps w) (pd_instance p)
    \<and> (\<exists>r\<in>set (approvals w). ai_id r = ai_id (pd_instance p) \<and> same_process r (pd_instance p))"
proof -
  obtain a h where a: "tb_find (\<lambda>r. ai_id r = ad_instanceId d) (approvals w) = Some a"
    "ai_status a = PENDING"
    "case nth_opt (steps_of (approval_steps w) a) (ai_currentStepIndex a) of
         None \<Rightarrow> True | Some s \<Rightarrow> st_approverType s \<noteq> ''queue'' \<and> st_approverId s = Some (ad_approverId d)"
    "he_action h = history_action_of (ad_action d)" "he_actorId h = ad_approverId d"
    "he_stepIndex h = ai_currentStepIndex a"
    and adv: "pd_advances p \<longleftrightarrow> ad_action d = ApproveDecision
         \<and> ai_currentStepIndex a + 1 < length (steps_of (approval_steps w) a)"
    and inst: "if pd_advances p
       then pd_instance p = a\<lparr>ai_history := ai_history a @ [h], ai_currentStepIndex := ai_currentStepIndex a + 1\<rparr>
       else \<exists>t. pd_instance p = a\<lparr>ai_history := ai_history a @ [h],
              ai_status := (case ad_action d of ApproveDecision \<Rightarrow> APPROVED | RejectDecision \<Rightarrow> REJECTED),
              ai_completedAt := Some t\<rparr>"
    using exact.prepared_decision [OF exact_options_check assms(1)] by blast
  have mem: "a \<in> set (approvals w)" using tb_find_SomeD [OF a(1)] by simp
  have same: "same_process (pd_instance p) a" "ai_id (pd_instance p) = ai_id a"
    "ai_history (pd_instance p) = ai_history a @ [h]"
    using inst by (auto simp: same_process_def split: if_splits)
  have "signed_off (approval_steps w) (pd_instance p)"
  proof (rule signed_off_decision [of _ a h])
    show "signed_off (approval_steps w) a" using assms(2) mem by blast
    show "he_action h = Approve \<or> he_action h = Reject"
      using a(4) by (cases "ad_action d") (simp_all add: history_action_of_def)
    show "permitted (approval_steps w) a h" using a(3) unfolding permitted_def a(5,6) .
    show "case ai_status (pd_instance p) of
         PENDING \<Rightarrow> he_action h = Approve \<and> ai_currentStepIndex (pd_instance p) = Suc (ai_currentStepIndex a)
           \<and> Suc (ai_currentStepIndex a) < length (steps_of (approval_steps w) a)
       | APPROVED \<Rightarrow> he_action h = Approve \<and> \<not> Suc (ai_currentStepIndex a) < length (steps_of (approval_steps w) a)
       | REJECTED \<Rightarrow> he_action h = Reject | _ \<Rightarrow> True"
      using inst adv a(2,4) by (cases "ad_action d") (auto simp: history_action_of_def split: if_splits)
  qed (use a(2,6) same in simp_all)
  with mem same show ?thesis by (auto simp: same_process_def intro!: bexI [of _ a])
qed

definition decisions_ok :: "decisions_state \<Rightarrow> bool" where
  "decisions_ok s \<longleftrightarrow>
     inj (uuid_of (fst s)) \<and> keyed ai_id (approvals (fst s)) \<and> ai_id ` set (approvals (fst s)) \<subseteq> issued (fst s)
     \<and> (\<forall>a\<in>set (approvals (fst s)). signed_off (approval_steps (fst s)) a)
     \<and> (\<forall>(d, p)\<in>set (snd s). signed_off (approval_steps (fst s)) (pd_instance p)
          \<and> (\<exists>r\<in>set (approvals (fst s)). ai_id r = ai_id (pd_instance p) \<and> same_process r (pd_instance p)))"

lemma decision_patch_same_process: "same_process (decision_patch b r) r"
  by (simp add: same_process_def decision_patch_def)

lemma same_process_trans: "same_process a b \<Longrightarrow> same_process b c \<Longrightarrow> same_process a c"
  by (simp add: same_process_def)

lemma commit_preserves_signed_off:
  assumes "keyed ai_id (approvals w)" "\<forall>a\<in>set (approvals w). signed_off configured a"
    and "signed_off configured (pd_instance p)"
    and "\<exists>r\<in>set (approvals w). ai_id r = ai_id (pd_instance p) \<and> same_process r (pd_instance p)"
    and "commitDecision d p w = (r, w')"
  shows "approvals w' = tb_update (first_writer_where (pd_instance p) (pd_expectedStepIndex p))
           (decision_patch (pd_instance p)) (approvals w)"
    and "\<forall>a\<in>set (approvals w'). signed_off configured a"
    and "approval_steps w' = approval_steps w \<and> uuid_of w' = uuid_of w \<and> next_uuid w' = next_uuid w"
proof -
  let ?W = "first_writer_where (pd_instance p) (pd_expectedStepIndex p)"
  show eq: "approvals w' = tb_update ?W (decision_patch (pd_instance p)) (approvals w)"
    and "approval_steps w' = approval_steps w \<and> uuid_of w' = uuid_of w \<and> next_uuid w' = next_uuid w"
    using assms(5) by (auto simp: commitDecision_run split: if_splits)
  have "signed_off configured (decision_patch (pd_instance p) x)" if "x \<in> set (approvals w)" "?W x" for x
  proof -
    from that(2) have "ai_id x = ai_id (pd_instance p)" by (simp add: first_writer_where_def)
    with assms(1,4) that(1) have "same_process x (pd_instance p)" by (metis keyed_find_unique option.inject)
    with decision_patch_same_process have "same_process (decision_patch (pd_instance p) x) (pd_instance p)"
      by (rule same_process_trans)
    then show ?thesis using assms(3) by (subst signed_off_cong) (simp_all add: decision_patch_def)
  qed
  then show "\<forall>a\<in>set (approvals w'). signed_off configured a"
    using assms(2) by (auto simp: eq set_tb_update)
qed

lemma decision_step_ok: "decision_step repo s t \<Longrightarrow> decisions_ok s \<Longrightarrow> decisions_ok t"
proof (induction rule: decision_step.induct)
  case (create q w a w' ps)
  have row: "submitted_row q a" "ai_id a = uuid_of w (next_uuid w)"
    and w': "w' = w\<lparr>approvals := tb_insert a (approvals w), next_uuid := Suc (next_uuid w),
         next_tick := next_tick w', emitted := emitted w @ [(''approval.created'', created_payload q (ai_id a))],
         guardrail_log := guardrail_log w'\<rparr>"
    using createAgentApproval_run [OF create.hyps] by - (elim conjE, assumption)+
  have keep: "approvals w' = tb_insert a (approvals w)" "approval_steps w' = approval_steps w"
    "uuid_of w' = uuid_of w" "next_uuid w' = Suc (next_uuid w)"
    using arg_cong [OF w', of approvals] arg_cong [OF w', of approval_steps]
      arg_cong [OF w', of uuid_of] arg_cong [OF w', of next_uuid] by simp_all
  have new: "ai_id a \<notin> ai_id ` set (approvals w)"
    using create.prems row(2) fresh_not_issued [of w] by (auto simp: decisions_ok_def)
  have "signed_off (approval_steps w) a"
    using row(1) by (auto simp: submitted_row_def signed_off_def decisions_of_def rounds_def)
  moreover have "issued w' = insert (ai_id a) (issued w)"
    using keep(3,4) row(2) by (simp add: issued_def lessThan_Suc)
  ultimately show ?case
    using create.prems new keyed_insert [of ai_id "approvals w" a]
    by (auto simp: decisions_ok_def keep tb_insert_def)
next
  case (prepare d w p w' ps)
  have "\<forall>a\<in>set (approvals w). signed_off (approval_steps w) a"
    using prepare.prems by (simp add: decisions_ok_def)
  note p = prepared_signed_off [OF prepare.hyps this] prepareDecision_approvals [OF prepare.hyps]
  then show ?case using prepare.prems p by (simp add: decisions_ok_def issued_def)
next
  case (commit d p w r w' ps qs)
  let ?W = "first_writer_where (pd_instance p) (pd_expectedStepIndex p)"
  have ok: "keyed ai_id (approvals w)" "\<forall>a\<in>set (approvals w). signed_off (approval_steps w) a"
    "signed_off (approval_steps w) (pd_instance p)"
    "\<exists>r\<in>set (approvals w). ai_id r = ai_id (pd_instance p) \<and> same_process r (pd_instance p)"
    using commit.prems by (simp_all add: decisions_ok_def)
  note c = commit_preserves_signed_off [OF ok commit.hyps]
  have ids: "map ai_id (approvals w') = map ai_id (approvals w)"
    unfolding c(1) by (rule map_pk_update) simp
  have kept: "\<exists>y\<in>set (approvals w'). ai_id y = ai_id z \<and> same_process y z"
    if "x \<in> set (approvals w)" "ai_id x = ai_id z" "same_process x z" for x z
  proof -
    let ?y = "if ?W x then decision_patch (pd_instance p) x else x"
    have "?y \<in> set (approvals w')" unfolding c(1) set_tb_update using that(1) by blast
    moreover have "same_process ?y z"
      using that(3) same_process_trans [OF decision_patch_same_process] by simp
    ultimately show ?thesis using that(2) by (intro bexI [of _ ?y]) simp_all
  qed
  have old: "signed_off (approval_steps w) (pd_instance e)"
    "\<exists>r\<in>set (approvals w). ai_id r = ai_id (pd_instance e) \<and> same_process r (pd_instance e)"
    if "(x, e) \<in> set (ps @ qs)" for x e
  proof -
    have "\<forall>(d, p)\<in>set ((d, p) # ps @ qs). signed_off (approval_steps w) (pd_instance p)
        \<and> (\<exists>r\<in>set (approvals w). ai_id r = ai_id (pd_instance p) \<and> same_process r (pd_instance p))"
      using commit.prems unfolding decisions_ok_def fst_conv snd_conv by (elim conjE)
    from bspec [OF this, of "(x, e)"] that
    show "signed_off (approval_steps w) (pd_instance e)"
      "\<exists>r\<in>set (approvals w). ai_id r = ai_id (pd_instance e) \<and> same_process r (pd_instance e)"
      by simp_all
  qed
  show ?case unfolding decisions_ok_def fst_conv snd_conv
  proof (intro conjI ballI)
    show "inj (uuid_of w')" using commit.prems c(3) by (simp add: decisions_ok_def)
    show "keyed ai_id (approvals w')" using ok(1) ids by (simp add: keyed_def)
    have "ai_id ` set (approvals w') = ai_id ` set (approvals w)" using ids by (metis list.set_map)
    then show "ai_id ` set (approvals w') \<subseteq> issued w'"
      using commit.prems c(3) by (simp add: decisions_ok_def issued_def)
    show "signed_off (approval_steps w') x" if "x \<in> set (approvals w')" for x
      using c(2,3) that by simp
    show "case x of (d, p) \<Rightarrow> signed_off (approval_steps w') (pd_instance p)
          \<and> (\<exists>r\<in>set (approvals w'). ai_id r = ai_id (pd_instance p) \<and> same_process r (pd_instance p))"
      if "x \<in> set (ps @ qs)" for x
    proof (cases x)
      case (Pair y e)
      have "(y, e) \<in> set (ps @ qs)" using that Pair by simp
      note o = old [OF this]
      from o(2) obtain r where "r \<in> set (approvals w)" "ai_id r = ai_id (pd_instance e)"
        "same_process r (pd_instance e)" by blast
      from kept [OF this] o(1) Pair c(3) show ?thesis by simp
    qed
  qed
next
  case (reorder w ps x qs)
  then show ?case by (auto simp: decisions_ok_def)
qed

lemma decisions_reachable_ok:
  "(decision_step repo)\<^sup>*\<^sup>* s t \<Longrightarrow> decisions_ok s \<Longrightarrow> decisions_ok t"
  by (induction rule: rtranclp_induct) (blast intro: decision_step_ok)+

definition undecided :: "world \<Rightarrow> bool" where
  "undecided w \<longleftrightarrow> (\<forall>a\<in>set (approvals w). ai_status a = PENDING \<and> ai_currentStepIndex a = 0 \<and> decisions_of a = [])"

lemma undecided_ok: "wf_world w \<Longrightarrow> undecided w \<Longrightarrow> decisions_ok (w, [])"
  by (auto simp: decisions_ok_def wf_world_def undecided_def signed_off_def rounds_def)

text \<open>
  C23. However many decisions are prepared and committed concurrently, an approved instance carries
  exactly one approving decision for each configured step, in the order of the steps, each by that
  step's approver (a single one where no step is configured, as for every agent approval), and a
  rejected one carries approvals for the steps before exactly one rejection.
\<close>

theorem approved_means_every_step_signed:
  assumes "wf_world w0" "undecided w0" "(decision_step repo)\<^sup>*\<^sup>* (w0, []) (w, ps)"
    and "a \<in> set (approvals w)"
  shows "map he_stepIndex (decisions_of a) = [0..<length (decisions_of a)]
    \<and> (\<forall>h\<in>set (decisions_of a). permitted (approval_steps w) a h)
    \<and> (ai_status a = APPROVED \<longrightarrow> length (decisions_of a) = rounds (approval_steps w) a
         \<and> (\<forall>h\<in>set (decisions_of a). he_action h = Approve))
    \<and> (ai_status a = REJECTED \<longrightarrow> decisions_of a \<noteq> [] \<and> he_action (last (decisions_of a)) = Reject
         \<and> (\<forall>h\<in>set (butlast (decisions_of a)). he_action h = Approve))"
proof -
  have "signed_off (approval_steps w) a"
    using decisions_reachable_ok [OF assms(3) undecided_ok [OF assms(1,2)]] assms(4)
    by (simp add: decisions_ok_def)
  then show ?thesis by (auto simp: signed_off_def Let_def)
qed

text \<open>
  C24. A decided row is the same row ever after: whatever is created, prepared and committed afterwards, in
  any order, no decision rewrites, reopens or removes it.
\<close>

theorem decided_approval_final:
  assumes "(decision_step repo)\<^sup>*\<^sup>* (w, ps) (w', ps')" "a \<in> set (approvals w)" "ai_status a \<noteq> PENDING"
  shows "a \<in> set (approvals w')"
proof -
  have step: "a \<in> set (approvals (fst t))" if "decision_step repo s t" "a \<in> set (approvals (fst s))" for s t
    using that
  proof (induction rule: decision_step.induct)
    case (create q w b w' ps)
    have "w' = w\<lparr>approvals := tb_insert b (approvals w), next_uuid := Suc (next_uuid w),
         next_tick := next_tick w', emitted := emitted w @ [(''approval.created'', created_payload q (ai_id b))],
         guardrail_log := guardrail_log w'\<rparr>"
      using createAgentApproval_run [OF create.hyps] by blast
    from arg_cong [OF this, of approvals] create.prems show ?case by (simp add: tb_insert_def)
  next
    case (prepare d w p w' ps)
    then show ?case using prepareDecision_approvals [OF prepare.hyps] by simp
  next
    case (commit d p w r w' ps qs)
    let ?W = "first_writer_where (pd_instance p) (pd_expectedStepIndex p)"
    have "approvals w' = tb_update ?W (decision_patch (pd_instance p)) (approvals w)"
      using commit.hyps by (auto simp: commitDecision_run split: if_splits)
    moreover have "\<not> ?W a" using assms(3) by (simp add: first_writer_where_def)
    ultimately show ?case using commit.prems by (auto simp: set_tb_update image_iff intro!: bexI [of _ a])
  qed simp
  have "(decision_step repo)\<^sup>*\<^sup>* s t \<Longrightarrow> a \<in> set (approvals (fst s)) \<Longrightarrow> a \<in> set (approvals (fst t))" for s t
    by (induction rule: rtranclp_induct) (blast intro: step)+
  from this [OF assms(1)] assms(2) show ?thesis by simp
qed

section \<open>Timeouts against decisions\<close>

lemma prepareTimeout_rejects:
  assumes "prepareTimeout i w = (Inr (Some t), w1)" "pt_escalatesTo t = None"
  shows "\<exists>a. tb_find (\<lambda>r. ai_id r = i) (approvals w) = Some a \<and> ai_status a = PENDING
    \<and> ai_id (pt_instance t) = i \<and> ai_status (pt_instance t) = REJECTED
    \<and> isAgentApproval (pt_instance t) = isAgentApproval a \<and> w1 = w\<lparr>next_tick := next_tick w1\<rparr>"
proof -
  obtain a where a: "tb_find (\<lambda>r. ai_id r = i) (approvals w) = Some a" "ai_status a = PENDING"
    using assms(1) by (auto simp: prepareTimeout_def find_approval_def eff_simps split: option.splits if_splits)
  then show ?thesis
    using assms tb_find_SomeD [OF a(1)]
    by (auto simp: prepareTimeout_def find_approval_def eff_simps Let_def isAgentApproval_def
        split: if_splits)
qed

lemma commitTimeout_run:
  assumes "a \<in> set (approvals w)" "ai_id a = ai_id (pt_instance t)" "pt_escalatesTo t = None"
  shows "fst (commitTimeout t w) = Inr ()"
    "approvals (snd (commitTimeout t w))
       = tb_update (\<lambda>r. ai_id r = ai_id (pt_instance t)) (\<lambda>_. pt_instance t) (approvals w)"
    "isAgentApproval (pt_instance t) \<Longrightarrow>
       emitted (snd (commitTimeout t w)) = emitted w @ [(''approval.agent.terminate'',
         terminate_payload (pt_instance t) (''Approval timed out (auto-'' @ pt_timeoutAction t @ '')''))]"
proof -
  have "ai_id (pt_instance t) \<in> ai_id ` set (approvals w)" using imageI [OF assms(1), of ai_id] assms(2) by simp
  then show "fst (commitTimeout t w) = Inr ()"
    "approvals (snd (commitTimeout t w))
       = tb_update (\<lambda>r. ai_id r = ai_id (pt_instance t)) (\<lambda>_. pt_instance t) (approvals w)"
    "isAgentApproval (pt_instance t) \<Longrightarrow>
       emitted (snd (commitTimeout t w)) = emitted w @ [(''approval.agent.terminate'',
         terminate_payload (pt_instance t) (''Approval timed out (auto-'' @ pt_timeoutAction t @ '')''))]"
    using assms(3)
    by (simp_all add: commitTimeout_def Let_def eff_simps save_approval_def emit_def
        updateGuardrailLogByApprovalId_def)
qed

lemma tb_find_overwrite:
  "tb_find P tb = Some a \<Longrightarrow> P b \<Longrightarrow> tb_find P (tb_update P (\<lambda>_. b) tb) = Some b"
  unfolding tb_find_def tb_update_def by (induction tb) (auto split: if_splits)

text \<open>
  The expiry of an approval is not a compare-and-set. If the row was loaded for its timeout while
  still pending and a decision then approves it, writing the timeout turns the approved row into a
  rejected one: the run has been told both to resume and to terminate.
\<close>

theorem timeout_overwrites_approval:
  assumes "keyed ai_id (approvals w)"
    and "prepareTimeout i w = (Inr (Some t), w1)" "pt_escalatesTo t = None"
    and "processDecision (exact_options repo) d w1 = (Inr a, w2)" "ad_instanceId d = i" "ai_status a = APPROVED"
    and "isAgentApproval a"
  shows "tb_find (\<lambda>r. ai_id r = i) (approvals w2) = Some a
    \<and> fst (commitTimeout t w2) = Inr ()
    \<and> map_option ai_status (tb_find (\<lambda>r. ai_id r = i) (approvals (snd (commitTimeout t w2)))) = Some REJECTED
    \<and> {''approval.agent.resume'', ''approval.agent.terminate''}
        \<subseteq> fst ` set (emitted (snd (commitTimeout t w2)))"
proof -
  obtain b where b: "tb_find (\<lambda>r. ai_id r = i) (approvals w) = Some b"
    "ai_id (pt_instance t) = i" "ai_status (pt_instance t) = REJECTED"
    "isAgentApproval (pt_instance t) = isAgentApproval b" "w1 = w\<lparr>next_tick := next_tick w1\<rparr>"
    using prepareTimeout_rejects [OF assms(2,3)] by blast
  obtain p v where p: "prepareDecision (exact_options repo) d w1 = (Inr p, v)"
    "commitDecision d p v = (Inr a, w2)"
    using assms(4) by (auto simp: processDecision_def bindE_eq_Inr_iff)
  have same: "approvals v = approvals w"
    using prepareDecision_approvals [OF p(1)] arg_cong [OF b(5), of approvals] by simp
  have found: "tb_find (\<lambda>r. ai_id r = i) (approvals w1) = Some b"
    using b(1) arg_cong [OF b(5), of approvals] by simp
  have bv: "b \<in> set (approvals v)" "ai_id b = i" "next_version b p"
    using prepared_next_version [OF p(1)] found assms(5) tb_find_SomeD [OF b(1)] same by auto
  have a: "a = pd_instance p" "tb_find (\<lambda>r. ai_id r = i) (approvals w2) = Some a"
    using commit_once(1,2) [OF _ bv(1,3,3), of d] p(2) assms(1) same bv(2) by simp_all
  have resumed: "''approval.agent.resume'' \<in> fst ` set (emitted w2)"
  proof -
    have "\<not> pd_advances p \<and> ad_action d = ApproveDecision"
    proof -
      obtain x h where "ai_status x = PENDING"
        and "if pd_advances p
         then pd_instance p = x\<lparr>ai_history := ai_history x @ [h], ai_currentStepIndex := ai_currentStepIndex x + 1\<rparr>
         else \<exists>t. pd_instance p = x\<lparr>ai_history := ai_history x @ [h],
              ai_status := (case ad_action d of ApproveDecision \<Rightarrow> APPROVED | RejectDecision \<Rightarrow> REJECTED),
              ai_completedAt := Some t\<rparr>"
        using exact.prepared_decision [OF exact_options_check p(1)] by blast
      then show ?thesis using assms(6) a(1) by (cases "ad_action d") (auto split: if_splits)
    qed
    moreover have "emitted w2 = emitted v @ decision_events d p"
      using p(2) by (auto simp: commitDecision_run split: if_splits)
    ultimately show ?thesis using assms(7) a(1) by (simp add: decision_events_def Let_def)
  qed
  have agent: "isAgentApproval (pt_instance t)"
  proof -
    have "decision_patch (pd_instance p) b = a" using bv(3) a(1) by (simp add: next_version_def)
    then have "isAgentApproval a = isAgentApproval b" by (auto simp: decision_patch_def isAgentApproval_def)
    with b(4) assms(7) show ?thesis by simp
  qed
  have mem: "a \<in> set (approvals w2)" "ai_id a = ai_id (pt_instance t)"
    using tb_find_SomeD [OF a(2)] b(2) by auto
  note c = commitTimeout_run [OF mem assms(3)]
  have "tb_find (\<lambda>r. ai_id r = i) (tb_update (\<lambda>r. ai_id r = i) (\<lambda>_. pt_instance t) (approvals w2))
      = Some (pt_instance t)"
    by (rule tb_find_overwrite [OF a(2) b(2)])
  then have row: "tb_find (\<lambda>r. ai_id r = i) (approvals (snd (commitTimeout t w2))) = Some (pt_instance t)"
    unfolding c(2) b(2) .
  have "{''approval.agent.resume'', ''approval.agent.terminate''}
        \<subseteq> fst ` set (emitted (snd (commitTimeout t w2)))"
    unfolding c(3) [OF agent] set_append image_Un list.set image_insert image_empty fst_conv
    using resumed by blast
  then show ?thesis using a(2) c(1) row b(3) by simp
qed

section \<open>Instances\<close>

definition sample_request :: approval_request where
  "sample_request = \<lparr>aq_workspaceId = ''w'', aq_agentExecutionId = ''e'', aq_toolName = ''delete'',
     aq_toolInput = JObj [(''note'', JStr ''a __pausedToolCall__: b'')], aq_riskLevel = ''L3'',
     aq_description = ''d'', aq_traceId = None, aq_correlationId = None, aq_actorType = None,
     aq_actorId = None, aq_source = None, aq_preparation = None\<rparr>"

definition sample_approval :: approval_instance where
  "sample_approval = projr (fst (createAgentApproval (exact_options True) sample_request (empty_world [] None)))"

definition sample_approvals :: "approval_instance list \<Rightarrow> approval_step list \<Rightarrow> world" where
  "sample_approvals as ss = (empty_world [] None)\<lparr>approvals := as, next_uuid := length as, approval_steps := ss\<rparr>"

definition sample_decision :: "string \<Rightarrow> decision_action \<Rightarrow> approval_decision" where
  "sample_decision u x = \<lparr>ad_instanceId = ''id-0'', ad_approverId = u, ad_approverName = u,
     ad_action = x, ad_comments = None\<rparr>"

definition sample_step :: "int \<Rightarrow> string \<Rightarrow> approval_step" where
  "sample_step n u = \<lparr>st_id = u, st_approvalProcessId = ''p'', st_stepOrder = n, st_stepName = None,
     st_stepType = ''single'', st_approverType = ''user'', st_approverId = Some u,
     st_timeoutMinutes = None, st_timeoutAction = ''reject'', st_aiConfig = None, st_createdAt = 0\<rparr>"

lemma sample_approval_created:
  "createAgentApproval (exact_options True) sample_request (empty_world [] None)
     = (Inr sample_approval, snd (createAgentApproval (exact_options True) sample_request (empty_world [] None)))"
  by (simp add: sample_approval_def createAgentApproval_def governed_columns_def sample_request_def eff_simps
      emit_def logGuardrailEvent_def Let_def)

lemma agent_approval_keeps_tool_call_witness:
  "extractPausedToolCall sample_approval = Some (JObj (paused_call sample_request))"
proof -
  have "\<not> contains PAUSED_MARKER (submission_text sample_request)" by code_simp
  moreover have "json_ok (JObj (paused_call sample_request))" by code_simp
  ultimately show ?thesis
    using agent_approval_keeps_tool_call [OF sample_approval_created wf_empty_world] by blast
qed

definition sample_open :: approval_instance where
  "sample_open = \<lparr>ai_id = ''id-0'', ai_workspaceId = ''w'', ai_processId = ''p'', ai_recordId = ''r'',
     ai_objectName = ''Lead'', ai_status = PENDING, ai_currentStepIndex = 0, ai_subject = no_subject,
     ai_supersession = no_supersession, ai_history = [], ai_submittedBy = NIL_UUID, ai_submittedAt = 0,
     ai_completedAt = None\<rparr>"

definition sample_two_steps :: world where
  "sample_two_steps = sample_approvals [sample_open] [sample_step 2 ''bob'', sample_step 1 ''ann'']"

text \<open>Decisions taken one after the other.\<close>

fun decide_all :: "(string \<times> decision_action) list \<Rightarrow> world \<Rightarrow> world" where
  "decide_all [] w = w"
| "decide_all ((u, x) # ds) w =
     decide_all ds (snd (processDecision (exact_options True) (sample_decision u x) w))"

lemma process_steps:
  assumes "\<not> isl (fst (prepareDecision (exact_options True) d w))"
  shows "(decision_step True)\<^sup>*\<^sup>* (w, []) (snd (processDecision (exact_options True) d w), [])"
proof -
  obtain p v where p: "prepareDecision (exact_options True) d w = (Inr p, v)"
    using assms by (cases "prepareDecision (exact_options True) d w"; cases "fst (prepareDecision (exact_options True) d w)") auto
  obtain r v' where c: "commitDecision d p v = (r, v')" by (cases "commitDecision d p v")
  have "snd (processDecision (exact_options True) d w) = v'"
    by (simp add: processDecision_def bindE_apply p c)
  moreover have "decision_step True (w, []) (v, [(d, p)])" using p by (rule decision_step.prepare)
  moreover have "decision_step True (v, [(d, p)]) (v', [])"
    using decision_step.commit [OF c, of True "[]" "[]"] by simp
  ultimately show ?thesis by (metis r_into_rtranclp rtranclp.rtrancl_into_rtrancl)
qed

lemma decide_all_steps:
  "(decision_step True)\<^sup>*\<^sup>* (sample_two_steps, [])
     (decide_all [(''ann'', ApproveDecision), (''bob'', ApproveDecision)] sample_two_steps, [])"
proof -
  let ?w = "snd (processDecision (exact_options True) (sample_decision ''ann'' ApproveDecision) sample_two_steps)"
  have "\<not> isl (fst (prepareDecision (exact_options True) (sample_decision ''ann'' ApproveDecision) sample_two_steps))"
    by code_simp
  from process_steps [OF this]
  have 1: "(decision_step True)\<^sup>*\<^sup>* (sample_two_steps, []) (?w, [])" .
  have "\<not> isl (fst (prepareDecision (exact_options True) (sample_decision ''bob'' ApproveDecision) ?w))"
    by code_simp
  from process_steps [OF this] show ?thesis
    unfolding decide_all.simps by (rule rtranclp_trans [OF 1])
qed

lemma sample_two_steps_start: "wf_world sample_two_steps" "undecided sample_two_steps"
proof -
  have "uuid_of sample_two_steps 0 = ''id-0''"
    by (simp add: sample_two_steps_def sample_approvals_def empty_world_def show_nat_digits_small)
  then show "wf_world sample_two_steps"
    by (auto simp: wf_world_def keyed_def sample_two_steps_def sample_approvals_def empty_world_def
        issued_def inj_def sample_open_def)
  show "undecided sample_two_steps" by code_simp
qed

lemma approved_means_every_step_signed_witness:
  "length (decisions_of (hd (approvals (decide_all [(''ann'', ApproveDecision), (''bob'', ApproveDecision)]
      sample_two_steps)))) = 2"
proof -
  let ?w = "decide_all [(''ann'', ApproveDecision), (''bob'', ApproveDecision)] sample_two_steps"
  have "approvals ?w \<noteq> []" by code_simp
  then have mem: "hd (approvals ?w) \<in> set (approvals ?w)" by simp
  have "ai_status (hd (approvals ?w)) = APPROVED" by code_simp
  moreover have "rounds (approval_steps ?w) (hd (approvals ?w)) = 2" by code_simp
  ultimately show ?thesis
    using approved_means_every_step_signed [OF sample_two_steps_start decide_all_steps mem] by metis
qed

lemma decided_approval_final_witness:
  "sample_open\<lparr>ai_status := REJECTED\<rparr> \<in> set (approvals
     (snd (processDecision (exact_options True) (sample_decision ''ann'' ApproveDecision)
        (sample_approvals [sample_open, sample_open\<lparr>ai_status := REJECTED\<rparr>] []))))"
proof (rule decided_approval_final [of True _ "[]" _ "[]"])
  show "(decision_step True)\<^sup>*\<^sup>* (sample_approvals [sample_open, sample_open\<lparr>ai_status := REJECTED\<rparr>] [], [])
    (snd (processDecision (exact_options True) (sample_decision ''ann'' ApproveDecision)
        (sample_approvals [sample_open, sample_open\<lparr>ai_status := REJECTED\<rparr>] [])), [])"
    by (rule process_steps) code_simp
qed (simp_all add: sample_approvals_def sample_open_def)

lemma decision_first_writer_wins_witness:
  "\<exists>d p e q w. ad_action d = RejectDecision \<and> ad_action e = ApproveDecision
     \<and> fst (commitDecision d p w) = Inr (pd_instance p)
     \<and> commitDecision e q (snd (commitDecision d p w))
        = (Inl ''APPROVAL_DECISION_CONCURRENT_MODIFICATION'', snd (commitDecision d p w))"
proof -
  let ?o = "exact_options True" and ?d1 = "sample_decision ''ann'' ApproveDecision"
    and ?d2 = "sample_decision ''bob'' RejectDecision" and ?w = "sample_approvals [sample_open] []"
  have "\<not> isl (fst (prepareDecision ?o ?d1 ?w))" by code_simp
  then obtain p1 w1 where p1: "prepareDecision ?o ?d1 ?w = (Inr p1, w1)"
    by (cases "prepareDecision ?o ?d1 ?w"; cases "fst (prepareDecision ?o ?d1 ?w)") auto
  have "\<not> isl (fst (prepareDecision ?o ?d2 (snd (prepareDecision ?o ?d1 ?w))))" by code_simp
  then obtain p2 w2 where p2: "prepareDecision ?o ?d2 w1 = (Inr p2, w2)"
    unfolding p1 snd_conv by (cases "prepareDecision ?o ?d2 w1"; cases "fst (prepareDecision ?o ?d2 w1)") auto
  have "keyed ai_id (approvals ?w)" by (simp add: keyed_def sample_approvals_def)
  from decision_first_writer_wins [OF this p1 p2, of ?d2 p2 ?d1 p1] show ?thesis
    by (intro exI [of _ ?d2] exI [of _ p2] exI [of _ ?d1] exI [of _ p1] exI [of _ w2])
      (simp add: sample_decision_def)
qed

lemma timeout_overwrites_approval_witness:
  "\<exists>t w. map_option ai_status (tb_find (\<lambda>r. ai_id r = ''id-0'') (approvals w)) = Some APPROVED
     \<and> map_option ai_status (tb_find (\<lambda>r. ai_id r = ''id-0'') (approvals (snd (commitTimeout t w)))) = Some REJECTED"
proof -
  let ?o = "exact_options True" and ?d = "sample_decision ''ann'' ApproveDecision"
    and ?w = "sample_approvals [sample_open\<lparr>ai_processId := AGENT_SENSITIVE_OP_PROCESS_ID\<rparr>] []"
  let ?t = "the (projr (fst (prepareTimeout ''id-0'' ?w)))" and ?w1 = "snd (prepareTimeout ''id-0'' ?w)"
  let ?a = "projr (fst (processDecision ?o ?d ?w1))" and ?w2 = "snd (processDecision ?o ?d ?w1)"
  have "\<not> isl (fst (prepareTimeout ''id-0'' ?w)) \<and> projr (fst (prepareTimeout ''id-0'' ?w)) \<noteq> None" by code_simp
  then have t: "prepareTimeout ''id-0'' ?w = (Inr (Some ?t), ?w1)"
    by (cases "prepareTimeout ''id-0'' ?w"; cases "fst (prepareTimeout ''id-0'' ?w)") auto
  have "\<not> isl (fst (processDecision ?o ?d ?w1))" by code_simp
  then have a: "processDecision ?o ?d ?w1 = (Inr ?a, ?w2)"
    by (cases "processDecision ?o ?d ?w1"; cases "fst (processDecision ?o ?d ?w1)") auto
  have "keyed ai_id (approvals ?w)" by (simp add: keyed_def sample_approvals_def)
  moreover have "pt_escalatesTo ?t = None" by code_simp
  moreover have "ad_instanceId ?d = ''id-0''" by (simp add: sample_decision_def)
  moreover have st: "ai_status ?a = APPROVED" by code_simp
  moreover have "isAgentApproval ?a" by code_simp
  ultimately have "tb_find (\<lambda>r. ai_id r = ''id-0'') (approvals ?w2) = Some ?a
    \<and> map_option ai_status (tb_find (\<lambda>r. ai_id r = ''id-0'') (approvals (snd (commitTimeout ?t ?w2)))) = Some REJECTED"
    using timeout_overwrites_approval [OF _ t _ a] by blast
  with st show ?thesis by (intro exI [of _ ?t] exI [of _ ?w2]) simp
qed

end
