(* ===== verification/Approval_Refinement.thy ===== *)
theory Approval_Refinement
  imports Approval
begin

text \<open>
  What the approval engine promises, as an abstract machine over identifiers: an approval is open at a
  step, accepted or refused, and a decision moves an open one. The engine's concurrent decisions refine
  it: every commit is one atomic step of the machine or none at all.
\<close>

section \<open>The abstract machine\<close>

datatype abstract_approval = Open nat | Accepted | Refused

definition abs_of :: "approval_instance \<Rightarrow> abstract_approval" where
  "abs_of a = (case ai_status a of PENDING \<Rightarrow> Open (ai_currentStepIndex a) | APPROVED \<Rightarrow> Accepted | _ \<Rightarrow> Refused)"

definition abs_store :: "world \<Rightarrow> string \<Rightarrow> abstract_approval option" where
  "abs_store w i = map_option abs_of (tb_find (\<lambda>a. ai_id a = i) (approvals w))"

text \<open>A decision on an approval of \<open>n\<close> steps.\<close>

fun abs_decide :: "nat \<Rightarrow> decision_action \<Rightarrow> abstract_approval \<Rightarrow> abstract_approval" where
  "abs_decide n ApproveDecision (Open i) = (if Suc i < n then Open (Suc i) else Accepted)"
| "abs_decide n RejectDecision (Open i) = Refused"
| "abs_decide n _ s = s"

text \<open>The abstract machine accepts after one approval for each remaining step, at least one.\<close>

lemma abs_decide_all:
  "i \<le> n \<Longrightarrow> (abs_decide n ApproveDecision ^^ max 1 (n - i)) (Open i) = Accepted"
proof (induction "n - i" arbitrary: i)
  case 0
  then show ?case by simp
next
  case (Suc k)
  show ?case
  proof (cases "Suc i < n")
    case True
    with Suc have "(abs_decide n ApproveDecision ^^ max 1 (n - Suc i)) (Open (Suc i)) = Accepted" by simp
    moreover have "max 1 (n - i) = Suc (max 1 (n - Suc i))" using True by simp
    ultimately show ?thesis using True by (simp add: funpow_Suc_right del: funpow.simps)
  next
    case False
    with Suc have "n - i = 1" by simp
    with False show ?thesis by simp
  qed
qed

section \<open>Commits as abstract steps\<close>

lemma prepared_row:
  assumes "prepareDecision (exact_options repo) d w = (Inr p, w')"
    and "tb_find (\<lambda>r. ai_id r = ad_instanceId d) (approvals w) = Some a"
  obtains h where "ai_status a = PENDING"
    "pd_advances p \<longleftrightarrow> ad_action d = ApproveDecision
       \<and> ai_currentStepIndex a + 1 < length (steps_of (approval_steps w) a)"
    "if pd_advances p
     then pd_instance p = a\<lparr>ai_history := ai_history a @ [h], ai_currentStepIndex := ai_currentStepIndex a + 1\<rparr>
     else \<exists>t. pd_instance p = a\<lparr>ai_history := ai_history a @ [h],
            ai_status := (case ad_action d of ApproveDecision \<Rightarrow> APPROVED | RejectDecision \<Rightarrow> REJECTED),
            ai_completedAt := Some t\<rparr>"
proof -
  obtain b h where b: "tb_find (\<lambda>r. ai_id r = ad_instanceId d) (approvals w) = Some b" "ai_status b = PENDING"
    "pd_advances p \<longleftrightarrow> ad_action d = ApproveDecision
       \<and> ai_currentStepIndex b + 1 < length (steps_of (approval_steps w) b)"
    "if pd_advances p
     then pd_instance p = b\<lparr>ai_history := ai_history b @ [h], ai_currentStepIndex := ai_currentStepIndex b + 1\<rparr>
     else \<exists>t. pd_instance p = b\<lparr>ai_history := ai_history b @ [h],
            ai_status := (case ad_action d of ApproveDecision \<Rightarrow> APPROVED | RejectDecision \<Rightarrow> REJECTED),
            ai_completedAt := Some t\<rparr>"
    using exact.prepared_decision [OF exact_options_check assms(1)] by blast
  have "b = a" using b(1) assms(2) by simp
  then show ?thesis by (intro that [OF b(2-4) [unfolded \<open>b = a\<close>]])
qed

lemma prepared_abs:
  assumes "prepareDecision (exact_options repo) d w = (Inr p, w')"
    and "tb_find (\<lambda>r. ai_id r = ad_instanceId d) (approvals w) = Some a"
  shows "abs_of (pd_instance p)
      = abs_decide (length (steps_of (approval_steps w) a)) (ad_action d) (Open (ai_currentStepIndex a))"
    and "next_version a p"
    and "as_subjectType (ai_subject (pd_instance p)) = as_subjectType (ai_subject a)"
      "ai_processId (pd_instance p) = ai_processId a"
proof -
  obtain h where h: "ai_status a = PENDING"
    "pd_advances p \<longleftrightarrow> ad_action d = ApproveDecision
       \<and> ai_currentStepIndex a + 1 < length (steps_of (approval_steps w) a)"
    "if pd_advances p
     then pd_instance p = a\<lparr>ai_history := ai_history a @ [h], ai_currentStepIndex := ai_currentStepIndex a + 1\<rparr>
     else \<exists>t. pd_instance p = a\<lparr>ai_history := ai_history a @ [h],
            ai_status := (case ad_action d of ApproveDecision \<Rightarrow> APPROVED | RejectDecision \<Rightarrow> REJECTED),
            ai_completedAt := Some t\<rparr>"
    by (rule prepared_row [OF assms])
  show "as_subjectType (ai_subject (pd_instance p)) = as_subjectType (ai_subject a)"
    "ai_processId (pd_instance p) = ai_processId a"
    using h(3) by (auto split: if_splits)
  show "abs_of (pd_instance p)
      = abs_decide (length (steps_of (approval_steps w) a)) (ad_action d) (Open (ai_currentStepIndex a))"
    using h by (cases "ad_action d") (auto simp: abs_of_def split: if_splits)
  show "next_version a p" using prepared_next_version [OF assms(1)] assms(2) by auto
qed

lemma abs_store_update:
  assumes "\<And>r. ai_id (f r) = ai_id r"
  shows "abs_store (w\<lparr>approvals := tb_update P f (approvals w)\<rparr>) i
    = map_option (\<lambda>a. abs_of (if P a then f a else a)) (tb_find (\<lambda>a. ai_id a = i) (approvals w))"
  using assms by (simp add: abs_store_def tb_find_update option.map_comp o_def)

lemma abs_store_same: "approvals w' = approvals w \<Longrightarrow> abs_store w' = abs_store w"
  by (simp add: abs_store_def fun_eq_iff)

text \<open>A commit that finds its row, and one that does not.\<close>

lemma commit_abs:
  assumes keyed: "keyed ai_id (approvals w)" and version: "next_version a p"
    and run: "commitDecision d p w = (r, w')"
  shows "case r of
      Inl _ \<Rightarrow> abs_store w' = abs_store w
    | Inr b \<Rightarrow> b = pd_instance p \<and> abs_store w (ai_id a) = Some (Open (ai_currentStepIndex a))
        \<and> abs_store w' = (abs_store w)(ai_id a \<mapsto> abs_of (pd_instance p))"
proof -
  let ?W = "first_writer_where (pd_instance p) (pd_expectedStepIndex p)"
  let ?f = "decision_patch (pd_instance p)"
  have id: "ai_id (pd_instance p) = ai_id a" "pd_expectedStepIndex p = ai_currentStepIndex a"
    using version by (simp_all add: next_version_def)
  have W: "ai_id x = ai_id a \<and> ai_status x = PENDING \<and> ai_currentStepIndex x = ai_currentStepIndex a"
    if "?W x" for x using that id by (simp add: first_writer_where_def)
  show ?thesis
  proof (cases "tb_affected ?W (approvals w) = 1")
    case False
    then have none: "\<not> (\<exists>x\<in>set (approvals w). ?W x)"
      using keyed_affected_1_iff [OF keyed, of ?W "ai_id a"] W by blast
    then have "r = Inl ''APPROVAL_DECISION_CONCURRENT_MODIFICATION''" "w' = w"
      using commitDecision_refused [OF keyed] run by auto
    then show ?thesis by simp
  next
    case True
    then obtain x where x: "x \<in> set (approvals w)" "?W x"
      using keyed_affected_1_iff [OF keyed, of ?W "ai_id a"] W by blast
    have found: "tb_find (\<lambda>y. ai_id y = ai_id a) (approvals w) = Some x"
      using keyed_find_unique [OF keyed x(1)] W [OF x(2)] by simp
    have r: "r = Inr (pd_instance p)" "approvals w' = tb_update ?W ?f (approvals w)"
      using run True by (auto simp: commitDecision_run)
    have "abs_of (?f x) = abs_of (pd_instance p)" by (cases "ai_status (pd_instance p)") (simp_all add: abs_of_def decision_patch_def)
    then have here: "abs_store w' (ai_id a) = Some (abs_of (pd_instance p))"
      using r(2) found x(2) by (simp add: abs_store_def tb_find_update)
    have other: "abs_store w' i = abs_store w i" if "i \<noteq> ai_id a" for i
    proof (cases "tb_find (\<lambda>y. ai_id y = i) (approvals w)")
      case None
      then show ?thesis using r(2) by (simp add: abs_store_def tb_find_update)
    next
      case (Some y)
      then have "ai_id y = i" using tb_find_SomeD by fastforce
      then have "\<not> ?W y" using W [of y] that by auto
      with Some show ?thesis using r(2) by (simp add: abs_store_def tb_find_update)
    qed
    have "abs_store w (ai_id a) = Some (Open (ai_currentStepIndex a))"
      using found W [OF x(2)] by (simp add: abs_store_def abs_of_def)
    with r(1) here other show ?thesis by (auto simp: fun_eq_iff)
  qed
qed

section \<open>Decisions by the approvers\<close>

definition approve_as :: "string \<Rightarrow> string \<Rightarrow> approval_decision" where
  "approve_as i user = \<lparr>ad_instanceId = i, ad_approverId = user, ad_approverName = user,
     ad_action = ApproveDecision, ad_comments = None\<rparr>"

fun approve_in_turn :: "bool \<Rightarrow> string \<Rightarrow> string list \<Rightarrow> world \<Rightarrow> world" where
  "approve_in_turn repo i [] w = w"
| "approve_in_turn repo i (u # us) w =
     approve_in_turn repo i us (snd (processDecision (exact_options repo) (approve_as i u) w))"

definition may_decide :: "approval_step list \<Rightarrow> nat \<Rightarrow> string \<Rightarrow> bool" where
  "may_decide steps j user \<longleftrightarrow>
     (case nth_opt steps j of
        None \<Rightarrow> True | Some s \<Rightarrow> st_approverType s \<noteq> ''queue'' \<and> st_approverId s = Some user)"

lemma permitted_decision_returns:
  assumes "tb_find (\<lambda>r. ai_id r = i) (approvals w) = Some a" "ai_status a = PENDING"
    and "\<not> truthy (as_subjectType (ai_subject a))"
    and "may_decide (steps_of (approval_steps w) a) (ai_currentStepIndex a) u"
  shows "\<exists>p v. prepareDecision (exact_options repo) (approve_as i u) w = (Inr p, v)"
  using assms
  by (cases "nth_opt (steps_of (approval_steps w) a) (ai_currentStepIndex a)")
    (auto simp: prepareDecision_def find_approval_def eff_simps resolveGovernedSteps_def Let_def may_decide_def
      approve_as_def exact.check_reads decided_instance_def)

lemma permitted_decision_moves:
  fixes w :: world and repo :: bool
  assumes keyed: "keyed ai_id (approvals w)"
    and a: "tb_find (\<lambda>r. ai_id r = i) (approvals w) = Some a" "ai_status a = PENDING"
      "\<not> truthy (as_subjectType (ai_subject a))"
    and u: "may_decide (steps_of (approval_steps w) a) (ai_currentStepIndex a) u"
  defines "w' \<equiv> snd (processDecision (exact_options repo) (approve_as i u) w)"
  shows "keyed ai_id (approvals w')" "approval_steps w' = approval_steps w"
    "\<exists>b. tb_find (\<lambda>r. ai_id r = i) (approvals w') = Some b
       \<and> abs_of b = abs_decide (length (steps_of (approval_steps w) a)) ApproveDecision (Open (ai_currentStepIndex a))
       \<and> \<not> truthy (as_subjectType (ai_subject b)) \<and> steps_of (approval_steps w') b = steps_of (approval_steps w) a"
proof -
  let ?d = "approve_as i u"
  obtain p v where p: "prepareDecision (exact_options repo) ?d w = (Inr p, v)"
    using permitted_decision_returns [OF a u] by blast
  have found: "tb_find (\<lambda>r. ai_id r = ad_instanceId ?d) (approvals w) = Some a" using a(1) by (simp add: approve_as_def)
  note abs = prepared_abs [OF p found]
  note v = prepareDecision_approvals [OF p]
  have mem: "a \<in> set (approvals w)" "ai_id a = i" using tb_find_SomeD [OF a(1)] by simp_all
  have "keyed ai_id (approvals v)" "a \<in> set (approvals v)" using keyed mem(1) v(1) by simp_all
  note c = commit_once [OF this abs(2) abs(2)]
  have w': "w' = snd (commitDecision ?d p v)"
    unfolding w'_def processDecision_def by (simp add: bindE_apply p)
  show "keyed ai_id (approvals w')"
    unfolding w' commitDecision_run using keyed v(1) by (simp add: keyed_update)
  show steps: "approval_steps w' = approval_steps w"
    unfolding w' commitDecision_run using v(2) by simp
  have "\<not> truthy (as_subjectType (ai_subject (pd_instance p)))"
    "steps_of (approval_steps w') (pd_instance p) = steps_of (approval_steps w) a"
    using a(3) steps abs(3,4) by (simp_all add: steps_of_def isAgentApproval_def)
  moreover have "tb_find (\<lambda>r. ai_id r = i) (approvals w') = Some (pd_instance p)"
    unfolding w' using c(2) mem(2) by simp
  ultimately show "\<exists>b. tb_find (\<lambda>r. ai_id r = i) (approvals w') = Some b
       \<and> abs_of b = abs_decide (length (steps_of (approval_steps w) a)) ApproveDecision (Open (ai_currentStepIndex a))
       \<and> \<not> truthy (as_subjectType (ai_subject b)) \<and> steps_of (approval_steps w') b = steps_of (approval_steps w) a"
    using abs(1) by (simp add: approve_as_def)
qed

section \<open>Properties\<close>

text \<open>
  C29. Decisions refine the abstract machine, whatever happens between the moment a decision is read and
  checked and the moment it is written: a commit that returns finds the approval open at the step the
  decision was taken at and makes exactly the abstract step of this decision on this approval; a commit
  that throws changes no approval.
\<close>

theorem commits_refine_abstract_machine:
  assumes "prepareDecision (exact_options repo) d w0 = (Inr p, w1)"
    and "tb_find (\<lambda>r. ai_id r = ad_instanceId d) (approvals w0) = Some a"
    and "keyed ai_id (approvals w)" "commitDecision d p w = (r, w')"
  shows "case r of
      Inl _ \<Rightarrow> abs_store w' = abs_store w
    | Inr b \<Rightarrow> abs_store w (ad_instanceId d) = Some (Open (ai_currentStepIndex a))
        \<and> abs_store w' = (abs_store w)(ad_instanceId d \<mapsto>
            abs_decide (length (steps_of (approval_steps w0) a)) (ad_action d) (Open (ai_currentStepIndex a)))"
proof -
  have "ai_id a = ad_instanceId d" using tb_find_SomeD [OF assms(2)] by simp
  then show ?thesis
    using commit_abs [OF assms(3) prepared_abs(2) [OF assms(1,2)] assms(4)] prepared_abs(1) [OF assms(1,2)]
    by (simp split: sum.splits)
qed


section \<open>Instances\<close>

lemma sample_two_keyed: "keyed ai_id (approvals sample_two_steps)"
  using sample_two_steps_start by (simp add: wf_world_def)


lemma commits_refine_abstract_machine_witness:
  "abs_store (snd (processDecision (exact_options True) (sample_decision ''ann'' ApproveDecision) sample_two_steps)) ''id-0''
     = Some (Open 1)"
proof -
  let ?d = "sample_decision ''ann'' ApproveDecision"
  have "\<not> isl (fst (prepareDecision (exact_options True) ?d sample_two_steps))" by code_simp
  then obtain p v where p: "prepareDecision (exact_options True) ?d sample_two_steps = (Inr p, v)"
    by (cases "prepareDecision (exact_options True) ?d sample_two_steps";
        cases "fst (prepareDecision (exact_options True) ?d sample_two_steps)") auto
  have found: "tb_find (\<lambda>r. ai_id r = ad_instanceId ?d) (approvals sample_two_steps) = Some sample_open" by code_simp
  have keyed: "keyed ai_id (approvals v)" using sample_two_keyed prepareDecision_approvals(1) [OF p] by simp
  obtain r v' where c: "commitDecision ?d p v = (r, v')" by (cases "commitDecision ?d p v")
  have eq: "processDecision (exact_options True) ?d sample_two_steps = (r, v')"
    by (simp add: processDecision_def bindE_apply p c)
  have "\<not> isl (fst (processDecision (exact_options True) ?d sample_two_steps))" by code_simp
  then obtain b where "r = Inr b" unfolding eq by (cases r) auto
  moreover have "length (steps_of (approval_steps sample_two_steps) sample_open) = 2" "ai_currentStepIndex sample_open = 0"
    "ad_instanceId ?d = ''id-0''" "ad_action ?d = ApproveDecision" by code_simp+
  ultimately show ?thesis
    using commits_refine_abstract_machine [OF p found keyed c] unfolding eq by simp
qed

end
