(* ===== verification/Frames.thy ===== *)
theory Frames
  imports Tool_Call_Lifecycle Outbox Approval
begin

text \<open>
  Which tables the operations of the services write. The executor and the gate rest on these facts:
  publishing an event touches the outbox only, the lifecycle of tool calls its own table, and the
  creation of an approval the approvals; and no operation issues an identifier twice.
\<close>

section \<open>Parts of the world\<close>

definition loop_part :: "world \<Rightarrow> agent_execution list \<times> react_step list \<times> (string \<times> json) list" where
  "loop_part w = (executions w, react_steps w, tool_runs w)"

definition call_part :: "world \<Rightarrow> (agent_execution list \<times> react_step list \<times> (string \<times> json) list) \<times> approval_instance list" where
  "call_part w = (loop_part w, approvals w)"

definition table_part where
  "table_part w = (call_part w, tool_calls w)"

definition held_part where
  "held_part w = (loop_part w, tool_calls w)"

lemmas part_defs = loop_part_def call_part_def
lemmas table_defs = table_part_def held_part_def part_defs

lemma keeps_loop: "keeps call_part m \<Longrightarrow> keeps loop_part m"
  by (auto intro!: keepsI dest!: keepsD simp: call_part_def)

lemma keeps_call: "keeps table_part m \<Longrightarrow> keeps call_part m"
  by (auto intro!: keepsI dest!: keepsD simp: table_part_def)

lemma keeps_held: "keeps table_part m \<Longrightarrow> keeps held_part m"
  by (auto intro!: keepsI dest!: keepsD simp: table_defs)

lemma keeps_held_loop: "keeps held_part m \<Longrightarrow> keeps loop_part m"
  by (auto intro!: keepsI dest!: keepsD simp: held_part_def)

subsection \<open>Identifiers and time\<close>

lemma table_now: "keeps table_part now"
  by (auto intro!: keepsI simp: now_apply table_defs)

lemma table_fresh_id: "keeps table_part fresh_id"
  by (auto intro!: keepsI simp: fresh_id_apply table_defs)

lemmas keeps_now [frame_intros] = keeps_call [OF table_now]
lemmas keeps_fresh_id [frame_intros] = keeps_call [OF table_fresh_id]

subsection \<open>Tool calls\<close>

lemma keeps_update_calls [frame_intros]: "keeps call_part (update_calls P f)"
  by (auto intro!: keepsI simp: update_calls_apply part_defs)

lemma keeps_save_call [frame_intros]: "keeps call_part (save_call r)"
  unfolding save_call_def by (rule keeps_modify) (simp add: part_defs)

lemma keeps_begin [frame_intros]: "keeps call_part (begin_call lib inp)"
  unfolding begin_call_def Let_def by (intro keeps_rules frame_intros)

lemma keeps_finalize [frame_intros]: "keeps call_part (finalize lib i inp d)"
  unfolding finalize_def transition_call_def by (intro keeps_rules frame_intros)

lemma keeps_transition [frame_intros]: "keeps call_part (transition_call i es s p)"
  unfolding transition_call_def by (intro keeps_rules frame_intros)

subsection \<open>Events\<close>

lemma table_enqueue: "keeps table_part (enqueue event)"
  by (auto intro!: keepsI simp: enqueue_def bindE_def seqE_def enqueueInTransaction_eq Let_def
      modify_def ret_def table_defs split: prod.splits sum.splits option.splits if_splits)

lemmas keeps_enqueue [frame_intros] = keeps_call [OF table_enqueue]

definition library_transport :: "transport \<Rightarrow> bool" where
  "library_transport t \<longleftrightarrow> t = pg_notify \<or> t = in_memory_notify"

lemma table_notify: "library_transport t \<Longrightarrow> keeps table_part (t topic)"
  by (auto simp: library_transport_def pg_notify_def in_memory_notify_def table_defs intro!: keeps_modify)

lemmas keeps_notify = keeps_call [OF table_notify]

lemma keeps_transaction:
  assumes "keeps part m" "\<And>(w :: world) (w' :: world). part (w\<lparr>outbox_events := outbox_events w', notifications := notifications w'\<rparr>) = part w"
  shows "keeps part (transaction m)"
proof (rule keepsI)
  fix w r w' assume run: "transaction m w = (r, w')"
  obtain s v where mv: "m w = (s, v)" by (cases "m w")
  have "part v = part w" using assms(1) mv by (rule keepsD)
  then show "part w' = part w"
    using run mv by (cases s) (auto simp: transaction_def assms(2))
qed

lemma keeps_runInTransaction:
  assumes t: "\<And>topic. keeps part (t topic)" and cb: "keeps part cb"
    and part: "\<And>w ts. part (w\<lparr>txn_topics := ts\<rparr>) = part w"
      "\<And>(w :: world) (w' :: world). part (w\<lparr>outbox_events := outbox_events w', notifications := notifications w'\<rparr>) = part w"
  shows "keeps part (runInTransaction t cb)"
proof -
  have "keeps part (for_each t topics)" for topics
    using t unfolding keeps_def by (rule part.in_for_each)
  then have "keeps part (transaction
           (seqE (modify (\<lambda>v. v\<lparr>txn_topics := []\<rparr>))
           (bindE cb (\<lambda>result. bindE (reads txn_topics) (\<lambda>topics.
            seqE (for_each t topics) (ret result))))))"
    using cb by (intro keeps_transaction [OF _ part(2)] keeps_rules keeps_modify part(1))
  note kept = keepsD [OF this]
  show ?thesis
    by (rule keepsI) (auto simp: runInTransaction_def part(1) kept split: prod.splits)
qed

text \<open>A transaction whose callback enqueues one event.\<close>

definition publish :: "transport \<Rightarrow> outbox_input \<Rightarrow> string act" where
  "publish transport event = runInTransaction transport (enqueue event)"

lemma table_publish: "library_transport t \<Longrightarrow> keeps table_part (publish t event)"
  unfolding publish_def
  by (intro keeps_runInTransaction table_notify table_enqueue) (simp_all add: table_defs)

lemmas keeps_publish [frame_intros] = keeps_call [OF table_publish]

subsection \<open>Approvals\<close>

lemma held_createAgentApproval: "keeps held_part (createAgentApproval opts q)"
  unfolding createAgentApproval_def governed_columns_def emit_def logGuardrailEvent_def Let_def
  by (intro keeps_rules keeps_case_prod keeps_modify keeps_held [OF table_now] keeps_held [OF table_fresh_id])
    (simp_all add: held_part_def loop_part_def)

lemmas keeps_createAgentApproval [frame_intros] = keeps_held_loop [OF held_createAgentApproval]

section \<open>Fresh identifiers\<close>

definition issues :: "world \<Rightarrow> world \<Rightarrow> bool" where
  "issues w w' \<longleftrightarrow> uuid_of w' = uuid_of w \<and> next_uuid w \<le> next_uuid w'"

interpretation issuing: state_preorder issues
  by unfold_locales (auto simp: issues_def)

lemma issues_now: "steps_in issues now"
  by (auto simp: steps_in_def now_apply issues_def)

lemma issues_fresh_id: "steps_in issues fresh_id"
  by (auto simp: steps_in_def fresh_id_apply issues_def)

lemma issues_modify: "(\<And>w. uuid_of (g w) = uuid_of w) \<Longrightarrow> (\<And>w. next_uuid (g w) = next_uuid w) \<Longrightarrow>
    steps_in issues (modify g)"
  by (rule issuing.in_modify) (simp add: issues_def)

lemma issues_enqueue: "steps_in issues (enqueue event)"
  by (auto intro!: steps_inI simp: enqueue_def bindE_def seqE_def enqueueInTransaction_eq Let_def
      modify_def ret_def issues_def split: prod.splits sum.splits option.splits if_splits)

lemma issues_notify: "library_transport t \<Longrightarrow> steps_in issues (t topic)"
  by (auto simp: library_transport_def pg_notify_def in_memory_notify_def intro!: issues_modify)

lemma issues_transaction: "steps_in issues m \<Longrightarrow> steps_in issues (transaction m)"
  by (rule steps_inI) (auto simp: transaction_def issues_def dest: steps_inD split: prod.splits sum.splits)

lemma issues_publish:
  assumes "library_transport t"
  shows "steps_in issues (publish t event)"
proof -
  have "steps_in issues (transaction
           (seqE (modify (\<lambda>v. v\<lparr>txn_topics := []\<rparr>))
           (bindE (enqueue event) (\<lambda>result. bindE (reads txn_topics) (\<lambda>topics.
            seqE (for_each t topics) (ret result))))))"
    by (intro issues_transaction issuing.in_rules issues_modify issues_enqueue issuing.in_for_each
        issues_notify [OF assms]) simp_all
  note issued = steps_inD [OF this]
  show ?thesis
    by (rule steps_inI)
      (auto simp: publish_def runInTransaction_def issues_def dest!: issued split: prod.splits)
qed

text \<open>The row of a new key is the only one an update under that key can reach.\<close>

lemma update_fresh:
  assumes "k \<notin> pk ` set tb" "\<And>r. P r \<Longrightarrow> pk r = k"
  shows "tb_update P f (tb @ [r]) = tb @ [if P r then f r else r]"
    and "tb_affected P (tb @ [r]) = (if P r then 1 else 0)"
proof -
  have none: "\<not> P x" if "x \<in> set tb" for x using assms that by blast
  then have "map (\<lambda>x. if P x then f x else x) tb = tb" by (induction tb) auto
  then show "tb_update P f (tb @ [r]) = tb @ [if P r then f r else r]" by (simp add: tb_update_def)
  have "filter P tb = []" using none by (simp add: filter_empty_conv)
  then show "tb_affected P (tb @ [r]) = (if P r then 1 else 0)" by (simp add: tb_affected_def)
qed

lemma find_fresh: "k \<notin> pk ` set tb \<Longrightarrow> pk r = k \<Longrightarrow> tb_find (\<lambda>x. pk x = k) (tb @ [r]) = Some r"
  unfolding tb_find_def by (induction tb) auto

lemma new_key_unused:
  assumes "wf_world w" "issues w v"
  shows "uuid_of v (next_uuid v) \<notin> ex_id ` set (executions w)"
    "uuid_of v (next_uuid v) \<notin> tc_id ` set (tool_calls w)"
proof -
  have "uuid_of v (next_uuid v) \<notin> issued w"
    using assms by (auto simp: wf_world_def issues_def issued_def inj_eq)
  then show "uuid_of v (next_uuid v) \<notin> ex_id ` set (executions w)"
    "uuid_of v (next_uuid v) \<notin> tc_id ` set (tool_calls w)"
    using assms(1) by (auto simp: wf_world_def)
qed

end
