(* ===== verification/Executor.thy ===== *)
theory Executor
  imports Tool_Access Frames
begin

text \<open>
  The governed loop of the built-in agent: \<open>governance/packages/executor/src/\<close>
  (\<open>executor-engine.ts\<close>, \<open>tool-registry.ts\<close>).

  The model port is a function of the conversation, which may throw; the body of a tool is a
  function of its input, and the log \<open>tool_runs\<close> records which bodies ran. The answer of the model is
  read with \<open>parse_json\<close>: its values are those of the model, in particular integral numbers. A
  column that the code fills with a value of another type holds its \<open>String\<close> conversion.
\<close>

section \<open>Tool registry\<close>

record tool_result =
  tr_success :: bool
  tr_output :: "payload option"
  tr_error :: "string option"
  tr_permissionCheck :: string
  tr_guardrailCheck :: string
  tr_duration :: "int option"

record agent_tool =
  at_name :: string
  at_execute :: "json \<Rightarrow> tool_result result"

type_synonym tool_registry = "agent_tool list"

definition get_tool :: "tool_registry \<Rightarrow> string \<Rightarrow> agent_tool option" where
  "get_tool tools name = tb_find (\<lambda>t. at_name t = name) tools"

definition register :: "tool_registry \<Rightarrow> agent_tool \<Rightarrow> tool_registry result" where
  "register tools tool =
     (if get_tool tools (at_name tool) \<noteq> None
      then Inl (''Tool already registered: '' @ at_name tool)
      else Inr (tools @ [tool]))"

fun registerAll :: "tool_registry \<Rightarrow> agent_tool list \<Rightarrow> tool_registry result" where
  "registerAll tools [] = Inr tools"
| "registerAll tools (t # ts) =
     (case register tools t of Inl e \<Rightarrow> Inl e | Inr tools' \<Rightarrow> registerAll tools' ts)"

definition refused :: "string \<Rightarrow> tool_result" where
  "refused reason = \<lparr>tr_success = False, tr_output = Some (Json JNull), tr_error = Some reason,
     tr_permissionCheck = ''denied'', tr_guardrailCheck = ''blocked'', tr_duration = Some 0\<rparr>"

definition run_body :: "agent_tool \<Rightarrow> json \<Rightarrow> tool_result act" where
  "run_body tool inp =
     seqE (modify (\<lambda>w. w\<lparr>tool_runs := tool_runs w @ [(at_name tool, inp)]\<rparr>))
       (lift_result (at_execute tool inp))"

definition registry_execute ::
    "tool_registry \<Rightarrow> string \<Rightarrow> json \<Rightarrow> string list \<Rightarrow> tool_result act" where
  "registry_execute tools name inp allowedTools =
     (case get_tool tools name of
        None \<Rightarrow> ret (refused (''Tool not found: '' @ name))
      | Some tool \<Rightarrow>
          if name \<notin> set allowedTools then ret (refused (''TOOL_NOT_ALLOWED:'' @ name))
          else bindE now (\<lambda>startedAt.
            catchE
              (bindE (run_body tool inp) (\<lambda>result.
                 case tr_duration result of
                   Some _ \<Rightarrow> ret result
                 | None \<Rightarrow> bindE now (\<lambda>t. ret (result\<lparr>tr_duration := Some (t - startedAt)\<rparr>))))
              (\<lambda>message. bindE now (\<lambda>t.
                 ret \<lparr>tr_success = False, tr_output = Some (Json JNull), tr_error = Some message,
                      tr_permissionCheck = ''passed'', tr_guardrailCheck = ''passed'',
                      tr_duration = Some (t - startedAt)\<rparr>))))"

section \<open>Engine\<close>

record executor_input =
  xi_workspaceId :: string
  xi_agentId :: string
  xi_rawInput :: string
  xi_triggeredBy :: "string option"
  xi_allowedTools :: "string list option"
  xi_blockedTools :: "string list option"
  xi_guardrailRuleIds :: "string list option"
  xi_traceId :: "string option"
  xi_correlationId :: "string option"

type_synonym messages = "(string \<times> string) list"

record executor_options =
  xo_library :: library
  xo_approval :: approval_options
  xo_rules :: "world rule_loader"
  xo_transport :: transport
  xo_model :: "messages \<Rightarrow> string result"
  xo_tools :: tool_registry
  xo_maxIterations :: "nat option"

definition maxIterations :: "executor_options \<Rightarrow> nat" where
  "maxIterations opts = nullish (xo_maxIterations opts) 8"

text \<open>Of the steps in the context the code reads their number only.\<close>

record loop_context =
  lx_execution :: agent_execution
  lx_input :: executor_input
  lx_steps :: nat
  lx_messages :: messages

definition agent_event :: "string \<Rightarrow> string \<Rightarrow> string \<Rightarrow> jobject \<Rightarrow> outbox_input" where
  "agent_event workspaceId eventType executionId details =
     \<lparr>oi_workspaceId = workspaceId, oi_topic = AGENT_EVENTS, oi_eventType = eventType,
      oi_aggregateType = ''AgentExecution'', oi_aggregateId = executionId,
      oi_payload = [(''workspaceId'', JStr workspaceId), (''executionId'', JStr executionId)] @ details,
      oi_idempotencyKey = None\<rparr>"

subsection \<open>Values of a step\<close>

definition text_of :: "json option \<Rightarrow> string option" where
  "text_of v = (case v of None \<Rightarrow> None | Some JNull \<Rightarrow> None | Some x \<Rightarrow> Some (js_String x))"

definition column_json :: "json option \<Rightarrow> json option" where
  "column_json v = (if v = Some JNull then None else v)"

text \<open>The confidence in hundredths.\<close>

definition confidence_of :: "json option \<Rightarrow> int option" where
  "confidence_of v = (case v of Some (JNum n) \<Rightarrow> Some (100 * n) | _ \<Rightarrow> None)"

definition stored_output :: "json option \<Rightarrow> json" where
  "stored_output v =
     (case v of
        Some (JObj ps) \<Rightarrow> JObj ps
      | Some (JArr xs) \<Rightarrow> JArr xs
      | Some x \<Rightarrow> JObj [(''value'', x)]
      | None \<Rightarrow> JObj [])"

definition observation_text :: "json option \<Rightarrow> string option \<Rightarrow> string" where
  "observation_text out err =
     ''observation: '' @
     (case column_json out of
        Some v \<Rightarrow> stringify v
      | None \<Rightarrow> (case err of None \<Rightarrow> ''undefined'' | Some e \<Rightarrow> stringify (JStr e)))"

definition decision_text :: "json option \<Rightarrow> json \<Rightarrow> string" where
  "decision_text thought action =
     stringify (JObj ((case thought of None \<Rightarrow> [] | Some t \<Rightarrow> [(''thought'', t)]) @ [(''action'', action)]))"

definition output_json :: "payload option \<Rightarrow> json option" where
  "output_json p = (case p of Some (Json v) \<Rightarrow> Some v | _ \<Rightarrow> None)"

record observation =
  ob_success :: bool
  ob_output :: "json option"
  ob_error :: "string option"
  ob_guardrailTriggered :: bool

definition step_row ::
    "loop_context \<Rightarrow> nat \<Rightarrow> json option \<Rightarrow> json \<Rightarrow> observation \<Rightarrow> string \<Rightarrow> int \<Rightarrow> react_step" where
  "step_row ctx iteration thought action ob i t =
     (let field = (\<lambda>k. Option.bind thought (prop_of k)) in
      \<lparr>rs_id = i, rs_executionId = ex_id (lx_execution ctx), rs_lineage = no_step_lineage,
       rs_stepIndex = iteration, rs_thoughtReasoning = text_of (field ''reasoning''),
       rs_thoughtPlan = text_of (field ''plan''),
       rs_thoughtConfidence = confidence_of (field ''confidence''),
       rs_actionType = nullish (text_of (prop_of ''type'' action)) [],
       rs_toolName = text_of (prop_of ''toolName'' action),
       rs_toolInput = column_json (prop_of ''toolInput'' action),
       rs_generatePrompt = text_of (prop_of ''generatePrompt'' action),
       rs_observationSuccess = Some (ob_success ob),
       rs_observationOutput = Some (stored_output (ob_output ob)),
       rs_observationError = ob_error ob, rs_guardrailTriggered = ob_guardrailTriggered ob,
       rs_inputTokens = 0, rs_outputTokens = 0, rs_model = None, rs_aiProviderStamp = None,
       rs_durationMs = None, rs_createdAt = t\<rparr>)"

definition step_context :: "loop_context \<Rightarrow> json option \<Rightarrow> json \<Rightarrow> observation \<Rightarrow> loop_context" where
  "step_context ctx thought action ob =
     ctx\<lparr>lx_steps := lx_steps ctx + 1,
         lx_messages := lx_messages ctx @
           [(''assistant'', decision_text thought action),
            (''user'', observation_text (ob_output ob) (ob_error ob))]\<rparr>"

definition persistStep ::
    "loop_context \<Rightarrow> nat \<Rightarrow> json option \<Rightarrow> json \<Rightarrow> observation \<Rightarrow> loop_context act" where
  "persistStep ctx iteration thought action ob =
     bindE fresh_id (\<lambda>i.
     bindE now (\<lambda>t.
     seqE (modify (\<lambda>w. w\<lparr>react_steps := tb_insert (step_row ctx iteration thought action ob i t) (react_steps w)\<rparr>))
       (ret (step_context ctx thought action ob))))"

subsection \<open>The gate\<close>

datatype gate_status = GateAllow | GatePaused | GateBlocked string

text \<open>\<open>allowedTools.includes(toolName)\<close> on a name that may be any truthy JSON value.\<close>

definition tool_granted :: "json \<Rightarrow> string list \<Rightarrow> string list \<Rightarrow> bool" where
  "tool_granted toolName allowed blocked =
     (case toolName of
        JStr name \<Rightarrow> checkToolAccess name (Some allowed) (Some blocked) default_access_options
      | _ \<Rightarrow> False)"

definition pause_request ::
    "executor_input \<Rightarrow> agent_execution \<Rightarrow> string \<Rightarrow> json \<Rightarrow> guardrail_evaluation \<Rightarrow> approval_request" where
  "pause_request inp e toolName toolInput ev =
     \<lparr>aq_workspaceId = xi_workspaceId inp, aq_agentExecutionId = ex_id e, aq_toolName = toolName,
      aq_toolInput = toolInput, aq_riskLevel = show_risk (ev_riskLevel ev),
      aq_description = nullish (ev_ruleName ev) toolName, aq_traceId = xi_traceId inp,
      aq_correlationId = xi_correlationId inp, aq_actorType = None, aq_actorId = None,
      aq_source = None, aq_preparation = None\<rparr>"

definition set_status :: "string \<Rightarrow> execution_status \<Rightarrow> nat act" where
  "set_status i s = update_executions (\<lambda>e. ex_id e = i) (\<lambda>e. e\<lparr>ex_status := s\<rparr>)"

definition pauseForApproval ::
    "executor_options \<Rightarrow> loop_context \<Rightarrow> string \<Rightarrow> json \<Rightarrow> guardrail_evaluation \<Rightarrow> loop_context act" where
  "pauseForApproval opts ctx toolName toolInput ev =
     (let inp = lx_input ctx; e = lx_execution ctx in
     seqE (createAgentApproval (xo_approval opts) (pause_request inp e toolName toolInput ev))
    (bindE (lift_result (handleStateTransition (ex_status e) GuardrailPending)) (\<lambda>validated.
     seqE (set_status (ex_id e) validated)
    (seqE (publish (xo_transport opts)
             (agent_event (xi_workspaceId inp) ''agent.execution.paused'' (ex_id e)
                [(''toolName'', JStr toolName), (''riskLevel'', JStr (show_risk (ev_riskLevel ev)))]))
     (ret (ctx\<lparr>lx_execution := e\<lparr>ex_status := validated\<rparr>\<rparr>))))))"

definition gateToolCall ::
    "executor_options \<Rightarrow> loop_context \<Rightarrow> json \<Rightarrow> json \<Rightarrow> (gate_status \<times> loop_context) act" where
  "gateToolCall opts ctx toolName toolInput =
     (let inp = lx_input ctx; name = js_String toolName in
      if \<not> tool_granted toolName (nullish (xi_allowedTools inp) []) (nullish (xi_blockedTools inp) [])
      then ret (GateBlocked (''TOOL_NOT_ALLOWED:'' @ name), ctx)
      else
        bindE (evaluate (numberOf (xo_library opts)) (xo_rules opts) (xi_workspaceId inp) name
                 (members_of toolInput) (xi_guardrailRuleIds inp)) (\<lambda>ev.
        if \<not> ev_matched ev \<or> ev_riskLevel ev = L0 \<or> ev_riskLevel ev = L1
        then ret (GateAllow, ctx)
        else if ev_riskLevel ev = L4 then ret (GateBlocked (''GUARDRAIL_BLOCKED:'' @ name), ctx)
        else bindE (pauseForApproval opts ctx name toolInput ev) (\<lambda>ctx'. ret (GatePaused, ctx'))))"

definition granted_call :: "loop_context \<Rightarrow> string \<Rightarrow> json \<Rightarrow> begin_input" where
  "granted_call ctx toolName toolInput =
     \<lparr>bi_id = None, bi_toolName = toolName, bi_toolCategory = ''governed'', bi_input = Json toolInput,
      bi_context = \<lparr>cc_scope = Legacy \<lparr>lc_executionId = ex_id (lx_execution ctx),
                       lc_workspaceId = xi_workspaceId (lx_input ctx), lc_actorType = None,
                       lc_actorId = None, lc_triggeredBy = None, lc_source = None\<rparr>,
                    cc_traceId = xi_traceId (lx_input ctx),
                    cc_correlationId = xi_correlationId (lx_input ctx), cc_timeoutMs = 60000\<rparr>,
      bi_resolvedTool = None\<rparr>"

definition outcome_of :: "tool_result \<Rightarrow> finalize_input" where
  "outcome_of result =
     \<lparr>fi_status = (if tr_success result then FinalSucceeded else FinalFailed),
      fi_output = tr_output result, fi_permissionCheck = tr_permissionCheck result,
      fi_permissionDetail = None, fi_guardrailCheck = tr_guardrailCheck result,
      fi_durationMs = nullish (tr_duration result) 0, fi_errorCode = tr_error result\<rparr>"

definition executeApprovedTool ::
    "executor_options \<Rightarrow> loop_context \<Rightarrow> string \<Rightarrow> json \<Rightarrow> tool_result act" where
  "executeApprovedTool opts ctx toolName toolInput =
     bindE (begin_call (xo_library opts) (granted_call ctx toolName toolInput)) (\<lambda>call.
     bindE (registry_execute (xo_tools opts) toolName toolInput
              (nullish (xi_allowedTools (lx_input ctx)) [])) (\<lambda>result.
     seqE (finalize (xo_library opts) (tc_id call) (outcome_of result) None) (ret result)))"

subsection \<open>The loop\<close>

datatype loop_result = Stop execution_status loop_context | Next loop_context

definition TypeError_type :: "string \<Rightarrow> string" where
  "TypeError_type v = ''Cannot read properties of '' @ v @ '' (reading '' @ [CHR 0x27] @ ''type'' @ [CHR 0x27] @ '')''"

definition observed :: "tool_result \<Rightarrow> observation" where
  "observed result = \<lparr>ob_success = tr_success result, ob_output = output_json (tr_output result),
     ob_error = tr_error result, ob_guardrailTriggered = False\<rparr>"

definition act_on ::
    "executor_options \<Rightarrow> nat \<Rightarrow> loop_context \<Rightarrow> json option \<Rightarrow> json \<Rightarrow> loop_result act" where
  "act_on opts iteration ctx thought action =
     (let toolInput = or_empty_object (prop_of ''toolInput'' action) in
      if prop_of ''type'' action = Some (JStr ''finish'')
      then bindE (persistStep ctx iteration thought action
             \<lparr>ob_success = True,
              ob_output = Some (JObj [(''text'',
                nullish (column_json (prop_of ''generatePrompt'' action)) (JStr []))]),
              ob_error = None, ob_guardrailTriggered = False\<rparr>) (\<lambda>ctx'. ret (Stop Done ctx'))
      else if prop_of ''type'' action = Some (JStr ''tool_call'')
              \<and> truthy_json (prop_of ''toolName'' action)
      then
        (let toolName = the (prop_of ''toolName'' action) in
         bindE (gateToolCall opts ctx toolName toolInput) (\<lambda>(gate, ctx1).
         case gate of
           GatePaused \<Rightarrow> ret (Stop GuardrailPending ctx1)
         | GateBlocked reason \<Rightarrow>
             bindE (persistStep ctx1 iteration thought action
               \<lparr>ob_success = False, ob_output = Some JNull, ob_error = Some reason,
                ob_guardrailTriggered = True\<rparr>) (\<lambda>ctx2. ret (Next ctx2))
         | GateAllow \<Rightarrow>
             bindE (executeApprovedTool opts ctx1 (js_String toolName) toolInput) (\<lambda>result.
             bindE (persistStep ctx1 iteration thought action (observed result)) (\<lambda>ctx2.
             ret (Next (ctx2\<lparr>lx_messages := lx_messages ctx2 @
               [(''user'', observation_text (output_json (tr_output result)) (tr_error result))]\<rparr>))))))
      else ret (Stop Failed ctx))"

definition loop_body :: "executor_options \<Rightarrow> nat \<Rightarrow> loop_context \<Rightarrow> loop_result act" where
  "loop_body opts iteration ctx =
     bindE (lift_result (xo_model opts (lx_messages ctx))) (\<lambda>content.
     case parse_json content of
       None \<Rightarrow> ret (Stop Failed ctx)
     | Some JNull \<Rightarrow> ret (Stop Failed ctx)
     | Some parsed \<Rightarrow>
         (case prop_of ''action'' parsed of
            None \<Rightarrow> throw (TypeError_type ''undefined'')
          | Some JNull \<Rightarrow> throw (TypeError_type ''null'')
          | Some action \<Rightarrow> act_on opts iteration ctx (prop_of ''thought'' parsed) action))"

text \<open>The loop from an iteration on, with the number of iterations that remain.\<close>

fun loop_from ::
    "executor_options \<Rightarrow> nat \<Rightarrow> nat \<Rightarrow> loop_context \<Rightarrow> (execution_status \<times> loop_context) act" where
  "loop_from opts iteration 0 ctx = ret (Failed, ctx)"
| "loop_from opts iteration (Suc n) ctx =
     bindE (loop_body opts iteration ctx) (\<lambda>r.
     case r of
       Stop s ctx' \<Rightarrow> ret (s, ctx')
     | Next ctx' \<Rightarrow> loop_from opts (iteration + 1) n ctx')"

definition runLoop :: "executor_options \<Rightarrow> loop_context \<Rightarrow> (execution_status \<times> loop_context) act" where
  "runLoop opts ctx = loop_from opts (lx_steps ctx) (maxIterations opts - lx_steps ctx) ctx"

text \<open>The loop as the source has it, with nothing but the comparison to end it.\<close>

partial_function (option) for_loop ::
    "executor_options \<Rightarrow> nat \<Rightarrow> loop_context \<Rightarrow> world \<Rightarrow> ((execution_status \<times> loop_context) result \<times> world) option" where
  "for_loop opts iteration ctx w =
     (if iteration < maxIterations opts
      then (case loop_body opts iteration ctx w of
              (Inl e, w') \<Rightarrow> Some (Inl e, w')
            | (Inr (Stop s ctx'), w') \<Rightarrow> Some (Inr (s, ctx'), w')
            | (Inr (Next ctx'), w') \<Rightarrow> for_loop opts (iteration + 1) ctx' w')
      else Some (Inr (Failed, ctx), w))"

lemma for_loop_from: "for_loop opts k ctx w = Some (loop_from opts k (maxIterations opts - k) ctx w)"
proof (induction n \<equiv> "maxIterations opts - k" arbitrary: k ctx w)
  case 0
  then have "\<not> k < maxIterations opts" by simp
  then show ?case by (subst for_loop.simps) (simp add: ret_apply)
next
  case (Suc n)
  then have k: "k < maxIterations opts" "maxIterations opts - k = Suc (maxIterations opts - (k + 1))"
    "n = maxIterations opts - (k + 1)" by simp_all
  note IH = Suc.hyps(1) [OF k(3)]
  show ?case
    unfolding k(2) by (subst for_loop.simps)
      (simp add: k(1) IH [simplified] bindE_apply ret_apply split: prod.split sum.split loop_result.split)
qed

subsection \<open>Running and resuming\<close>

definition initial_execution :: "executor_input \<Rightarrow> string \<Rightarrow> int \<Rightarrow> agent_execution" where
  "initial_execution inp i t =
     \<lparr>ex_id = i, ex_workspaceId = xi_workspaceId inp, ex_release = no_release,
      ex_traceId = xi_traceId inp, ex_correlationId = xi_correlationId inp,
      ex_agentId = xi_agentId inp, ex_triggerType = ''manual'', ex_triggerSource = ''api'',
      ex_triggeredBy = xi_triggeredBy inp,
      ex_policy = Some \<lparr>pol_allowedTools = nullish (xi_allowedTools inp) [],
                         pol_blockedTools = nullish (xi_blockedTools inp) [],
                         pol_guardrailRuleIds = nullish (xi_guardrailRuleIds inp) []\<rparr>,
      ex_rawInput = Some (xi_rawInput inp), ex_status = Pending, ex_outputSummary = None,
      ex_totalInputTokens = 0, ex_totalOutputTokens = 0, ex_totalCost = 0, ex_outcome = no_outcome,
      ex_completedAt = None, ex_createdAt = t\<rparr>"

definition save_execution :: "agent_execution \<Rightarrow> unit act" where
  "save_execution e = modify (\<lambda>w. w\<lparr>executions := tb_insert e (executions w)\<rparr>)"

definition close_execution :: "string \<Rightarrow> execution_status \<Rightarrow> nat act" where
  "close_execution i s =
     bindE now (\<lambda>t. update_executions (\<lambda>e. ex_id e = i) (\<lambda>e. e\<lparr>ex_status := s, ex_completedAt := Some t\<rparr>))"

definition final_event :: "executor_input \<Rightarrow> string \<Rightarrow> execution_status \<Rightarrow> nat \<Rightarrow> outbox_input" where
  "final_event inp i s stepCount =
     agent_event (xi_workspaceId inp)
       (if s = Done then ''agent.execution.completed'' else ''agent.execution.failed'') i
       [(''status'', JStr (show_status s)), (''stepCount'', JNum (int stepCount))]"

definition executor_run :: "executor_options \<Rightarrow> executor_input \<Rightarrow> agent_execution act" where
  "executor_run opts inp =
     bindE fresh_id (\<lambda>i.
     bindE now (\<lambda>t.
     let e = initial_execution inp i t in
     seqE (save_execution e)
    (seqE (publish (xo_transport opts)
             (agent_event (xi_workspaceId inp) ''agent.execution.started'' i []))
    (bindE (runLoop opts \<lparr>lx_execution = e, lx_input = inp, lx_steps = 0,
              lx_messages = [(''user'', xi_rawInput inp)]\<rparr>) (\<lambda>(finalStatus, ctx).
     seqE (runInTransaction (xo_transport opts)
             (seqE (close_execution i finalStatus)
                (enqueue (final_event inp i finalStatus (lx_steps ctx)))))
     (execution_or_fail i))))))"

definition empty_policy :: execution_policy where
  "empty_policy = \<lparr>pol_allowedTools = [], pol_blockedTools = [], pol_guardrailRuleIds = []\<rparr>"

definition persisted_steps :: "string \<Rightarrow> world \<Rightarrow> react_step list" where
  "persisted_steps i w = sort_key rs_stepIndex (filter (\<lambda>s. rs_executionId s = i) (react_steps w))"

definition tool_call_action :: "string \<Rightarrow> json \<Rightarrow> json" where
  "tool_call_action toolName toolInput =
     JObj [(''type'', JStr ''tool_call''), (''toolName'', JStr toolName), (''toolInput'', toolInput)]"

definition simple_thought :: "string \<Rightarrow> string \<Rightarrow> json" where
  "simple_thought reasoning plan =
     JObj [(''reasoning'', JStr reasoning), (''plan'', JStr plan), (''confidence'', JNum 1)]"

definition step_messages :: "react_step \<Rightarrow> messages" where
  "step_messages s =
     [(''assistant'', decision_text (Some (simple_thought (nullish (rs_thoughtReasoning s) []) []))
         (tool_call_action (nullish (rs_toolName s) []) (or_empty_object (rs_toolInput s)))),
      (''user'', observation_text (rs_observationOutput s) (rs_observationError s))]"

definition resumed_input :: "agent_execution \<Rightarrow> string \<Rightarrow> executor_input" where
  "resumed_input e workspaceId =
     (let p = nullish (ex_policy e) empty_policy in
      \<lparr>xi_workspaceId = workspaceId, xi_agentId = ex_agentId e, xi_rawInput = nullish (ex_rawInput e) [],
       xi_triggeredBy = None, xi_allowedTools = Some (pol_allowedTools p),
       xi_blockedTools = Some (pol_blockedTools p), xi_guardrailRuleIds = Some (pol_guardrailRuleIds p),
       xi_traceId = ex_traceId e, xi_correlationId = ex_correlationId e\<rparr>)"

record paused_tool_call =
  pc_toolName :: string
  pc_toolInput :: "json option"

record resume_request =
  rr_executionId :: string
  rr_workspaceId :: string
  rr_approvalInstanceId :: string
  rr_pausedToolCall :: "paused_tool_call option"

definition resumePaused :: "executor_options \<Rightarrow> resume_request \<Rightarrow> agent_execution act" where
  "resumePaused opts q =
     bindE (of_option ''APPROVAL_LEGACY_RESUME_CONTEXT_MISSING'' (rr_pausedToolCall q)) (\<lambda>paused.
     bindE (execution_or_fail (rr_executionId q)) (\<lambda>execution.
     seqE (throw_if (ex_status execution \<noteq> GuardrailPending) ''EXECUTION_NOT_AWAITING_APPROVAL'')
    (bindE (lift_result (handleStateTransition (ex_status execution) Running)) (\<lambda>validated.
     seqE (set_status (ex_id execution) validated)
    (bindE (reads (persisted_steps (rr_executionId q))) (\<lambda>persisted.
     let toolInput = or_empty_object (pc_toolInput paused);
         ctx = \<lparr>lx_execution = execution\<lparr>ex_status := validated\<rparr>,
                lx_input = resumed_input execution (rr_workspaceId q), lx_steps = length persisted,
                lx_messages = (''user'', nullish (ex_rawInput execution) []) #
                  concat (map step_messages persisted)\<rparr>
     in bindE (executeApprovedTool opts ctx (pc_toolName paused) toolInput) (\<lambda>result.
        bindE (persistStep ctx (length persisted)
                 (Some (simple_thought ''approved resume'' ''execute approved tool''))
                 (tool_call_action (pc_toolName paused) toolInput) (observed result)) (\<lambda>ctx1.
        bindE (runLoop opts ctx1) (\<lambda>(finalStatus, _).
        seqE (close_execution (ex_id execution) finalStatus)
        (execution_or_fail (rr_executionId q)))))))))))"

section \<open>Steps of the loop\<close>

text \<open>The options of the library: the in-memory rule provider and one of its two transports.\<close>

definition local_options :: "guardrail_rule list \<Rightarrow> executor_options \<Rightarrow> bool" where
  "local_options rs opts \<longleftrightarrow> xo_rules opts = in_memory_loadRules rs \<and> library_transport (xo_transport opts)"

lemma evaluate_in_memory:
  "evaluate num (in_memory_loadRules rs) ws tool inp ids w = (r, w') \<Longrightarrow> w' = w"
  by (auto simp: evaluate_def bindE_def set_in_memory lift_result_def ret_def split: prod.splits sum.splits)

lemma keeps_evaluate [frame_intros]:
  "keeps part (evaluate num (in_memory_loadRules rs) ws tool inp ids)"
  by (auto intro!: keepsI dest!: evaluate_in_memory)

lemma persistStep_run [eff_simps]:
  "persistStep ctx iteration thought action ob w =
     (Inr (step_context ctx thought action ob),
      w\<lparr>next_uuid := Suc (next_uuid w), next_tick := Suc (next_tick w),
         react_steps := react_steps w @ [step_row ctx iteration thought action ob
           (uuid_of w (next_uuid w)) (clock_of w (next_tick w))]\<rparr>)"
  by (simp add: persistStep_def eff_simps tb_insert_def)

lemma step_row_simps [simp]:
  "rs_stepIndex (step_row ctx n thought action ob i t) = n"
  "rs_executionId (step_row ctx n thought action ob i t) = ex_id (lx_execution ctx)"
  "rs_guardrailTriggered (step_row ctx n thought action ob i t) = ob_guardrailTriggered ob"
  by (simp_all add: step_row_def)

lemma step_context_simps [simp]:
  "lx_input (step_context ctx thought action ob) = lx_input ctx"
  "lx_execution (step_context ctx thought action ob) = lx_execution ctx"
  "lx_steps (step_context ctx thought action ob) = Suc (lx_steps ctx)"
  by (simp_all add: step_context_def)

text \<open>The verdict of the gate.\<close>

definition level_allowed :: "guardrail_evaluation \<Rightarrow> bool" where
  "level_allowed ev \<longleftrightarrow> \<not> ev_matched ev \<or> ev_riskLevel ev = L0 \<or> ev_riskLevel ev = L1"

definition matching_rules ::
    "(string \<Rightarrow> int option) \<Rightarrow> guardrail_rule list \<Rightarrow> executor_input \<Rightarrow> string \<Rightarrow> json \<Rightarrow> guardrail_rule set" where
  "matching_rules num rs inp tool toolInput =
     {r \<in> set rs. in_scope (xi_workspaceId inp) (xi_guardrailRuleIds inp) r
        \<and> matchRule num (extractOperation tool (members_of toolInput)) r = Inr True}"

lemma verdict_of_rules:
  assumes "evaluate num (in_memory_loadRules rs) (xi_workspaceId inp) tool (members_of toolInput)
             (xi_guardrailRuleIds inp) w = (Inr ev, w')"
  shows "ev_matched ev \<longleftrightarrow> matching_rules num rs inp tool toolInput \<noteq> {}"
    and "ev_riskLevel ev = Max (insert L0 (gr_riskLevel ` matching_rules num rs inp tool toolInput))"
  using in_memory.evaluate_verdict(2,3) [OF TrueI assms] by (auto simp: matching_rules_def)

lemma risk_at_most: "r \<in> matching_rules num rs inp tool toolInput \<Longrightarrow>
    gr_riskLevel r \<le> Max (insert L0 (gr_riskLevel ` matching_rules num rs inp tool toolInput))"
  by (rule Max_ge) (auto simp: matching_rules_def)

definition allowed_by_policy :: "executor_input \<Rightarrow> string \<Rightarrow> bool" where
  "allowed_by_policy inp tool \<longleftrightarrow>
     tool \<in> set (nullish (xi_allowedTools inp) []) \<and> tool \<notin> set (nullish (xi_blockedTools inp) [])"

lemma tool_granted_iff:
  "tool_granted toolName (nullish (xi_allowedTools inp) []) (nullish (xi_blockedTools inp) [])
     \<longleftrightarrow> (\<exists>t. toolName = JStr t \<and> allowed_by_policy inp t)"
  by (cases toolName) (auto simp: tool_granted_def checkToolAccess_def allowed_by_policy_def
      default_access_options_def)

lemma pause_run:
  assumes "library_transport (xo_transport opts)"
    and "pauseForApproval opts ctx toolName toolInput ev w = (Inr ctx', w')"
  shows "ctx' = ctx\<lparr>lx_execution := (lx_execution ctx)\<lparr>ex_status := GuardrailPending\<rparr>\<rparr>"
    and "\<exists>a w1. createAgentApproval (xo_approval opts)
             (pause_request (lx_input ctx) (lx_execution ctx) toolName toolInput ev) w = (Inr a, w1)
           \<and> approvals w' = approvals w1"
    and "executions w' = tb_update (\<lambda>e. ex_id e = ex_id (lx_execution ctx))
           (\<lambda>e. e\<lparr>ex_status := GuardrailPending\<rparr>) (executions w)"
    and "react_steps w' = react_steps w" and "tool_runs w' = tool_runs w"
proof -
  let ?e = "lx_execution ctx"
  let ?event = "agent_event (xi_workspaceId (lx_input ctx)) ''agent.execution.paused'' (ex_id ?e)
      [(''toolName'', JStr toolName), (''riskLevel'', JStr (show_risk (ev_riskLevel ev)))]"
  obtain a w1 s w2 where run: "createAgentApproval (xo_approval opts)
        (pause_request (lx_input ctx) ?e toolName toolInput ev) w = (Inr a, w1)"
      "handleStateTransition (ex_status ?e) GuardrailPending = Inr s"
      "publish (xo_transport opts) ?event
         (w1\<lparr>executions := tb_update (\<lambda>e. ex_id e = ex_id ?e) (\<lambda>e. e\<lparr>ex_status := s\<rparr>) (executions w1)\<rparr>) = (Inr w2, w')"
      "ctx' = ctx\<lparr>lx_execution := ?e\<lparr>ex_status := s\<rparr>\<rparr>"
    using assms(2)
    by (auto simp: pauseForApproval_def Let_def eff_Inr_iffs lift_result_apply set_status_def
        update_executions_apply)
  have s: "s = GuardrailPending" using run(2) by (simp add: handleStateTransition_def split: if_splits)
  have loop: "loop_part w1 = loop_part w" using keeps_createAgentApproval run(1) by (rule keepsD)
  note call = keepsD [OF keeps_publish [OF assms(1)] run(3)]
  show "ctx' = ctx\<lparr>lx_execution := ?e\<lparr>ex_status := GuardrailPending\<rparr>\<rparr>" using run(4) s by simp
  show "\<exists>a w1. createAgentApproval (xo_approval opts)
        (pause_request (lx_input ctx) ?e toolName toolInput ev) w = (Inr a, w1) \<and> approvals w' = approvals w1"
    using run(1) call by (intro exI [of _ a] exI [of _ w1]) (simp add: part_defs)
  show "executions w' = tb_update (\<lambda>e. ex_id e = ex_id ?e) (\<lambda>e. e\<lparr>ex_status := GuardrailPending\<rparr>) (executions w)"
    "react_steps w' = react_steps w" "tool_runs w' = tool_runs w"
    using call loop s by (simp_all add: part_defs)
qed

lemma gate_outcomes:
  assumes "local_options rs opts"
    and "gateToolCall opts ctx toolName toolInput w = (Inr (gate, ctx'), w')"
  defines "inp \<equiv> lx_input ctx" and "name \<equiv> js_String toolName"
  defines "M \<equiv> matching_rules (numberOf (xo_library opts)) rs inp name toolInput"
  shows "lx_input ctx' = inp \<and> lx_steps ctx' = lx_steps ctx \<and> lx_messages ctx' = lx_messages ctx
    \<and> ex_id (lx_execution ctx') = ex_id (lx_execution ctx)
    \<and> (case gate of
         GateAllow \<Rightarrow> w' = w \<and> ctx' = ctx \<and> toolName = JStr name \<and> allowed_by_policy inp name
           \<and> (\<forall>r\<in>M. gr_riskLevel r \<le> L1)
       | GateBlocked reason \<Rightarrow> w' = w \<and> ctx' = ctx
           \<and> (reason = ''TOOL_NOT_ALLOWED:'' @ name \<and> \<not> (\<exists>t. toolName = JStr t \<and> allowed_by_policy inp t)
              \<or> reason = ''GUARDRAIL_BLOCKED:'' @ name \<and> (\<exists>r\<in>M. gr_riskLevel r = L4))
       | GatePaused \<Rightarrow> toolName = JStr name \<and> allowed_by_policy inp name
           \<and> (\<exists>ev. ev_riskLevel ev = Max (insert L0 (gr_riskLevel ` M))
                \<and> (ev_riskLevel ev = L2 \<or> ev_riskLevel ev = L3)
                \<and> pauseForApproval opts ctx name toolInput ev w = (Inr ctx', w')))"
proof (cases "tool_granted toolName (nullish (xi_allowedTools inp) []) (nullish (xi_blockedTools inp) [])")
  case False
  then show ?thesis
    using assms(2) unfolding gateToolCall_def Let_def inp_def [symmetric] name_def [symmetric]
    by (auto simp: ret_apply tool_granted_iff inp_def)
next
  case True
  then obtain ev v where ev: "evaluate (numberOf (xo_library opts)) (in_memory_loadRules rs)
      (xi_workspaceId inp) name (members_of toolInput) (xi_guardrailRuleIds inp) w = (Inr ev, v)"
    and run_v: "(if level_allowed ev then ret (GateAllow, ctx)
        else if ev_riskLevel ev = L4 then ret (GateBlocked (''GUARDRAIL_BLOCKED:'' @ name), ctx)
        else bindE (pauseForApproval opts ctx name toolInput ev) (\<lambda>ctx'. ret (GatePaused, ctx'))) v
      = (Inr (gate, ctx'), w')"
    using assms(1,2) unfolding gateToolCall_def Let_def inp_def [symmetric] name_def [symmetric]
    by (auto simp: local_options_def level_allowed_def bindE_eq_Inr_iff)
  note run = run_v [unfolded evaluate_in_memory [OF ev]]
  note verdict = verdict_of_rules [OF ev, folded M_def]
  have name: "toolName = JStr name" "allowed_by_policy inp name"
    using True unfolding tool_granted_iff name_def by auto
  consider "level_allowed ev" | "\<not> level_allowed ev" "ev_riskLevel ev = L4"
    | "\<not> level_allowed ev" "ev_riskLevel ev \<noteq> L4" by blast
  then show ?thesis
  proof cases
    case 1
    have "gr_riskLevel r \<le> L1" if "r \<in> M" for r
    proof -
      have "gr_riskLevel r \<le> ev_riskLevel ev"
        using risk_at_most [OF that [unfolded M_def]] verdict(2) by (simp add: M_def)
      moreover have "ev_matched ev" using verdict(1) that by (auto simp: M_def)
      ultimately show ?thesis using 1 by (auto simp: level_allowed_def risk_order_defs)
    qed
    with 1 run name show ?thesis by (auto simp: ret_apply inp_def)
  next
    case 2
    have "finite M" by (simp add: M_def matching_rules_def)
    then have "L4 \<in> insert L0 (gr_riskLevel ` M)"
      using 2 verdict(2) Max_in [of "insert L0 (gr_riskLevel ` M)"] by simp
    then have "\<exists>r\<in>M. gr_riskLevel r = L4" by (metis imageE insertE risk_level.distinct(7))
    with 2 run show ?thesis by (auto simp: ret_apply inp_def)
  next
    case 3
    then have level: "ev_riskLevel ev = L2 \<or> ev_riskLevel ev = L3"
      by (cases "ev_riskLevel ev") (auto simp: level_allowed_def)
    have pause: "gate = GatePaused" "pauseForApproval opts ctx name toolInput ev w = (Inr ctx', w')"
      using 3 run by (auto simp: bindE_eq_Inr_iff ret_apply)
    have "ctx' = ctx\<lparr>lx_execution := (lx_execution ctx)\<lparr>ex_status := GuardrailPending\<rparr>\<rparr>"
      using assms(1) pause_run(1) [OF _ pause(2)] unfolding local_options_def by blast
    then show ?thesis
      using pause name level verdict(2) unfolding inp_def by auto
  qed
qed

definition rows_part :: "world \<Rightarrow> agent_execution list \<times> react_step list \<times> approval_instance list" where
  "rows_part w = (executions w, react_steps w, approvals w)"

lemma keeps_rows: "keeps call_part m \<Longrightarrow> keeps rows_part m"
  by (auto intro!: keepsI dest!: keepsD simp: part_defs rows_part_def)

lemma keeps_registry: "keeps rows_part (registry_execute tools name inp allowed)"
  unfolding registry_execute_def run_body_def
  by (intro keeps_rules keeps_modify keeps_rows [OF keeps_now]) (simp add: rows_part_def)

lemma keeps_execute: "keeps rows_part (executeApprovedTool opts ctx tool inp)"
  unfolding executeApprovedTool_def
  by (intro keeps_rules keeps_registry keeps_rows [OF keeps_begin] keeps_rows [OF keeps_finalize])

subsection \<open>What one iteration does\<close>

definition grows :: "string \<Rightarrow> nat \<Rightarrow> nat \<Rightarrow> world \<Rightarrow> world \<Rightarrow> bool" where
  "grows i n m w w' \<longleftrightarrow> (\<exists>rows. react_steps w' = react_steps w @ rows \<and> map rs_stepIndex rows = [n..<m]
     \<and> (\<forall>r\<in>set rows. rs_executionId r = i))"

lemma grows_none: "react_steps w' = react_steps w \<Longrightarrow> grows i n n w w'"
  by (simp add: grows_def)

lemma grows_one: "react_steps w' = react_steps w @ [r] \<Longrightarrow> rs_stepIndex r = n \<Longrightarrow> rs_executionId r = i
    \<Longrightarrow> grows i n (Suc n) w w'"
  by (simp add: grows_def)

lemma grows_trans: "grows i n m u v \<Longrightarrow> grows i m k v w \<Longrightarrow> n \<le> m \<Longrightarrow> m \<le> k \<Longrightarrow> grows i n k u w"
  using upt_add_eq_append [of n m "k - m"]
  unfolding grows_def by (elim exE conjE, rule_tac x = "rows @ rowsa" in exI) auto

definition pausing :: "string \<Rightarrow> world \<Rightarrow> world \<Rightarrow> bool" where
  "pausing i w w' \<longleftrightarrow>
     executions w' = tb_update (\<lambda>e. ex_id e = i) (\<lambda>e. e\<lparr>ex_status := GuardrailPending\<rparr>) (executions w)
     \<and> (\<exists>a. approvals w' = approvals w @ [a] \<and> ai_recordId a = i \<and> ai_status a = PENDING
           \<and> isAgentApproval a)"

definition same_run :: "loop_context \<Rightarrow> loop_context \<Rightarrow> bool" where
  "same_run ctx ctx' \<longleftrightarrow> lx_input ctx' = lx_input ctx \<and> ex_id (lx_execution ctx') = ex_id (lx_execution ctx)"

definition iteration_outcome :: "nat \<Rightarrow> loop_context \<Rightarrow> world \<Rightarrow> loop_result \<Rightarrow> world \<Rightarrow> bool" where
  "iteration_outcome iteration ctx w r w' \<longleftrightarrow>
     (let i = ex_id (lx_execution ctx); unpaused = (executions w' = executions w \<and> approvals w' = approvals w) in
      case r of
        Next ctx' \<Rightarrow> same_run ctx ctx' \<and> lx_steps ctx' = Suc (lx_steps ctx)
          \<and> grows i iteration (Suc iteration) w w' \<and> unpaused
      | Stop s ctx' \<Rightarrow> same_run ctx ctx'
          \<and> (s = Done \<and> lx_steps ctx' = Suc (lx_steps ctx) \<and> grows i iteration (Suc iteration) w w' \<and> unpaused
             \<or> s = Failed \<and> lx_steps ctx' = lx_steps ctx \<and> react_steps w' = react_steps w \<and> unpaused
             \<or> s = GuardrailPending \<and> lx_steps ctx' = lx_steps ctx \<and> react_steps w' = react_steps w
               \<and> pausing i w w'))"

lemma persisted_outcome:
  assumes "rows_part v = rows_part w" "same_run ctx ctx1" "lx_steps ctx1 = lx_steps ctx"
    and "persistStep ctx1 iteration thought action ob v = (Inr ctx2, w')"
  shows "same_run ctx ctx2 \<and> lx_steps ctx2 = Suc (lx_steps ctx)
    \<and> grows (ex_id (lx_execution ctx)) iteration (Suc iteration) w w'
    \<and> executions w' = executions w \<and> approvals w' = approvals w"
  using assms by (auto simp: persistStep_run rows_part_def same_run_def intro!: grows_one)

lemma paused_outcome:
  assumes "library_transport (xo_transport opts)"
    and "pauseForApproval opts ctx tool inp ev w = (Inr ctx', w')"
  shows "iteration_outcome iteration ctx w (Stop GuardrailPending ctx') w'"
proof -
  note p = pause_run [OF assms]
  obtain a w1 where a: "createAgentApproval (xo_approval opts)
      (pause_request (lx_input ctx) (lx_execution ctx) tool inp ev) w = (Inr a, w1)"
    "approvals w' = approvals w1"
    using p(2) by blast
  note c = createAgentApproval_run [OF a(1)]
  have "submitted_row (pause_request (lx_input ctx) (lx_execution ctx) tool inp ev) a" using c by blast
  moreover have "approvals w1 = approvals w @ [a]"
  proof -
    have "w1 = w\<lparr>approvals := tb_insert a (approvals w), next_uuid := Suc (next_uuid w),
         next_tick := next_tick w1, emitted := emitted w @ [(''approval.created'',
           created_payload (pause_request (lx_input ctx) (lx_execution ctx) tool inp ev) (ai_id a))],
         guardrail_log := guardrail_log w1\<rparr>" using c by blast
    from arg_cong [OF this, of approvals] show ?thesis by (simp add: tb_insert_def)
  qed
  ultimately have "pausing (ex_id (lx_execution ctx)) w w'"
    using p(3) a(2) by (auto simp: pausing_def submitted_row_def pause_request_def)
  then show ?thesis using p(1,4) by (simp add: iteration_outcome_def Let_def same_run_def)
qed

lemma act_on_outcome:
  assumes opts: "local_options rs opts"
    and run: "act_on opts iteration ctx thought action w = (Inr r, w')"
  shows "iteration_outcome iteration ctx w r w'"
proof -
  let ?finish = "prop_of ''type'' action = Some (JStr ''finish'')"
  let ?call = "prop_of ''type'' action = Some (JStr ''tool_call'') \<and> truthy_json (prop_of ''toolName'' action)"
  let ?input = "or_empty_object (prop_of ''toolInput'' action)" and ?name = "the (prop_of ''toolName'' action)"
  have refl: "same_run ctx ctx" by (simp add: same_run_def)
  consider (finish) ?finish | (call) "\<not> ?finish" ?call | (neither) "\<not> ?finish" "\<not> ?call" by blast
  then show ?thesis
  proof cases
    case finish
    then show ?thesis
      using run persisted_outcome [OF HOL.refl refl HOL.refl]
      by (auto simp: act_on_def Let_def bindE_eq_Inr_iff ret_eq_Inr_iff iteration_outcome_def)
  next
    case neither
    with run have "r = Stop Failed ctx" "w' = w" by (auto simp: act_on_def Let_def ret_apply)
    then show ?thesis using refl by (simp add: iteration_outcome_def)
  next
    case call
    then obtain gate ctx1 w1 where gate: "gateToolCall opts ctx ?name ?input w = (Inr (gate, ctx1), w1)"
      and rest: "(case gate of
           GatePaused \<Rightarrow> ret (Stop GuardrailPending ctx1)
         | GateBlocked reason \<Rightarrow>
             bindE (persistStep ctx1 iteration thought action
               \<lparr>ob_success = False, ob_output = Some JNull, ob_error = Some reason,
                ob_guardrailTriggered = True\<rparr>) (\<lambda>ctx2. ret (Next ctx2))
         | GateAllow \<Rightarrow>
             bindE (executeApprovedTool opts ctx1 (js_String ?name) ?input) (\<lambda>result.
             bindE (persistStep ctx1 iteration thought action (observed result)) (\<lambda>ctx2.
             ret (Next (ctx2\<lparr>lx_messages := lx_messages ctx2 @
               [(''user'', observation_text (output_json (tr_output result)) (tr_error result))]\<rparr>))))) w1
        = (Inr r, w')"
      using run by (auto simp: act_on_def Let_def bindE_eq_Inr_iff)
    note g = gate_outcomes [OF opts gate]
    show ?thesis
    proof (cases gate)
      case GatePaused
      then show ?thesis using g rest opts paused_outcome
        by (auto simp: ret_apply local_options_def)
    next
      case (GateBlocked reason)
      with g have "w1 = w" "ctx1 = ctx" by simp_all
      with GateBlocked rest show ?thesis
        using persisted_outcome [OF HOL.refl refl HOL.refl]
        by (auto simp: bindE_eq_Inr_iff ret_eq_Inr_iff iteration_outcome_def)
    next
      case GateAllow
      with g have same: "w1 = w" "ctx1 = ctx" by simp_all
      obtain result v ctx2 where exec: "executeApprovedTool opts ctx (js_String ?name) ?input w = (Inr result, v)"
        and step: "persistStep ctx iteration thought action (observed result) v = (Inr ctx2, w')"
        and r: "r = Next (ctx2\<lparr>lx_messages := lx_messages ctx2 @
            [(''user'', observation_text (output_json (tr_output result)) (tr_error result))]\<rparr>)"
        using GateAllow rest same by (auto simp: bindE_eq_Inr_iff ret_eq_Inr_iff)
      have "rows_part v = rows_part w" using keeps_execute exec by (rule keepsD)
      from persisted_outcome [OF this refl HOL.refl step] r show ?thesis
        by (simp add: iteration_outcome_def same_run_def)
    qed
  qed
qed

lemma loop_body_outcome:
  assumes "local_options rs opts" and "loop_body opts iteration ctx w = (Inr r, w')"
  shows "iteration_outcome iteration ctx w r w'"
proof -
  have failed: "iteration_outcome iteration ctx w (Stop Failed ctx) w"
    by (simp add: iteration_outcome_def same_run_def)
  obtain content where run: "(case parse_json content of
       None \<Rightarrow> ret (Stop Failed ctx)
     | Some JNull \<Rightarrow> ret (Stop Failed ctx)
     | Some parsed \<Rightarrow>
         (case prop_of ''action'' parsed of
            None \<Rightarrow> throw (TypeError_type ''undefined'')
          | Some JNull \<Rightarrow> throw (TypeError_type ''null'')
          | Some action \<Rightarrow> act_on opts iteration ctx (prop_of ''thought'' parsed) action)) w = (Inr r, w')"
    using assms(2) by (auto simp: loop_body_def bindE_eq_Inr_iff lift_result_apply)
  show ?thesis
    using run failed act_on_outcome [OF assms(1)]
    by (auto simp: ret_apply throw_apply split: option.splits json.splits)
qed

text \<open>
  The loop takes at most the iterations that remain, writes one step for each with consecutive
  indices, and leaves the execution row alone unless it pauses.
\<close>

lemma loop_from_outcome:
  assumes "local_options rs opts" and "loop_from opts iteration n ctx w = (Inr (s, ctx'), w')"
  shows "\<exists>m. iteration \<le> m \<and> m \<le> iteration + n \<and> lx_steps ctx' = lx_steps ctx + (m - iteration)
    \<and> grows (ex_id (lx_execution ctx)) iteration m w w' \<and> same_run ctx ctx'
    \<and> (s = Done \<or> s = Failed \<or> s = GuardrailPending)
    \<and> (if s = GuardrailPending then pausing (ex_id (lx_execution ctx)) w w'
       else executions w' = executions w \<and> approvals w' = approvals w)"
  using assms(2)
proof (induction n arbitrary: iteration ctx w)
  case 0
  then show ?case
    by (intro exI [of _ iteration]) (auto simp: ret_apply same_run_def grows_none)
next
  case (Suc n)
  then obtain r v where body: "loop_body opts iteration ctx w = (Inr r, v)"
    and rest: "(case r of Stop s ctx' \<Rightarrow> ret (s, ctx') | Next ctx' \<Rightarrow> loop_from opts (Suc iteration) n ctx') v
        = (Inr (s, ctx'), w')"
    by (auto simp: bindE_eq_Inr_iff)
  note one = loop_body_outcome [OF assms(1) body]
  show ?case
  proof (cases r)
    case (Stop t c)
    with rest have "t = s" "c = ctx'" "v = w'" by (simp_all add: ret_apply)
    with one Stop show ?thesis
      by (auto simp: iteration_outcome_def Let_def grows_none intro: exI [of _ iteration] exI [of _ "Suc iteration"])
  next
    case (Next c)
    with one have c: "same_run ctx c" "lx_steps c = Suc (lx_steps ctx)"
      "grows (ex_id (lx_execution ctx)) iteration (Suc iteration) w v"
      "executions v = executions w" "approvals v = approvals w"
      by (simp_all add: iteration_outcome_def Let_def)
    have more: "loop_from opts (Suc iteration) n c v = (Inr (s, ctx'), w')" using rest Next by simp
    obtain m where m: "Suc iteration \<le> m" "m \<le> Suc iteration + n" "lx_steps ctx' = lx_steps c + (m - (Suc iteration))"
      "grows (ex_id (lx_execution c)) (Suc iteration) m v w'" "same_run c ctx'"
      "s = Done \<or> s = Failed \<or> s = GuardrailPending"
      "if s = GuardrailPending then pausing (ex_id (lx_execution c)) v w'
       else executions w' = executions v \<and> approvals w' = approvals v"
      using Suc.IH [OF more] by blast
    have same: "ex_id (lx_execution c) = ex_id (lx_execution ctx)" "same_run ctx ctx'"
      using c(1) m(5) by (simp_all add: same_run_def)
    have "grows (ex_id (lx_execution ctx)) iteration m w w'"
      using grows_trans [OF c(3), of m w'] m(1,4) same(1) by simp
    with m c same show ?thesis
      by (intro exI [of _ m]) (auto simp: pausing_def)
  qed
qed

subsection \<open>Which tool bodies run\<close>

definition runs_only :: "(string \<times> json \<Rightarrow> bool) \<Rightarrow> world \<Rightarrow> world \<Rightarrow> bool" where
  "runs_only P w w' \<longleftrightarrow> (\<exists>new. tool_runs w' = tool_runs w @ new \<and> (\<forall>x\<in>set new. P x))"

interpretation runs: state_preorder "runs_only P" for P
proof
  show "runs_only P w w" for w by (simp add: runs_only_def)
  show "runs_only P u v \<Longrightarrow> runs_only P v w \<Longrightarrow> runs_only P u w" for u v w
    unfolding runs_only_def by (metis Un_iff append_assoc set_append)
qed

lemma quiet_runs: "keeps loop_part m \<Longrightarrow> steps_in (runs_only P) m"
  by (rule steps_inI) (auto simp: runs_only_def loop_part_def dest: keepsD)

lemmas quiet_call = quiet_runs [OF keeps_loop]

lemma runs_registry:
  assumes "\<And>tool. get_tool tools name = Some tool \<Longrightarrow> name \<in> set allowed \<Longrightarrow> P (name, inp)"
  shows "steps_in (runs_only P) (registry_execute tools name inp allowed)"
proof (cases "get_tool tools name")
  case None
  then show ?thesis by (simp add: registry_execute_def runs.in_ret)
next
  case (Some tool)
  have name: "at_name tool = name"
    using Some tb_find_SomeD [of "\<lambda>t. at_name t = name" tools tool] by (simp add: get_tool_def)
  show ?thesis
  proof (cases "name \<in> set allowed")
    case True
    then have "P (at_name tool, inp)" using Some assms name by simp
    then have "steps_in (runs_only P) (run_body tool inp)"
      unfolding run_body_def
      by (intro runs.in_seqE runs.in_modify runs.in_lift_result) (auto simp: runs_only_def)
    then show ?thesis
      unfolding registry_execute_def Some option.case using True
      by (auto intro!: runs.in_rules quiet_call [OF keeps_now])
  next
    case False
    then show ?thesis using Some by (simp add: registry_execute_def runs.in_ret)
  qed
qed

lemma runs_execute:
  assumes "\<And>t. get_tool (xo_tools opts) name = Some t \<Longrightarrow> name \<in> set (nullish (xi_allowedTools (lx_input ctx)) [])
     \<Longrightarrow> P (name, inp)"
  shows "steps_in (runs_only P) (executeApprovedTool opts ctx name inp)"
  unfolding executeApprovedTool_def
  by (intro runs.in_rules runs_registry quiet_call [OF keeps_begin] quiet_call [OF keeps_finalize]) (rule assms)

text \<open>
  The calls the governance of a run permits: a registered tool, on the allow-list and not blocked,
  and no active rule of the workspace, within the rule scope of the agent, above level L1 matches.
\<close>

definition governed_call ::
    "guardrail_rule list \<Rightarrow> executor_options \<Rightarrow> executor_input \<Rightarrow> string \<times> json \<Rightarrow> bool" where
  "governed_call rs opts inp = (\<lambda>(tool, toolInput).
     get_tool (xo_tools opts) tool \<noteq> None \<and> allowed_by_policy inp tool
     \<and> (\<forall>r\<in>matching_rules (numberOf (xo_library opts)) rs inp tool toolInput. gr_riskLevel r \<le> L1))"

lemma runs_persist: "steps_in (runs_only P) (persistStep ctx n thought action ob)"
  by (rule steps_inI) (auto simp: persistStep_run runs_only_def)

lemma runs_pause: "library_transport (xo_transport opts) \<Longrightarrow>
    steps_in (runs_only P) (pauseForApproval opts ctx tool inp ev)"
  unfolding pauseForApproval_def Let_def set_status_def
  by (intro runs.in_rules quiet_runs [OF keeps_createAgentApproval] quiet_call [OF keeps_publish] steps_inI)
    (auto simp: update_executions_apply runs_only_def)

lemma runs_gate:
  assumes "local_options rs opts"
  shows "steps_in (runs_only P) (gateToolCall opts ctx tool inp)"
proof -
  have rules: "xo_rules opts = in_memory_loadRules rs" and t: "library_transport (xo_transport opts)"
    using assms by (auto simp: local_options_def)
  show ?thesis
    unfolding gateToolCall_def Let_def rules
    by (intro runs.in_rules runs_pause [OF t] quiet_call [OF keeps_evaluate])
qed

lemma runs_act_on:
  assumes opts: "local_options rs opts" and inp: "lx_input ctx = inp"
  shows "steps_in (runs_only (governed_call rs opts inp)) (act_on opts iteration ctx thought action)"
proof -
  let ?name = "the (prop_of ''toolName'' action)" and ?input = "or_empty_object (prop_of ''toolInput'' action)"
  have after: "steps_in (runs_only (governed_call rs opts inp))
      (case x of (gate, ctx1) \<Rightarrow> case gate of
           GatePaused \<Rightarrow> ret (Stop GuardrailPending ctx1)
         | GateBlocked reason \<Rightarrow>
             bindE (persistStep ctx1 iteration thought action
               \<lparr>ob_success = False, ob_output = Some JNull, ob_error = Some reason,
                ob_guardrailTriggered = True\<rparr>) (\<lambda>ctx2. ret (Next ctx2))
         | GateAllow \<Rightarrow>
             bindE (executeApprovedTool opts ctx1 (js_String ?name) ?input) (\<lambda>result.
             bindE (persistStep ctx1 iteration thought action (observed result)) (\<lambda>ctx2.
             ret (Next (ctx2\<lparr>lx_messages := lx_messages ctx2 @
               [(''user'', observation_text (output_json (tr_output result)) (tr_error result))]\<rparr>)))))"
    if gate: "gateToolCall opts ctx ?name ?input w = (Inr x, w')" for x w w'
  proof -
    obtain gate ctx1 where x: "x = (gate, ctx1)" by (cases x)
    note g = gate_outcomes [OF opts gate [unfolded x]]
    show ?thesis
    proof (cases gate)
      case GateAllow
      with g inp have allowed: "governed_call rs opts inp (js_String ?name, ?input)"
        if "get_tool (xo_tools opts) (js_String ?name) = Some t" for t
        using that by (simp add: governed_call_def)
      show ?thesis
        unfolding x GateAllow prod.case gate_status.case
        by (intro runs.in_bindE runs.in_ret runs_persist runs_execute) (rule allowed)
    qed (auto simp: x intro!: runs.in_rules runs_persist)
  qed
  show ?thesis
    unfolding act_on_def Let_def
    by (intro runs.in_if runs.in_bindE_result [OF runs_gate [OF opts]] runs.in_bindE runs_persist
        runs.in_ret after)
qed

lemma runs_loop_body:
  assumes "local_options rs opts" "lx_input ctx = inp"
  shows "steps_in (runs_only (governed_call rs opts inp)) (loop_body opts iteration ctx)"
  unfolding loop_body_def
  by (intro runs.in_bindE runs.in_lift_result)
    (auto intro!: runs.in_ret runs.in_throw runs_act_on [OF assms] split: option.split json.split)

lemma runs_loop:
  assumes "local_options rs opts"
  shows "lx_input ctx = inp \<Longrightarrow> steps_in (runs_only (governed_call rs opts inp)) (loop_from opts iteration n ctx)"
proof (induction n arbitrary: iteration ctx)
  case 0
  then show ?case by (simp add: runs.in_ret)
next
  case (Suc n)
  show ?case
    unfolding loop_from.simps
  proof (rule runs.in_bindE_result [OF runs_loop_body [OF assms Suc.prems]])
    fix r w w' assume "loop_body opts iteration ctx w = (Inr r, w')"
    then have "iteration_outcome iteration ctx w r w'" by (rule loop_body_outcome [OF assms])
    then show "steps_in (runs_only (governed_call rs opts inp))
        (case r of Stop s ctx' \<Rightarrow> ret (s, ctx') | Next ctx' \<Rightarrow> loop_from opts (iteration + 1) n ctx')"
      using Suc by (cases r) (auto simp: iteration_outcome_def Let_def same_run_def intro: runs.in_ret)
  qed
qed

lemma runs_publish: "library_transport t \<Longrightarrow> steps_in (runs_only P) (publish t event)"
  by (rule quiet_call [OF keeps_publish])

definition run_part :: "world \<Rightarrow> react_step list \<times> (string \<times> json) list \<times> approval_instance list" where
  "run_part w = (react_steps w, tool_runs w, approvals w)"

lemma keeps_run_part: "keeps call_part m \<Longrightarrow> keeps run_part m"
  by (auto intro!: keepsI dest!: keepsD simp: part_defs run_part_def)

lemma keeps_close: "keeps run_part (close_execution i s)"
  unfolding close_execution_def
  by (intro keeps_rules keeps_run_part [OF keeps_now] keepsI) (auto simp: update_executions_apply run_part_def)

lemma keeps_closing:
  assumes "library_transport t"
  shows "keeps run_part (runInTransaction t (seqE (close_execution i s) (enqueue event)))"
  using assms
  by (intro keeps_runInTransaction keeps_run_part [OF keeps_notify] keeps_rules keeps_close
      keeps_run_part [OF keeps_enqueue]) (simp_all add: run_part_def)

lemma runs_part: "keeps run_part m \<Longrightarrow> steps_in (runs_only P) m"
  by (rule steps_inI) (auto simp: runs_only_def run_part_def dest: keepsD)

lemma runs_execution_or_fail: "steps_in (runs_only P) (execution_or_fail i)"
  unfolding execution_or_fail_def find_execution_def by (intro runs.in_rules)

subsection \<open>How a run ends\<close>

lemma transaction_commits:
  assumes "library_transport t" "runInTransaction t cb w = (Inr a, w')"
  shows "\<exists>w1. cb (w\<lparr>txn_topics := []\<rparr>) = (Inr a, w1) \<and> call_part w' = call_part w1
    \<and> outbox_events w' = outbox_events w1"
proof -
  obtain w1 where cb: "cb (w\<lparr>txn_topics := []\<rparr>) = (Inr a, w1)"
  proof (cases "cb (w\<lparr>txn_topics := []\<rparr>)")
    case (Pair r v)
    then show ?thesis using assms(2) that runInTransaction_Inl [of cb w _ v t]
      by (cases r) (auto simp: runInTransaction_def transaction_def eff_simps split: prod.splits sum.splits)
  qed
  obtain w2 where w2: "for_each t (txn_topics w1) w1 = (Inr (), w2)" "outbox_events w2 = outbox_events w1"
    using assms(1) pg.for_each_notify [of "txn_topics w1" w1] in_memory_transport.for_each_notify [of "txn_topics w1" w1]
    unfolding library_transport_def by blast
  have "keeps call_part (for_each t ts)" for ts
    using keeps_notify [OF assms(1)] unfolding keeps_def by (rule part.in_for_each)
  then have "call_part w2 = call_part w1" using w2(1) by (rule keepsD)
  moreover have "w' = w2\<lparr>txn_topics := txn_topics w\<rparr>"
    using assms(2) cb w2(1) by (simp add: runInTransaction_def transaction_def eff_simps)
  ultimately show ?thesis using cb w2(2) by (simp add: part_defs)
qed

lemma enqueue_appends:
  assumes "enqueue event w = (Inr i, w')"
  shows "\<exists>row. outbox_events w' = outbox_events w @ [row] \<and> oe_eventType row = oi_eventType event
    \<and> oe_aggregateId row = oi_aggregateId event"
  using assms
  by (auto simp: enqueue_def bindE_eq_Inr_iff seqE_eq_Inr_iff modify_eq_Inr_iff ret_eq_Inr_iff
      enqueueInTransaction_eq Let_def envelope_def split: option.splits if_splits)

lemma closing_run:
  assumes "library_transport t"
    and "runInTransaction t (seqE (close_execution i s) (enqueue event)) w = (Inr x, w')"
  shows "\<exists>tm row. executions w' = tb_update (\<lambda>e. ex_id e = i) (\<lambda>e. e\<lparr>ex_status := s, ex_completedAt := Some tm\<rparr>) (executions w)
    \<and> outbox_events w' = outbox_events w @ [row] \<and> oe_eventType row = oi_eventType event
    \<and> oe_aggregateId row = oi_aggregateId event"
proof -
  obtain w1 where cb: "seqE (close_execution i s) (enqueue event) (w\<lparr>txn_topics := []\<rparr>) = (Inr x, w1)"
    "call_part w' = call_part w1" "outbox_events w' = outbox_events w1"
    using transaction_commits [OF assms] by blast
  obtain v where v: "enqueue event v = (Inr x, w1)" "outbox_events v = outbox_events w"
    "executions v = tb_update (\<lambda>e. ex_id e = i)
       (\<lambda>e. e\<lparr>ex_status := s, ex_completedAt := Some (clock_of w (next_tick w))\<rparr>) (executions w)"
    using cb(1) by (auto simp: close_execution_def eff_simps)
  have "executions w1 = executions v" using keepsD [OF keeps_enqueue v(1)] by (simp add: part_defs)
  then show ?thesis
    using enqueue_appends [OF v(1)] v(2,3) cb(2,3) by (auto simp: part_defs)
qed

lemma find_after_update:
  assumes "tb_find (\<lambda>e. ex_id e = i) tb = Some e" "\<And>x. ex_id (f x) = ex_id x"
  shows "tb_find (\<lambda>e. ex_id e = i) (tb_update (\<lambda>e. ex_id e = i) f tb) = Some (f e)"
  using tb_find_update [of "\<lambda>e. ex_id e = i" f "\<lambda>e. ex_id e = i" tb] assms tb_find_SomeD [OF assms(1)]
  by simp

lemma run_trace:
  assumes opts: "local_options rs opts" and "wf_world w" "executor_run opts inp w = (Inr e, w')"
  shows "\<exists>m. m \<le> maxIterations opts \<and> grows (ex_id e) 0 m w w'
    \<and> ex_id e = uuid_of w (next_uuid w) \<and> ex_completedAt e \<noteq> None
    \<and> (ex_status e = Done \<or> ex_status e = Failed \<or> ex_status e = GuardrailPending)
    \<and> (if ex_status e = GuardrailPending
       then \<exists>a. approvals w' = approvals w @ [a] \<and> ai_recordId a = ex_id e \<and> ai_status a = PENDING
              \<and> isAgentApproval a
       else approvals w' = approvals w)
    \<and> (\<exists>row rest. outbox_events w' = rest @ [row] \<and> oe_aggregateId row = ex_id e
         \<and> oe_eventType row = (if ex_status e = Done then ''agent.execution.completed'' else ''agent.execution.failed''))"
proof -
  let ?i = "uuid_of w (next_uuid w)"
  let ?e = "initial_execution inp ?i (clock_of w (next_tick w))"
  let ?ctx = "\<lparr>lx_execution = ?e, lx_input = inp, lx_steps = 0, lx_messages = [(''user'', xi_rawInput inp)]\<rparr>"
  have t: "library_transport (xo_transport opts)" using opts by (simp add: local_options_def)
  define w1 where "w1 = w\<lparr>next_uuid := Suc (next_uuid w), next_tick := Suc (next_tick w),
      executions := tb_insert ?e (executions w)\<rparr>"
  obtain u w2 s ctx w3 x w4 where
    start: "publish (xo_transport opts) (agent_event (xi_workspaceId inp) ''agent.execution.started'' ?i []) w1
        = (Inr u, w2)"
    and loop: "loop_from opts 0 (maxIterations opts) ?ctx w2 = (Inr (s, ctx), w3)"
    and close: "runInTransaction (xo_transport opts)
        (seqE (close_execution ?i s) (enqueue (final_event inp ?i s (lx_steps ctx)))) w3 = (Inr x, w4)"
    and last: "execution_or_fail ?i w4 = (Inr e, w')"
    using assms(3) unfolding executor_run_def save_execution_def runLoop_def Let_def
    by (auto simp: bindE_eq_Inr_iff seqE_eq_Inr_iff fresh_id_apply now_apply modify_apply w1_def
        split: prod.splits)
  have w2: "executions w2 = executions w @ [?e]" "react_steps w2 = react_steps w" "approvals w2 = approvals w"
    using keepsD [OF keeps_publish [OF t] start] by (simp_all add: part_defs w1_def tb_insert_def)
  have id: "ex_id ?e = ?i" by (simp add: initial_execution_def)
  obtain m where m: "m \<le> maxIterations opts" "grows ?i 0 m w2 w3"
      "s = Done \<or> s = Failed \<or> s = GuardrailPending"
      "if s = GuardrailPending then pausing ?i w2 w3
       else executions w3 = executions w2 \<and> approvals w3 = approvals w2"
    using loop_from_outcome [OF opts loop] id by auto
  obtain tm row where c: "executions w4 = tb_update (\<lambda>e. ex_id e = ?i)
        (\<lambda>e. e\<lparr>ex_status := s, ex_completedAt := Some tm\<rparr>) (executions w3)"
      "outbox_events w4 = outbox_events w3 @ [row]"
      "oe_eventType row = oi_eventType (final_event inp ?i s (lx_steps ctx))"
      "oe_aggregateId row = oi_aggregateId (final_event inp ?i s (lx_steps ctx))"
    using closing_run [OF t close] by blast
  have parts: "react_steps w4 = react_steps w3" "approvals w4 = approvals w3"
    using keepsD [OF keeps_closing [OF t] close] by (simp_all add: run_part_def)
  have w': "w' = w4" "tb_find (\<lambda>e. ex_id e = ?i) (executions w4) = Some e"
    using last by (auto simp: execution_or_fail_def find_execution_def eff_Inr_iffs)
  have "?i \<notin> ex_id ` set (executions w)"
    using assms(2) by (rule new_key_unused(1)) (rule issuing.R_refl)
  then have "tb_find (\<lambda>e. ex_id e = ?i) (executions w2) = Some ?e"
    unfolding w2(1) using id by (rule find_fresh)
  then have "\<exists>e3. tb_find (\<lambda>e. ex_id e = ?i) (executions w3) = Some e3 \<and> ex_id e3 = ?i"
    using m(3,4) id find_after_update [of ?i "executions w2" ?e "\<lambda>e. e\<lparr>ex_status := GuardrailPending\<rparr>"]
    by (auto simp: pausing_def)
  then obtain e3 where e3: "tb_find (\<lambda>e. ex_id e = ?i) (executions w3) = Some e3" "ex_id e3 = ?i" by blast
  have "e = e3\<lparr>ex_status := s, ex_completedAt := Some tm\<rparr>"
    using find_after_update [OF e3(1), of "\<lambda>e. e\<lparr>ex_status := s, ex_completedAt := Some tm\<rparr>"] w'(2) c(1)
    by simp
  then have e: "ex_id e = ?i" "ex_status e = s" "ex_completedAt e = Some tm" using e3(2) by simp_all
  have steps: "grows ?i 0 m w w'" using m(2) w2(2) parts(1) w'(1) by (simp add: grows_def)
  have events: "outbox_events w' = outbox_events w3 @ [row]" "oe_aggregateId row = ?i"
    "oe_eventType row = (if s = Done then ''agent.execution.completed'' else ''agent.execution.failed'')"
    using c(2-4) w'(1) by (simp_all add: final_event_def agent_event_def)
  have "if s = GuardrailPending
       then \<exists>a. approvals w' = approvals w @ [a] \<and> ai_recordId a = ?i \<and> ai_status a = PENDING \<and> isAgentApproval a
       else approvals w' = approvals w"
    using m(4) w2(3) parts(2) w'(1) by (auto simp: pausing_def)
  then show ?thesis using m(1,3) steps events e by (intro exI [of _ m]) simp
qed

subsection \<open>Resuming\<close>

text \<open>Executing an approved call runs at most the one body it names.\<close>

lemma registry_runs_once:
  assumes "registry_execute tools name inp allowed w = (r, w')"
  shows "tool_runs w' = tool_runs w \<or> tool_runs w' = tool_runs w @ [(name, inp)]
    \<and> name \<in> set allowed \<and> get_tool tools name \<noteq> None"
proof (cases "get_tool tools name")
  case None
  with assms show ?thesis by (auto simp: registry_execute_def ret_apply)
next
  case (Some tool)
  have "at_name tool = name"
    using Some tb_find_SomeD [of "\<lambda>t. at_name t = name" tools tool] by (simp add: get_tool_def)
  with Some assms show ?thesis
    by (cases "at_execute tool inp")
      (auto simp: registry_execute_def run_body_def eff_simps split: if_splits option.splits)
qed

lemma execute_runs_once:
  assumes "executeApprovedTool opts ctx name inp w = (r, w')"
  shows "tool_runs w' = tool_runs w \<or> tool_runs w' = tool_runs w @ [(name, inp)]
    \<and> name \<in> set (nullish (xi_allowedTools (lx_input ctx)) []) \<and> get_tool (xo_tools opts) name \<noteq> None"
proof -
  let ?start = "begin_call (xo_library opts) (granted_call ctx name inp)"
  let ?reg = "registry_execute (xo_tools opts) name inp (nullish (xi_allowedTools (lx_input ctx)) [])"
  obtain b w1 where b: "?start w = (b, w1)" by (cases "?start w")
  have q1: "tool_runs w1 = tool_runs w" using keepsD [OF keeps_begin b] by (simp add: part_defs)
  show ?thesis
  proof (cases b)
    case (Inl e)
    with b q1 assms show ?thesis by (simp add: executeApprovedTool_def bindE_apply)
  next
    case (Inr call)
    obtain x w2 where x: "?reg w1 = (x, w2)" by (cases "?reg w1")
    have q2: "tool_runs w' = tool_runs w2"
    proof (cases x)
      case (Inl e)
      with b Inr x assms show ?thesis by (simp add: executeApprovedTool_def bindE_apply)
    next
      case (Inr result)
      have "keeps call_part (seqE (finalize (xo_library opts) (tc_id call) (outcome_of result) None) (ret result))"
        by (intro keeps_rules keeps_finalize)
      moreover have "seqE (finalize (xo_library opts) (tc_id call) (outcome_of result) None) (ret result) w2 = (r, w')"
        using b \<open>b = Inr call\<close> x Inr assms by (simp add: executeApprovedTool_def bindE_apply)
      ultimately have "call_part w' = call_part w2" by (rule keepsD)
      then show ?thesis by (simp add: part_defs)
    qed
    show ?thesis using registry_runs_once [OF x] q1 q2 by simp
  qed
qed

lemma resume_trace:
  assumes opts: "local_options rs opts"
    and e: "tb_find (\<lambda>x. ex_id x = rr_executionId q) (executions w) = Some e" "ex_status e = GuardrailPending"
    and p: "rr_pausedToolCall q = Some p"
    and run: "resumePaused opts q w = (r, w')"
  defines "call \<equiv> (pc_toolName p, or_empty_object (pc_toolInput p))"
    and "inp \<equiv> resumed_input e (rr_workspaceId q)"
  shows "\<exists>first rest. tool_runs w' = tool_runs w @ first @ rest
    \<and> (first = [] \<or> first = [call] \<and> fst call \<in> set (nullish (xi_allowedTools inp) [])
         \<and> get_tool (xo_tools opts) (fst call) \<noteq> None)
    \<and> (\<forall>x\<in>set rest. governed_call rs opts inp x)"
proof -
  define w1 where "w1 = w\<lparr>executions := tb_update (\<lambda>x. ex_id x = ex_id e) (\<lambda>x. x\<lparr>ex_status := Running\<rparr>) (executions w)\<rparr>"
  define persisted where "persisted = persisted_steps (rr_executionId q) w1"
  define ctx where "ctx = \<lparr>lx_execution = e\<lparr>ex_status := Running\<rparr>, lx_input = inp, lx_steps = length persisted,
      lx_messages = (''user'', nullish (ex_rawInput e) []) # concat (map step_messages persisted)\<rparr>"
  define tail where "tail = (\<lambda>result.
      bindE (persistStep ctx (length persisted)
               (Some (simple_thought ''approved resume'' ''execute approved tool''))
               (tool_call_action (pc_toolName p) (or_empty_object (pc_toolInput p))) (observed result)) (\<lambda>ctx1.
      bindE (runLoop opts ctx1) (\<lambda>(finalStatus, _).
      seqE (close_execution (ex_id e) finalStatus) (execution_or_fail (rr_executionId q)))))"
  have eq: "resumePaused opts q w
      = bindE (executeApprovedTool opts ctx (pc_toolName p) (or_empty_object (pc_toolInput p))) tail w1"
    using e p
    by (simp add: resumePaused_def execution_or_fail_def find_execution_def eff_simps handleStateTransition_def
        isValidTransition_def set_status_def w1_def persisted_def ctx_def tail_def inp_def Let_def)
  obtain x w2 where x: "executeApprovedTool opts ctx (pc_toolName p) (or_empty_object (pc_toolInput p)) w1 = (x, w2)"
    by (cases "executeApprovedTool opts ctx (pc_toolName p) (or_empty_object (pc_toolInput p)) w1")
  have first: "\<exists>first. tool_runs w2 = tool_runs w @ first
    \<and> (first = [] \<or> first = [call] \<and> fst call \<in> set (nullish (xi_allowedTools inp) [])
         \<and> get_tool (xo_tools opts) (fst call) \<noteq> None)"
    using execute_runs_once [OF x] by (auto simp: w1_def call_def ctx_def)
  have tail: "steps_in (runs_only (governed_call rs opts inp)) (tail result)" for result
  proof -
    have quiet: "steps_in (runs_only P) (seqE (close_execution i s) (execution_or_fail j))" for P i s j
      by (intro runs.in_seqE runs_part [OF keeps_close] runs_execution_or_fail)
    show ?thesis
      unfolding tail_def
    proof (rule runs.in_bindE_result [OF runs_persist])
      fix ctx1 v v' assume "persistStep ctx (length persisted)
          (Some (simple_thought ''approved resume'' ''execute approved tool''))
          (tool_call_action (pc_toolName p) (or_empty_object (pc_toolInput p))) (observed result) v = (Inr ctx1, v')"
      then have "lx_input ctx1 = inp" by (auto simp: persistStep_run ctx_def)
      then show "steps_in (runs_only (governed_call rs opts inp)) (bindE (runLoop opts ctx1) (\<lambda>(finalStatus, _).
          seqE (close_execution (ex_id e) finalStatus) (execution_or_fail (rr_executionId q))))"
        unfolding runLoop_def by (intro runs.in_bindE runs_loop [OF opts]) (auto intro: quiet)
    qed
  qed
  show ?thesis
  proof (cases x)
    case (Inl m)
    then have "w' = w2" using run eq x by (simp add: bindE_apply)
    obtain fs where "tool_runs w2 = tool_runs w @ fs" "fs = [] \<or> fs = [call] \<and>
        fst call \<in> set (nullish (xi_allowedTools inp) []) \<and> get_tool (xo_tools opts) (fst call) \<noteq> None"
      using first by blast
    with \<open>w' = w2\<close> show ?thesis by (intro exI [of _ fs] exI [of _ "[]"]) simp
  next
    case (Inr result)
    then have "tail result w2 = (r, w')" using run eq x by (simp add: bindE_apply)
    then have "runs_only (governed_call rs opts inp) w2 w'" using tail by (rule steps_inD [rotated])
    then show ?thesis using first unfolding runs_only_def by (metis append.assoc)
  qed
qed

section \<open>Properties\<close>

text \<open>
  C1. Nothing ungoverned runs: every tool body that a run of the agent executes, whatever the model
  answers and whether or not the run ends in an error, is the body of a registered tool that the
  allow-list grants and the block-list does not revoke, called with an input that matches no active
  rule of the workspace above level L1.
\<close>

theorem run_executes_only_governed_calls:
  assumes "local_options rs opts"
  shows "\<exists>new. tool_runs (snd (executor_run opts inp w)) = tool_runs w @ new
    \<and> (\<forall>x\<in>set new. governed_call rs opts inp x)"
proof -
  have t: "library_transport (xo_transport opts)" using assms by (simp add: local_options_def)
  have "steps_in (runs_only (governed_call rs opts inp)) (executor_run opts inp)"
    unfolding executor_run_def Let_def runLoop_def save_execution_def
    by (intro runs.in_bindE runs.in_seqE quiet_call [OF keeps_fresh_id] quiet_call [OF keeps_now]
        runs.in_modify runs_publish [OF t] runs_loop [OF assms] runs_part [OF keeps_closing [OF t]]
        runs_execution_or_fail)
      (auto simp: runs_only_def intro!: runs.in_seqE runs_part [OF keeps_closing [OF t]] runs_execution_or_fail)
  then show ?thesis by (simp add: steps_in_def runs_only_def)
qed

text \<open>
  C11. The loop always ends: the unbounded \<open>for\<close> returns from every context and every world, however the
  model answers and whatever the tools do, and what it returns is \<open>runLoop\<close>, which spends at most one
  iteration per step that is still allowed.
\<close>

theorem run_loop_terminates: "for_loop opts (lx_steps ctx) ctx w = Some (runLoop opts ctx w)"
  unfolding runLoop_def by (rule for_loop_from)

text \<open>
  C10. A run ends: it returns after at most \<open>maxIterations\<close> iterations (eight by default), with one stored
  step per completed iteration, numbered from zero without a gap, and a status that is done, failed
  or held for approval; it is held exactly when it has created one new pending approval for itself.
\<close>

theorem run_bounded_and_recorded:
  assumes "local_options rs opts" "wf_world w" "executor_run opts inp w = (Inr e, w')"
  shows "\<exists>rows. react_steps w' = react_steps w @ rows
    \<and> map rs_stepIndex rows = [0..<length rows] \<and> length rows \<le> maxIterations opts
    \<and> (\<forall>r\<in>set rows. rs_executionId r = ex_id e)
    \<and> (ex_status e = Done \<or> ex_status e = Failed \<or> ex_status e = GuardrailPending)
    \<and> (if ex_status e = GuardrailPending
       then \<exists>a. approvals w' = approvals w @ [a] \<and> ai_recordId a = ex_id e \<and> ai_status a = PENDING
              \<and> isAgentApproval a
       else approvals w' = approvals w)"
proof -
  obtain m where m: "m \<le> maxIterations opts" "grows (ex_id e) 0 m w w'"
      "ex_status e = Done \<or> ex_status e = Failed \<or> ex_status e = GuardrailPending"
      "if ex_status e = GuardrailPending
       then \<exists>a. approvals w' = approvals w @ [a] \<and> ai_recordId a = ex_id e \<and> ai_status a = PENDING
              \<and> isAgentApproval a
       else approvals w' = approvals w"
    using run_trace [OF assms] by blast
  obtain rows where rows: "react_steps w' = react_steps w @ rows" "map rs_stepIndex rows = [0..<m]"
    "\<forall>r\<in>set rows. rs_executionId r = ex_id e"
    using m(2) by (auto simp: grows_def)
  have "length rows = m" using arg_cong [OF rows(2), of length] by simp
  with m rows show ?thesis by (intro exI [of _ rows]) simp
qed

text \<open>
  A run that is held for approval is nevertheless reported as ended: its row gets a completion time,
  and the last event of the run is \<open>agent.execution.failed\<close>.
\<close>

theorem paused_run_reported_failed:
  assumes "local_options rs opts" "wf_world w" "executor_run opts inp w = (Inr e, w')"
    and "ex_status e = GuardrailPending"
  shows "ex_completedAt e \<noteq> None
    \<and> outbox_events w' \<noteq> [] \<and> oe_eventType (last (outbox_events w')) = ''agent.execution.failed''
    \<and> oe_aggregateId (last (outbox_events w')) = ex_id e"
  using run_trace [OF assms(1-3)] assms(4) by auto

text \<open>
  C12. Resuming is one-shot. An execution that is not held for approval is refused and nothing changes;
  a resume of a held one runs the body of the approved call first and at most once, only if the tool
  is registered and on the stored allow-list, and every body after it is again a governed call.
\<close>

theorem resume_runs_approved_call_once:
  assumes "local_options rs opts" "rr_pausedToolCall q = Some p"
    and "tb_find (\<lambda>x. ex_id x = rr_executionId q) (executions w) = Some e"
  shows "if ex_status e \<noteq> GuardrailPending
    then resumePaused opts q w = (Inl ''EXECUTION_NOT_AWAITING_APPROVAL'', w)
    else (\<exists>first rest. tool_runs (snd (resumePaused opts q w)) = tool_runs w @ first @ rest
      \<and> (first = [] \<or> first = [(pc_toolName p, or_empty_object (pc_toolInput p))]
           \<and> pc_toolName p \<in> set (pol_allowedTools (nullish (ex_policy e) empty_policy))
           \<and> get_tool (xo_tools opts) (pc_toolName p) \<noteq> None)
      \<and> (\<forall>x\<in>set rest. governed_call rs opts (resumed_input e (rr_workspaceId q)) x))"
proof (cases "ex_status e = GuardrailPending")
  case True
  then show ?thesis
    using resume_trace [OF assms(1,3) True assms(2), of "fst (resumePaused opts q w)" "snd (resumePaused opts q w)"]
    by (simp add: resumed_input_def Let_def)
next
  case False
  then show ?thesis
    using assms(2,3) by (simp add: resumePaused_def execution_or_fail_def find_execution_def eff_simps)
qed

section \<open>Instances\<close>

text \<open>A model that calls one tool.\<close>

definition quoted :: "string \<Rightarrow> string" where
  "quoted s = CHR 0x22 # s @ [CHR 0x22]"

definition sample_answer :: string where
  "sample_answer = ''{'' @ quoted ''action'' @ '':{'' @ quoted ''type'' @ CHR '':'' # quoted ''tool_call'' @ '',''
     @ quoted ''toolName'' @ CHR '':'' # quoted ''lookup'' @ ''}}''"

definition sample_action :: json where
  "sample_action = JObj [(''type'', JStr ''tool_call''), (''toolName'', JStr ''lookup'')]"

lemma parse_sample_answer: "parse_json sample_answer = Some (JObj [(''action'', sample_action)])"
  by code_simp

definition sample_tool :: agent_tool where
  "sample_tool = \<lparr>at_name = ''lookup'', at_execute = (\<lambda>_. Inr \<lparr>tr_success = True, tr_output = None,
     tr_error = None, tr_permissionCheck = ''p'', tr_guardrailCheck = ''p'', tr_duration = Some 1\<rparr>)\<rparr>"

definition sample_options :: "guardrail_rule list \<Rightarrow> executor_options" where
  "sample_options rs = \<lparr>xo_library = sample_library, xo_approval = exact_options False,
     xo_rules = in_memory_loadRules rs, xo_transport = in_memory_notify, xo_model = (\<lambda>_. Inr sample_answer),
     xo_tools = [sample_tool], xo_maxIterations = Some 1\<rparr>"

definition sample_input :: executor_input where
  "sample_input = \<lparr>xi_workspaceId = ''ws'', xi_agentId = ''a'', xi_rawInput = ''go'', xi_triggeredBy = None,
     xi_allowedTools = Some [''lookup''], xi_blockedTools = None, xi_guardrailRuleIds = None,
     xi_traceId = None, xi_correlationId = None\<rparr>"

definition sample_world :: world where
  "sample_world = empty_world [] (Some \<lparr>ot_traceId = ''t'', ot_correlationId = ''c'', ot_executionId = None\<rparr>)"

definition held_rules :: "guardrail_rule list" where
  "held_rules = [sample_rule ''r'' L3 0 (on_operation ''lookup'')]"

lemma sample_local: "local_options rs (sample_options rs)"
  by (simp add: local_options_def sample_options_def library_transport_def)

lemma publish_in_memory:
  assumes "trace_context w = Some ctx"
    and "outboxEventSchema (envelope event (uuid_of w (next_uuid w)) (clock_of w (next_tick w)) ctx)"
  shows "publish in_memory_notify event w = (Inr (uuid_of w (next_uuid w)),
     w\<lparr>next_uuid := Suc (next_uuid w), next_tick := Suc (next_tick w),
       outbox_events := outbox_events w @ [envelope event (uuid_of w (next_uuid w)) (clock_of w (next_tick w)) ctx],
       buffered_topics := buffered_topics w @ [oi_topic event]\<rparr>)"
  using assms
  by (simp add: publish_def runInTransaction_def transaction_def eff_simps enqueue_def
      enqueueInTransaction_eq Let_def add_topic_def in_memory_notify_def)

lemma sample_preview_text: "buildPreview sample_library (Json (JObj [])) None InputSide = Inr (''sha256:00'', JObj [])"
  by code_simp

lemmas sample_defs = sample_options_def sample_input_def sample_world_def empty_world_def sample_tool_def

lemma sample_run_calls:
  "tool_runs (snd (executor_run (sample_options []) sample_input sample_world)) = [(''lookup'', JObj [])]"
  by (simp add: sample_defs executor_run_def Let_def eff_simps save_execution_def runLoop_def maxIterations_def
      publish_in_memory outboxEventSchema_def trace_schema_def min1_optional_def envelope_def agent_event_def
      AGENT_EVENTS_def initial_execution_def
      loop_body_def parse_sample_answer sample_action_def act_on_def gateToolCall_def tool_granted_def
      checkToolAccess_def evaluate_def set_in_memory assessRisk_def
      executeApprovedTool_def begin_call_def context_matches_def granted_call_def sample_preview_text
      scoped_record_def base_record_def save_call_def registry_execute_def get_tool_def tb_find_def run_body_def
      outcome_of_def finalize_def transition_call_def status_in_def tb_affected_def tb_insert_def
      or_empty_object_def runInTransaction_def transaction_def close_execution_def enqueue_def
      enqueueInTransaction_eq in_memory_notify_def add_topic_def final_event_def execution_or_fail_def
      find_execution_def of_option_def tb_update_def)

lemma sample_run_held:
  "case fst (executor_run (sample_options held_rules) sample_input sample_world) of
     Inl _ \<Rightarrow> False | Inr e \<Rightarrow> ex_status e = GuardrailPending"
  by code_simp

lemma sample_run_held_eq:
  obtains e where "executor_run (sample_options held_rules) sample_input sample_world
      = (Inr e, snd (executor_run (sample_options held_rules) sample_input sample_world))"
    "ex_status e = GuardrailPending"
  using sample_run_held
  by (cases "executor_run (sample_options held_rules) sample_input sample_world") (auto split: sum.splits)

lemma sample_world_wf: "wf_world sample_world"
  by (simp add: sample_world_def wf_empty_world)

lemma run_executes_only_governed_calls_witness:
  "governed_call [] (sample_options []) sample_input (''lookup'', JObj [])"
proof -
  have "tool_runs sample_world = []" by (simp add: sample_world_def empty_world_def)
  then show ?thesis
    using run_executes_only_governed_calls [OF sample_local, of "[]" sample_input sample_world] sample_run_calls
    by simp
qed

lemma run_bounded_and_recorded_witness:
  "\<exists>a. approvals (snd (executor_run (sample_options held_rules) sample_input sample_world)) = [a]
     \<and> ai_status a = PENDING"
proof -
  obtain e where e: "executor_run (sample_options held_rules) sample_input sample_world
      = (Inr e, snd (executor_run (sample_options held_rules) sample_input sample_world))"
    "ex_status e = GuardrailPending"
    by (rule sample_run_held_eq)
  have "approvals sample_world = []" by (simp add: sample_world_def empty_world_def)
  then show ?thesis
    using run_bounded_and_recorded [OF sample_local sample_world_wf e(1)] e(2) by auto
qed

lemma paused_run_reported_failed_witness:
  "oe_eventType (last (outbox_events (snd (executor_run (sample_options held_rules) sample_input sample_world))))
     = ''agent.execution.failed''"
proof -
  obtain e where e: "executor_run (sample_options held_rules) sample_input sample_world
      = (Inr e, snd (executor_run (sample_options held_rules) sample_input sample_world))"
    "ex_status e = GuardrailPending"
    by (rule sample_run_held_eq)
  show ?thesis
    using paused_run_reported_failed [OF sample_local sample_world_wf e] by blast
qed

definition sample_resume :: resume_request where
  "sample_resume = \<lparr>rr_executionId = ''id-0'', rr_workspaceId = ''ws'', rr_approvalInstanceId = ''x'',
     rr_pausedToolCall = Some \<lparr>pc_toolName = ''lookup'', pc_toolInput = None\<rparr>\<rparr>"

definition held_world :: world where
  "held_world = sample_world\<lparr>executions := [(initial_execution sample_input ''id-0'' 0)\<lparr>ex_status := GuardrailPending\<rparr>]\<rparr>"

lemma resume_runs_approved_call_once_witness:
  "\<exists>first rest. tool_runs (snd (resumePaused (sample_options []) sample_resume held_world)) = first @ rest
     \<and> (first = [] \<or> first = [(''lookup'', JObj [])])"
proof -
  let ?p = "\<lparr>pc_toolName = ''lookup'', pc_toolInput = None\<rparr>"
    and ?e = "(initial_execution sample_input ''id-0'' 0)\<lparr>ex_status := GuardrailPending\<rparr>"
  have p: "rr_pausedToolCall sample_resume = Some ?p" by (simp add: sample_resume_def)
  have e: "tb_find (\<lambda>x. ex_id x = rr_executionId sample_resume) (executions held_world) = Some ?e"
    by (simp add: sample_resume_def held_world_def tb_find_def initial_execution_def)
  have "tool_runs held_world = []" by (simp add: held_world_def sample_world_def empty_world_def)
  then show ?thesis
    using resume_runs_approved_call_once [OF sample_local p e] by (auto simp: or_empty_object_def)
qed

end
