(* ===== verification/Gate.thy ===== *)
theory Gate
  imports Executor
begin

text \<open>
  The gate for external agent frameworks: \<open>governance/packages/sidecar/src/gate.ts\<close>. The caller asks
  before it runs a tool itself and reports the outcome afterwards; both ends are recorded on the same
  audit chain as the built-in executor.
\<close>

record gate_deps =
  gd_library :: library
  gd_approval :: approval_options
  gd_rules :: "world rule_loader"
  gd_transport :: transport
  gd_workspaceId :: string
  gd_agentId :: string
  gd_allowedTools :: "string list"

record gate_request =
  gq_toolName :: string
  gq_toolInput :: json

datatype gate_result =
    GateAllowed (gr_executionId: string) (gr_toolCallId: string)
  | GateHeld (gr_executionId: string) (gr_toolCallId: string) (gr_approvalId: string) (gr_level: string)
  | GateRefused (gr_executionId: string) (gr_toolCallId: string) (gr_reason: string)

definition gate_execution :: "gate_deps \<Rightarrow> gate_request \<Rightarrow> string \<Rightarrow> int \<Rightarrow> agent_execution" where
  "gate_execution deps q i t =
     \<lparr>ex_id = i, ex_workspaceId = gd_workspaceId deps, ex_release = no_release, ex_traceId = None,
      ex_correlationId = None, ex_agentId = gd_agentId deps, ex_triggerType = ''event'',
      ex_triggerSource = ''governance_gate'', ex_triggeredBy = None, ex_policy = None,
      ex_rawInput = Some (''gate:'' @ gq_toolName q), ex_status = Running, ex_outputSummary = None,
      ex_totalInputTokens = 0, ex_totalOutputTokens = 0, ex_totalCost = 0, ex_outcome = no_outcome,
      ex_completedAt = None, ex_createdAt = t\<rparr>"

definition gate_call :: "gate_deps \<Rightarrow> gate_request \<Rightarrow> string \<Rightarrow> begin_input" where
  "gate_call deps q executionId =
     \<lparr>bi_id = None, bi_toolName = gq_toolName q, bi_toolCategory = ''governed_gate'',
      bi_input = Json (gq_toolInput q),
      bi_context = \<lparr>cc_scope = Legacy \<lparr>lc_executionId = executionId, lc_workspaceId = gd_workspaceId deps,
                       lc_actorType = None, lc_actorId = None, lc_triggeredBy = None, lc_source = None\<rparr>,
                    cc_traceId = None, cc_correlationId = None, cc_timeoutMs = 60000\<rparr>,
      bi_resolvedTool = None\<rparr>"

definition fail_execution :: "string \<Rightarrow> string \<Rightarrow> nat act" where
  "fail_execution i summary =
     bindE now (\<lambda>t. update_executions (\<lambda>e. ex_id e = i)
       (\<lambda>e. e\<lparr>ex_status := Failed, ex_completedAt := Some t, ex_outputSummary := Some summary\<rparr>))"

definition refuse_not_allowed :: "string \<Rightarrow> string \<Rightarrow> string \<Rightarrow> gate_result act" where
  "refuse_not_allowed toolName executionId callId =
     (let reason = ''TOOL_NOT_ALLOWED:'' @ toolName in
      seqE (transition_call callId [STARTED] DENIED
              (\<lambda>r. r\<lparr>tc_permissionCheck := Some ''denied'', tc_permissionDetail := Some reason,
                     tc_guardrailCheck := Some ''blocked'', tc_errorCode := Some ''TOOL_NOT_ALLOWED''\<rparr>))
     (seqE (fail_execution executionId reason)
      (ret (GateRefused executionId callId reason))))"

definition refuse_blocked :: "string \<Rightarrow> string \<Rightarrow> string \<Rightarrow> gate_result act" where
  "refuse_blocked toolName executionId callId =
     (let reason = ''GUARDRAIL_BLOCKED:'' @ toolName in
      seqE (transition_call callId [STARTED] BLOCKED
              (\<lambda>r. r\<lparr>tc_permissionCheck := Some ''passed'', tc_guardrailCheck := Some ''blocked'',
                     tc_errorCode := Some reason\<rparr>))
     (seqE (fail_execution executionId reason)
      (ret (GateRefused executionId callId reason))))"

definition hold_request :: "gate_deps \<Rightarrow> gate_request \<Rightarrow> string \<Rightarrow> guardrail_evaluation \<Rightarrow> approval_request" where
  "hold_request deps q executionId ev =
     \<lparr>aq_workspaceId = gd_workspaceId deps, aq_agentExecutionId = executionId,
      aq_toolName = gq_toolName q, aq_toolInput = gq_toolInput q,
      aq_riskLevel = show_risk (ev_riskLevel ev), aq_description = nullish (ev_ruleName ev) (gq_toolName q),
      aq_traceId = None, aq_correlationId = None, aq_actorType = None, aq_actorId = None,
      aq_source = None, aq_preparation = None\<rparr>"

definition hold_for_approval ::
    "gate_deps \<Rightarrow> gate_request \<Rightarrow> string \<Rightarrow> string \<Rightarrow> guardrail_evaluation \<Rightarrow> gate_result act" where
  "hold_for_approval deps q executionId callId ev =
     bindE (createAgentApproval (gd_approval deps) (hold_request deps q executionId ev)) (\<lambda>approval.
     seqE (transition_call callId [STARTED] REQUIRES_APPROVAL
             (\<lambda>r. r\<lparr>tc_permissionCheck := Some ''passed'', tc_guardrailCheck := Some ''escalated''\<rparr>))
    (bindE (lift_result (handleStateTransition Running GuardrailPending)) (\<lambda>s.
     seqE (set_status executionId s)
    (seqE (publish (gd_transport deps)
             (agent_event (gd_workspaceId deps) ''agent.execution.paused'' executionId
                [(''toolName'', JStr (gq_toolName q)), (''riskLevel'', JStr (show_risk (ev_riskLevel ev))),
                 (''approvalInstanceId'', JStr (ai_id approval))]))
     (ret (GateHeld executionId callId (ai_id approval) (show_risk (ev_riskLevel ev))))))))"

definition gate :: "gate_deps \<Rightarrow> gate_request \<Rightarrow> gate_result act" where
  "gate deps q =
     bindE fresh_id (\<lambda>executionId.
     bindE now (\<lambda>t.
     seqE (save_execution (gate_execution deps q executionId t))
    (seqE (publish (gd_transport deps)
             (agent_event (gd_workspaceId deps) ''agent.execution.started'' executionId
                [(''toolName'', JStr (gq_toolName q)), (''source'', JStr ''governance_gate'')]))
    (bindE (begin_call (gd_library deps) (gate_call deps q executionId)) (\<lambda>call.
     if \<not> checkToolAccess (gq_toolName q) (Some (gd_allowedTools deps)) (Some []) default_access_options
     then refuse_not_allowed (gq_toolName q) executionId (tc_id call)
     else
       bindE (evaluate (numberOf (gd_library deps)) (gd_rules deps) (gd_workspaceId deps)
                (gq_toolName q) (members_of (gq_toolInput q)) None) (\<lambda>ev.
       if ev_riskLevel ev = L4 then refuse_blocked (gq_toolName q) executionId (tc_id call)
       else if ev_matched ev \<and> (ev_riskLevel ev = L2 \<or> ev_riskLevel ev = L3)
       then hold_for_approval deps q executionId (tc_id call) ev
       else ret (GateAllowed executionId (tc_id call))))))))"

section \<open>Completion\<close>

definition lifecycle_records :: "string \<Rightarrow> world \<Rightarrow> tool_call_record list" where
  "lifecycle_records executionId w =
     sort_key tc_createdAt (filter (\<lambda>r. tc_executionId r = Some executionId) (tool_calls w))"

record reported_outcome =
  ro_success :: bool
  ro_output :: "payload option"

definition reported_final :: "reported_outcome \<Rightarrow> finalize_input" where
  "reported_final out =
     \<lparr>fi_status = (if ro_success out then FinalSucceeded else FinalFailed), fi_output = ro_output out,
      fi_permissionCheck = ''passed'', fi_permissionDetail = None, fi_guardrailCheck = ''passed'',
      fi_durationMs = 0,
      fi_errorCode = (if ro_success out then None else Some ''GATE_TOOL_REPORTED_FAILURE'')\<rparr>"

definition complete :: "gate_deps \<Rightarrow> string \<Rightarrow> reported_outcome \<Rightarrow> unit act" where
  "complete deps executionId out =
     bindE (execution_or_fail executionId) (\<lambda>execution.
     seqE (throw_if (ex_status execution \<noteq> Running) ''GATE_EXECUTION_NOT_AWAITING_COMPLETION'')
    (bindE (reads (lifecycle_records executionId)) (\<lambda>calls.
     bindE (of_option ''GATE_TOOL_CALL_MISSING'' (case calls of [] \<Rightarrow> None | c # _ \<Rightarrow> Some c)) (\<lambda>call.
     seqE (if tc_status call = Some REQUIRES_APPROVAL
           then transition_call (tc_id call) [REQUIRES_APPROVAL] RUNNING (\<lambda>r. r) else ret ())
    (seqE (finalize (gd_library deps) (tc_id call) (reported_final out) None)
    (bindE (lift_result (handleStateTransition Running (if ro_success out then Done else Failed))) (\<lambda>s.
     seqE (close_execution executionId s)
    (seqE (publish (gd_transport deps)
             (agent_event (gd_workspaceId deps)
                (if ro_success out then ''agent.execution.completed'' else ''agent.execution.failed'')
                executionId
                [(''source'', JStr ''governance_gate''), (''success'', JBool (ro_success out))]))
     (ret ())))))))))"

section \<open>What the gate writes\<close>

lemma transition_fresh:
  assumes run: "transition_call (tc_id c) expected s patch w = (Inr u, w')"
    and c: "tool_calls w = tb @ [c]" "tc_id c \<notin> tc_id ` set tb"
  shows "w' = w\<lparr>tool_calls := tb @ [(patch c)\<lparr>tc_status := Some s\<rparr>]\<rparr>"
proof -
  let ?P = "\<lambda>r. tc_id r = tc_id c \<and> status_in expected r"
  have key: "tc_id r = tc_id c" if "?P r" for r using that ..
  note fresh = update_fresh [of "tc_id c" tc_id tb ?P, OF c(2) key]
  show ?thesis
  proof (cases "status_in expected c")
    case True
    then show ?thesis
      using run fresh(1) unfolding transition_call_def
      by (auto simp: eff_Inr_iffs update_calls_apply c(1))
  next
    case False
    then show ?thesis
      using run fresh(2) unfolding transition_call_def
      by (auto simp: eff_Inr_iffs update_calls_apply c(1))
  qed
qed

lemma begin_gate_run:
  assumes "begin_call lib (gate_call deps q i) w = (Inr call, w')"
  shows "tc_id call = uuid_of w (next_uuid w)" "tc_status call = Some STARTED"
    "tc_toolName call = gq_toolName q" "tc_executionId call = non_empty_string i"
    "tc_id call \<notin> tc_id ` set (tool_calls w) \<Longrightarrow> tool_calls w' = tool_calls w @ [call]"
proof -
  obtain p where run: "call = scoped_record (gate_call deps q i) (base_record (gate_call deps q i)
        (uuid_of w (next_uuid w)) (clock_of w (next_tick w)) p)"
    and w': "save_call call (w\<lparr>next_tick := Suc (next_tick w), next_uuid := Suc (next_uuid w)\<rparr>) = (Inr (), w')"
  proof -
    have "bi_id (gate_call deps q i) = None" by (simp add: gate_call_def)
    then show ?thesis
      using assms that by (auto simp: begin_call_def Let_def eff_Inr_iffs lift_result_apply now_apply fresh_id_apply)
  qed
  show "tc_id call = uuid_of w (next_uuid w)" "tc_status call = Some STARTED"
    "tc_toolName call = gq_toolName q" "tc_executionId call = non_empty_string i"
    by (simp_all add: run gate_call_def scoped_record_def base_record_def)
  show "tool_calls w' = tool_calls w @ [call]" if "tc_id call \<notin> tc_id ` set (tool_calls w)"
    using w' that by (auto simp: save_call_def modify_apply tb_insert_def)
qed

lemma fail_execution_run:
  assumes "fail_execution i summary w = (Inr u, w')" and "executions w = tb @ [e]" "ex_id e = i"
    "i \<notin> ex_id ` set tb"
  shows "\<exists>e'. executions w' = tb @ [e'] \<and> ex_id e' = i \<and> ex_status e' = Failed
    \<and> tool_calls w' = tool_calls w \<and> approvals w' = approvals w \<and> tool_runs w' = tool_runs w"
  using assms update_fresh(1) [of i ex_id tb "\<lambda>e. ex_id e = i"]
  by (auto simp: fail_execution_def eff_simps)

text \<open>What the gate leaves behind: one execution, one call, and the approval that holds them.\<close>

definition gate_left :: "world \<Rightarrow> world \<Rightarrow> string \<Rightarrow> execution_status \<Rightarrow> tool_call_record \<Rightarrow> tool_call_status \<Rightarrow> bool" where
  "gate_left w w' i s c cs \<longleftrightarrow>
     (\<exists>e c'. executions w' = executions w @ [e] \<and> ex_id e = i \<and> ex_status e = s
       \<and> tool_calls w' = tool_calls w @ [c'] \<and> tc_id c' = tc_id c \<and> tc_status c' = Some cs
       \<and> tc_toolName c' = tc_toolName c \<and> tc_executionId c' = tc_executionId c)
     \<and> tool_runs w' = tool_runs w"

lemma refused_left:
  assumes "gate_left w v i Running c STARTED" "approvals v = approvals w"
    and fresh: "i \<notin> ex_id ` set (executions w)" "tc_id c \<notin> tc_id ` set (tool_calls w)"
    and run: "seqE (transition_call (tc_id c) [STARTED] cs patch)
        (seqE (fail_execution i reason) (ret (GateRefused i (tc_id c) reason))) v = (Inr r, w')"
    and patch: "\<And>x. tc_id (patch x) = tc_id x" "\<And>x. tc_toolName (patch x) = tc_toolName x"
      "\<And>x. tc_executionId (patch x) = tc_executionId x"
  shows "r = GateRefused i (tc_id c) reason \<and> gate_left w w' i Failed c cs \<and> approvals w' = approvals w"
proof -
  obtain e c' where v: "executions v = executions w @ [e]" "ex_id e = i"
      "tool_calls v = tool_calls w @ [c']" "tc_id c' = tc_id c" "tc_toolName c' = tc_toolName c"
      "tc_executionId c' = tc_executionId c" "tool_runs v = tool_runs w"
    using assms(1) by (auto simp: gate_left_def)
  obtain v1 where t: "transition_call (tc_id c) [STARTED] cs patch v = (Inr (), v1)"
    and f: "\<exists>n. fail_execution i reason v1 = (Inr n, w')" and r: "r = GateRefused i (tc_id c) reason"
    using run by (auto simp: eff_Inr_iffs)
  have v1: "v1 = v\<lparr>tool_calls := tool_calls w @ [(patch c')\<lparr>tc_status := Some cs\<rparr>]\<rparr>"
    using transition_fresh [of c' "[STARTED]" cs patch v "()" v1 "tool_calls w"] t v(3,4) fresh(2) by simp
  obtain n where n: "fail_execution i reason v1 = (Inr n, w')" using f ..
  have ex: "executions v1 = executions w @ [e]" using v(1) v1 by simp
  from fail_execution_run [OF n ex v(2) fresh(1)] v1 v r assms(2) patch
  show ?thesis by (auto simp: gate_left_def)
qed

lemma held_left:
  assumes "gate_left w v i Running c STARTED" "approvals v = approvals w"
    and fresh: "i \<notin> ex_id ` set (executions w)" "tc_id c \<notin> tc_id ` set (tool_calls w)"
    and t: "library_transport (gd_transport deps)"
    and run: "hold_for_approval deps q i (tc_id c) ev v = (Inr r, w')"
  shows "\<exists>a. r = GateHeld i (tc_id c) (ai_id a) (show_risk (ev_riskLevel ev))
    \<and> gate_left w w' i GuardrailPending c REQUIRES_APPROVAL \<and> approvals w' = approvals w @ [a]
    \<and> submitted_row (hold_request deps q i ev) a"
proof -
  obtain e c' where v: "executions v = executions w @ [e]" "ex_id e = i"
      "tool_calls v = tool_calls w @ [c']" "tc_id c' = tc_id c" "tc_toolName c' = tc_toolName c"
      "tc_executionId c' = tc_executionId c" "tool_runs v = tool_runs w"
    using assms(1) by (auto simp: gate_left_def)
  let ?patch = "\<lambda>r :: tool_call_record. r\<lparr>tc_permissionCheck := Some ''passed'', tc_guardrailCheck := Some ''escalated''\<rparr>"
  obtain a v1 v2 s x y v3 where a: "createAgentApproval (gd_approval deps) (hold_request deps q i ev) v = (Inr a, v1)"
    and tr: "transition_call (tc_id c) [STARTED] REQUIRES_APPROVAL ?patch v1 = (Inr (), v2)"
    and s: "handleStateTransition Running GuardrailPending = Inr s"
    and set: "set_status i s v2 = (Inr x, v3)"
    and pub: "publish (gd_transport deps) (agent_event (gd_workspaceId deps) ''agent.execution.paused'' i
        [(''toolName'', JStr (gq_toolName q)), (''riskLevel'', JStr (show_risk (ev_riskLevel ev))),
         (''approvalInstanceId'', JStr (ai_id a))]) v3 = (Inr y, w')"
    and r: "r = GateHeld i (tc_id c) (ai_id a) (show_risk (ev_riskLevel ev))"
    using run by (auto simp: hold_for_approval_def eff_Inr_iffs lift_result_apply)
  have s': "s = GuardrailPending" using s by (simp add: handleStateTransition_def split: if_splits)
  note c = createAgentApproval_run [OF a]
  have held: "executions v1 = executions v" "tool_calls v1 = tool_calls v" "tool_runs v1 = tool_runs v"
    using keepsD [OF held_createAgentApproval a] by (simp_all add: table_defs)
  have row: "approvals v1 = approvals w @ [a]"
    using arg_cong [OF conjunct2 [OF conjunct2 [OF c]], of approvals] assms(2) by (simp add: tb_insert_def)
  have v2: "v2 = v1\<lparr>tool_calls := tool_calls w @ [(?patch c')\<lparr>tc_status := Some REQUIRES_APPROVAL\<rparr>]\<rparr>"
    using transition_fresh [of c' "[STARTED]" REQUIRES_APPROVAL ?patch v1 "()" v2 "tool_calls w"]
      tr held(2) v(3,4) fresh(2) by simp
  have v3: "v3 = v2\<lparr>executions := executions w @ [e\<lparr>ex_status := GuardrailPending\<rparr>]\<rparr>"
    using set s' held(1) v(1,2) v2 update_fresh(1) [of i ex_id "executions w" "\<lambda>e. ex_id e = i"] fresh(1)
    by (simp add: set_status_def update_executions_apply)
  have "table_part w' = table_part v3" using table_publish [OF t] pub by (rule keepsD)
  then show ?thesis
    using r v v2 v3 held row c by (auto simp: table_defs gate_left_def)
qed

text \<open>The active rules of the workspace that the call matches.\<close>

definition gate_rules :: "gate_deps \<Rightarrow> guardrail_rule list \<Rightarrow> gate_request \<Rightarrow> guardrail_rule set" where
  "gate_rules deps rs q =
     {r \<in> set rs. in_scope (gd_workspaceId deps) None r
        \<and> matchRule (numberOf (gd_library deps)) (extractOperation (gq_toolName q) (members_of (gq_toolInput q))) r
          = Inr True}"

definition gate_decides ::
    "gate_deps \<Rightarrow> guardrail_rule list \<Rightarrow> gate_request \<Rightarrow> world \<Rightarrow> world \<Rightarrow> tool_call_record \<Rightarrow> gate_result \<Rightarrow> bool" where
  "gate_decides deps rs q w w' c r \<longleftrightarrow>
     (let granted = (gq_toolName q \<in> set (gd_allowedTools deps)); M = gate_rules deps rs q;
          worst = Max (insert L0 (gr_riskLevel ` M)); i = gr_executionId r in
      case r of
        GateAllowed _ _ \<Rightarrow> granted \<and> (\<forall>m\<in>M. gr_riskLevel m \<le> L1)
          \<and> gate_left w w' i Running c STARTED \<and> approvals w' = approvals w
      | GateHeld _ _ a level \<Rightarrow> granted \<and> (worst = L2 \<or> worst = L3) \<and> level = show_risk worst
          \<and> gate_left w w' i GuardrailPending c REQUIRES_APPROVAL
          \<and> (\<exists>x. approvals w' = approvals w @ [x] \<and> ai_id x = a \<and> ai_recordId x = i
                \<and> ai_status x = PENDING \<and> isAgentApproval x)
      | GateRefused _ _ reason \<Rightarrow> approvals w' = approvals w
          \<and> (\<not> granted \<and> reason = ''TOOL_NOT_ALLOWED:'' @ gq_toolName q \<and> gate_left w w' i Failed c DENIED
             \<or> granted \<and> (\<exists>m\<in>M. gr_riskLevel m = L4) \<and> reason = ''GUARDRAIL_BLOCKED:'' @ gq_toolName q
               \<and> gate_left w w' i Failed c BLOCKED))"

lemma gate_verdict_of_rules:
  assumes "evaluate (numberOf (gd_library deps)) (in_memory_loadRules rs) (gd_workspaceId deps) (gq_toolName q)
      (members_of (gq_toolInput q)) None w = (Inr ev, w')"
  shows "ev_matched ev \<longleftrightarrow> gate_rules deps rs q \<noteq> {}"
    and "ev_riskLevel ev = Max (insert L0 (gr_riskLevel ` gate_rules deps rs q))"
  using in_memory.evaluate_verdict(2,3) [OF TrueI assms] by (auto simp: gate_rules_def)

lemma worst_rule:
  shows "m \<in> gate_rules deps rs q \<Longrightarrow> gr_riskLevel m \<le> Max (insert L0 (gr_riskLevel ` gate_rules deps rs q))"
    and "Max (insert L0 (gr_riskLevel ` gate_rules deps rs q)) = l \<Longrightarrow> l \<noteq> L0
      \<Longrightarrow> \<exists>m\<in>gate_rules deps rs q. gr_riskLevel m = l"
proof -
  have fin: "finite (insert L0 (gr_riskLevel ` gate_rules deps rs q))" by (simp add: gate_rules_def)
  show "m \<in> gate_rules deps rs q \<Longrightarrow> gr_riskLevel m \<le> Max (insert L0 (gr_riskLevel ` gate_rules deps rs q))"
    using fin by (intro Max_ge) auto
  show "Max (insert L0 (gr_riskLevel ` gate_rules deps rs q)) = l \<Longrightarrow> l \<noteq> L0
      \<Longrightarrow> \<exists>m\<in>gate_rules deps rs q. gr_riskLevel m = l"
    using Max_in [OF fin] by auto
qed

lemma gate_trace:
  assumes rules: "gd_rules deps = in_memory_loadRules rs" and t: "library_transport (gd_transport deps)"
    and wf: "wf_world w" and run: "gate deps q w = (Inr r, w')"
  shows "\<exists>c. gr_toolCallId r = tc_id c \<and> gate_decides deps rs q w w' c r
    \<and> gr_executionId r \<notin> ex_id ` set (executions w) \<and> tc_id c \<notin> tc_id ` set (tool_calls w)
    \<and> tc_executionId c = non_empty_string (gr_executionId r) \<and> tc_toolName c = gq_toolName q"
proof -
  define i where "i = uuid_of w (next_uuid w)"
  define e where "e = gate_execution deps q i (clock_of w (next_tick w))"
  define w1 where "w1 = w\<lparr>next_uuid := Suc (next_uuid w), next_tick := Suc (next_tick w),
      executions := tb_insert e (executions w)\<rparr>"
  define tail where "tail = (\<lambda>call :: tool_call_record.
      if \<not> checkToolAccess (gq_toolName q) (Some (gd_allowedTools deps)) (Some []) default_access_options
      then refuse_not_allowed (gq_toolName q) i (tc_id call)
      else
       bindE (evaluate (numberOf (gd_library deps)) (gd_rules deps) (gd_workspaceId deps)
                (gq_toolName q) (members_of (gq_toolInput q)) None) (\<lambda>ev.
       if ev_riskLevel ev = L4 then refuse_blocked (gq_toolName q) i (tc_id call)
       else if ev_matched ev \<and> (ev_riskLevel ev = L2 \<or> ev_riskLevel ev = L3)
       then hold_for_approval deps q i (tc_id call) ev
       else ret (GateAllowed i (tc_id call))))"
  let ?event = "agent_event (gd_workspaceId deps) ''agent.execution.started'' i
      [(''toolName'', JStr (gq_toolName q)), (''source'', JStr ''governance_gate'')]"
  have eq: "gate deps q w = seqE (publish (gd_transport deps) ?event)
      (bindE (begin_call (gd_library deps) (gate_call deps q i)) tail) w1"
    unfolding gate_def save_execution_def tail_def
    by (simp add: bindE_apply [of fresh_id] bindE_apply [of now] seqE_apply [of "modify f" for f]
        fresh_id_apply now_apply modify_apply i_def [symmetric] e_def w1_def)
  obtain x w2 c v where
    pub: "publish (gd_transport deps) ?event w1 = (Inr x, w2)"
    and beg: "begin_call (gd_library deps) (gate_call deps q i) w2 = (Inr c, v)"
    and rest: "tail c v = (Inr r, w')"
    using run [unfolded eq] by (auto simp: bindE_eq_Inr_iff seqE_eq_Inr_iff)
  have w2: "executions w2 = executions w @ [e]" "tool_calls w2 = tool_calls w" "tool_runs w2 = tool_runs w"
      "approvals w2 = approvals w"
    using keepsD [OF table_publish [OF t] pub] by (simp_all add: table_defs w1_def tb_insert_def)
  have "issues w w2"
    using steps_inD [OF issues_publish [OF t] pub] by (simp add: issues_def w1_def)
  note unused = new_key_unused [OF wf this]
  note c = begin_gate_run [OF beg]
  have fresh: "i \<notin> ex_id ` set (executions w)" "tc_id c \<notin> tc_id ` set (tool_calls w)"
    using new_key_unused(1) [OF wf issuing.R_refl] unused(2) c(1) by (simp_all add: i_def)
  have v: "executions v = executions w @ [e]" "tool_calls v = tool_calls w @ [c]" "tool_runs v = tool_runs w"
      "approvals v = approvals w"
    using keepsD [OF keeps_begin beg] w2 c(5) fresh(2) by (simp_all add: part_defs)
  have e: "ex_id e = i" "ex_status e = Running" by (simp_all add: e_def gate_execution_def)
  have left: "gate_left w v i Running c STARTED" using v e c(2) by (simp add: gate_left_def)
  note left_v = left v(4) fresh
  have granted: "checkToolAccess (gq_toolName q) (Some (gd_allowedTools deps)) (Some []) default_access_options
      \<longleftrightarrow> gq_toolName q \<in> set (gd_allowedTools deps)"
    by (auto simp: checkToolAccess_def default_access_options_def)
  show ?thesis
  proof (cases "gq_toolName q \<in> set (gd_allowedTools deps)")
    case False
    then have "refuse_not_allowed (gq_toolName q) i (tc_id c) v = (Inr r, w')"
      using rest by (simp add: tail_def granted)
    from refused_left [OF left_v this [unfolded refuse_not_allowed_def Let_def]] False fresh c
    show ?thesis by (intro exI [of _ c]) (auto simp: gate_decides_def)
  next
    case True
    then obtain ev v' where ev: "evaluate (numberOf (gd_library deps)) (in_memory_loadRules rs)
        (gd_workspaceId deps) (gq_toolName q) (members_of (gq_toolInput q)) None v = (Inr ev, v')"
      and rest': "(if ev_riskLevel ev = L4 then refuse_blocked (gq_toolName q) i (tc_id c)
        else if ev_matched ev \<and> (ev_riskLevel ev = L2 \<or> ev_riskLevel ev = L3)
        then hold_for_approval deps q i (tc_id c) ev
        else ret (GateAllowed i (tc_id c))) v' = (Inr r, w')"
      using rest by (auto simp: tail_def granted rules bindE_eq_Inr_iff)
    note rest'' = rest' [unfolded evaluate_in_memory [OF ev]]
    note verdict = gate_verdict_of_rules [OF ev]
    consider "ev_riskLevel ev = L4" | "ev_riskLevel ev \<noteq> L4" "ev_matched ev" "ev_riskLevel ev = L2 \<or> ev_riskLevel ev = L3"
      | "ev_riskLevel ev \<noteq> L4" "\<not> (ev_matched ev \<and> (ev_riskLevel ev = L2 \<or> ev_riskLevel ev = L3))" by blast
    then show ?thesis
    proof cases
      case 1
      then have "refuse_blocked (gq_toolName q) i (tc_id c) v = (Inr r, w')" using rest'' by simp
      note refused = refused_left [OF left_v this [unfolded refuse_blocked_def Let_def]]
      have "\<exists>m\<in>gate_rules deps rs q. gr_riskLevel m = L4"
        using verdict(2) 1 by (intro worst_rule(2)) simp_all
      with refused True fresh c show ?thesis by (intro exI [of _ c]) (auto simp: gate_decides_def)
    next
      case 2
      then have "hold_for_approval deps q i (tc_id c) ev v = (Inr r, w')" using rest'' by simp
      from held_left [OF left_v t this] 2 True fresh c verdict(2)
      show ?thesis
        by (intro exI [of _ c]) (auto simp: gate_decides_def submitted_row_def hold_request_def)
    next
      case 3
      then have r: "r = GateAllowed i (tc_id c)" "w' = v" using rest'' by (auto simp: ret_apply)
      have "gr_riskLevel m \<le> L1" if "m \<in> gate_rules deps rs q" for m
      proof -
        have "ev_matched ev" using verdict(1) that by auto
        then have "ev_riskLevel ev \<le> L1" using 3 by (cases "ev_riskLevel ev") (auto simp: risk_order_defs)
        then show ?thesis using worst_rule(1) [OF that] verdict(2) by (metis order_trans)
      qed
      with r left_v True c show ?thesis by (intro exI [of _ c]) (auto simp: gate_decides_def)
    qed
  qed
qed

lemma complete_refused:
  assumes "tb_find (\<lambda>x. ex_id x = i) (executions w) = Some e" "ex_status e \<noteq> Running"
  shows "complete deps i out w = (Inl ''GATE_EXECUTION_NOT_AWAITING_COMPLETION'', w)"
  using assms by (simp add: complete_def execution_or_fail_def find_execution_def eff_simps)

lemma transition_sets_status:
  assumes "transition_call i expected s patch w = (Inr u, w')" "keyed tc_id (tool_calls w)"
    and "c \<in> set (tool_calls w)" "tc_id c = i"
    and "\<And>x. tc_id (patch x) = tc_id x" "\<And>x. tc_executionId (patch x) = tc_executionId x"
  shows "keyed tc_id (tool_calls w')"
    and "\<exists>c'\<in>set (tool_calls w'). tc_id c' = i \<and> tc_executionId c' = tc_executionId c \<and> tc_status c' = Some s"
proof -
  have w': "w' = w\<lparr>tool_calls := tb_update (\<lambda>r. tc_id r = i)
      (\<lambda>r. (patch r)\<lparr>tc_status := Some s\<rparr>) (tool_calls w)\<rparr>"
    using assms(1) transition_call_outcome [OF assms(2)] by (auto split: if_splits)
  show "keyed tc_id (tool_calls w')"
    unfolding w' using keyed_update [of tc_id "\<lambda>r. (patch r)\<lparr>tc_status := Some s\<rparr>", OF _ assms(2)] assms(5) by simp
  show "\<exists>c'\<in>set (tool_calls w'). tc_id c' = i \<and> tc_executionId c' = tc_executionId c \<and> tc_status c' = Some s"
  proof (intro bexI conjI)
    have "(if tc_id c = i then (patch c)\<lparr>tc_status := Some s\<rparr> else c) \<in> set (tool_calls w')"
      using assms(3) by (simp add: w' set_tb_update)
    then show "(patch c)\<lparr>tc_status := Some s\<rparr> \<in> set (tool_calls w')" using assms(4) by simp
  qed (use assms(4-6) in simp_all)
qed

lemma complete_trace:
  assumes t: "library_transport (gd_transport deps)" and keyed: "keyed tc_id (tool_calls w)"
    and e: "tb_find (\<lambda>x. ex_id x = i) (executions w) = Some e"
    and run: "complete deps i out w = (Inr u, w')"
  shows "(\<exists>e'. tb_find (\<lambda>x. ex_id x = i) (executions w') = Some e'
           \<and> ex_status e' = (if ro_success out then Done else Failed))
    \<and> (\<exists>c\<in>set (tool_calls w'). tc_executionId c = Some i
         \<and> tc_status c = Some (if ro_success out then SUCCEEDED else FAILED))
    \<and> tool_runs w' = tool_runs w \<and> approvals w' = approvals w"
proof -
  let ?s = "if ro_success out then Done else Failed"
  let ?open = "\<lambda>c. if tc_status c = Some REQUIRES_APPROVAL
           then transition_call (tc_id c) [REQUIRES_APPROVAL] RUNNING (\<lambda>r. r) else ret ()"
  obtain c cs w1 w2 s n w3 y where c: "lifecycle_records i w = c # cs"
    and opn: "?open c w = (Inr (), w1)"
    and fin: "finalize (gd_library deps) (tc_id c) (reported_final out) None w1 = (Inr (), w2)"
    and s: "handleStateTransition Running ?s = Inr s"
    and close: "close_execution i s w2 = (Inr n, w3)"
    and pub: "publish (gd_transport deps) (agent_event (gd_workspaceId deps)
        (if ro_success out then ''agent.execution.completed'' else ''agent.execution.failed'') i
        [(''source'', JStr ''governance_gate''), (''success'', JBool (ro_success out))]) w3 = (Inr y, w')"
    using run e
    by (auto simp: complete_def execution_or_fail_def find_execution_def eff_Inr_iffs lift_result_apply
        split: list.splits)
  have s': "s = ?s" using s by (simp add: handleStateTransition_def split: if_splits)
  have "c \<in> set (lifecycle_records i w)" using c by simp
  then have c_in: "c \<in> set (tool_calls w)" "tc_executionId c = Some i"
    by (auto simp: lifecycle_records_def)
  have "keeps call_part (?open c)" by (simp add: keeps_transition keeps_rules)
  then have part1: "call_part w1 = call_part w" using opn by (rule keepsD)
  have w1: "keyed tc_id (tool_calls w1)"
    "\<exists>c'\<in>set (tool_calls w1). tc_id c' = tc_id c \<and> tc_executionId c' = Some i"
  proof -
    show "keyed tc_id (tool_calls w1)"
      using opn keyed transition_sets_status(1) [OF _ keyed c_in(1) HOL.refl] by (auto simp: ret_apply split: if_splits)
    show "\<exists>c'\<in>set (tool_calls w1). tc_id c' = tc_id c \<and> tc_executionId c' = Some i"
    proof (cases "tc_status c = Some REQUIRES_APPROVAL")
      case True
      then have "transition_call (tc_id c) [REQUIRES_APPROVAL] RUNNING (\<lambda>r. r) w = (Inr (), w1)"
        using opn by simp
      from transition_sets_status(2) [OF this keyed c_in(1) HOL.refl] c_in(2) show ?thesis by auto
    next
      case False
      then show ?thesis using opn c_in by (auto simp: ret_apply)
    qed
  qed
  then obtain c1 where c1: "c1 \<in> set (tool_calls w1)" "tc_id c1 = tc_id c" "tc_executionId c1 = Some i" by blast
  obtain p where tr: "transition_call (tc_id c) [STARTED, RUNNING] (call_status_of (fi_status (reported_final out)))
      (final_patch (reported_final out) p) w1 = (Inr (), w2)"
    using fin by (auto simp: finalize_def eff_Inr_iffs lift_result_apply split: option.splits)
  have "\<exists>c'\<in>set (tool_calls w2). tc_id c' = tc_id c \<and> tc_executionId c' = tc_executionId c1
      \<and> tc_status c' = Some (call_status_of (fi_status (reported_final out)))"
    using transition_sets_status(2) [OF tr w1(1) c1(1,2)] by (simp add: final_patch_def)
  then have call: "\<exists>c\<in>set (tool_calls w2). tc_executionId c = Some i
      \<and> tc_status c = Some (if ro_success out then SUCCEEDED else FAILED)"
    using c1(3) by (auto simp: reported_final_def)
  have part2: "call_part w2 = call_part w1" using keeps_finalize fin by (rule keepsD)
  have w3: "tool_calls w3 = tool_calls w2" "tool_runs w3 = tool_runs w2" "approvals w3 = approvals w2"
    "\<exists>tm. executions w3 = tb_update (\<lambda>e. ex_id e = i) (\<lambda>e. e\<lparr>ex_status := s, ex_completedAt := Some tm\<rparr>) (executions w2)"
    using close by (auto simp: close_execution_def eff_simps)
  have "executions w2 = executions w" using part1 part2 by (simp add: part_defs)
  then obtain tm where ex: "tb_find (\<lambda>x. ex_id x = i) (executions w3) = Some (e\<lparr>ex_status := s, ex_completedAt := Some tm\<rparr>)"
    using w3(4) find_after_update [OF e] by auto
  have "table_part w' = table_part w3" using table_publish [OF t] pub by (rule keepsD)
  then show ?thesis using ex s' call w3(1-3) part1 part2 by (auto simp: table_defs)
qed

section \<open>Properties\<close>

text \<open>
  C18. Every decision of the gate is recorded, whatever it is: one execution and one tool call with new
  keys, running and started when the tool is on the server's list and no active rule above L1
  matches; held, with one new pending approval, when the worst matching rule is L2 or L3; failed and
  denied for a tool that is not on the list, failed and blocked when a rule of L4 matches. The gate
  runs no tool body.
\<close>

theorem gate_decision_recorded:
  assumes "gd_rules deps = in_memory_loadRules rs" "library_transport (gd_transport deps)"
    and "wf_world w" "gate deps q w = (Inr r, w')"
  shows "\<exists>c. tc_id c = gr_toolCallId r \<and> gate_decides deps rs q w w' c r
    \<and> gr_executionId r \<notin> ex_id ` set (executions w) \<and> gr_toolCallId r \<notin> tc_id ` set (tool_calls w)
    \<and> tc_executionId c = non_empty_string (gr_executionId r) \<and> tc_toolName c = gq_toolName q"
  using gate_trace [OF assms] by metis

text \<open>
  C19. What the gate refused or holds cannot be reported as executed: \<open>complete\<close> on its execution throws
  and changes nothing.
\<close>

theorem only_allowed_calls_complete:
  assumes "gd_rules deps = in_memory_loadRules rs" "library_transport (gd_transport deps)"
    and "wf_world w" "gate deps q w = (Inr r, w')" "\<forall>i c. r \<noteq> GateAllowed i c"
  shows "complete deps (gr_executionId r) out w' = (Inl ''GATE_EXECUTION_NOT_AWAITING_COMPLETION'', w')"
proof -
  obtain c where c: "gate_decides deps rs q w w' c r" "gr_executionId r \<notin> ex_id ` set (executions w)"
    using gate_trace [OF assms(1-4)] by blast
  then obtain e where e: "executions w' = executions w @ [e]" "ex_id e = gr_executionId r" "ex_status e \<noteq> Running"
    using assms(5) by (cases r) (auto simp: gate_decides_def gate_left_def Let_def)
  have "tb_find (\<lambda>x. ex_id x = gr_executionId r) (executions w') = Some e"
    unfolding e(1) using c(2) e(2) by (rule find_fresh)
  then show ?thesis using e(3) by (rule complete_refused)
qed

text \<open>
  A call is completed at most once: \<open>complete\<close> refuses an execution that is not running and changes
  nothing; when it returns, the execution is done or failed as reported, its call is closed with the
  same verdict, and every further report is refused.
\<close>

theorem gate_completed_once:
  assumes "library_transport (gd_transport deps)" "wf_world w"
    and "tb_find (\<lambda>x. ex_id x = i) (executions w) = Some e"
  shows "if ex_status e \<noteq> Running
    then complete deps i out w = (Inl ''GATE_EXECUTION_NOT_AWAITING_COMPLETION'', w)
    else \<forall>w'. complete deps i out w = (Inr (), w') \<longrightarrow>
      (\<exists>e'. tb_find (\<lambda>x. ex_id x = i) (executions w') = Some e'
         \<and> ex_status e' = (if ro_success out then Done else Failed))
      \<and> (\<exists>c\<in>set (tool_calls w'). tc_executionId c = Some i
         \<and> tc_status c = Some (if ro_success out then SUCCEEDED else FAILED))
      \<and> (\<forall>again. complete deps i again w' = (Inl ''GATE_EXECUTION_NOT_AWAITING_COMPLETION'', w'))"
proof (cases "ex_status e = Running")
  case True
  have keyed: "keyed tc_id (tool_calls w)" using assms(2) by (simp add: wf_world_def)
  show ?thesis
    unfolding True using complete_trace [OF assms(1) keyed assms(3)] complete_refused by fastforce
next
  case False
  then show ?thesis using complete_refused [OF assms(3) False] by simp
qed

section \<open>Instances\<close>

definition sample_deps :: gate_deps where
  "sample_deps = \<lparr>gd_library = sample_library, gd_approval = exact_options False,
     gd_rules = in_memory_loadRules held_rules, gd_transport = in_memory_notify, gd_workspaceId = ''ws'',
     gd_agentId = ''a'', gd_allowedTools = [''lookup'']\<rparr>"

definition sample_request :: "string \<Rightarrow> gate_request" where
  "sample_request tool = \<lparr>gq_toolName = tool, gq_toolInput = JObj []\<rparr>"

lemma sample_deps_local: "gd_rules sample_deps = in_memory_loadRules held_rules"
    "library_transport (gd_transport sample_deps)"
  by (simp_all add: sample_deps_def library_transport_def)

definition held_verdict :: guardrail_evaluation where
  "held_verdict = evaluation_of (Some (sample_rule ''r'' L3 0 (on_operation ''lookup'')))"

lemma held_rules_match:
  "sort_key gr_priority (filter (in_scope ''ws'' None) held_rules) = held_rules"
  "matchRules (numberOf sample_library) (extractOperation ''lookup'' []) held_rules = Inr held_rules"
  "assessRisk held_rules = Some (sample_rule ''r'' L3 0 (on_operation ''lookup''))"
  by code_simp+

lemma evaluate_held_rules:
  "evaluate (numberOf sample_library) (in_memory_loadRules held_rules) ''ws'' ''lookup'' [] None w
     = (Inr held_verdict, w)"
  by (simp add: evaluate_def eff_simps set_in_memory held_rules_match held_verdict_def)

lemma held_verdict_simps: "ev_matched held_verdict" "ev_riskLevel held_verdict = L3" "ev_ruleName held_verdict = Some ''r''"
  by (simp_all add: held_verdict_def evaluation_of_def sample_rule_def)

lemmas small_ids = show_nat_digits_small [unfolded One_nat_def]
  show_nat_digits_small [unfolded One_nat_def numeral_2_eq_2 numeral_3_eq_3]

lemma sample_gate_held:
  "fst (gate sample_deps (sample_request ''lookup'') sample_world) = Inr (GateHeld ''id-0'' ''id-2'' ''id-3'' ''L3'')"
  by (simp add: sample_deps_def sample_request_def sample_world_def empty_world_def gate_def gate_execution_def
      eff_simps save_execution_def publish_in_memory outboxEventSchema_def trace_schema_def min1_optional_def
      envelope_def agent_event_def AGENT_EVENTS_def
      begin_call_def context_matches_def gate_call_def sample_preview_text
      scoped_record_def base_record_def save_call_def checkToolAccess_def default_access_options_def
      evaluate_held_rules held_verdict_simps hold_for_approval_def hold_request_def
      createAgentApproval_def governed_columns_def exact_options_def emit_def logGuardrailEvent_def Let_def
      transition_call_def status_in_def tb_affected_def tb_insert_def tb_update_def
      handleStateTransition_def isValidTransition_def set_status_def small_ids)

lemma sample_gate_run:
  "gate sample_deps (sample_request ''lookup'') sample_world
     = (Inr (GateHeld ''id-0'' ''id-2'' ''id-3'' ''L3''),
        snd (gate sample_deps (sample_request ''lookup'') sample_world))"
  by (rule prod_eqI) (simp_all add: sample_gate_held)

lemma gate_decision_recorded_witness:
  "\<exists>c. gate_decides sample_deps held_rules (sample_request ''lookup'') sample_world
     (snd (gate sample_deps (sample_request ''lookup'') sample_world)) c
     (GateHeld ''id-0'' ''id-2'' ''id-3'' ''L3'')"
  using gate_decision_recorded [OF sample_deps_local sample_world_wf sample_gate_run] by blast

lemma only_allowed_calls_complete_witness:
  "complete sample_deps ''id-0'' \<lparr>ro_success = True, ro_output = None\<rparr>
     (snd (gate sample_deps (sample_request ''lookup'') sample_world))
   = (Inl ''GATE_EXECUTION_NOT_AWAITING_COMPLETION'',
      snd (gate sample_deps (sample_request ''lookup'') sample_world))"
  using only_allowed_calls_complete [OF sample_deps_local sample_world_wf sample_gate_run] by simp

definition reported_world :: world where
  "reported_world = sample_world\<lparr>
     executions := [gate_execution sample_deps (sample_request ''lookup'') ''id-0'' 0],
     tool_calls := [scoped_record (gate_call sample_deps (sample_request ''lookup'') ''id-0'')
        (base_record (gate_call sample_deps (sample_request ''lookup'') ''id-0'') ''id-1'' 0 (''d'', JObj []))],
     next_uuid := 2, next_tick := 2\<rparr>"

lemma reported_world_wf: "wf_world reported_world"
  by (simp add: wf_world_def reported_world_def sample_world_def empty_world_def keyed_def issued_def inj_def
      gate_execution_def scoped_record_def base_record_def gate_call_def lessThan_Suc numeral_2_eq_2 small_ids)

lemma sample_complete:
  "fst (complete sample_deps ''id-0'' \<lparr>ro_success = True, ro_output = None\<rparr> reported_world) = Inr ()"
  by code_simp

lemma gate_completed_once_witness:
  "\<exists>w'. complete sample_deps ''id-0'' \<lparr>ro_success = True, ro_output = None\<rparr> reported_world = (Inr (), w')
     \<and> (\<forall>again. complete sample_deps ''id-0'' again w' = (Inl ''GATE_EXECUTION_NOT_AWAITING_COMPLETION'', w'))"
proof -
  have e: "tb_find (\<lambda>x. ex_id x = ''id-0'') (executions reported_world)
      = Some (gate_execution sample_deps (sample_request ''lookup'') ''id-0'' 0)"
    by (simp add: reported_world_def tb_find_def gate_execution_def)
  obtain w' where w': "complete sample_deps ''id-0'' \<lparr>ro_success = True, ro_output = None\<rparr> reported_world = (Inr (), w')"
    using sample_complete by (metis fst_conv surj_pair)
  moreover have "ex_status (gate_execution sample_deps (sample_request ''lookup'') ''id-0'' 0) = Running"
    by (simp add: gate_execution_def)
  ultimately show ?thesis
    using gate_completed_once [OF sample_deps_local(2) reported_world_wf e] by auto
qed

end
