(* ===== verification/Mcp_Gateway.thy ===== *)
theory Mcp_Gateway
  imports Gate
begin

text \<open>
  The MCP gateway in front of downstream tool servers:
  \<open>governance/packages/sidecar/src/mcp/gateway.ts\<close> and \<open>upstream.ts\<close>.

  A downstream server is an argument: the list of its tools and the answer to a call, each of which
  may throw (\<open>Inl\<close> is then the text \<open>String(error)\<close>). The calls that reach a server are appended to
  \<open>tool_runs\<close> under their aggregated name. A call that asks the user over elicitation is split where
  it waits for the answer, so that other requests can come between.
\<close>

section \<open>Downstream servers\<close>

record upstream_tool =
  ut_name :: string
  ut_description :: "string option"
  ut_inputSchema :: jobject

record upstream_answer =
  ua_content :: "jobject list"
  ua_isError :: "bool option"

record upstream =
  up_name :: string
  up_listTools :: "upstream_tool list result"
  up_callTool :: "string \<Rightarrow> json \<Rightarrow> upstream_answer result"

record aggregated_tool =
  ag_tool :: upstream_tool
  ag_upstream :: upstream
  ag_aggregatedName :: string

definition aggregatedName :: "upstream \<Rightarrow> string \<Rightarrow> string" where
  "aggregatedName u tool = up_name u @ ''__'' @ tool"

text \<open>A server that cannot be reached has no tools.\<close>

definition tools_of_upstream :: "upstream \<Rightarrow> aggregated_tool list" where
  "tools_of_upstream u =
     (case up_listTools u of
        Inl _ \<Rightarrow> []
      | Inr tools \<Rightarrow> map (\<lambda>t. \<lparr>ag_tool = t, ag_upstream = u,
                             ag_aggregatedName = aggregatedName u (ut_name t)\<rparr>) tools)"

definition aggregated :: "upstream list \<Rightarrow> aggregated_tool list" where
  "aggregated ups = concat (map tools_of_upstream ups)"

text \<open>\<open>new Map(entries)\<close>: the last entry of a key counts.\<close>

definition byAggregatedName :: "aggregated_tool list \<Rightarrow> string \<Rightarrow> aggregated_tool option" where
  "byAggregatedName tools name =
     foldl (\<lambda>found t. if ag_aggregatedName t = name then Some t else found) None tools"

section \<open>Configuration\<close>

record gateway_options =
  go_gate :: gate_deps
  go_upstreams :: "upstream list"
  go_allowedTools :: "string list"
  go_exposeDeniedTools :: "bool option"

definition PENDING_LOOKUP_TOOL :: string where
  "PENDING_LOOKUP_TOOL = ''governance_pending__lookup''"

definition visible :: "gateway_options \<Rightarrow> aggregated_tool list" where
  "visible opts =
     (if go_exposeDeniedTools opts = Some True then aggregated (go_upstreams opts)
      else filter (\<lambda>t. ag_aggregatedName t \<in> set (go_allowedTools opts)) (aggregated (go_upstreams opts)))"

definition lookup_tool :: upstream_tool where
  "lookup_tool = \<lparr>ut_name = PENDING_LOOKUP_TOOL,
     ut_description = Some (''Fetch the outcome of a gated call that paused for human approval: '' @
       ''still pending, the executed result (after approval), or the rejection.''),
     ut_inputSchema = [(''type'', JStr ''object''),
       (''properties'', JObj [(''approval_id'', JObj [(''type'', JStr ''string'')])]),
       (''required'', JArr [JStr ''approval_id''])]\<rparr>"

definition list_tools :: "gateway_options \<Rightarrow> upstream_tool list" where
  "list_tools opts =
     map (\<lambda>t. (ag_tool t)\<lparr>ut_name := ag_aggregatedName t\<rparr>) (visible opts) @ [lookup_tool]"

section \<open>Results\<close>

record mcp_result =
  mr_content :: "jobject list"
  mr_isError :: "bool option"

definition textResult :: "json \<Rightarrow> bool \<Rightarrow> mcp_result" where
  "textResult v isError =
     \<lparr>mr_content = [[(''type'', JStr ''text''), (''text'', JStr (stringify v))]],
      mr_isError = (if isError then Some True else None)\<rparr>"

definition governance :: "string \<Rightarrow> jobject \<Rightarrow> json" where
  "governance outcome details = JObj ((''governance'', JStr outcome) # details)"

definition part_text :: "jobject \<Rightarrow> string" where
  "part_text part = (case map_of part ''text'' of Some (JStr s) \<Rightarrow> s | _ \<Rightarrow> stringify (JObj part))"

fun join_lines :: "string list \<Rightarrow> string" where
  "join_lines [] = []"
| "join_lines [s] = s"
| "join_lines (s # ss) = s @ CHR 0x0A # join_lines ss"

definition forwarded :: "upstream_answer \<Rightarrow> mcp_result" where
  "forwarded answer =
     \<lparr>mr_content = ua_content answer,
      mr_isError = (if ua_isError answer = Some True then Some True else None)\<rparr>"

section \<open>Executing a call\<close>

definition run_upstream :: "aggregated_tool \<Rightarrow> json \<Rightarrow> upstream_answer result act" where
  "run_upstream tool args =
     seqE (modify (\<lambda>w. w\<lparr>tool_runs := tool_runs w @ [(ag_aggregatedName tool, args)]\<rparr>))
       (ret (up_callTool (ag_upstream tool) (ut_name (ag_tool tool)) args))"

definition executeAndComplete ::
    "gateway_options \<Rightarrow> aggregated_tool \<Rightarrow> string \<Rightarrow> json \<Rightarrow> mcp_result act" where
  "executeAndComplete opts tool executionId args =
     bindE (run_upstream tool args) (\<lambda>answer.
     case answer of
       Inl e \<Rightarrow>
         seqE (complete (go_gate opts) executionId
                 \<lparr>ro_success = False, ro_output = Some (Json (JObj [(''error'', JStr e)]))\<rparr>)
           (ret (textResult (governance ''error'' [(''reason'', JStr e)]) True))
     | Inr a \<Rightarrow>
         seqE (complete (go_gate opts) executionId
                 \<lparr>ro_success = (ua_isError a \<noteq> Some True),
                  ro_output = Some (Json (JStr (join_lines (map part_text (ua_content a)))))\<rparr>)
           (ret (forwarded a)))"

section \<open>Decisions\<close>

datatype verdict = Approved | Rejected

definition decision_entry :: "approval_instance \<Rightarrow> verdict \<Rightarrow> string \<Rightarrow> int \<Rightarrow> history_entry" where
  "decision_entry a v actor t =
     \<lparr>he_stepIndex = ai_currentStepIndex a + 1, he_stepName = ''MCP Human Gate'',
      he_action = (case v of Approved \<Rightarrow> Approve | Rejected \<Rightarrow> Reject), he_actorId = ''mcp-gateway'',
      he_actorName = actor, he_comments = Some [], he_timestamp = t, he_queueContext = None\<rparr>"

definition status_of_verdict :: "verdict \<Rightarrow> approval_status" where
  "status_of_verdict v = (case v of Approved \<Rightarrow> APPROVED | Rejected \<Rightarrow> REJECTED)"

definition cancel_execution :: "string \<Rightarrow> nat act" where
  "cancel_execution i = close_execution i Cancelled"

definition decideApproval :: "string \<Rightarrow> verdict \<Rightarrow> string \<Rightarrow> unit act" where
  "decideApproval approvalId v actor =
     bindE (approval_or_fail approvalId) (\<lambda>row.
     seqE (throw_if (ai_status row \<noteq> PENDING) ''APPROVAL_ALREADY_DECIDED'')
    (bindE now (\<lambda>completedAt.
     bindE now (\<lambda>t.
     seqE (update_approvals (\<lambda>r. ai_id r = ai_id row)
             (\<lambda>r. r\<lparr>ai_status := status_of_verdict v, ai_completedAt := Some completedAt,
                    ai_history := ai_history row @ [decision_entry row v actor t]\<rparr>))
    (seqE (case v of
             Approved \<Rightarrow> set_status (ai_recordId row) Running
           | Rejected \<Rightarrow> cancel_execution (ai_recordId row))
     (ret ()))))))"

section \<open>Calls\<close>

datatype call_step =
    Answered mcp_result
  | Asking aggregated_tool gate_result

definition pending_result :: "string \<Rightarrow> gate_result \<Rightarrow> mcp_result" where
  "pending_result name held =
     textResult (governance ''approval_pending''
       [(''approval_id'', JStr (gr_approvalId held)), (''execution_id'', JStr (gr_executionId held)),
        (''tool'', JStr name), (''risk_level'', JStr (gr_level held)),
        (''hint'', JStr (''Approve or reject via the sidecar console, then call '' @ PENDING_LOOKUP_TOOL @
           '' with approval_id.''))]) False"

text \<open>A call of a downstream tool, up to the question to the user when the client can be asked.\<close>

definition call_tool :: "gateway_options \<Rightarrow> bool \<Rightarrow> string \<Rightarrow> json \<Rightarrow> call_step act" where
  "call_tool opts elicits name args =
     (case byAggregatedName (aggregated (go_upstreams opts)) name of
        None \<Rightarrow> ret (Answered (textResult (governance ''blocked''
                  [(''reason'', JStr (''TOOL_NOT_ALLOWED:'' @ name))]) True))
      | Some tool \<Rightarrow>
          bindE (gate (go_gate opts) \<lparr>gq_toolName = name, gq_toolInput = args\<rparr>) (\<lambda>v.
          case v of
            GateRefused executionId _ reason \<Rightarrow>
              ret (Answered (textResult (governance ''blocked''
                [(''reason'', JStr reason), (''execution_id'', JStr executionId)]) True))
          | GateAllowed executionId _ \<Rightarrow>
              bindE (executeAndComplete opts tool executionId args) (\<lambda>r. ret (Answered r))
          | GateHeld _ _ _ _ \<Rightarrow>
              if elicits then ret (Asking tool v) else ret (Answered (pending_result name v))))"

text \<open>The answer of the user: the decision of an accepted form, or nothing.\<close>

definition after_elicitation ::
    "gateway_options \<Rightarrow> aggregated_tool \<Rightarrow> gate_result \<Rightarrow> string \<Rightarrow> json \<Rightarrow> string option \<Rightarrow> mcp_result act" where
  "after_elicitation opts tool held name args decision =
     (if decision = Some ''APPROVED'' then
        seqE (decideApproval (gr_approvalId held) Approved ''mcp-elicitation'')
          (executeAndComplete opts tool (gr_executionId held) args)
      else
        seqE (decideApproval (gr_approvalId held) Rejected ''mcp-elicitation'')
          (ret (textResult (governance ''approval_rejected''
            [(''tool'', JStr name), (''execution_id'', JStr (gr_executionId held))]) True)))"

section \<open>Pending calls\<close>

definition parsePausedToolCall :: "approval_instance \<Rightarrow> json option" where
  "parsePausedToolCall a =
     (let comments = (case ai_history a of [] \<Rightarrow> [] | e # _ \<Rightarrow> nullish (he_comments e) []) in
      case index_of PAUSED_MARKER comments of
        None \<Rightarrow> None
      | Some i \<Rightarrow> parse_json (drop (i + length PAUSED_MARKER) comments))"

definition paused_name :: "json option \<Rightarrow> string option" where
  "paused_name p = as_string (Option.bind p (prop_of ''toolName''))"

text \<open>The console approves by setting the execution running, while the row stays pending.\<close>

definition decided_status :: "approval_instance \<Rightarrow> agent_execution \<Rightarrow> approval_status" where
  "decided_status row e =
     (if ai_status row = PENDING \<and> ex_status e = Running then APPROVED else ai_status row)"

definition settle_row :: "approval_instance \<Rightarrow> approval_status \<Rightarrow> unit act" where
  "settle_row row s =
     (if ai_status row = PENDING
      then bindE now (\<lambda>t. seqE (update_approvals (\<lambda>r. ai_id r = ai_id row)
             (\<lambda>r. r\<lparr>ai_status := s, ai_completedAt := Some t\<rparr>)) (ret ()))
      else ret ())"

definition reject_pending :: "approval_instance \<Rightarrow> agent_execution \<Rightarrow> json option \<Rightarrow> mcp_result act" where
  "reject_pending row e paused =
     seqE (if ex_status e \<noteq> Cancelled then seqE (cancel_execution (ai_recordId row)) (ret ()) else ret ())
    (seqE (settle_row row REJECTED)
     (ret (textResult (governance ''approval_rejected''
        ((case Option.bind paused (prop_of ''toolName'') of None \<Rightarrow> [] | Some n \<Rightarrow> [(''tool'', n)])
         @ [(''execution_id'', JStr (ai_recordId row))])) True)))"

definition run_pending :: "gateway_options \<Rightarrow> approval_instance \<Rightarrow> json option \<Rightarrow> mcp_result act" where
  "run_pending opts row paused =
     seqE (settle_row row APPROVED)
     (case Option.bind (paused_name paused) (byAggregatedName (aggregated (go_upstreams opts))) of
        None \<Rightarrow> ret (textResult (governance ''error'' [(''reason'', JStr ''PAUSED_CALL_UNAVAILABLE'')]) True)
      | Some tool \<Rightarrow>
          executeAndComplete opts tool (ai_recordId row)
            (or_empty_object (Option.bind paused (prop_of ''toolInput''))))"

definition pendingLookup :: "gateway_options \<Rightarrow> string \<Rightarrow> mcp_result act" where
  "pendingLookup opts approvalId =
     (if approvalId = []
      then ret (textResult (governance ''error'' [(''reason'', JStr ''approval_id is required'')]) True)
      else
        bindE (find_approval approvalId) (\<lambda>found.
        case found of
          None \<Rightarrow> ret (textResult (governance ''error''
                    [(''reason'', JStr (''UNKNOWN_APPROVAL:'' @ approvalId))]) True)
        | Some row \<Rightarrow>
            bindE (execution_or_fail (ai_recordId row)) (\<lambda>e.
            let decided = decided_status row e; paused = parsePausedToolCall row in
            if decided = PENDING
            then ret (textResult (governance ''approval_pending''
                   [(''approval_id'', JStr approvalId), (''status'', JStr ''waiting'')]) False)
            else if decided = REJECTED then reject_pending row e paused
            else run_pending opts row paused)))"

definition lookup_argument :: "json \<Rightarrow> string" where
  "lookup_argument args =
     (case prop_of ''approval_id'' args of None \<Rightarrow> [] | Some JNull \<Rightarrow> [] | Some v \<Rightarrow> js_String v)"

text \<open>The handler of \<open>tools/call\<close>.\<close>

definition handle_call :: "gateway_options \<Rightarrow> bool \<Rightarrow> string \<Rightarrow> json \<Rightarrow> call_step act" where
  "handle_call opts elicits name args =
     (if name = PENDING_LOOKUP_TOOL
      then bindE (pendingLookup opts (lookup_argument args)) (\<lambda>r. ret (Answered r))
      else call_tool opts elicits name args)"

section \<open>Which calls reach a server\<close>

definition quiet :: "'a act \<Rightarrow> bool" where
  "quiet m \<longleftrightarrow> keeps tool_runs m"

lemmas quiet_rules = keeps_rules [where part = "tool_runs :: world \<Rightarrow> _", folded quiet_def]

lemma quiet_call_part: "keeps call_part m \<Longrightarrow> quiet m"
  unfolding quiet_def by (auto intro!: keepsI dest!: keepsD simp: part_defs)

lemma quiet_loop_part: "keeps loop_part m \<Longrightarrow> quiet m"
  unfolding quiet_def by (auto intro!: keepsI dest!: keepsD simp: part_defs)

lemma quiet_updates: "quiet (update_executions P f)" "quiet (update_approvals Q g)"
  unfolding quiet_def by (auto intro!: keepsI simp: update_executions_apply update_approvals_apply)

lemmas quiet_now = quiet_call_part [OF keeps_now]
lemmas quiet_fresh_id = quiet_call_part [OF keeps_fresh_id]
lemmas quiet_transition = quiet_call_part [OF keeps_transition]
lemmas quiet_publish = quiet_call_part [OF keeps_publish]

lemma quiet_find: "quiet (execution_or_fail i)" "quiet (find_approval a)" "quiet (approval_or_fail a)"
  unfolding execution_or_fail_def find_execution_def find_approval_def approval_or_fail_def
  by (intro quiet_rules)+

lemma quiet_status: "quiet (set_status i s)" "quiet (fail_execution i m)" "quiet (close_execution i s)"
  unfolding set_status_def fail_execution_def close_execution_def
  by (intro quiet_rules quiet_updates quiet_now)+

lemma quiet_gate:
  assumes "gd_rules deps = in_memory_loadRules rs" "library_transport (gd_transport deps)"
  shows "quiet (gate deps q)"
proof -
  have save: "quiet (save_execution e)" for e
    unfolding save_execution_def quiet_def by (rule keeps_modify) simp
  have "quiet (hold_for_approval deps q i c ev)" for i c ev
    unfolding hold_for_approval_def
    by (intro quiet_rules quiet_loop_part [OF keeps_createAgentApproval] quiet_transition quiet_status
        quiet_publish [OF assms(2)])
  moreover have "quiet (evaluate num (in_memory_loadRules rs) ws tool inp ids)" for num ws tool inp ids
    unfolding quiet_def by (rule keeps_evaluate)
  ultimately show ?thesis
    unfolding gate_def assms(1) refuse_not_allowed_def refuse_blocked_def Let_def
    by (intro quiet_rules quiet_fresh_id quiet_now save quiet_publish [OF assms(2)]
        quiet_call_part [OF keeps_begin] quiet_transition quiet_status)
qed

lemma quiet_complete:
  assumes "library_transport (gd_transport deps)"
  shows "quiet (complete deps i out)"
  unfolding complete_def
  by (intro quiet_rules quiet_find quiet_transition quiet_call_part [OF keeps_finalize] quiet_status
      quiet_publish [OF assms])

lemma executeAndComplete_runs:
  assumes "library_transport (gd_transport (go_gate opts))"
  shows "tool_runs (snd (executeAndComplete opts tool i args w)) = tool_runs w @ [(ag_aggregatedName tool, args)]"
proof -
  have "quiet (case answer of
       Inl e \<Rightarrow>
         seqE (complete (go_gate opts) i
                 \<lparr>ro_success = False, ro_output = Some (Json (JObj [(''error'', JStr e)]))\<rparr>)
           (ret (textResult (governance ''error'' [(''reason'', JStr e)]) True))
     | Inr a \<Rightarrow>
         seqE (complete (go_gate opts) i
                 \<lparr>ro_success = (ua_isError a \<noteq> Some True),
                  ro_output = Some (Json (JStr (join_lines (map part_text (ua_content a)))))\<rparr>)
           (ret (forwarded a)))" for answer :: "upstream_answer result"
    by (cases answer) (simp_all add: quiet_rules quiet_complete [OF assms])
  note same = keepsD [OF this [unfolded quiet_def] surjective_pairing]
  show ?thesis by (simp add: executeAndComplete_def run_upstream_def eff_simps same)
qed

lemma byAggregatedName_name: "byAggregatedName tools name = Some t \<Longrightarrow> t \<in> set tools \<and> ag_aggregatedName t = name"
  unfolding byAggregatedName_def
  by (induction tools rule: rev_induct) (auto split: if_splits)

lemma listed_names: "t \<in> set (list_tools opts) \<Longrightarrow> go_exposeDeniedTools opts \<noteq> Some True \<Longrightarrow>
    ut_name t = PENDING_LOOKUP_TOOL \<or> ut_name t \<in> set (go_allowedTools opts)"
  by (auto simp: list_tools_def visible_def lookup_tool_def)

text \<open>A refused report leaves the world as it is.\<close>

lemma executeAndComplete_refused:
  assumes "tb_find (\<lambda>x. ex_id x = i) (executions w) = Some e" "ex_status e \<noteq> Running"
  shows "executeAndComplete opts tool i args w
    = (Inl ''GATE_EXECUTION_NOT_AWAITING_COMPLETION'',
       w\<lparr>tool_runs := tool_runs w @ [(ag_aggregatedName tool, args)]\<rparr>)"
proof -
  have "complete (go_gate opts) i out (w\<lparr>tool_runs := x\<rparr>)
      = (Inl ''GATE_EXECUTION_NOT_AWAITING_COMPLETION'', w\<lparr>tool_runs := x\<rparr>)" for out x
    by (rule complete_refused) (use assms in simp_all)
  then show ?thesis
    by (cases "up_callTool (ag_upstream tool) (ut_name (ag_tool tool)) args")
      (simp_all add: executeAndComplete_def run_upstream_def eff_simps)
qed

section \<open>Properties\<close>


text \<open>
  An approved call is not one-shot in the gateway: once the execution is no longer running, every
  further lookup of its approval sends the call to the server again and only then fails, so \<open>n\<close>
  lookups run it \<open>n\<close> times. The same happens for an approval that was recalled or has expired.
\<close>

theorem lookup_replays_the_call:
  assumes "approvalId \<noteq> []" "tb_find (\<lambda>a. ai_id a = approvalId) (approvals w) = Some row"
    and "ai_status row = APPROVED \<or> ai_status row = RECALLED \<or> ai_status row = EXPIRED"
    and "tb_find (\<lambda>x. ex_id x = ai_recordId row) (executions w) = Some e" "ex_status e \<noteq> Running"
    and "parsePausedToolCall row = Some call" "prop_of ''toolName'' call = Some (JStr name)"
    and "byAggregatedName (aggregated (go_upstreams opts)) name = Some tool"
  shows "tool_runs (((\<lambda>v. snd (pendingLookup opts approvalId v)) ^^ n) w)
    = tool_runs w @ replicate n (name, or_empty_object (prop_of ''toolInput'' call))"
proof -
  let ?call = "(name, or_empty_object (prop_of ''toolInput'' call))"
  have name: "ag_aggregatedName tool = name" using byAggregatedName_name [OF assms(8)] ..
  have once: "snd (pendingLookup opts approvalId (w\<lparr>tool_runs := xs\<rparr>)) = w\<lparr>tool_runs := xs @ [?call]\<rparr>" for xs
    using assms executeAndComplete_refused [of "ai_recordId row" "w\<lparr>tool_runs := xs\<rparr>" e opts tool] name
    by (auto simp: pendingLookup_def find_approval_def execution_or_fail_def find_execution_def eff_simps
        decided_status_def run_pending_def settle_row_def paused_name_def)
  have "((\<lambda>v. snd (pendingLookup opts approvalId v)) ^^ n) w = w\<lparr>tool_runs := tool_runs w @ replicate n ?call\<rparr>"
  proof (induction n)
    case 0
    show ?case by simp
  next
    case (Suc n)
    then show ?case by (simp add: once replicate_append_same)
  qed
  then show ?thesis by simp
qed


section \<open>Instances\<close>

definition sample_upstream :: upstream where
  "sample_upstream = \<lparr>up_name = ''memory'',
     up_listTools = Inr [\<lparr>ut_name = ''echo'', ut_description = None, ut_inputSchema = []\<rparr>],
     up_callTool = (\<lambda>_ _. Inr \<lparr>ua_content = [], ua_isError = None\<rparr>)\<rparr>"

definition sample_gateway :: gateway_options where
  "sample_gateway = \<lparr>go_gate = sample_deps\<lparr>gd_allowedTools := [''memory__echo'']\<rparr>,
     go_upstreams = [sample_upstream], go_allowedTools = [''memory__echo''], go_exposeDeniedTools = None\<rparr>"

lemma sample_gateway_local: "gd_rules (go_gate sample_gateway) = in_memory_loadRules held_rules"
    "library_transport (gd_transport (go_gate sample_gateway))"
  by (simp_all add: sample_gateway_def sample_deps_local)


definition decided_row :: "approval_status \<Rightarrow> approval_instance" where
  "decided_row s = \<lparr>ai_id = ''a'', ai_workspaceId = ''ws'', ai_processId = AGENT_SENSITIVE_OP_PROCESS_ID,
     ai_recordId = ''id-0'', ai_objectName = ''AgentExecution'', ai_status = s, ai_currentStepIndex = 0,
     ai_subject = no_subject, ai_supersession = no_supersession,
     ai_history = [\<lparr>he_stepIndex = 0, he_stepName = ''s'', he_action = Submitted, he_actorId = ''system'',
        he_actorName = ''r'', he_comments = Some (PAUSED_MARKER @ ''{'' @ quoted ''toolName'' @ CHR '':'' #
          quoted ''memory__echo'' @ ''}''), he_timestamp = 0, he_queueContext = None\<rparr>],
     ai_submittedBy = NIL_UUID, ai_submittedAt = 0, ai_completedAt = Some 1\<rparr>"

definition finished_execution :: agent_execution where
  "finished_execution = (gate_execution sample_deps (sample_request ''memory__echo'') ''id-0'' 0)\<lparr>ex_status := Done\<rparr>"

definition decided_world :: "approval_status \<Rightarrow> world" where
  "decided_world s = sample_world\<lparr>approvals := [decided_row s], executions := [finished_execution]\<rparr>"

lemma decided_world_rows:
  "tb_find (\<lambda>a. ai_id a = ''a'') (approvals (decided_world s)) = Some (decided_row s)"
  "ai_status (decided_row s) = s" "ai_recordId (decided_row s) = ''id-0''"
  "tb_find (\<lambda>x. ex_id x = ai_recordId (decided_row s)) (executions (decided_world s)) = Some finished_execution"
  "ex_status finished_execution \<noteq> Running"
  by (simp_all add: decided_world_def decided_row_def tb_find_def finished_execution_def gate_execution_def)

lemma decided_row_call:
  "parsePausedToolCall (decided_row EXPIRED) = Some (JObj [(''toolName'', JStr ''memory__echo'')])"
  by code_simp

lemma sample_gateway_tool:
  "\<exists>tool. byAggregatedName (aggregated (go_upstreams sample_gateway)) ''memory__echo'' = Some tool"
  by (simp add: byAggregatedName_def aggregated_def tools_of_upstream_def sample_gateway_def sample_upstream_def
      aggregatedName_def)

lemma lookup_replays_the_call_witness:
  "tool_runs (((\<lambda>v. snd (pendingLookup sample_gateway ''a'' v)) ^^ 2) (decided_world EXPIRED))
     = [(''memory__echo'', JObj []), (''memory__echo'', JObj [])]"
proof -
  obtain tool where tool: "byAggregatedName (aggregated (go_upstreams sample_gateway)) ''memory__echo'' = Some tool"
    using sample_gateway_tool by blast
  have a: "''a'' \<noteq> []" by simp
  have s: "ai_status (decided_row EXPIRED) = APPROVED \<or> ai_status (decided_row EXPIRED) = RECALLED
      \<or> ai_status (decided_row EXPIRED) = EXPIRED" by (simp add: decided_world_rows)
  have p: "prop_of ''toolName'' (JObj [(''toolName'', JStr ''memory__echo'')]) = Some (JStr ''memory__echo'')"
    by simp
  have "tool_runs (decided_world EXPIRED) = []"
    by (simp add: decided_world_def sample_world_def empty_world_def)
  then show ?thesis
    using lookup_replays_the_call [OF a decided_world_rows(1) s decided_world_rows(4,5) decided_row_call p tool,
        of 2] by (simp add: numeral_2_eq_2 or_empty_object_def)
qed


end
