(* ===== verification/Sidecar_Server.thy ===== *)
theory Sidecar_Server
  imports Gate
begin

text \<open>
  The HTTP surface of the sidecar: \<open>governance/packages/sidecar/src/server.ts\<close>.

  A handler maps the body of the request, as \<open>express.json()\<close> parses it, to a response; a handler that
  throws is answered by Express with status 500. Dates are the milliseconds they stand for.
\<close>

section \<open>Requests and responses\<close>

record response =
  hr_status :: nat
  hr_body :: "json option"

definition json_response :: "nat \<Rightarrow> jobject \<Rightarrow> response" where
  "json_response code body = \<lparr>hr_status = code, hr_body = Some (JObj body)\<rparr>"

definition error_response :: "nat \<Rightarrow> string \<Rightarrow> response" where
  "error_response code message = json_response code [(''error'', JStr message)]"

text \<open>Express 5 hands a rejected handler to its error handler.\<close>

definition serve :: "response act \<Rightarrow> response act" where
  "serve handler = catchE handler (\<lambda>_. ret \<lparr>hr_status = 500, hr_body = None\<rparr>)"

record sidecar =
  sd_engine :: executor_options
  sd_gate :: gate_deps

definition WS :: string where
  "WS = ''00000000-0000-4000-8000-000000000001''"

definition AGENT :: string where
  "AGENT = ''20000000-0000-4000-8000-000000000001''"

section \<open>Executions\<close>

definition blank :: "string \<Rightarrow> bool" where
  "blank s \<longleftrightarrow> list_all is_space s"

definition served_input :: "json \<Rightarrow> string \<Rightarrow> executor_input" where
  "served_input body rawInput =
     \<lparr>xi_workspaceId = WS, xi_agentId = nullish (text_of (prop_of ''agentId'' body)) AGENT,
      xi_rawInput = rawInput, xi_triggeredBy = None,
      xi_allowedTools = Some [''demo.customer_lookup'', ''demo.send_followup_email''],
      xi_blockedTools = None, xi_guardrailRuleIds = None, xi_traceId = None, xi_correlationId = None\<rparr>"

definition post_executions :: "sidecar \<Rightarrow> json \<Rightarrow> response act" where
  "post_executions sd body =
     (case prop_of ''input'' body of
        Some (JStr inp) \<Rightarrow>
          if blank inp then ret (error_response 400 ''input is required'')
          else bindE (executor_run (sd_engine sd) (served_input body inp)) (\<lambda>e.
            ret (json_response 200 [(''executionId'', JStr (ex_id e)), (''status'', JStr (show_status (ex_status e)))]))
      | _ \<Rightarrow> ret (error_response 400 ''input is required''))"

definition optional :: "string \<Rightarrow> ('a \<Rightarrow> json) \<Rightarrow> 'a option \<Rightarrow> jobject" where
  "optional k f v = [(k, case v of None \<Rightarrow> JNull | Some x \<Rightarrow> f x)]"

definition step_view :: "react_step \<Rightarrow> json" where
  "step_view s = JObj
     ([(''stepIndex'', JNum (int (rs_stepIndex s))), (''actionType'', JStr (rs_actionType s))]
      @ optional ''toolName'' JStr (rs_toolName s)
      @ optional ''thoughtReasoning'' JStr (rs_thoughtReasoning s)
      @ optional ''observationSuccess'' JBool (rs_observationSuccess s)
      @ optional ''observationOutput'' (\<lambda>v. v) (rs_observationOutput s)
      @ optional ''observationError'' JStr (rs_observationError s)
      @ [(''guardrailTriggered'', JBool (rs_guardrailTriggered s))])"

definition call_view :: "tool_call_record \<Rightarrow> json" where
  "call_view c = JObj
     ([(''toolName'', JStr (tc_toolName c))]
      @ optional ''status'' (JStr \<circ> show_call_status) (tc_status c)
      @ optional ''permissionCheck'' JStr (tc_permissionCheck c)
      @ optional ''guardrailCheck'' JStr (tc_guardrailCheck c)
      @ optional ''durationMs'' JNum (tc_durationMs c))"

definition execution_view :: "agent_execution \<Rightarrow> json" where
  "execution_view e = JObj
     ([(''id'', JStr (ex_id e)), (''status'', JStr (show_status (ex_status e)))]
      @ optional ''rawInput'' JStr (ex_rawInput e)
      @ [(''createdAt'', JNum (ex_createdAt e))]
      @ optional ''completedAt'' JNum (ex_completedAt e))"

definition get_execution :: "string \<Rightarrow> response act" where
  "get_execution i =
     bindE (execution_or_fail i) (\<lambda>e.
     bindE (reads (persisted_steps i)) (\<lambda>steps.
     bindE (reads (lifecycle_records i)) (\<lambda>calls.
     ret (json_response 200
       [(''execution'', execution_view e), (''steps'', JArr (map step_view steps)),
        (''toolCalls'', JArr (map call_view calls))]))))"

section \<open>Approvals\<close>

definition show_approval_status :: "approval_status \<Rightarrow> string" where
  "show_approval_status s =
     (case s of PENDING \<Rightarrow> ''PENDING'' | APPROVED \<Rightarrow> ''APPROVED'' | REJECTED \<Rightarrow> ''REJECTED''
      | RECALLED \<Rightarrow> ''RECALLED'' | EXPIRED \<Rightarrow> ''EXPIRED'')"

definition first_comments :: "approval_instance \<Rightarrow> string option" where
  "first_comments a = (case ai_history a of [] \<Rightarrow> None | e # _ \<Rightarrow> he_comments e)"

definition paused_view :: "approval_instance \<Rightarrow> json" where
  "paused_view a =
     (case first_comments a of
        None \<Rightarrow> JNull
      | Some c \<Rightarrow> (case index_of PAUSED_MARKER c of
                    None \<Rightarrow> JNull
                  | Some i \<Rightarrow> nullish (parse_json (drop (i + length PAUSED_MARKER) c)) JNull))"

definition pending_approvals :: "string \<Rightarrow> world \<Rightarrow> approval_instance list" where
  "pending_approvals workspaceId w =
     sort_key ai_submittedAt
       (filter (\<lambda>a. ai_workspaceId a = workspaceId \<and> ai_status a = PENDING) (approvals w))"

definition approval_view :: "approval_instance \<Rightarrow> json" where
  "approval_view a = JObj
     [(''id'', JStr (ai_id a)), (''executionId'', JStr (ai_recordId a)),
      (''status'', JStr (show_approval_status (ai_status a))),
      (''submittedAt'', JNum (ai_submittedAt a)), (''pausedToolCall'', paused_view a)]"

definition get_pending :: "response act" where
  "get_pending =
     bindE (reads (pending_approvals WS)) (\<lambda>rows.
     ret (json_response 200 [(''approvals'', JArr (map approval_view rows))]))"

definition upper_char :: "char \<Rightarrow> char" where
  "upper_char c = (if 97 \<le> code_of c \<and> code_of c \<le> 122 then char_of (code_of c - 32) else c)"

text \<open>\<open>decision?.toUpperCase()\<close>; a value that is not a string has no such method.\<close>

definition normalized_decision :: "json \<Rightarrow> string option act" where
  "normalized_decision body =
     (case prop_of ''decision'' body of
        None \<Rightarrow> ret None
      | Some JNull \<Rightarrow> ret None
      | Some (JStr s) \<Rightarrow> ret (Some (map upper_char s))
      | Some _ \<Rightarrow> throw ''decision?.toUpperCase is not a function'')"

text \<open>\<open>comments.split(marker)[1]\<close>: the text between the first two markers.\<close>

definition second_part :: "string \<Rightarrow> string option" where
  "second_part comments =
     (case index_of PAUSED_MARKER comments of
        None \<Rightarrow> None
      | Some i \<Rightarrow>
          (let rest = drop (i + length PAUSED_MARKER) comments in
           case index_of PAUSED_MARKER rest of None \<Rightarrow> Some rest | Some j \<Rightarrow> Some (take j rest)))"

definition stored_call :: "approval_instance \<Rightarrow> json act" where
  "stored_call row =
     bindE (of_option ''Cannot read properties of undefined'' (first_comments row)) (\<lambda>comments.
     bindE (of_option ''undefined is not valid JSON'' (second_part comments)) (\<lambda>part.
     bindE (of_option ''Unexpected token in JSON'' (parse_json part)) (\<lambda>paused.
     seqE (throw_if (paused = JNull) ''Cannot read properties of null'') (ret paused))))"

text \<open>The stored name is the string the approval engine wrote.\<close>

definition resume_call :: "json \<Rightarrow> paused_tool_call" where
  "resume_call paused =
     \<lparr>pc_toolName = nullish (text_of (prop_of ''toolName'' paused)) ''undefined'',
      pc_toolInput = prop_of ''toolInput'' paused\<rparr>"

definition console_entry :: "approval_instance \<Rightarrow> string \<Rightarrow> int \<Rightarrow> history_entry" where
  "console_entry row comment t =
     \<lparr>he_stepIndex = ai_currentStepIndex row + 1, he_stepName = ''Agent Sensitive Operation'',
      he_action = Approve, he_actorId = ''sidecar-console'', he_actorName = ''Sidecar Console'',
      he_comments = Some comment, he_timestamp = t, he_queueContext = None\<rparr>"

definition decided_response :: "approval_instance \<Rightarrow> string \<Rightarrow> string \<Rightarrow> response" where
  "decided_response row decision executionStatus =
     json_response 200
       [(''instanceId'', JStr (ai_id row)), (''decision'', JStr decision),
        (''executionId'', JStr (ai_recordId row)), (''executionStatus'', JStr executionStatus)]"

definition reject_approval :: "approval_instance \<Rightarrow> response act" where
  "reject_approval row =
     bindE now (\<lambda>t.
     seqE (update_approvals (\<lambda>r. ai_id r = ai_id row)
             (\<lambda>r. r\<lparr>ai_status := REJECTED, ai_completedAt := Some t\<rparr>))
       (ret (decided_response row ''REJECTED'' ''cancelled'')))"

definition approve_gated :: "approval_instance \<Rightarrow> response act" where
  "approve_gated row =
     seqE (set_status (ai_recordId row) Running)
       (ret (decided_response row ''APPROVED'' ''running''))"

definition approve_native :: "sidecar \<Rightarrow> json \<Rightarrow> json \<Rightarrow> approval_instance \<Rightarrow> response act" where
  "approve_native sd body paused row =
     bindE now (\<lambda>completedAt.
     bindE now (\<lambda>t.
     seqE (update_approvals (\<lambda>r. ai_id r = ai_id row)
             (\<lambda>r. r\<lparr>ai_status := APPROVED, ai_completedAt := Some completedAt,
                    ai_history := ai_history row
                      @ [console_entry row (nullish (text_of (prop_of ''comment'' body)) []) t]\<rparr>))
    (bindE (resumePaused (sd_engine sd)
              \<lparr>rr_executionId = ai_recordId row, rr_workspaceId = WS,
               rr_approvalInstanceId = ai_id row, rr_pausedToolCall = Some (resume_call paused)\<rparr>) (\<lambda>e.
     ret (decided_response row ''APPROVED'' (show_status (ex_status e)))))))"

definition decide :: "sidecar \<Rightarrow> string \<Rightarrow> json \<Rightarrow> response act" where
  "decide sd approvalId body =
     bindE (normalized_decision body) (\<lambda>normalized.
     if normalized \<noteq> Some ''APPROVED'' \<and> normalized \<noteq> Some ''REJECTED''
     then ret (error_response 400 ''decision must be APPROVED or REJECTED'')
     else
       bindE (approval_or_fail approvalId) (\<lambda>row.
       if ai_status row \<noteq> PENDING then ret (error_response 409 ''APPROVAL_ALREADY_DECIDED'')
       else
         bindE (stored_call row) (\<lambda>paused.
         if normalized = Some ''REJECTED'' then reject_approval row
         else
           bindE (find_execution (ai_recordId row)) (\<lambda>gated.
           if map_option ex_triggerSource gated = Some ''governance_gate'' then approve_gated row
           else approve_native sd body paused row))))"

section \<open>The gate\<close>

definition gate_view :: "gate_result \<Rightarrow> jobject" where
  "gate_view r =
     (case r of
        GateAllowed e c \<Rightarrow>
          [(''decision'', JStr ''allow''), (''executionId'', JStr e), (''toolCallId'', JStr c)]
      | GateHeld e c a level \<Rightarrow>
          [(''decision'', JStr ''paused''), (''executionId'', JStr e), (''toolCallId'', JStr c),
           (''approvalId'', JStr a), (''riskLevel'', JStr level)]
      | GateRefused e c reason \<Rightarrow>
          [(''decision'', JStr ''blocked''), (''executionId'', JStr e), (''toolCallId'', JStr c),
           (''reason'', JStr reason)])"

definition post_gate :: "sidecar \<Rightarrow> json \<Rightarrow> response act" where
  "post_gate sd body =
     (case prop_of ''toolName'' body of
        Some (JStr name) \<Rightarrow>
          if name = [] then ret (error_response 400 ''toolName is required'')
          else catchE
            (bindE (gate (sd_gate sd)
                      \<lparr>gq_toolName = name, gq_toolInput = or_empty_object (prop_of ''toolInput'' body)\<rparr>) (\<lambda>r.
             ret (json_response 200 (gate_view r))))
            (\<lambda>message. ret (error_response 500 message))
      | _ \<Rightarrow> ret (error_response 400 ''toolName is required''))"

definition post_complete :: "sidecar \<Rightarrow> string \<Rightarrow> json \<Rightarrow> response act" where
  "post_complete sd executionId body =
     catchE
       (seqE (complete (sd_gate sd) executionId
                \<lparr>ro_success = (prop_of ''success'' body \<noteq> Some (JBool False)),
                 ro_output = map_option Json (prop_of ''output'' body)\<rparr>)
         (ret (json_response 200 [(''executionId'', JStr executionId), (''status'', JStr ''completed'')])))
       (\<lambda>message. ret (error_response 409 message))"

section \<open>The audit list\<close>

definition recent_executions :: "world \<Rightarrow> agent_execution list" where
  "recent_executions w = take 10 (sort_key (\<lambda>e. - ex_createdAt e) (executions w))"

definition listed_step :: "react_step \<Rightarrow> json" where
  "listed_step s = JObj
     ([(''stepIndex'', JNum (int (rs_stepIndex s))), (''actionType'', JStr (rs_actionType s))]
      @ optional ''toolName'' JStr (rs_toolName s)
      @ optional ''observationOutput'' (\<lambda>v. v) (rs_observationOutput s)
      @ optional ''observationError'' JStr (rs_observationError s)
      @ [(''guardrailTriggered'', JBool (rs_guardrailTriggered s))])"

definition listed_call :: "tool_call_record \<Rightarrow> json" where
  "listed_call c = JObj
     ([(''toolName'', JStr (tc_toolName c))]
      @ optional ''status'' (JStr \<circ> show_call_status) (tc_status c)
      @ optional ''permissionCheck'' JStr (tc_permissionCheck c)
      @ optional ''guardrailCheck'' JStr (tc_guardrailCheck c))"

definition listed_execution :: "world \<Rightarrow> agent_execution \<Rightarrow> json" where
  "listed_execution w e = JObj
     ([(''id'', JStr (ex_id e)), (''status'', JStr (show_status (ex_status e)))]
      @ optional ''rawInput'' JStr (ex_rawInput e)
      @ [(''steps'', JArr (map listed_step (persisted_steps (ex_id e) w))),
         (''toolCalls'', JArr (map listed_call (lifecycle_records (ex_id e) w)))])"

definition audit_list :: "response act" where
  "audit_list =
     reads (\<lambda>w. json_response 200
       [(''executions'', JArr (map (listed_execution w) (recent_executions w)))])"

section \<open>Approvals are only added\<close>

definition adds_approvals :: "world \<Rightarrow> world \<Rightarrow> bool" where
  "adds_approvals w w' \<longleftrightarrow> (\<exists>new. approvals w' = approvals w @ new)"

interpretation adding: state_preorder adds_approvals
proof
  show "adds_approvals w w" for w by (simp add: adds_approvals_def)
  show "adds_approvals u v \<Longrightarrow> adds_approvals v w \<Longrightarrow> adds_approvals u w" for u v w
    unfolding adds_approvals_def by (metis append_assoc)
qed

lemma tb_find_append: "tb_find P xs = Some r \<Longrightarrow> tb_find P (xs @ ys) = Some r"
  unfolding tb_find_def by (induction xs) auto

lemma adding_call_part: "keeps call_part m \<Longrightarrow> steps_in adds_approvals m"
  by (rule steps_inI) (auto simp: adds_approvals_def call_part_def dest!: keepsD)

lemma adding_rows_part: "keeps rows_part m \<Longrightarrow> steps_in adds_approvals m"
  by (rule steps_inI) (auto simp: adds_approvals_def rows_part_def dest!: keepsD)

lemma adding_run_part: "keeps run_part m \<Longrightarrow> steps_in adds_approvals m"
  by (rule steps_inI) (auto simp: adds_approvals_def run_part_def dest!: keepsD)

lemma adding_case_prod: "(\<And>a b. x = (a, b) \<Longrightarrow> steps_in adds_approvals (f a b)) \<Longrightarrow>
    steps_in adds_approvals (case x of (a, b) \<Rightarrow> f a b)"
  by (cases x) simp

lemma adding_set_status: "steps_in adds_approvals (set_status i s)"
  by (rule steps_inI) (auto simp: set_status_def update_executions_apply adds_approvals_def)

lemma adding_create: "steps_in adds_approvals (createAgentApproval opts q)"
  unfolding createAgentApproval_def governed_columns_def emit_def logGuardrailEvent_def Let_def
  by (intro adding.in_rules adding_case_prod adding.in_modify adding_call_part [OF keeps_now]
      adding_call_part [OF keeps_fresh_id])
    (simp_all add: adds_approvals_def tb_insert_def)

lemma adding_pause:
  assumes "library_transport (xo_transport opts)"
  shows "steps_in adds_approvals (pauseForApproval opts ctx tool inp ev)"
  unfolding pauseForApproval_def Let_def
  by (intro adding.in_rules adding_create adding_set_status adding_call_part [OF keeps_publish [OF assms]])

lemma adding_persist: "steps_in adds_approvals (persistStep ctx n thought action ob)"
  by (rule steps_inI) (auto simp: persistStep_run adds_approvals_def)

lemma adding_loop:
  assumes "local_options rs opts"
  shows "steps_in adds_approvals (loop_from opts iteration n ctx)"
proof -
  have rules: "xo_rules opts = in_memory_loadRules rs" and t: "library_transport (xo_transport opts)"
    using assms by (auto simp: local_options_def)
  have gate: "steps_in adds_approvals (gateToolCall opts c tool inp)" for c tool inp
    unfolding gateToolCall_def Let_def rules
    by (intro adding.in_rules adding_pause [OF t] adding_call_part [OF keeps_evaluate])
  have act: "steps_in adds_approvals (act_on opts k c thought action)" for k c thought action
    unfolding act_on_def Let_def
    by (intro adding.in_if adding.in_bindE adding_persist adding.in_ret gate adding_case_prod)
      (auto intro!: adding.in_rules adding_persist adding_rows_part [OF keeps_execute] split: gate_status.split)
  have body: "steps_in adds_approvals (loop_body opts k c)" for k c
    unfolding loop_body_def
    by (intro adding.in_bindE adding.in_lift_result)
      (auto intro!: adding.in_ret adding.in_throw act split: option.split json.split)
  show ?thesis
  proof (induction n arbitrary: iteration ctx)
    case 0
    then show ?case by (simp add: adding.in_ret)
  next
    case (Suc n)
    show ?case unfolding loop_from.simps
      by (intro adding.in_bindE body) (auto intro!: Suc adding.in_ret split: loop_result.split)
  qed
qed

lemma adding_resume:
  assumes "local_options rs opts"
  shows "steps_in adds_approvals (resumePaused opts q)"
  unfolding resumePaused_def Let_def execution_or_fail_def find_execution_def runLoop_def
  by (intro adding.in_rules adding_set_status adding_rows_part [OF keeps_execute] adding_persist
      adding_loop [OF assms] adding_case_prod adding_run_part [OF keeps_close])

section \<open>Properties\<close>

text \<open>What a request to decide needs before anything is written.\<close>

definition decidable :: "world \<Rightarrow> string \<Rightarrow> json \<Rightarrow> string \<Rightarrow> approval_instance \<Rightarrow> json \<Rightarrow> bool" where
  "decidable w approvalId body decision row paused \<longleftrightarrow>
     (\<exists>d. prop_of ''decision'' body = Some (JStr d) \<and> map upper_char d = decision)
     \<and> tb_find (\<lambda>a. ai_id a = approvalId) (approvals w) = Some row \<and> ai_status row = PENDING
     \<and> (\<exists>c part. first_comments row = Some c \<and> second_part c = Some part \<and> parse_json part = Some paused
          \<and> paused \<noteq> JNull)"

lemma decidable_run:
  assumes "decidable w approvalId body decision row paused" "decision = ''APPROVED'' \<or> decision = ''REJECTED''"
  shows "decide sd approvalId body w =
    (if decision = ''REJECTED'' then reject_approval row
     else bindE (find_execution (ai_recordId row)) (\<lambda>gated.
           if map_option ex_triggerSource gated = Some ''governance_gate'' then approve_gated row
           else approve_native sd body paused row)) w"
  using assms
  by (auto simp: decide_def decidable_def normalized_decision_def stored_call_def approval_or_fail_def
      find_approval_def eff_simps)

lemma decide_closed:
  assumes "tb_find (\<lambda>a. ai_id a = approvalId) (approvals w) = Some row" "ai_status row \<noteq> PENDING"
    and "prop_of ''decision'' body = Some (JStr d)" "map upper_char d = ''APPROVED'' \<or> map upper_char d = ''REJECTED''"
  shows "decide sd approvalId body w = (Inr (error_response 409 ''APPROVAL_ALREADY_DECIDED''), w)"
  using assms
  by (auto simp: decide_def normalized_decision_def approval_or_fail_def find_approval_def eff_simps)

text \<open>
  C31. The decision endpoint answers 400 to any text other than the two decisions, and 409 for an approval
  that is not pending; in both cases nothing changes.
\<close>

theorem decision_endpoint_guards:
  assumes "prop_of ''decision'' body = Some (JStr d)"
  shows "(if map upper_char d \<noteq> ''APPROVED'' \<and> map upper_char d \<noteq> ''REJECTED''
     then decide sd approvalId body w = (Inr (error_response 400 ''decision must be APPROVED or REJECTED''), w)
     else \<forall>row. tb_find (\<lambda>a. ai_id a = approvalId) (approvals w) = Some row \<and> ai_status row \<noteq> PENDING \<longrightarrow>
       decide sd approvalId body w = (Inr (error_response 409 ''APPROVAL_ALREADY_DECIDED''), w))"
proof (cases "map upper_char d \<noteq> ''APPROVED'' \<and> map upper_char d \<noteq> ''REJECTED''")
  case True
  then show ?thesis
    using assms by (simp add: decide_def normalized_decision_def eff_simps)
next
  case False
  then show ?thesis using decide_closed assms by simp blast
qed

text \<open>
  A rejection over the console is answered with the status \<open>cancelled\<close>, but the execution is not
  touched: it stays held. The approval is closed without an entry in its history, and no event tells
  of the decision.
\<close>

theorem console_rejection_leaves_execution:
  assumes "decidable w approvalId body ''REJECTED'' row paused"
  shows "\<exists>w'. decide sd approvalId body w = (Inr (decided_response row ''REJECTED'' ''cancelled''), w')
    \<and> executions w' = executions w \<and> outbox_events w' = outbox_events w \<and> emitted w' = emitted w
    \<and> (\<exists>row'. tb_find (\<lambda>a. ai_id a = approvalId) (approvals w') = Some row' \<and> ai_status row' = REJECTED
          \<and> ai_history row' = ai_history row)"
proof -
  let ?f = "\<lambda>r. r\<lparr>ai_status := REJECTED, ai_completedAt := Some (clock_of w (next_tick w))\<rparr>"
  have row: "tb_find (\<lambda>a. ai_id a = approvalId) (approvals w) = Some row" "ai_id row = approvalId"
    using assms tb_find_SomeD by (fastforce simp: decidable_def)+
  have "tb_find (\<lambda>a. ai_id a = approvalId) (tb_update (\<lambda>r. ai_id r = ai_id row) ?f (approvals w)) = Some (?f row)"
    using row by (subst tb_find_update) simp_all
  then show ?thesis
    using decidable_run [OF assms] by (simp add: reject_approval_def eff_simps)
qed

text \<open>
  A console approval of a call that the gate holds sets the execution running whatever its status is,
  so also when it is done, failed or cancelled, which the state machine forbids; and it leaves the
  approval pending, so that it can be decided again and again.
\<close>

theorem console_approval_reopens_execution:
  assumes "decidable w approvalId body ''APPROVED'' row paused"
    and "tb_find (\<lambda>x. ex_id x = ai_recordId row) (executions w) = Some e"
    and "ex_triggerSource e = ''governance_gate''"
  shows "\<exists>w'. decide sd approvalId body w = (Inr (decided_response row ''APPROVED'' ''running''), w')
    \<and> tb_find (\<lambda>x. ex_id x = ai_recordId row) (executions w') = Some (e\<lparr>ex_status := Running\<rparr>)
    \<and> decidable w' approvalId body ''APPROVED'' row paused
    \<and> (isTerminal (ex_status e) \<longrightarrow> (\<exists>m. handleStateTransition (ex_status e) Running = Inl m))"
proof -
  define w' where "w' = w\<lparr>executions := tb_update (\<lambda>x. ex_id x = ai_recordId row)
      (\<lambda>x. x\<lparr>ex_status := Running\<rparr>) (executions w)\<rparr>"
  have "decide sd approvalId body w = (Inr (decided_response row ''APPROVED'' ''running''), w')"
    using decidable_run [OF assms(1)] assms(2,3)
    by (simp add: find_execution_def approve_gated_def set_status_def eff_simps w'_def)
  moreover have "tb_find (\<lambda>x. ex_id x = ai_recordId row) (executions w') = Some (e\<lparr>ex_status := Running\<rparr>)"
    using find_after_update [OF assms(2)] by (simp add: w'_def)
  moreover have "decidable w' approvalId body ''APPROVED'' row paused"
    using assms(1) by (simp add: decidable_def w'_def)
  moreover have "\<exists>m. handleStateTransition (ex_status e) Running = Inl m" if "isTerminal (ex_status e)"
    using that by (cases "ex_status e") (simp_all add: handleStateTransition_def isValidTransition_def isTerminal_def)
  ultimately show ?thesis by blast
qed


text \<open>
  An approval whose tool input contains the marker of the stored call cannot be decided over the
  console: the text between the first two markers is not JSON, so both decisions fail and change
  nothing, although the approval engine reads the same row without trouble.
\<close>

definition marked_request :: approval_request where
  "marked_request = \<lparr>aq_workspaceId = WS, aq_agentExecutionId = ''e'', aq_toolName = ''note'',
     aq_toolInput = JObj [(''text'', JStr PAUSED_MARKER)], aq_riskLevel = ''L3'', aq_description = ''d'',
     aq_traceId = None, aq_correlationId = None, aq_actorType = None, aq_actorId = None, aq_source = None,
     aq_preparation = None\<rparr>"

lemma marked_comments:
  "Option.bind (second_part (submission_comments marked_request)) parse_json = None"
  "second_part (submission_comments marked_request) \<noteq> None"
  by code_simp+

theorem marker_in_input_blocks_decision:
  assumes "tb_find (\<lambda>a. ai_id a = approvalId) (approvals w) = Some row"
    and "ai_status row = PENDING" "first_comments row = Some (submission_comments marked_request)"
  shows "\<exists>m. decide sd approvalId (JObj [(''decision'', JStr ''APPROVED'')]) w = (Inl m, w)
    \<and> decide sd approvalId (JObj [(''decision'', JStr ''REJECTED'')]) w = (Inl m, w)"
proof -
  obtain part where part: "second_part (submission_comments marked_request) = Some part" "parse_json part = None"
    using marked_comments by auto
  have upper: "map upper_char ''APPROVED'' = ''APPROVED''" "map upper_char ''REJECTED'' = ''REJECTED''" by code_simp+
  show ?thesis
    using assms part upper
    by (simp add: decide_def normalized_decision_def stored_call_def approval_or_fail_def find_approval_def eff_simps)
qed

section \<open>Instances\<close>

definition sample_sidecar :: sidecar where
  "sample_sidecar = \<lparr>sd_engine = sample_options [], sd_gate = sample_deps\<rparr>"

definition held_row :: "string \<Rightarrow> approval_instance" where
  "held_row comments = \<lparr>ai_id = ''a'', ai_workspaceId = WS, ai_processId = AGENT_SENSITIVE_OP_PROCESS_ID,
     ai_recordId = ''id-0'', ai_objectName = ''AgentExecution'', ai_status = PENDING, ai_currentStepIndex = 0,
     ai_subject = no_subject, ai_supersession = no_supersession,
     ai_history = [\<lparr>he_stepIndex = 0, he_stepName = ''s'', he_action = Submitted, he_actorId = ''system'',
        he_actorName = ''r'', he_comments = Some comments, he_timestamp = 0, he_queueContext = None\<rparr>],
     ai_submittedBy = NIL_UUID, ai_submittedAt = 0, ai_completedAt = None\<rparr>"

definition held_comments :: string where
  "held_comments = PAUSED_MARKER @ ''{'' @ quoted ''toolName'' @ CHR '':'' # quoted ''lookup'' @ ''}''"

definition console_world :: "agent_execution \<Rightarrow> world" where
  "console_world e = sample_world\<lparr>approvals := [held_row held_comments], executions := [e]\<rparr>"

definition decision_body :: "string \<Rightarrow> json" where
  "decision_body d = JObj [(''decision'', JStr d)]"

lemma held_part:
  "second_part held_comments = Some (drop (length PAUSED_MARKER) held_comments)"
  "parse_json (drop (length PAUSED_MARKER) held_comments) = Some (JObj [(''toolName'', JStr ''lookup'')])"
  "map upper_char ''approved'' = ''APPROVED''" "map upper_char ''rejected'' = ''REJECTED''"
  by code_simp+

lemma sample_decidable:
  "decidable (console_world e) ''a'' (decision_body ''approved'') ''APPROVED'' (held_row held_comments)
     (JObj [(''toolName'', JStr ''lookup'')])"
  "decidable (console_world e) ''a'' (decision_body ''rejected'') ''REJECTED'' (held_row held_comments)
     (JObj [(''toolName'', JStr ''lookup'')])"
  by (simp_all add: decidable_def console_world_def decision_body_def held_part first_comments_def
      held_row_def tb_find_def del: list.map)

lemma decision_endpoint_guards_witness:
  "decide sample_sidecar ''a'' (decision_body ''perhaps'') sample_world
     = (Inr (error_response 400 ''decision must be APPROVED or REJECTED''), sample_world)"
proof -
  have other: "map upper_char ''perhaps'' \<noteq> ''APPROVED''" "map upper_char ''perhaps'' \<noteq> ''REJECTED''"
    by code_simp+
  have body: "prop_of ''decision'' (decision_body ''perhaps'') = Some (JStr ''perhaps'')"
    by (simp add: decision_body_def)
  show ?thesis
    using decision_endpoint_guards [OF body, of sample_sidecar "''a''" sample_world]
    unfolding if_P [OF conjI [OF other]] .
qed

definition native_execution :: agent_execution where
  "native_execution = (initial_execution sample_input ''id-0'' 0)\<lparr>ex_status := GuardrailPending\<rparr>"

lemma console_rejection_leaves_execution_witness:
  "\<exists>w'. decide sample_sidecar ''a'' (decision_body ''rejected'') (console_world native_execution)
       = (Inr (decided_response (held_row held_comments) ''REJECTED'' ''cancelled''), w')
     \<and> executions w' = [native_execution]"
  using console_rejection_leaves_execution [OF sample_decidable(2) [of native_execution], of sample_sidecar]
  by (auto simp: console_world_def)

definition gated_execution :: agent_execution where
  "gated_execution = (gate_execution sample_deps (sample_request ''lookup'') ''id-0'' 0)\<lparr>ex_status := Done\<rparr>"

lemma console_approval_reopens_execution_witness:
  "\<exists>w'. tb_find (\<lambda>x. ex_id x = ''id-0'') (executions w') = Some (gated_execution\<lparr>ex_status := Running\<rparr>)
     \<and> decide sample_sidecar ''a'' (decision_body ''approved'') (console_world gated_execution)
       = (Inr (decided_response (held_row held_comments) ''APPROVED'' ''running''), w')"
proof -
  have rec_id: "ai_recordId (held_row held_comments) = ''id-0''" by (simp add: held_row_def)
  have e: "tb_find (\<lambda>x. ex_id x = ai_recordId (held_row held_comments)) (executions (console_world gated_execution))
      = Some gated_execution" "ex_triggerSource gated_execution = ''governance_gate''"
    by (simp_all add: rec_id console_world_def tb_find_def gated_execution_def gate_execution_def)
  show ?thesis
    using console_approval_reopens_execution [OF sample_decidable(1) e, of sample_sidecar] rec_id by auto
qed


lemma marker_in_input_blocks_decision_witness:
  "\<exists>m w. decide sample_sidecar ''a'' (JObj [(''decision'', JStr ''APPROVED'')]) w = (Inl m, w)"
proof -
  let ?row = "held_row (submission_comments marked_request)"
  let ?w = "sample_world\<lparr>approvals := [?row]\<rparr>"
  have row: "tb_find (\<lambda>a. ai_id a = ''a'') (approvals ?w) = Some ?row" "ai_status ?row = PENDING"
    "first_comments ?row = Some (submission_comments marked_request)"
    by (simp_all add: tb_find_def held_row_def first_comments_def)
  show ?thesis using marker_in_input_blocks_decision [OF row, of sample_sidecar] by blast
qed

end
