(* ===== verification/Sidecar_System.thy ===== *)
theory Sidecar_System
  imports Mcp_Gateway Sidecar_Server
begin

text \<open>
  The sidecar as a whole: the requests its HTTP and MCP endpoints serve, one after the other, on one
  world; and what stays true whatever is requested.
\<close>

section \<open>Requests\<close>

datatype sidecar_request =
    PostExecutions json
  | Decide string json
  | PostGate json
  | PostComplete string json
  | McpCall bool string json
  | McpAnswer aggregated_tool gate_result string json "string option"

definition drop_result :: "'a act \<Rightarrow> unit act" where
  "drop_result m = bindE m (\<lambda>_. ret ())"

fun handle_request :: "gateway_options \<Rightarrow> sidecar \<Rightarrow> sidecar_request \<Rightarrow> unit act" where
  "handle_request gw sd (PostExecutions body) = drop_result (serve (post_executions sd body))"
| "handle_request gw sd (Decide i body) = drop_result (serve (decide sd i body))"
| "handle_request gw sd (PostGate body) = drop_result (serve (post_gate sd body))"
| "handle_request gw sd (PostComplete i body) = drop_result (serve (post_complete sd i body))"
| "handle_request gw sd (McpCall elicits name args) = drop_result (handle_call gw elicits name args)"
| "handle_request gw sd (McpAnswer tool held name args d) = drop_result (after_elicitation gw tool held name args d)"

inductive sidecar_step :: "gateway_options \<Rightarrow> sidecar \<Rightarrow> world \<Rightarrow> world \<Rightarrow> bool" for gw sd where
  request: "handle_request gw sd q w = (r, w') \<Longrightarrow> sidecar_step gw sd w w'"

inductive_cases sidecar_stepE: "sidecar_step gw sd w w'"

section \<open>Sound computations\<close>

text \<open>
  Primary keys stay unique and issued, identifiers are never issued twice, and an approval that has
  been decided is the same row ever after.
\<close>

definition sound :: "world \<Rightarrow> world \<Rightarrow> bool" where
  "sound w w' \<longleftrightarrow> (wf_world w \<longrightarrow> wf_world w' \<and> issues w w'
     \<and> (\<forall>a\<in>set (approvals w). ai_status a \<noteq> PENDING \<longrightarrow> a \<in> set (approvals w')))"

interpretation sounds: state_preorder sound
proof
  show "sound w w" for w by (simp add: sound_def issues_def)
  show "sound u v \<Longrightarrow> sound v w \<Longrightarrow> sound u w" for u v w
    unfolding sound_def by (auto simp: issues_def)
qed

named_theorems sound_intros \<open>operations that are sound\<close>

definition key_part where
  "key_part w = (map ex_id (executions w), map tc_id (tool_calls w), approvals w,
     map oe_id (outbox_events w), uuid_of w, next_uuid w)"

lemma wf_key_part: "wf_world w \<longleftrightarrow> (case key_part w of (es, cs, as, vs, u, n) \<Rightarrow> inj u
    \<and> distinct es \<and> set es \<subseteq> u ` {..<n} \<and> distinct cs \<and> set cs \<subseteq> u ` {..<n}
    \<and> keyed ai_id as \<and> ai_id ` set as \<subseteq> u ` {..<n} \<and> distinct vs \<and> set vs \<subseteq> u ` {..<n})"
  by (simp add: wf_world_def keyed_def issued_def key_part_def)

lemma wf_of_keys: "key_part w' = key_part w \<Longrightarrow> wf_world w \<Longrightarrow> wf_world w'"
  by (simp add: wf_key_part)

lemma sound_keys:
  assumes "keeps key_part m"
  shows "steps_in sound m"
proof (rule steps_inI)
  fix w r w' assume "m w = (r, w')"
  then have same: "key_part w' = key_part w" using assms by (rule keepsD [rotated])
  then show "sound w w'"
    unfolding sound_def issues_def using wf_of_keys [OF same] by (simp add: key_part_def)
qed

lemma sound_update_executions [sound_intros]:
  "(\<And>e. ex_id (f e) = ex_id e) \<Longrightarrow> steps_in sound (update_executions P f)"
  by (intro sound_keys keepsI) (auto simp: update_executions_apply key_part_def map_pk_update)

lemma sound_update_calls [sound_intros]:
  "(\<And>c. tc_id (g c) = tc_id c) \<Longrightarrow> steps_in sound (update_calls Q g)"
  by (intro sound_keys keepsI) (auto simp: update_calls_apply key_part_def map_pk_update)

lemma keys_now: "keeps key_part now"
  by (intro keepsI) (auto simp: now_apply key_part_def)

lemmas sound_now [sound_intros] = sound_keys [OF keys_now]

lemma wf_issue: "wf_world w \<Longrightarrow> wf_world (w\<lparr>next_uuid := Suc (next_uuid w)\<rparr>)"
  unfolding wf_world_def issued_Suc by auto

lemma sound_fresh_id [sound_intros]: "steps_in sound fresh_id"
  by (rule steps_inI) (auto simp: fresh_id_apply sound_def issues_def wf_issue)

lemma sound_case_prod [sound_intros]:
  "(\<And>a b. x = (a, b) \<Longrightarrow> steps_in sound (f a b)) \<Longrightarrow> steps_in sound (case x of (a, b) \<Rightarrow> f a b)"
  by (cases x) simp

section \<open>Rows under new keys\<close>

lemma wf_rows: "wf_world w \<longleftrightarrow> inj (uuid_of w)
    \<and> (keyed ex_id (executions w) \<and> ex_id ` set (executions w) \<subseteq> issued w)
    \<and> (keyed tc_id (tool_calls w) \<and> tc_id ` set (tool_calls w) \<subseteq> issued w)
    \<and> (keyed ai_id (approvals w) \<and> ai_id ` set (approvals w) \<subseteq> issued w)
    \<and> (keyed oe_id (outbox_events w) \<and> oe_id ` set (outbox_events w) \<subseteq> issued w)"
  by (simp add: wf_world_def)

lemma key_not_used:
  assumes "wf_world w"
  shows "uuid_of w (next_uuid w) \<notin> ex_id ` set (executions w)" "uuid_of w (next_uuid w) \<notin> tc_id ` set (tool_calls w)"
    "uuid_of w (next_uuid w) \<notin> ai_id ` set (approvals w)" "uuid_of w (next_uuid w) \<notin> oe_id ` set (outbox_events w)"
proof -
  note keys = assms [unfolded wf_rows]
  have "uuid_of w (next_uuid w) \<notin> issued w" using keys by (intro fresh_not_issued) simp
  then have new: "K \<subseteq> issued w \<Longrightarrow> uuid_of w (next_uuid w) \<notin> K" for K by (rule contra_subsetD [rotated])
  show "uuid_of w (next_uuid w) \<notin> ex_id ` set (executions w)" "uuid_of w (next_uuid w) \<notin> tc_id ` set (tool_calls w)"
    "uuid_of w (next_uuid w) \<notin> ai_id ` set (approvals w)" "uuid_of w (next_uuid w) \<notin> oe_id ` set (outbox_events w)"
    using keys by (intro new, simp)+
qed

lemma issued_insert:
  "issued (w\<lparr>next_uuid := Suc (next_uuid w), executions := es\<rparr>) = insert (uuid_of w (next_uuid w)) (issued w)"
  "issued (w\<lparr>next_uuid := Suc (next_uuid w), tool_calls := cs\<rparr>) = insert (uuid_of w (next_uuid w)) (issued w)"
  "issued (w\<lparr>next_uuid := Suc (next_uuid w), approvals := as\<rparr>) = insert (uuid_of w (next_uuid w)) (issued w)"
  "issued (w\<lparr>next_uuid := Suc (next_uuid w), outbox_events := vs\<rparr>) = insert (uuid_of w (next_uuid w)) (issued w)"
  by (simp_all add: issued_def lessThan_Suc)

lemma keys_insert: "pk ` set (tb_insert r tb) = insert (pk r) (pk ` set tb)"
  by (simp add: tb_insert_def)

lemma rows_insert: "keyed pk tb \<Longrightarrow> pk ` set tb \<subseteq> I \<Longrightarrow> pk r = i \<Longrightarrow> i \<notin> pk ` set tb \<Longrightarrow>
    keyed pk (tb_insert r tb) \<and> pk ` set (tb_insert r tb) \<subseteq> insert i I"
  unfolding keys_insert by (auto intro: keyed_insert)

lemma wf_insert:
  assumes "wf_world w"
  shows "ex_id e = uuid_of w (next_uuid w) \<Longrightarrow>
      wf_world (w\<lparr>next_uuid := Suc (next_uuid w), executions := tb_insert e (executions w)\<rparr>)"
    and "tc_id c = uuid_of w (next_uuid w) \<Longrightarrow>
      wf_world (w\<lparr>next_uuid := Suc (next_uuid w), tool_calls := tb_insert c (tool_calls w)\<rparr>)"
    and "ai_id a = uuid_of w (next_uuid w) \<Longrightarrow>
      wf_world (w\<lparr>next_uuid := Suc (next_uuid w), approvals := tb_insert a (approvals w)\<rparr>)"
    and "oe_id v = uuid_of w (next_uuid w) \<Longrightarrow>
      wf_world (w\<lparr>next_uuid := Suc (next_uuid w), outbox_events := tb_insert v (outbox_events w)\<rparr>)"
  using assms [unfolded wf_rows] key_not_used [OF assms]
    rows_insert [of ex_id "executions w" "issued w" e] rows_insert [of tc_id "tool_calls w" "issued w" c]
    rows_insert [of ai_id "approvals w" "issued w" a] rows_insert [of oe_id "outbox_events w" "issued w" v]
  unfolding wf_rows issued_insert by (simp_all del: image_subset_iff add: subset_insertI2)

lemma sound_upto: "sound w v \<Longrightarrow> key_part w' = key_part v \<Longrightarrow> sound w w'"
  using wf_of_keys [of w' v] by (auto simp: sound_def issues_def key_part_def)

lemma sound_new_execution:
  assumes key: "\<And>i t. ex_id (row i t) = i" and k: "\<And>i t. steps_in sound (k i t)"
  shows "steps_in sound (bindE fresh_id (\<lambda>i. bindE now (\<lambda>t. seqE (save_execution (row i t)) (k i t))))"
proof (rule steps_inI)
  fix w r w'
  assume run: "bindE fresh_id (\<lambda>i. bindE now (\<lambda>t. seqE (save_execution (row i t)) (k i t))) w = (r, w')"
  let ?e = "row (uuid_of w (next_uuid w)) (clock_of w (next_tick w))"
  let ?v = "w\<lparr>next_uuid := Suc (next_uuid w), executions := tb_insert ?e (executions w)\<rparr>"
  let ?u = "w\<lparr>next_uuid := Suc (next_uuid w), next_tick := Suc (next_tick w), executions := tb_insert ?e (executions w)\<rparr>"
  have "sound w ?v"
    unfolding sound_def issues_def using wf_insert(1) [of w ?e] by (auto simp: key)
  then have "sound w ?u" by (rule sound_upto) (simp add: key_part_def)
  moreover have "k (uuid_of w (next_uuid w)) (clock_of w (next_tick w)) ?u = (r, w')"
    using run by (simp add: eff_simps save_execution_def)
  then have "sound ?u w'" by (rule steps_inD [OF k])
  ultimately show "sound w w'" by (rule sounds.R_trans)
qed

lemma sound_new_call:
  assumes key: "\<And>i. tc_id (row i) = i"
  shows "steps_in sound (bindE fresh_id (\<lambda>i. seqE (save_call (row i)) (ret (row i))))"
proof (rule steps_inI)
  fix w r w' assume run: "bindE fresh_id (\<lambda>i. seqE (save_call (row i)) (ret (row i))) w = (r, w')"
  let ?c = "row (uuid_of w (next_uuid w))"
  have w': "w' = (if wf_world w then w\<lparr>next_uuid := Suc (next_uuid w), tool_calls := tb_insert ?c (tool_calls w)\<rparr> else w')"
    using run key_not_used(2) [of w] by (auto simp: eff_simps save_call_def key)
  show "sound w w'"
    unfolding sound_def issues_def by (subst (1 2 3 4) w') (auto simp: wf_insert(2) key)
qed

lemma sound_new_approval:
  assumes key: "\<And>i t. ai_id (row i t) = i" and k: "\<And>i t. steps_in sound (k i t)"
  shows "steps_in sound (bindE fresh_id (\<lambda>i. bindE now (\<lambda>t.
     seqE (modify (\<lambda>w. w\<lparr>approvals := tb_insert (row i t) (approvals w)\<rparr>)) (k i t))))"
proof (rule steps_inI)
  fix w r w'
  assume run: "bindE fresh_id (\<lambda>i. bindE now (\<lambda>t.
     seqE (modify (\<lambda>w. w\<lparr>approvals := tb_insert (row i t) (approvals w)\<rparr>)) (k i t))) w = (r, w')"
  let ?a = "row (uuid_of w (next_uuid w)) (clock_of w (next_tick w))"
  let ?v = "w\<lparr>next_uuid := Suc (next_uuid w), approvals := tb_insert ?a (approvals w)\<rparr>"
  let ?u = "w\<lparr>next_uuid := Suc (next_uuid w), next_tick := Suc (next_tick w), approvals := tb_insert ?a (approvals w)\<rparr>"
  have "sound w ?v"
    unfolding sound_def issues_def using wf_insert(3) [of w ?a] by (auto simp: key tb_insert_def)
  then have "sound w ?u" by (rule sound_upto) (simp add: key_part_def)
  moreover have "k (uuid_of w (next_uuid w)) (clock_of w (next_tick w)) ?u = (r, w')"
    using run by (simp add: eff_simps)
  then have "sound ?u w'" by (rule steps_inD [OF k])
  ultimately show "sound w w'" by (rule sounds.R_trans)
qed

section \<open>Services\<close>

lemma sound_modify: "(\<And>w. key_part (g w) = key_part w) \<Longrightarrow> steps_in sound (modify g)"
  by (rule sound_keys) (rule keeps_modify)

lemma sound_begin [sound_intros]:
  assumes "bi_id inp = None"
  shows "steps_in sound (begin_call lib inp)"
  unfolding begin_call_def Let_def assms
  by (simp only: option.case)
    (intro sounds.in_seqE sounds.in_bindE sounds.in_throw_if sounds.in_lift_result sound_now
      sound_new_call base_identity)

lemma sound_transition [sound_intros]:
  "(\<And>r. tc_id (patch r) = tc_id r) \<Longrightarrow> steps_in sound (transition_call i expected s patch)"
  unfolding transition_call_def by (intro sounds.in_rules sound_update_calls) simp

lemma sound_finalize [sound_intros]: "steps_in sound (finalize lib i inp d)"
  unfolding finalize_def by (intro sounds.in_rules sound_transition) (simp add: final_patch_def)

lemma sound_enqueue: "steps_in sound (enqueue event)"
proof (rule steps_inI)
  fix w r w' assume run: "enqueue event w = (r, w')"
  show "sound w w'"
  proof (cases "trace_context w")
    case None
    then show ?thesis using run by (auto simp: enqueue_def bindE_apply enqueueInTransaction_eq sounds.R_refl)
  next
    case (Some ctx)
    let ?row = "envelope event (uuid_of w (next_uuid w)) (clock_of w (next_tick w)) ctx"
    have key: "oe_id ?row = uuid_of w (next_uuid w)" by (simp add: envelope_def)
    have "sound w (w\<lparr>next_uuid := Suc (next_uuid w)\<rparr>)" by (auto simp: sound_def issues_def wf_issue)
    moreover have "sound w (w\<lparr>next_uuid := Suc (next_uuid w), outbox_events := tb_insert ?row (outbox_events w)\<rparr>)"
      unfolding sound_def issues_def using wf_insert(4) [OF _ key] by auto
    ultimately show ?thesis
      using run Some by (auto simp: enqueue_def eff_simps enqueueInTransaction_eq Let_def tb_insert_def key_part_def
          intro: sound_upto split: if_splits)
  qed
qed

text \<open>A transaction that throws takes its events back; the other tables keep what the callback wrote.\<close>

lemma issued_mono: "issues w v \<Longrightarrow> issued w \<subseteq> issued v"
  by (auto simp: issues_def issued_def)

lemma sound_rollback:
  assumes "sound w v"
  shows "sound w (v\<lparr>outbox_events := outbox_events w, notifications := notifications w\<rparr>)"
proof -
  let ?u = "v\<lparr>outbox_events := outbox_events w, notifications := notifications w\<rparr>"
  have "wf_world ?u" if wf: "wf_world w"
  proof -
    have v: "wf_world v" "issued w \<subseteq> issued v" using assms wf issued_mono by (auto simp: sound_def)
    have u: "issued ?u = issued v" by (simp add: issued_def)
    have "keyed oe_id (outbox_events w)" "oe_id ` set (outbox_events w) \<subseteq> issued w"
      using wf by (simp_all add: wf_rows)
    then show ?thesis
      using v(1) subset_trans [OF _ v(2)] unfolding wf_rows u by simp
  qed
  then show ?thesis using assms by (simp add: sound_def issues_def)
qed

lemma sound_transaction:
  assumes "steps_in sound m"
  shows "steps_in sound (transaction m)"
proof (rule steps_inI)
  fix w r w' assume run: "transaction m w = (r, w')"
  obtain s v where mv: "m w = (s, v)" by (cases "m w")
  have "sound w v" using assms mv by (rule steps_inD)
  then show "sound w w'"
    using run mv sound_rollback by (cases s) (auto simp: transaction_def)
qed

lemma sound_notify: "library_transport t \<Longrightarrow> steps_in sound (t topic)"
  by (auto simp: library_transport_def pg_notify_def in_memory_notify_def key_part_def intro!: sound_modify)

lemma sound_runInTransaction:
  assumes t: "library_transport t" and cb: "steps_in sound cb"
  shows "steps_in sound (runInTransaction t cb)"
proof -
  let ?body = "seqE (modify (\<lambda>v. v\<lparr>txn_topics := []\<rparr>)) (bindE cb (\<lambda>result.
    bindE (reads txn_topics) (\<lambda>topics. seqE (for_each t topics) (ret result))))"
  have body: "steps_in sound (transaction ?body)"
    by (intro sound_transaction sounds.in_rules sound_modify cb sounds.in_for_each sound_notify [OF t])
      (simp add: key_part_def)
  show ?thesis
  proof (rule steps_inI)
    fix w r w' assume run: "runInTransaction t cb w = (r, w')"
    obtain s v where v: "transaction ?body w = (s, v)" by (cases "transaction ?body w")
    then have "w' = v\<lparr>txn_topics := txn_topics w\<rparr>" using run by (simp add: runInTransaction_def)
    moreover have "sound w v" using body v by (rule steps_inD)
    ultimately show "sound w w'" by (simp add: sound_upto key_part_def)
  qed
qed

lemma sound_publish [sound_intros]: "library_transport t \<Longrightarrow> steps_in sound (publish t event)"
  unfolding publish_def by (intro sound_runInTransaction sound_enqueue)

lemma sound_create [sound_intros]: "steps_in sound (createAgentApproval opts q)"
proof -
  have "steps_in sound (governed_columns opts q)"
    unfolding governed_columns_def by (intro sounds.in_rules sound_now)
  moreover have "steps_in sound (emit e payload)" "steps_in sound (logGuardrailEvent entry)" for e payload entry
    unfolding emit_def logGuardrailEvent_def by (intro sound_modify, simp add: key_part_def)+
  ultimately show ?thesis
    unfolding createAgentApproval_def Let_def
    by (intro sounds.in_bindE [of "governed_columns opts q"] sounds.in_bindE [OF sound_now] sound_case_prod
        sound_new_approval sounds.in_seqE sounds.in_ret) simp_all
qed

lemma sound_find [sound_intros]:
  "steps_in sound (execution_or_fail i)" "steps_in sound (find_execution i)"
  "steps_in sound (find_approval i)" "steps_in sound (approval_or_fail i)"
  unfolding execution_or_fail_def approval_or_fail_def find_execution_def find_approval_def
  by (intro sounds.in_rules)+

lemma sound_status [sound_intros]:
  "steps_in sound (set_status i s)" "steps_in sound (close_execution i s)" "steps_in sound (fail_execution i m)"
  unfolding set_status_def close_execution_def fail_execution_def
  by (intro sounds.in_rules sound_now sound_update_executions, simp)+

section \<open>The executor\<close>

lemma sound_pause [sound_intros]:
  "library_transport (xo_transport opts) \<Longrightarrow> steps_in sound (pauseForApproval opts ctx tool inp ev)"
  unfolding pauseForApproval_def Let_def by (intro sounds.in_rules sound_intros)

lemma sound_persist [sound_intros]: "steps_in sound (persistStep ctx n thought action ob)"
  unfolding persistStep_def
  by (intro sounds.in_rules sound_fresh_id sound_now sound_modify) (simp add: key_part_def)

lemma sound_evaluate [sound_intros]: "steps_in sound (evaluate num (in_memory_loadRules rs) ws tool inp ids)"
  by (rule sound_keys) (rule keeps_evaluate)

lemma sound_registry [sound_intros]: "steps_in sound (registry_execute tools name inp allowed)"
  unfolding registry_execute_def run_body_def
  by (intro sounds.in_rules sound_now sound_modify) (simp add: key_part_def)

lemma sound_execute [sound_intros]: "steps_in sound (executeApprovedTool opts ctx tool inp)"
  unfolding executeApprovedTool_def
  by (intro sounds.in_rules sound_registry sound_begin sound_finalize) (simp add: granted_call_def)

lemma sound_gateToolCall:
  assumes "local_options rs opts"
  shows "steps_in sound (gateToolCall opts ctx tool inp)"
  using assms unfolding gateToolCall_def Let_def local_options_def
  by (auto intro!: sounds.in_rules sound_intros)

lemma sound_loop_body:
  assumes "local_options rs opts"
  shows "steps_in sound (loop_body opts k ctx)"
proof -
  have "steps_in sound (act_on opts k c thought action)" for c thought action
    unfolding act_on_def Let_def
    by (intro sounds.in_if sounds.in_bindE sound_persist sounds.in_ret sound_gateToolCall [OF assms] sound_case_prod)
      (auto intro!: sounds.in_rules sound_persist sound_execute split: gate_status.split)
  then show ?thesis
    unfolding loop_body_def
    by (intro sounds.in_bindE sounds.in_lift_result)
      (auto intro!: sounds.in_ret sounds.in_throw split: option.split json.split)
qed

lemma sound_loop:
  assumes "local_options rs opts"
  shows "steps_in sound (loop_from opts iteration n ctx)"
proof (induction n arbitrary: iteration ctx)
  case 0
  then show ?case by (simp add: sounds.in_ret)
next
  case (Suc n)
  show ?case unfolding loop_from.simps
    by (intro sounds.in_bindE sound_loop_body [OF assms]) (auto intro!: Suc sounds.in_ret split: loop_result.split)
qed

lemma sound_run [sound_intros]:
  assumes "local_options rs opts"
  shows "steps_in sound (executor_run opts inp)"
proof -
  have t: "library_transport (xo_transport opts)" using assms by (simp add: local_options_def)
  show ?thesis
    unfolding executor_run_def Let_def runLoop_def
    by (intro sound_new_execution sounds.in_seqE sounds.in_bindE sound_publish sound_loop [OF assms] sound_case_prod
        sound_runInTransaction sound_status sound_enqueue sound_find t) (simp add: initial_execution_def)
qed

lemma sound_resume [sound_intros]:
  assumes "local_options rs opts"
  shows "steps_in sound (resumePaused opts q)"
  unfolding resumePaused_def Let_def runLoop_def
  by (intro sounds.in_rules sound_status sound_find sound_execute sound_persist sound_loop [OF assms] sound_case_prod)

section \<open>The gate\<close>

lemma sound_gate [sound_intros]:
  assumes "gd_rules deps = in_memory_loadRules rs" "library_transport (gd_transport deps)"
  shows "steps_in sound (gate deps q)"
proof -
  have "steps_in sound (hold_for_approval deps q i c ev)" for i c ev
    unfolding hold_for_approval_def
    by (intro sounds.in_rules sound_create sound_transition sound_status sound_publish assms(2)) simp
  moreover have "steps_in sound (refuse_not_allowed tool i c)" "steps_in sound (refuse_blocked tool i c)" for tool i c
    unfolding refuse_not_allowed_def refuse_blocked_def Let_def
    by (intro sounds.in_rules sound_transition sound_status, simp)+
  ultimately show ?thesis
    unfolding gate_def assms(1)
    by (intro sound_new_execution sounds.in_rules sound_publish sound_begin sound_evaluate assms(2))
      (simp_all add: gate_execution_def gate_call_def)
qed

lemma sound_complete [sound_intros]:
  assumes "library_transport (gd_transport deps)"
  shows "steps_in sound (complete deps i out)"
  unfolding complete_def
  by (intro sounds.in_rules sound_find sound_transition sound_finalize sound_status sound_publish assms) simp

section \<open>Decisions\<close>

text \<open>
  An update of an approval under its key is sound while the row it was read from is still there and
  pending; what runs between the read and the update leaves the approvals alone.
\<close>

definition row_of :: "approval_instance \<Rightarrow> world \<Rightarrow> bool" where
  "row_of a w \<longleftrightarrow> tb_find (\<lambda>r. ai_id r = ai_id a) (approvals w) = Some a"

definition sound_from :: "approval_instance \<Rightarrow> 'a act \<Rightarrow> bool" where
  "sound_from a m \<longleftrightarrow> (\<forall>w r w'. row_of a w \<longrightarrow> m w = (r, w') \<longrightarrow> sound w w')"

lemma from_any: "steps_in sound m \<Longrightarrow> sound_from a m"
  by (auto simp: sound_from_def dest: steps_inD)

lemma from_bind:
  assumes "keeps approvals m" "steps_in sound m" "\<And>x. sound_from a (f x)"
  shows "sound_from a (bindE m f)"
  unfolding sound_from_def
proof (intro allI impI)
  fix w r w' assume row: "row_of a w" and run: "bindE m f w = (r, w')"
  obtain x v where m: "m w = (x, v)" by (cases "m w")
  have v: "sound w v" using assms(2) m by (rule steps_inD)
  have "row_of a v" using row keepsD [OF assms(1) m] by (simp add: row_of_def)
  then show "sound w w'"
    using run m v assms(3) by (cases x) (auto simp: bindE_apply sound_from_def intro: sounds.R_trans)
qed

lemma from_seq: "keeps approvals m \<Longrightarrow> steps_in sound m \<Longrightarrow> sound_from a n \<Longrightarrow> sound_from a (seqE m n)"
  unfolding seqE_def by (rule from_bind)

lemma from_then: "sound_from a m \<Longrightarrow> steps_in sound n \<Longrightarrow> sound_from a (seqE m n)"
  unfolding sound_from_def
  by (auto simp: seqE_apply split: prod.splits sum.splits) (metis sounds.R_trans steps_inD)

lemma from_if: "(c \<Longrightarrow> sound_from a m) \<Longrightarrow> (\<not> c \<Longrightarrow> sound_from a n) \<Longrightarrow> sound_from a (if c then m else n)"
  by simp

lemma from_update:
  assumes pending: "ai_status a = PENDING" and key: "\<And>r. ai_id (f r) = ai_id r"
  shows "sound_from a (update_approvals (\<lambda>r. ai_id r = ai_id a) f)"
  unfolding sound_from_def
proof (intro allI impI)
  fix w r w'
  assume row: "row_of a w" and run: "update_approvals (\<lambda>r. ai_id r = ai_id a) f w = (r, w')"
  let ?rows = "tb_update (\<lambda>r. ai_id r = ai_id a) f (approvals w)"
  have w': "w' = w\<lparr>approvals := ?rows\<rparr>" using run by (simp add: update_approvals_apply)
  have keys: "ai_id ` set ?rows = ai_id ` set (approvals w)"
    by (metis list.set_map map_pk_update key)
  show "sound w w'"
    unfolding sound_def
  proof (intro impI conjI ballI)
    assume wf: "wf_world w"
    have k: "keyed ai_id (approvals w)" using wf by (simp add: wf_rows)
    have "issued w' = issued w" by (simp add: w' issued_def)
    then show "wf_world w'"
      using wf keyed_update [of ai_id f, OF key k] unfolding wf_rows by (simp add: w' keys)
    fix b assume b: "b \<in> set (approvals w)" "ai_status b \<noteq> PENDING"
    have "ai_id b \<noteq> ai_id a"
    proof
      assume same: "ai_id b = ai_id a"
      then have "Some b = Some a" using keyed_find_unique [OF k b(1)] row by (simp add: row_of_def)
      then show False using b(2) pending by simp
    qed
    then show "b \<in> set (approvals w')" using b(1) by (force simp: w' set_tb_update)
  qed (simp add: w' issues_def)
qed

lemma from_find:
  assumes "steps_in sound none" "\<And>a. sound_from a (f a)"
  shows "steps_in sound (bindE (find_approval i) (\<lambda>found. case found of None \<Rightarrow> none | Some a \<Rightarrow> f a))"
proof (rule steps_inI)
  fix w r w'
  assume run: "bindE (find_approval i) (\<lambda>found. case found of None \<Rightarrow> none | Some a \<Rightarrow> f a) w = (r, w')"
  show "sound w w'"
  proof (cases "tb_find (\<lambda>a. ai_id a = i) (approvals w)")
    case None
    then have "none w = (r, w')" using run by (simp add: bindE_apply find_approval_def reads_apply)
    then show ?thesis by (rule steps_inD [OF assms(1)])
  next
    case (Some a)
    then have "row_of a w" using tb_find_SomeD [OF Some] by (simp add: row_of_def)
    moreover have "f a w = (r, w')" using run Some by (simp add: bindE_apply find_approval_def reads_apply)
    ultimately show ?thesis using assms(2) unfolding sound_from_def by blast
  qed
qed

lemma from_approval_or_fail:
  assumes "\<And>a. sound_from a (f a)"
  shows "steps_in sound (bindE (approval_or_fail i) f)"
proof -
  have "bindE (approval_or_fail i) f =
      bindE (find_approval i) (\<lambda>found. case found of None \<Rightarrow> throw ''EntityNotFoundError'' | Some a \<Rightarrow> f a)"
    by (auto simp: fun_eq_iff approval_or_fail_def find_approval_def of_option_def eff_simps split: option.split)
  then show ?thesis by (simp only:) (intro from_find sounds.in_throw assms)
qed

lemma keeps_approvals:
  "keeps approvals now" "keeps approvals (find_execution i)" "keeps approvals (execution_or_fail i)"
  "keeps approvals (set_status i s)" "keeps approvals (close_execution i s)" "keeps approvals (throw_if c e)"
  by (auto intro!: keepsI simp: now_apply find_execution_def execution_or_fail_def of_option_def eff_simps
      set_status_def close_execution_def throw_if_def split: option.splits if_splits)

lemmas from_now = from_bind [OF keeps_approvals(1) sound_now]

section \<open>The gateway\<close>

lemma sound_executeAndComplete [sound_intros]:
  assumes "library_transport (gd_transport (go_gate gw))"
  shows "steps_in sound (executeAndComplete gw tool i args)"
  unfolding executeAndComplete_def run_upstream_def
  by (intro sounds.in_bindE sounds.in_seqE sound_modify sounds.in_ret)
    (auto simp: key_part_def intro!: sounds.in_rules sound_complete assms split: sum.split)

lemma sound_decideApproval [sound_intros]: "steps_in sound (decideApproval i v actor)"
  unfolding decideApproval_def
proof (rule from_approval_or_fail)
  fix row :: approval_instance
  let ?rest = "seqE (case v of Approved \<Rightarrow> set_status (ai_recordId row) Running
      | Rejected \<Rightarrow> cancel_execution (ai_recordId row)) (ret ())"
  have rest: "steps_in sound ?rest"
    unfolding cancel_execution_def by (cases v) (auto intro!: sounds.in_rules sound_status)
  show "sound_from row (seqE (throw_if (ai_status row \<noteq> PENDING) ''APPROVAL_ALREADY_DECIDED'')
    (bindE now (\<lambda>completedAt. bindE now (\<lambda>t. seqE (update_approvals (\<lambda>r. ai_id r = ai_id row)
      (\<lambda>r. r\<lparr>ai_status := status_of_verdict v, ai_completedAt := Some completedAt,
             ai_history := ai_history row @ [decision_entry row v actor t]\<rparr>)) ?rest))))"
  proof (cases "ai_status row = PENDING")
    case True
    show ?thesis
      by (intro from_seq from_now from_then from_update keeps_approvals sounds.in_throw_if True rest) simp
  next
    case False
    then have refuse: "throw_if (ai_status row \<noteq> PENDING) ''APPROVAL_ALREADY_DECIDED'' = throw ''APPROVAL_ALREADY_DECIDED''"
      by (simp add: throw_if_def)
    show ?thesis
      unfolding refuse by (auto simp: sound_from_def seqE_apply throw_apply sounds.R_refl)
  qed
qed

lemma from_settle: "sound_from row (settle_row row s)"
proof (cases "ai_status row = PENDING")
  case True
  then show ?thesis
    unfolding settle_row_def
    by (simp only: simp_thms if_True) (intro from_now from_then from_update sounds.in_ret; simp)
qed (simp add: settle_row_def from_any sounds.in_ret)

lemma sound_pendingLookup [sound_intros]:
  assumes "library_transport (gd_transport (go_gate gw))"
  shows "steps_in sound (pendingLookup gw i)"
proof -
  have reject: "sound_from row (reject_pending row e paused)" for row e paused
  proof -
    let ?cancel = "if ex_status e \<noteq> Cancelled then seqE (cancel_execution (ai_recordId row)) (ret ()) else ret ()"
    have "keeps approvals ?cancel"
      unfolding cancel_execution_def by (intro keeps_rules keeps_approvals)
    moreover have "steps_in sound ?cancel"
      unfolding cancel_execution_def by (intro sounds.in_rules sound_status)
    ultimately show ?thesis
      unfolding reject_pending_def by (rule from_seq) (intro from_then from_settle sounds.in_ret)
  qed
  have run: "sound_from row (run_pending gw row paused)" for row paused
    unfolding run_pending_def
    by (intro from_then from_settle sounds.in_case_option sounds.in_ret sound_executeAndComplete assms)
  show ?thesis
    unfolding pendingLookup_def Let_def
    by (intro sounds.in_if sounds.in_ret from_find from_bind keeps_approvals sound_find from_if reject run
        from_any [OF sounds.in_ret])
qed

lemma sound_handle_call [sound_intros]:
  assumes "gd_rules (go_gate gw) = in_memory_loadRules rs" "library_transport (gd_transport (go_gate gw))"
  shows "steps_in sound (handle_call gw elicits name args)"
proof -
  have "steps_in sound (call_tool gw elicits name args)"
    unfolding call_tool_def
    by (intro sounds.in_case_option sounds.in_ret sounds.in_bindE sound_gate [OF assms])
      (auto intro!: sounds.in_rules sound_executeAndComplete assms(2) split: gate_result.split)
  then show ?thesis
    unfolding handle_call_def by (intro sounds.in_rules sound_pendingLookup assms(2))
qed

lemma sound_after_elicitation [sound_intros]:
  "library_transport (gd_transport (go_gate gw)) \<Longrightarrow>
     steps_in sound (after_elicitation gw tool held name args d)"
  unfolding after_elicitation_def by (intro sounds.in_rules sound_decideApproval sound_executeAndComplete)

section \<open>The HTTP server\<close>

lemma sound_decide [sound_intros]:
  assumes "local_options rs (sd_engine sd)"
  shows "steps_in sound (decide sd i body)"
proof -
  have norm: "steps_in sound (normalized_decision body)"
    unfolding normalized_decision_def by (auto intro!: sounds.in_rules split: option.split json.split)
  have stored: "keeps approvals (stored_call row)" "steps_in sound (stored_call row)" for row
    unfolding stored_call_def by (intro keeps_rules) (intro sounds.in_rules)
  have reject: "sound_from row (reject_approval row)" if "ai_status row = PENDING" for row
    unfolding reject_approval_def by (intro from_now from_then from_update that sounds.in_ret) simp
  have gated: "sound_from row (approve_gated row)" for row
    unfolding approve_gated_def by (intro from_any sounds.in_rules sound_status)
  have native: "sound_from row (approve_native sd body paused row)" if "ai_status row = PENDING" for row paused
    unfolding approve_native_def
    by (intro from_now from_then from_update that sounds.in_rules sound_resume [OF assms]) simp
  show ?thesis
    unfolding decide_def
    by (intro sounds.in_bindE norm sounds.in_if sounds.in_ret from_approval_or_fail from_if from_bind stored
        from_any [OF sounds.in_ret] reject gated native keeps_approvals sound_find; simp)
qed

lemma sound_post_executions [sound_intros]:
  "local_options rs (sd_engine sd) \<Longrightarrow> steps_in sound (post_executions sd body)"
  unfolding post_executions_def
  by (auto intro!: sounds.in_rules sound_run split: option.split json.split)

lemma sound_post_gate [sound_intros]:
  assumes "gd_rules (sd_gate sd) = in_memory_loadRules rs" "library_transport (gd_transport (sd_gate sd))"
  shows "steps_in sound (post_gate sd body)"
  unfolding post_gate_def
  by (auto intro!: sounds.in_rules sound_gate [OF assms] split: option.split json.split)

lemma sound_post_complete [sound_intros]:
  "library_transport (gd_transport (sd_gate sd)) \<Longrightarrow> steps_in sound (post_complete sd i body)"
  unfolding post_complete_def by (intro sounds.in_rules sound_complete)

section \<open>Whatever is requested\<close>

text \<open>The sidecar of the repository: rules in memory and one of the two transports everywhere.\<close>

definition local_gate :: "gate_deps \<Rightarrow> bool" where
  "local_gate deps \<longleftrightarrow> (\<exists>rs. gd_rules deps = in_memory_loadRules rs) \<and> library_transport (gd_transport deps)"

definition local_sidecar :: "gateway_options \<Rightarrow> sidecar \<Rightarrow> bool" where
  "local_sidecar gw sd \<longleftrightarrow> (\<exists>rs. local_options rs (sd_engine sd)) \<and> local_gate (sd_gate sd) \<and> local_gate (go_gate gw)"

lemma sound_request:
  assumes "local_sidecar gw sd"
  shows "steps_in sound (handle_request gw sd q)"
  using assms unfolding local_sidecar_def local_gate_def
  by (cases q) (auto simp: drop_result_def serve_def intro!: sounds.in_rules intro: sound_intros)

lemma sound_steps:
  assumes "local_sidecar gw sd" "(sidecar_step gw sd)\<^sup>*\<^sup>* w w'"
  shows "sound w w'"
  using assms(2)
proof (induction rule: rtranclp_induct)
  case base
  show ?case by (rule sounds.R_refl)
next
  case (step u v)
  then have "sound u v" using sound_request [OF assms(1)] by (auto elim!: sidecar_stepE dest: steps_inD)
  with step.IH show ?case by (rule sounds.R_trans)
qed

text \<open>
  C26. Whatever requests the sidecar serves, in whatever order, the tables stay well formed: the keys of
  the executions, tool calls, approvals and outbox rows stay unique and are all identifiers that were
  issued, so no identifier ever names two rows.
\<close>

theorem keys_stay_unique:
  assumes "local_sidecar gw sd" and "wf_world w" and "(sidecar_step gw sd)\<^sup>*\<^sup>* w w'"
  shows "wf_world w' \<and> next_uuid w \<le> next_uuid w' \<and> uuid_of w' = uuid_of w"
  using sound_steps [OF assms(1,3)] assms(2) by (auto simp: sound_def issues_def)

text \<open>
  A decision is final across the endpoints: once an approval has been decided, over the console, by
  an elicited answer or by a lookup, no later request of any kind changes or removes its row, and
  its identifier goes on to find it.
\<close>

theorem decided_approvals_stay:
  assumes "local_sidecar gw sd" and "wf_world w" and "(sidecar_step gw sd)\<^sup>*\<^sup>* w w'"
    and "a \<in> set (approvals w)" and "ai_status a \<noteq> PENDING"
  shows "a \<in> set (approvals w') \<and> tb_find (\<lambda>r. ai_id r = ai_id a) (approvals w') = Some a"
proof -
  have w': "wf_world w'" "a \<in> set (approvals w')"
    using sound_steps [OF assms(1,3)] assms(2,4,5) by (auto simp: sound_def)
  then have "keyed ai_id (approvals w')" by (simp add: wf_rows)
  then show ?thesis using w'(2) by (simp add: keyed_find_unique)
qed

section \<open>Instances\<close>

definition serve_all :: "gateway_options \<Rightarrow> sidecar \<Rightarrow> sidecar_request list \<Rightarrow> world \<Rightarrow> world" where
  "serve_all gw sd qs w = fold (\<lambda>q v. snd (handle_request gw sd q v)) qs w"

lemma serve_all_steps: "(sidecar_step gw sd)\<^sup>*\<^sup>* w (serve_all gw sd qs w)"
proof (induction qs arbitrary: w)
  case (Cons q qs)
  have "sidecar_step gw sd w (snd (handle_request gw sd q w))"
    by (rule sidecar_step.request [of gw sd q w "fst (handle_request gw sd q w)"]) simp
  then show ?case using Cons.IH by (simp add: serve_all_def converse_rtranclp_into_rtranclp)
qed (simp add: serve_all_def)

lemma sample_system_local: "local_sidecar sample_gateway sample_sidecar"
  unfolding local_sidecar_def local_gate_def sample_sidecar_def
  using sample_local sample_deps_local sample_gateway_local by auto

definition sample_requests :: "sidecar_request list" where
  "sample_requests = [McpCall False ''memory__echo'' (JObj []), Decide ''id-0'' (decision_body ''approved''),
     PostExecutions (JObj [(''input'', JStr ''go'')]), PostComplete ''id-1'' (JObj [])]"

definition closed_row :: approval_instance where
  "closed_row = (decided_row REJECTED)\<lparr>ai_id := ''id-0''\<rparr>"

definition closed_world :: world where
  "closed_world = sample_world\<lparr>approvals := [closed_row], next_uuid := 1\<rparr>"

lemma closed_world_wf: "wf_world closed_world"
  using sample_world_wf show_nat_digits_small(1)
  by (simp add: wf_rows closed_world_def closed_row_def issued_def keyed_def sample_world_def empty_world_def)

lemma keys_stay_unique_witness:
  "wf_world (serve_all sample_gateway sample_sidecar sample_requests closed_world)"
  using keys_stay_unique [OF sample_system_local closed_world_wf serve_all_steps] by blast

lemma decided_approvals_stay_witness:
  "tb_find (\<lambda>r. ai_id r = ''id-0'') (approvals (serve_all sample_gateway sample_sidecar sample_requests closed_world))
     = Some closed_row"
proof -
  have "closed_row \<in> set (approvals closed_world)" "ai_status closed_row \<noteq> PENDING" "ai_id closed_row = ''id-0''"
    by (simp_all add: closed_world_def closed_row_def decided_row_def)
  then show ?thesis
    using decided_approvals_stay [OF sample_system_local closed_world_wf serve_all_steps, of closed_row] by simp
qed

end
