(* ===== verification/Otel_Exporter.thy ===== *)
theory Otel_Exporter
  imports Executor
begin

text \<open>
  The exporter of the audit chain to OpenTelemetry:
  \<open>governance/packages/sidecar/src/otel/otel-audit-exporter.ts\<close>.

  The collector is an argument, its answer to the \<open>n\<close>-th request: whether the response is ok, or the
  throw of \<open>fetch\<close>. How JavaScript prints a time in nanoseconds, a product of doubles, is the argument
  \<open>printNanos\<close> of a time in milliseconds. The timer is not modelled: a run of the exporter is a sequence of
  ticks.
\<close>

section \<open>Spans\<close>

datatype attr_value = StringValue string | IntValue int | BoolValue bool

type_synonym attribute = "string \<times> attr_value"

definition string_attr :: "string \<Rightarrow> string \<Rightarrow> attribute" where
  "string_attr k v = (k, StringValue v)"

record span_event =
  se_name :: string
  se_time :: string
  se_attributes :: "attribute list"

record otlp_span =
  os_traceId :: string
  os_spanId :: string
  os_parentSpanId :: "string option"
  os_name :: string
  os_kind :: nat
  os_start :: string
  os_end :: string
  os_attributes :: "attribute list"
  os_events :: "span_event list option"
  os_code :: nat
  os_message :: "string option"

record otlp_trace =
  ot_resource :: "attribute list"
  ot_scope :: "string \<times> string"
  ot_spans :: "otlp_span list"

record exporter_options =
  eo_serviceName :: "string option"
  eo_printNanos :: "int \<Rightarrow> string"
  eo_collector :: "nat \<Rightarrow> bool result"

definition undashed :: "string \<Rightarrow> string" where
  "undashed s = filter (\<lambda>c. c \<noteq> CHR ''-'') s"

definition hex16 :: "string act" where
  "hex16 = bindE fresh_id (\<lambda>i. ret (take 16 (undashed i)))"

definition nanos :: "exporter_options \<Rightarrow> int option \<Rightarrow> string act" where
  "nanos opts d = bindE (case d of Some t \<Rightarrow> ret t | None \<Rightarrow> now) (\<lambda>t. ret (eo_printNanos opts t))"

fun map_act :: "('a \<Rightarrow> ('w, 'b) eff) \<Rightarrow> 'a list \<Rightarrow> ('w, 'b list) eff" where
  "map_act f [] = ret []"
| "map_act f (x # xs) = bindE (f x) (\<lambda>y. bindE (map_act f xs) (\<lambda>ys. ret (y # ys)))"

definition show_action :: "history_action \<Rightarrow> string" where
  "show_action a =
     (case a of Submitted \<Rightarrow> ''SUBMITTED'' | Approve \<Rightarrow> ''APPROVED'' | Reject \<Rightarrow> ''REJECTED''
      | Recall \<Rightarrow> ''RECALLED'' | Delegate \<Rightarrow> ''DELEGATED'' | Expire \<Rightarrow> ''EXPIRED'')"

definition decision_event ::
    "exporter_options \<Rightarrow> approval_instance \<Rightarrow> history_entry \<Rightarrow> span_event act" where
  "decision_event opts a step =
     bindE (nanos opts (ai_completedAt a)) (\<lambda>t.
     ret \<lparr>se_name = ''agent_governance.approval.decision'', se_time = t,
          se_attributes = [string_attr ''agent_governance.approval.id'' (ai_id a),
            string_attr ''agent_governance.approval.decision'' (show_action (he_action step)),
            string_attr ''agent_governance.approval.actor'' (he_actorName step)]\<rparr>)"

definition approval_decisions :: "approval_instance \<Rightarrow> history_entry list" where
  "approval_decisions a = filter (\<lambda>h. he_action h = Approve \<or> he_action h = Reject) (ai_history a)"

definition decision_span_events :: "exporter_options \<Rightarrow> approval_instance list \<Rightarrow> span_event list option act" where
  "decision_span_events opts as =
     bindE (map_act (\<lambda>a. map_act (decision_event opts a) (approval_decisions a)) as) (\<lambda>ess.
     ret (if as = [] then None else Some (concat ess)))"

definition root_span ::
    "exporter_options \<Rightarrow> agent_execution \<Rightarrow> string \<Rightarrow> string \<Rightarrow> string \<Rightarrow> span_event list option \<Rightarrow> otlp_span" where
  "root_span opts e spanId startTime endTime events =
     \<lparr>os_traceId = undashed (ex_id e), os_spanId = spanId, os_parentSpanId = None,
      os_name = ''invoke_agent'', os_kind = 1, os_start = startTime, os_end = endTime,
      os_attributes =
        [string_attr ''gen_ai.operation.name'' ''invoke_agent'',
         string_attr ''gen_ai.system'' ''agent-governance'',
         string_attr ''gen_ai.agent.id'' (ex_agentId e),
         string_attr ''agent_governance.execution.id'' (ex_id e),
         string_attr ''agent_governance.execution.status'' (show_status (ex_status e))],
      os_events = events,
      os_code = (if ex_status e = Failed then 2 else 1),
      os_message = (if ex_status e = Failed then Some ''execution failed'' else None)\<rparr>"

definition call_failed :: "tool_call_record \<Rightarrow> bool" where
  "call_failed c \<longleftrightarrow> tc_status c = Some FAILED \<or> tc_status c = Some DENIED \<or> tc_status c = Some BLOCKED"

definition call_span ::
    "exporter_options \<Rightarrow> agent_execution \<Rightarrow> string \<Rightarrow> tool_call_record \<Rightarrow> otlp_span act" where
  "call_span opts e parent c =
     bindE hex16 (\<lambda>spanId.
     bindE (nanos opts (Some (tc_createdAt c))) (\<lambda>startTime.
     bindE (nanos opts (Some (tc_createdAt c + nullish (tc_durationMs c) 0))) (\<lambda>endTime.
     ret \<lparr>os_traceId = undashed (ex_id e), os_spanId = spanId, os_parentSpanId = Some parent,
          os_name = tc_toolName c, os_kind = 1, os_start = startTime, os_end = endTime,
          os_attributes =
            [string_attr ''gen_ai.operation.name'' ''execute_tool'',
             string_attr ''gen_ai.tool.name'' (tc_toolName c),
             string_attr ''agent_governance.tool.status'' (nullish (map_option show_call_status (tc_status c)) []),
             string_attr ''agent_governance.tool.permission_check'' (nullish (tc_permissionCheck c) []),
             string_attr ''agent_governance.tool.guardrail_check'' (nullish (tc_guardrailCheck c) [])],
          os_events = None, os_code = (if call_failed c then 2 else 1), os_message = None\<rparr>)))"

definition buildAuditOtlpTrace ::
    "exporter_options \<Rightarrow> agent_execution \<Rightarrow> tool_call_record list \<Rightarrow> approval_instance list \<Rightarrow> otlp_trace act" where
  "buildAuditOtlpTrace opts e calls as =
     bindE hex16 (\<lambda>rootId.
     bindE (nanos opts (Some (ex_createdAt e))) (\<lambda>startTime.
     bindE (nanos opts (ex_completedAt e)) (\<lambda>endTime.
     bindE (decision_span_events opts as) (\<lambda>events.
     bindE (map_act (call_span opts e rootId) calls) (\<lambda>spans.
     ret \<lparr>ot_resource = [string_attr ''service.name'' (nullish (eo_serviceName opts) ''agent-governance''),
                        string_attr ''agent_governance.export'' ''audit-chain''],
          ot_scope = (''agent-governance.audit'', ''0.1.0''),
          ot_spans = root_span opts e rootId startTime endTime events # spans\<rparr>)))))"

section \<open>The exporter\<close>

record exporter =
  xp_world :: world
  xp_cursor :: "int option"
  xp_sent :: "otlp_trace list"

type_synonym 'a export_act = "(exporter, 'a) eff"

definition on_world :: "'a act \<Rightarrow> 'a export_act" where
  "on_world m = (\<lambda>x. case m (xp_world x) of (r, w) \<Rightarrow> (r, x\<lparr>xp_world := w\<rparr>))"

definition terminal_event :: "outbox_event \<Rightarrow> bool" where
  "terminal_event ev \<longleftrightarrow>
     oe_eventType ev = ''agent.execution.completed'' \<or> oe_eventType ev = ''agent.execution.failed''"

definition batch :: "world \<Rightarrow> outbox_event list" where
  "batch w = take 20 (sort_key oe_createdAt (filter terminal_event (outbox_events w)))"

definition fresh_events :: "exporter \<Rightarrow> outbox_event list" where
  "fresh_events x =
     filter (\<lambda>ev. case xp_cursor x of None \<Rightarrow> True | Some c \<Rightarrow> oe_createdAt ev > c) (batch (xp_world x))"

definition exported_id :: "outbox_event \<Rightarrow> string" where
  "exported_id ev =
     (case map_of (oe_payload ev) ''executionId'' of
        None \<Rightarrow> oe_aggregateId ev | Some JNull \<Rightarrow> oe_aggregateId ev | Some v \<Rightarrow> js_String v)"

definition post_trace :: "exporter_options \<Rightarrow> otlp_trace \<Rightarrow> bool export_act" where
  "post_trace opts t =
     bindE (reads (\<lambda>x. length (xp_sent x))) (\<lambda>n.
     seqE (modify (\<lambda>x. x\<lparr>xp_sent := xp_sent x @ [t]\<rparr>))
       (lift_result (eo_collector opts n)))"

text \<open>The loop over the fresh events; it stops at the first export that is not ok.\<close>

fun export_all :: "exporter_options \<Rightarrow> outbox_event list \<Rightarrow> bool export_act" where
  "export_all opts [] = ret True"
| "export_all opts (ev # evs) =
     bindE (on_world (find_execution (exported_id ev))) (\<lambda>found.
     case found of
       None \<Rightarrow> export_all opts evs
     | Some e \<Rightarrow>
         bindE (reads (\<lambda>x. filter (\<lambda>c. tc_executionId c = Some (exported_id ev)) (tool_calls (xp_world x)))) (\<lambda>calls.
         bindE (reads (\<lambda>x. filter (\<lambda>a. ai_recordId a = exported_id ev) (approvals (xp_world x)))) (\<lambda>as.
         bindE (on_world (buildAuditOtlpTrace opts e calls as)) (\<lambda>body.
         bindE (post_trace opts body) (\<lambda>okay.
         if okay then export_all opts evs else ret False)))))"

definition tick :: "exporter_options \<Rightarrow> unit export_act" where
  "tick opts =
     bindE (reads fresh_events) (\<lambda>fresh.
     if fresh = [] then ret ()
     else bindE (export_all opts fresh) (\<lambda>complete.
       if complete then modify (\<lambda>x. x\<lparr>xp_cursor := Some (oe_createdAt (last fresh))\<rparr>) else ret ()))"

fun ticks :: "exporter_options \<Rightarrow> nat \<Rightarrow> exporter \<Rightarrow> exporter" where
  "ticks opts 0 x = x"
| "ticks opts (Suc n) x = ticks opts n (snd (tick opts x))"

section \<open>What a trace holds\<close>

text \<open>Computations that return, with a value related to their argument, and leave the tables alone.\<close>

definition yields :: "('b \<Rightarrow> bool) \<Rightarrow> 'b act \<Rightarrow> bool" where
  "yields P m \<longleftrightarrow> (\<forall>w. \<exists>y w'. m w = (Inr y, w') \<and> P y \<and> table_part w' = table_part w)"

lemma yields_ret: "P y \<Longrightarrow> yields P (ret y)"
  by (simp add: yields_def ret_apply)

lemma yields_bindE:
  assumes "yields Q m" and "\<And>y. Q y \<Longrightarrow> yields P (f y)"
  shows "yields P (bindE m f)"
  unfolding yields_def
proof
  fix w
  obtain y v where m: "m w = (Inr y, v)" "Q y" "table_part v = table_part w"
    using assms(1) unfolding yields_def by blast
  moreover obtain z u where "f y v = (Inr z, u)" "P z" "table_part u = table_part v"
    using assms(2) [OF m(2)] unfolding yields_def by blast
  ultimately show "\<exists>z u. bindE m f w = (Inr z, u) \<and> P z \<and> table_part u = table_part w"
    by (simp add: bindE_apply)
qed

lemma yields_weaken: "yields Q m \<Longrightarrow> (\<And>y. Q y \<Longrightarrow> P y) \<Longrightarrow> yields P m"
  unfolding yields_def by metis

lemma yieldsE:
  assumes "yields P m"
  obtains y w' where "m w = (Inr y, w')" "P y" "table_part w' = table_part w"
  using assms unfolding yields_def by blast

lemma yields_hex16: "yields (\<lambda>_. True) hex16"
  unfolding hex16_def by (simp add: yields_def eff_simps table_defs)

lemma yields_nanos: "yields (\<lambda>_. True) (nanos opts d)"
  by (cases d) (simp_all add: nanos_def yields_def eff_simps table_defs)

lemma yields_map_act:
  assumes "\<And>x. yields (P x) (f x)"
  shows "yields (list_all2 P xs) (map_act f xs)"
proof (induction xs)
  case Nil
  show ?case by (simp add: yields_ret)
next
  case (Cons x xs)
  show ?case
    unfolding map_act.simps by (intro yields_bindE [OF assms] yields_bindE [OF Cons] yields_ret) simp
qed

definition span_of_call :: "agent_execution \<Rightarrow> string \<Rightarrow> tool_call_record \<Rightarrow> otlp_span \<Rightarrow> bool" where
  "span_of_call e parent c s \<longleftrightarrow> os_traceId s = undashed (ex_id e) \<and> os_parentSpanId s = Some parent
     \<and> os_name s = tc_toolName c \<and> os_code s = (if call_failed c then 2 else 1)"

lemma yields_call_span: "yields (span_of_call e parent c) (call_span opts e parent c)"
  unfolding call_span_def
  by (intro yields_bindE [OF yields_hex16] yields_bindE [OF yields_nanos] yields_ret) (simp add: span_of_call_def)

definition trace_of :: "agent_execution \<Rightarrow> tool_call_record list \<Rightarrow> otlp_trace \<Rightarrow> bool" where
  "trace_of e calls t \<longleftrightarrow> (\<exists>root spans. ot_spans t = root # spans \<and> os_traceId root = undashed (ex_id e)
     \<and> os_name root = ''invoke_agent'' \<and> os_parentSpanId root = None
     \<and> os_code root = (if ex_status e = Failed then 2 else 1)
     \<and> list_all2 (span_of_call e (os_spanId root)) calls spans)"

lemma yields_trace: "yields (trace_of e calls) (buildAuditOtlpTrace opts e calls as)"
proof -
  have event: "yields (\<lambda>_. True) (decision_event opts a h)" for a h
    unfolding decision_event_def by (intro yields_bindE [OF yields_nanos] yields_ret) simp
  have events: "yields (\<lambda>_. True) (map_act (decision_event opts a) hs)" for a hs
    by (rule yields_weaken [OF yields_map_act [of "\<lambda>_ _. True", OF event]]) simp
  have "yields (\<lambda>_. True) (map_act (\<lambda>a. map_act (decision_event opts a) (approval_decisions a)) as)"
    by (rule yields_weaken [OF yields_map_act [of "\<lambda>_ _. True", OF events]]) simp
  then have "yields (\<lambda>_. True) (decision_span_events opts as)"
    unfolding decision_span_events_def by (rule yields_bindE) (simp add: yields_ret)
  then show ?thesis
    unfolding buildAuditOtlpTrace_def
    by (intro yields_bindE [OF yields_hex16] yields_bindE [OF yields_nanos] yields_bindE [of "\<lambda>_. True" "decision_span_events opts as"]
        yields_bindE [OF yields_map_act [OF yields_call_span]] yields_ret)
      (simp_all add: trace_of_def root_span_def)
qed

section \<open>What a batch exports\<close>

definition exported :: "world \<Rightarrow> outbox_event list \<Rightarrow> outbox_event list" where
  "exported w evs = filter (\<lambda>ev. \<exists>e\<in>set (executions w). ex_id e = exported_id ev) evs"

definition trace_id :: "otlp_trace \<Rightarrow> string" where
  "trace_id t = os_traceId (hd (ot_spans t))"

text \<open>Posting a batch: the traces that go out, those accepted, and whether all were.\<close>

lemma export_all_run:
  assumes "export_all opts evs x = (r, x')"
  shows "\<exists>new. xp_sent x' = xp_sent x @ new \<and> xp_cursor x' = xp_cursor x
    \<and> table_part (xp_world x') = table_part (xp_world x)
    \<and> (r = Inr True \<longrightarrow> map trace_id new = map (undashed \<circ> exported_id) (exported (xp_world x) evs)
        \<and> (\<forall>n<length new. eo_collector opts (length (xp_sent x) + n) = Inr True))"
  using assms
proof (induction evs arbitrary: x)
  case Nil
  then show ?case by (simp add: ret_apply exported_def)
next
  case (Cons ev evs)
  let ?w = "xp_world x" and ?i = "exported_id ev"
  show ?case
  proof (cases "tb_find (\<lambda>e. ex_id e = ?i) (executions ?w)")
    case None
    then have "export_all opts evs x = (r, x')"
      using Cons.prems by (simp add: on_world_def find_execution_def eff_simps)
    moreover have "exported ?w (ev # evs) = exported ?w evs"
      using None by (simp add: exported_def tb_find_None_iff)
    ultimately show ?thesis using Cons.IH by simp
  next
    case (Some e)
    let ?calls = "filter (\<lambda>c. tc_executionId c = Some ?i) (tool_calls ?w)"
      and ?as = "filter (\<lambda>a. ai_recordId a = ?i) (approvals ?w)"
    have e: "e \<in> set (executions ?w)" "ex_id e = ?i" using tb_find_SomeD [OF Some] by simp_all
    obtain body w1 where b: "buildAuditOtlpTrace opts e ?calls ?as ?w = (Inr body, w1)"
      "trace_of e ?calls body" "table_part w1 = table_part ?w"
      by (rule yieldsE [OF yields_trace])
    define x1 where "x1 = x\<lparr>xp_world := w1, xp_sent := xp_sent x @ [body]\<rparr>"
    have id: "trace_id body = undashed ?i" using b(2) e(2) by (auto simp: trace_of_def trace_id_def)
    have split: "exported ?w (ev # evs) = ev # exported ?w evs" using e by (auto simp: exported_def)
    have same: "exported w1 evs = exported ?w evs" using b(3) by (simp add: exported_def table_defs)
    have "export_all opts (ev # evs) x = (case eo_collector opts (length (xp_sent x)) of
        Inl m \<Rightarrow> (Inl m, x1) | Inr okay \<Rightarrow> (if okay then export_all opts evs x1 else (Inr False, x1)))"
      using Some b(1)
      by (cases "eo_collector opts (length (xp_sent x))")
        (simp_all add: on_world_def find_execution_def post_trace_def eff_simps x1_def)
    note run = this [unfolded Cons.prems]
    show ?thesis
    proof (cases "eo_collector opts (length (xp_sent x)) = Inr True")
      case True
      then have "export_all opts evs x1 = (r, x')" using run by simp
      from Cons.IH [OF this] obtain new where new: "xp_sent x' = xp_sent x1 @ new" "xp_cursor x' = xp_cursor x1"
        "table_part (xp_world x') = table_part (xp_world x1)"
        "r = Inr True \<longrightarrow> map trace_id new = map (undashed \<circ> exported_id) (exported (xp_world x1) evs)
          \<and> (\<forall>n<length new. eo_collector opts (length (xp_sent x1) + n) = Inr True)"
        by blast
      have accepted: "eo_collector opts (length (xp_sent x) + n) = Inr True"
        if "r = Inr True" "n < length (body # new)" for n
        using that new(4) True by (cases n) (auto simp: x1_def)
      show ?thesis
        using new b(3) id split same accepted by (intro exI [of _ "body # new"]) (auto simp: x1_def)
    next
      case False
      then have "x' = x1" "r \<noteq> Inr True" using run by (auto split: sum.splits if_splits)
      then show ?thesis using b(3) by (intro exI [of _ "[body]"]) (simp add: x1_def)
    qed
  qed
qed

text \<open>In a sorted list the rows up to a bound come first.\<close>

lemma sorted_take_bound:
  assumes "sorted (map k xs)" "n \<le> length (filter (\<lambda>x. k x \<le> c) xs)" "x \<in> set (take n xs)"
  shows "k x \<le> (c :: int)"
  using assms
proof (induction xs arbitrary: n)
  case Nil
  then show ?case by simp
next
  case (Cons y ys)
  show ?case
  proof (cases "k y \<le> c")
    case True
    with Cons show ?thesis by (cases n) auto
  next
    case False
    then have "filter (\<lambda>x. k x \<le> c) (y # ys) = []" using Cons.prems(1) by (auto simp: filter_empty_conv)
    then have "n = 0" using Cons.prems(2) by simp
    then show ?thesis using Cons.prems(3) by simp
  qed
qed

section \<open>Properties\<close>

text \<open>
  The trace of an execution is complete: one root span of the agent, then one child span for every
  tool call, in order and under its tool's name, all with the trace id of the execution; a call span
  carries the error code exactly when the call failed, was denied or was blocked, and the root exactly
  when the execution failed. Building it changes no table.
\<close>

theorem trace_covers_every_call:
  "\<exists>t w'. buildAuditOtlpTrace opts e calls as w = (Inr t, w') \<and> trace_of e calls t
     \<and> length (ot_spans t) = Suc (length calls)
     \<and> map os_name (ot_spans t) = ''invoke_agent'' # map tc_toolName calls
     \<and> map os_traceId (ot_spans t) = replicate (Suc (length calls)) (undashed (ex_id e))
     \<and> executions w' = executions w \<and> tool_calls w' = tool_calls w \<and> approvals w' = approvals w"
proof -
  obtain t w' where t: "buildAuditOtlpTrace opts e calls as w = (Inr t, w')" "trace_of e calls t"
    "table_part w' = table_part w"
    by (rule yieldsE [OF yields_trace])
  obtain root spans where s: "ot_spans t = root # spans" "os_traceId root = undashed (ex_id e)"
    "os_name root = ''invoke_agent''" "list_all2 (span_of_call e (os_spanId root)) calls spans"
    using t(2) by (auto simp: trace_of_def)
  have "length spans = length calls \<and> map os_name spans = map tc_toolName calls
      \<and> map os_traceId spans = replicate (length calls) (undashed (ex_id e))"
    using s(4) by (induction rule: list_all2_induct) (auto simp: span_of_call_def)
  with s t show ?thesis by (auto simp: table_defs)
qed

text \<open>
  No audit record is dropped by a failing collector: the cursor moves only after every fresh event of
  the batch whose execution exists was posted, in order, and each post was accepted; otherwise it stays
  and the next tick tries again.
\<close>

theorem cursor_moves_after_export:
  assumes "tick opts x = (r, x')" "xp_cursor x' \<noteq> xp_cursor x"
  shows "r = Inr () \<and> xp_cursor x' = Some (oe_createdAt (last (fresh_events x)))
    \<and> (\<exists>new. xp_sent x' = xp_sent x @ new
        \<and> map trace_id new = map (undashed \<circ> exported_id) (exported (xp_world x) (fresh_events x))
        \<and> (\<forall>n<length new. eo_collector opts (length (xp_sent x) + n) = Inr True))"
proof -
  have fresh: "fresh_events x \<noteq> []" using assms by (auto simp: tick_def eff_simps)
  obtain s x1 where run: "export_all opts (fresh_events x) x = (s, x1)" by (cases "export_all opts (fresh_events x) x")
  obtain new where new: "xp_sent x1 = xp_sent x @ new" "xp_cursor x1 = xp_cursor x"
    "s = Inr True \<longrightarrow> map trace_id new = map (undashed \<circ> exported_id) (exported (xp_world x) (fresh_events x))
        \<and> (\<forall>n<length new. eo_collector opts (length (xp_sent x) + n) = Inr True)"
    using export_all_run [OF run] by blast
  have "s = Inr True" "x' = x1\<lparr>xp_cursor := Some (oe_createdAt (last (fresh_events x)))\<rparr>" "r = Inr ()"
    using assms fresh run new(2) by (auto simp: tick_def eff_simps split: sum.splits if_splits)
  then show ?thesis using new by auto
qed

text \<open>
  The exporter stops for good: it always reads the twenty oldest events that end an execution, so once
  twenty of them are not after the cursor no tick exports anything, whatever events follow.
\<close>

theorem exporter_stalls_after_twenty:
  assumes "xp_cursor x = Some c"
    and "20 \<le> length (filter (\<lambda>ev. terminal_event ev \<and> oe_createdAt ev \<le> c) (outbox_events (xp_world x)))"
  shows "ticks opts n x = x"
proof -
  let ?evs = "filter terminal_event (outbox_events (xp_world x))"
  have "length (filter (\<lambda>ev. oe_createdAt ev \<le> c) (sort_key oe_createdAt ?evs))
      = length (filter (\<lambda>ev. oe_createdAt ev \<le> c) ?evs)"
    by (metis mset_filter mset_sort size_mset)
  also have "\<dots> = length (filter (\<lambda>ev. terminal_event ev \<and> oe_createdAt ev \<le> c) (outbox_events (xp_world x)))"
    by (simp add: conj_commute)
  finally have "20 \<le> length (filter (\<lambda>ev. oe_createdAt ev \<le> c) (sort_key oe_createdAt ?evs))"
    using assms(2) by simp
  then have "oe_createdAt ev \<le> c" if "ev \<in> set (batch (xp_world x))" for ev
    using sorted_take_bound [of oe_createdAt "sort_key oe_createdAt ?evs" 20 c ev] that by (simp add: batch_def)
  then have "fresh_events x = []" using assms(1) by (auto simp: fresh_events_def filter_empty_conv not_less)
  then have "snd (tick opts x) = x" by (simp add: tick_def eff_simps)
  then show ?thesis by (induction n) simp_all
qed

section \<open>Instances\<close>

definition sample_event :: "nat \<Rightarrow> outbox_event" where
  "sample_event n = \<lparr>oe_id = ''id'' @ show_nat n, oe_workspaceId = ''ws'', oe_topic = ''t'',
     oe_eventType = ''agent.execution.completed'', oe_aggregateType = ''AgentExecution'', oe_aggregateId = ''id-0'',
     oe_payload = [], oe_traceContext = \<lparr>ot_traceId = ''t'', ot_correlationId = ''c'', ot_executionId = None\<rparr>,
     oe_idempotencyKey = None, oe_createdAt = int n, oe_publishedAt = None, oe_attemptCount = 0,
     oe_lastError = None\<rparr>"

definition sample_exporter :: "nat \<Rightarrow> int option \<Rightarrow> exporter" where
  "sample_exporter n cursor =
     \<lparr>xp_world = sample_world\<lparr>executions := [initial_execution sample_input ''id-0'' 0],
        outbox_events := map sample_event [0..<n]\<rparr>,
      xp_cursor = cursor, xp_sent = []\<rparr>"

definition sample_collector :: exporter_options where
  "sample_collector = \<lparr>eo_serviceName = None, eo_printNanos = show_int, eo_collector = (\<lambda>_. Inr True)\<rparr>"

lemma sample_cursor: "xp_cursor (snd (tick sample_collector (sample_exporter 1 None))) = Some 0"
  by code_simp

lemma cursor_moves_after_export_witness:
  "\<exists>new. xp_sent (snd (tick sample_collector (sample_exporter 1 None))) = new \<and> map trace_id new = [''id0'']"
proof -
  have "xp_cursor (snd (tick sample_collector (sample_exporter 1 None))) \<noteq> xp_cursor (sample_exporter 1 None)"
    unfolding sample_cursor by (simp add: sample_exporter_def)
  moreover have "map (undashed \<circ> exported_id) (exported (xp_world (sample_exporter 1 None))
      (fresh_events (sample_exporter 1 None))) = [''id0'']"
    by code_simp
  ultimately show ?thesis
    using cursor_moves_after_export [OF surjective_pairing, of sample_collector "sample_exporter 1 None"]
    by (auto simp: sample_exporter_def)
qed

lemma exporter_stalls_after_twenty_witness:
  "ticks sample_collector 100 (sample_exporter 25 (Some 19)) = sample_exporter 25 (Some 19)"
proof (rule exporter_stalls_after_twenty)
  show "xp_cursor (sample_exporter 25 (Some 19)) = Some 19" by (simp add: sample_exporter_def)
  have "filter (\<lambda>n. int n \<le> 19) [0..<25] = [0..<20]" by code_simp
  then show "20 \<le> length (filter (\<lambda>ev. terminal_event ev \<and> oe_createdAt ev \<le> 19)
      (outbox_events (xp_world (sample_exporter 25 (Some 19)))))"
    by (simp add: sample_exporter_def filter_map o_def terminal_event_def sample_event_def)
qed

end
