(* ===== verification/Metadata_Taxonomy.thy ===== *)
theory Metadata_Taxonomy
  imports Js_Text
begin

text \<open>
  The kinds of metadata components, their identities and the paths of their files:
  \<open>packages/backend/src/modules/metadata-runtime/contracts/metadata-runtime-taxonomy.ts\<close>,
  \<open>metadata-runtime-paths.ts\<close> and \<open>metadata-runtime.constants.ts\<close>.

  A payload is the list of its own members. A member that is \<open>undefined\<close> is left out, which no reader
  here tells from its absence.
\<close>

section \<open>Base names\<close>

text \<open>\<open>path.basename\<close> of a path that does not end in a slash.\<close>

definition basename :: "string \<Rightarrow> string" where
  "basename path = last (split_char (CHR ''/'') path)"

section \<open>Kinds\<close>

datatype taxonomy_kind =
    Roles | Apps | Relationships | Layouts | RecordPages | Views | Menus | ReportFolders | Dashboards
  | Reports | Actions | Flows | Approvals | Prompts | Agents | PermissionSets | Permissions

definition TAXONOMY_KINDS :: "taxonomy_kind list" where
  "TAXONOMY_KINDS = [Roles, Apps, Relationships, Layouts, RecordPages, Views, Menus, ReportFolders,
     Dashboards, Reports, Actions, Flows, Approvals, Prompts, Agents, PermissionSets, Permissions]"

lemma taxonomy_kinds_all: "set TAXONOMY_KINDS = UNIV" "distinct TAXONOMY_KINDS"
proof -
  have "k \<in> set TAXONOMY_KINDS" for k by (cases k) (simp_all add: TAXONOMY_KINDS_def)
  then show "set TAXONOMY_KINDS = UNIV" by auto
qed (simp add: TAXONOMY_KINDS_def)

instantiation taxonomy_kind :: enum
begin

definition enum_taxonomy_kind :: "taxonomy_kind list" where
  "enum_taxonomy_kind = TAXONOMY_KINDS"

definition enum_all_taxonomy_kind :: "(taxonomy_kind \<Rightarrow> bool) \<Rightarrow> bool" where
  "enum_all_taxonomy_kind P = list_all P TAXONOMY_KINDS"

definition enum_ex_taxonomy_kind :: "(taxonomy_kind \<Rightarrow> bool) \<Rightarrow> bool" where
  "enum_ex_taxonomy_kind P = list_ex P TAXONOMY_KINDS"

instance
  by standard (simp_all add: enum_taxonomy_kind_def enum_all_taxonomy_kind_def enum_ex_taxonomy_kind_def
      taxonomy_kinds_all list_all_iff list_ex_iff)

end

fun plural_kind :: "taxonomy_kind \<Rightarrow> string" where
  "plural_kind Roles = ''roles''"
| "plural_kind Apps = ''apps''"
| "plural_kind Relationships = ''relationships''"
| "plural_kind Layouts = ''layouts''"
| "plural_kind RecordPages = ''record-pages''"
| "plural_kind Views = ''views''"
| "plural_kind Menus = ''menus''"
| "plural_kind ReportFolders = ''report-folders''"
| "plural_kind Dashboards = ''dashboards''"
| "plural_kind Reports = ''reports''"
| "plural_kind Actions = ''actions''"
| "plural_kind Flows = ''flows''"
| "plural_kind Approvals = ''approvals''"
| "plural_kind Prompts = ''prompts''"
| "plural_kind Agents = ''agents''"
| "plural_kind PermissionSets = ''permissionsets''"
| "plural_kind Permissions = ''permissions''"

fun singular_kind :: "taxonomy_kind \<Rightarrow> string" where
  "singular_kind Roles = ''role''"
| "singular_kind Apps = ''app''"
| "singular_kind Relationships = ''relationship''"
| "singular_kind Layouts = ''layout''"
| "singular_kind RecordPages = ''record-page''"
| "singular_kind Views = ''view''"
| "singular_kind Menus = ''menu''"
| "singular_kind ReportFolders = ''report-folder''"
| "singular_kind Dashboards = ''dashboard''"
| "singular_kind Reports = ''report''"
| "singular_kind Actions = ''action''"
| "singular_kind Flows = ''flow''"
| "singular_kind Approvals = ''approval''"
| "singular_kind Prompts = ''prompt''"
| "singular_kind Agents = ''agent''"
| "singular_kind PermissionSets = ''permissionset''"
| "singular_kind Permissions = ''permission''"

definition kind_of_plural :: "string \<Rightarrow> taxonomy_kind option" where
  "kind_of_plural s = find (\<lambda>k. plural_kind k = s) TAXONOMY_KINDS"

text \<open>
  The lookup \<open>PLURAL_KIND_BY_SINGULAR[singular]\<close> is one in a plain object: besides its own keys it finds
  the members every object inherits, of which \<open>constructor\<close> is the one that is all lower case.
\<close>

datatype inferred_kind = NoKind | Inferred taxonomy_kind | InheritedMember

definition kind_of_singular :: "string \<Rightarrow> inferred_kind" where
  "kind_of_singular s =
     (case find (\<lambda>k. singular_kind k = s) TAXONOMY_KINDS of
        Some k \<Rightarrow> Inferred k
      | None \<Rightarrow> if s = ''constructor'' then InheritedMember else NoKind)"

section \<open>Paths\<close>

definition normalizePath :: "string \<Rightarrow> string" where
  "normalizePath path =
     (let p = map (\<lambda>c. if c = CHR 0x5C then CHR ''/'' else c) path in
      if starts_with ''./'' p then drop 2 p else if starts_with ''/'' p then drop 1 p else p)"

text \<open>The match of \<open>/\.([a-z]+)\.(json|ya?ml)$/i\<close>: the group lies between the last two dots.\<close>

definition suffix_group :: "string \<Rightarrow> string option" where
  "suffix_group path =
     (case rev (split_char (CHR ''.'') path) of
        ext # word # _ # _ \<Rightarrow>
          if map lower_char ext \<in> {''json'', ''yaml'', ''yml''} \<and> word \<noteq> [] \<and> list_all ascii_letter word
          then Some word else None
      | _ \<Rightarrow> None)"

definition inferTaxonomyKind :: "string \<Rightarrow> inferred_kind" where
  "inferTaxonomyKind path =
     (let normalized = normalizePath path in
      case kind_of_plural (hd (split_char (CHR ''/'') normalized)) of
        Some k \<Rightarrow> Inferred k
      | None \<Rightarrow>
          (case suffix_group normalized of
             None \<Rightarrow> NoKind
           | Some word \<Rightarrow> kind_of_singular (map lower_char word)))"

definition with_extensions :: "string \<Rightarrow> string list" where
  "with_extensions stem = [stem @ ''.json'', stem @ ''.yaml'', stem @ ''.yml'']"

definition FIELD_FILE_SUFFIXES :: "string list" where
  "FIELD_FILE_SUFFIXES = with_extensions ''.field''"

definition OBJECT_FILE_SUFFIXES :: "string list" where
  "OBJECT_FILE_SUFFIXES = with_extensions ''.object''"

definition TAXONOMY_FILE_SUFFIXES :: "string list" where
  "TAXONOMY_FILE_SUFFIXES = concat (map with_extensions
     [''.app'', ''.relationship'', ''.layout'', ''.record-page'', ''.view'', ''.menu'', ''.dashboard'',
      ''.report'', ''.report-folder'', ''.action'', ''.flow'', ''.approval'', ''.prompt'', ''.agent'',
      ''.permissionset'', ''.permission''])"

definition TAXONOMY_SINGLETON_FILE_NAMES :: "string list" where
  "TAXONOMY_SINGLETON_FILE_NAMES = with_extensions ''role'' @ with_extensions ''permissionset''"

definition isFieldFile :: "string \<Rightarrow> bool" where
  "isFieldFile path \<longleftrightarrow> list_ex (\<lambda>suffix. ends_with suffix path) FIELD_FILE_SUFFIXES"

definition isObjectFile :: "string \<Rightarrow> bool" where
  "isObjectFile path \<longleftrightarrow> list_ex (\<lambda>suffix. ends_with suffix path) OBJECT_FILE_SUFFIXES
     \<or> basename path \<in> set (with_extensions ''object'')"

definition isTaxonomyFile :: "string \<Rightarrow> bool" where
  "isTaxonomyFile path \<longleftrightarrow> list_ex (\<lambda>suffix. ends_with suffix path) TAXONOMY_FILE_SUFFIXES
     \<or> basename path \<in> set TAXONOMY_SINGLETON_FILE_NAMES"

definition isSourceFile :: "string \<Rightarrow> bool" where
  "isSourceFile path \<longleftrightarrow> isObjectFile path \<or> isFieldFile path \<or> isTaxonomyFile path"

section \<open>Members of a payload\<close>

definition asString :: "json option \<Rightarrow> string option" where
  "asString v = (case v of Some (JStr s) \<Rightarrow> (if trim s = [] then None else Some (trim s)) | _ \<Rightarrow> None)"

definition first_of :: "jobject \<Rightarrow> string list \<Rightarrow> string option" where
  "first_of payload keys =
     (case filter (\<lambda>v. v \<noteq> None) (map (\<lambda>k. asString (map_of payload k)) keys) of [] \<Rightarrow> None | v # _ \<Rightarrow> v)"

definition first_or :: "jobject \<Rightarrow> string list \<Rightarrow> string \<Rightarrow> string" where
  "first_or payload keys fallback = nullish (first_of payload keys) fallback"

definition dotted :: "string \<Rightarrow> string \<Rightarrow> string" where
  "dotted a b = a @ ''.'' @ b"

definition owned_by_role :: "jobject \<Rightarrow> bool" where
  "owned_by_role payload \<longleftrightarrow>
     asString (map_of payload ''ownerType'') = Some ''role'' \<or> truthy (asString (map_of payload ''roleApiName''))"

definition permission_leaf :: "jobject \<Rightarrow> string" where
  "permission_leaf payload =
     (let object_name = asString (map_of payload ''objectNameSingular'');
          field_name = asString (map_of payload ''fieldName'') in
      case asString (map_of payload ''permissionName'') of
        Some n \<Rightarrow> n
      | None \<Rightarrow>
          (case (object_name, field_name) of
             (Some ob, Some f) \<Rightarrow> dotted ob f
           | (Some ob, None) \<Rightarrow> ob
           | _ \<Rightarrow> first_or payload [''appApiName'', ''menuApiName'', ''permissionType''] ''unknown''))"

section \<open>Identities\<close>

fun componentIdentity :: "taxonomy_kind \<Rightarrow> jobject \<Rightarrow> string" where
  "componentIdentity Layouts p = dotted (first_or p [''objectNameSingular''] ''unknown-object'')
     (first_or p [''apiName'', ''name'', ''label''] ''unknown'')"
| "componentIdentity RecordPages p = dotted (first_or p [''objectNameSingular''] ''unknown-object'')
     (first_or p [''apiName'', ''name'', ''label''] ''unknown'')"
| "componentIdentity Views p = dotted (first_or p [''objectNameSingular''] ''unknown-object'')
     (first_or p [''apiName'', ''name'', ''label''] ''unknown'')"
| "componentIdentity Relationships p = dotted (first_or p [''objectNameSingular''] ''unknown-object'')
     (first_or p [''fieldName'', ''name''] ''unknown'')"
| "componentIdentity Menus p = dotted (first_or p [''appApiName''] ''unknown-app'')
     (first_or p [''apiName'', ''name''] ''unknown'')"
| "componentIdentity ReportFolders p = dotted (first_or p [''folderType''] ''REPORT'')
     (first_or p [''apiName'', ''name''] ''unknown'')"
| "componentIdentity Prompts p = dotted (first_or p [''promptType''] ''template'')
     (first_or p [''apiName'', ''scene'', ''name''] ''unknown'')"
| "componentIdentity Permissions p =
     (let rest = dotted (first_or p [''permissionType''] ''unknown'') (permission_leaf p) in
      if owned_by_role p then ''role:'' @ dotted (first_or p [''roleApiName''] ''unknown-role'') rest
      else dotted (first_or p [''permissionSetApiName''] ''unknown-permissionset'') rest)"
| "componentIdentity _ p = first_or p [''apiName'', ''name'', ''label''] ''unknown''"

section \<open>File paths of components\<close>

definition sanitizeSegment :: "string \<Rightarrow> string" where
  "sanitizeSegment s = map (\<lambda>c. if c = CHR 0x5C \<or> c = CHR ''/'' then CHR ''_'' else c) s"

definition slashed :: "string list \<Rightarrow> string" where
  "slashed parts = concat (case parts of [] \<Rightarrow> [] | p # ps \<Rightarrow> p # map (\<lambda>q. CHR ''/'' # q) ps)"

definition segment :: "jobject \<Rightarrow> string list \<Rightarrow> string \<Rightarrow> string" where
  "segment payload keys fallback = sanitizeSegment (first_or payload keys fallback)"

definition kind_file :: "taxonomy_kind \<Rightarrow> string \<Rightarrow> string \<Rightarrow> string" where
  "kind_file k stem ext = stem @ ''.'' @ singular_kind k @ ''.'' @ ext"

fun taxonomyFilePath :: "taxonomy_kind \<Rightarrow> jobject \<Rightarrow> string \<Rightarrow> string" where
  "taxonomyFilePath Roles p ext =
     slashed [''roles'', segment p [''apiName'', ''name''] ''unknown'', ''role.'' @ ext]"
| "taxonomyFilePath Relationships p ext =
     slashed [''objects'', segment p [''objectNameSingular''] ''unknown-object'', ''relationships'',
       kind_file Relationships (segment p [''fieldName'', ''name''] ''unknown'') ext]"
| "taxonomyFilePath PermissionSets p ext =
     slashed [''permissionsets'', segment p [''apiName'', ''label''] ''unknown'', ''permissionset.'' @ ext]"
| "taxonomyFilePath Permissions p ext =
     (let leaf = kind_file Permissions (segment p [''permissionName'', ''fieldName'', ''objectNameSingular'',
            ''appApiName'', ''menuApiName'', ''permissionType''] ''unknown'') ext in
      if owned_by_role p
      then slashed [''roles'', segment p [''roleApiName''] ''unknown-role'', ''permissions'', leaf]
      else slashed [''permissionsets'', segment p [''permissionSetApiName''] ''unknown-permissionset'',
             ''permissions'', leaf])"
| "taxonomyFilePath k p ext =
     (let leaf = kind_file k (segment p [''apiName'', ''name'', ''label''] ''unknown'') ext;
          under = (\<lambda>key fallback. slashed [plural_kind k, segment p [key] fallback, leaf]) in
      case k of
        Layouts \<Rightarrow> under ''objectNameSingular'' ''unknown-object''
      | RecordPages \<Rightarrow> under ''objectNameSingular'' ''unknown-object''
      | Views \<Rightarrow> under ''objectNameSingular'' ''unknown-object''
      | Menus \<Rightarrow> under ''appApiName'' ''unknown-app''
      | ReportFolders \<Rightarrow> under ''folderType'' ''REPORT''
      | Reports \<Rightarrow> under ''folderApiName'' ''root''
      | Prompts \<Rightarrow> under ''promptType'' ''template''
      | _ \<Rightarrow> slashed [plural_kind k, leaf])"

definition objectFilePath :: "string \<Rightarrow> string \<Rightarrow> bool \<Rightarrow> string" where
  "objectFilePath name ext singleFile =
     (if singleFile then ''objects/'' @ name @ ''.object.'' @ ext else ''objects/'' @ name @ ''/object.'' @ ext)"

definition fieldFilePath :: "string \<Rightarrow> string \<Rightarrow> string \<Rightarrow> string" where
  "fieldFilePath object_name field_name ext =
     ''objects/'' @ object_name @ ''/fields/'' @ field_name @ ''.field.'' @ ext"

section \<open>The payload of a document\<close>

definition as_record :: "json option \<Rightarrow> jobject option" where
  "as_record v = (case v of Some (JObj ps) \<Rightarrow> Some ps | _ \<Rightarrow> None)"

definition envelopePayload :: "jobject \<Rightarrow> taxonomy_kind \<Rightarrow> jobject" where
  "envelopePayload document k =
     (case as_record (map_of document (singular_kind k)) of
        Some nested \<Rightarrow> nested
      | None \<Rightarrow>
          if truthy_json (map_of document ''kind'')
          then jdelete ''schemaVersion'' (jdelete ''kind'' document)
          else document)"

section \<open>Paths and kinds agree\<close>

abbreviation unslash :: "char \<Rightarrow> char" where
  "unslash c \<equiv> (if c = CHR 0x5C then CHR ''/'' else c)"

lemma unslash_kind: "map unslash (plural_kind k) = plural_kind k"
  by (cases k) simp_all

lemma plural_kind_plain: "CHR ''/'' \<notin> set (plural_kind k)"
  by (cases k) simp_all

lemma kind_of_plural_kind: "kind_of_plural (plural_kind k) = Some k"
  by (cases k) (simp_all add: kind_of_plural_def TAXONOMY_KINDS_def)

lemma normalizePath_kind:
  "normalizePath (plural_kind k @ s) = plural_kind k @ map unslash s"
  by (cases k) (simp_all add: normalizePath_def)

lemma infer_from_folder: "inferTaxonomyKind (plural_kind k @ CHR ''/'' # s) = Inferred k"
  by (simp add: inferTaxonomyKind_def normalizePath_kind hd_split_char [OF plural_kind_plain] kind_of_plural_kind)

text \<open>The file extension of a bundle: \<open>json\<close> or \<open>yaml\<close>.\<close>

definition extension :: "bool \<Rightarrow> string" where
  "extension json = (if json then ''json'' else ''yaml'')"

lemma extension_plain: "CHR ''.'' \<notin> set (extension j)" "map unslash (extension j) = extension j"
    "map lower_char (extension j) \<in> {''json'', ''yaml'', ''yml''}"
  by (simp_all add: extension_def lower_char_def code_of_def)

lemma infer_relationship:
  "inferTaxonomyKind (''objects/'' @ s @ ''.relationship.'' @ extension j) = Inferred Relationships"
proof -
  let ?p = "''objects/'' @ s @ ''.relationship.'' @ extension j"
  let ?s = "map unslash (''objects/'' @ s)"
  have n: "normalizePath ?p = ?s @ CHR ''.'' # ''relationship'' @ CHR ''.'' # extension j"
    by (simp add: normalizePath_def extension_plain)
  have "hd (split_char (CHR ''/'') (normalizePath ?p)) = ''objects''"
    by (simp add: normalizePath_def)
  moreover have "split_char (CHR ''.'') (normalizePath ?p)
      = split_char (CHR ''.'') ?s @ [''relationship'', extension j]"
    unfolding n by (simp only: split_char_append split_char_none [OF extension_plain(1)]) simp
  then have "suffix_group (normalizePath ?p) = Some ''relationship''"
    using extension_plain(3) [of j] split_char_not_Nil [of "CHR ''.''" ?s]
    by (simp add: suffix_group_def ascii_letter_def code_of_def split: list.split del: split_char_not_Nil)
  ultimately show ?thesis
    by (simp add: inferTaxonomyKind_def kind_of_plural_def TAXONOMY_KINDS_def kind_of_singular_def
        lower_char_def code_of_def)
qed

lemma infer_slashed: "inferTaxonomyKind (slashed [plural_kind k, q]) = Inferred k"
    "inferTaxonomyKind (slashed [plural_kind k, q, r]) = Inferred k"
    "inferTaxonomyKind (slashed [plural_kind k, q, r, t]) = Inferred k"
  by (simp_all add: slashed_def infer_from_folder)

lemmas infer_folder = infer_slashed [of Roles, simplified] infer_slashed [of PermissionSets, simplified]

lemma infer_relationship_file:
  "inferTaxonomyKind (slashed [''objects'', q, ''relationships'', kind_file Relationships n (extension j)])
     = Inferred Relationships"
  using infer_relationship [of "q @ ''/relationships/'' @ n" j]
  by (simp add: slashed_def kind_file_def)

text \<open>
  The file path built for a component leads back to its kind: a source file loader that reads the
  path infers the kind the bundle writer started from. The one exception is a permission, whose file lies
  in the folder of its owner and is read as a role or a permission set when it does not state its kind.
\<close>

theorem file_paths_name_their_kind:
  "inferTaxonomyKind (taxonomyFilePath k p (extension json)) =
     Inferred (if k = Permissions then (if owned_by_role p then Roles else PermissionSets) else k)"
proof (cases "k = Roles \<or> k = Relationships \<or> k = PermissionSets \<or> k = Permissions")
  case True
  then show ?thesis by (auto simp: infer_folder infer_relationship_file Let_def)
next
  case False
  then show ?thesis
    by (cases k) (simp_all only: taxonomyFilePath.simps taxonomy_kind.simps Let_def infer_slashed if_False, simp_all)
qed

lemma hyphenated_suffix_not_inferred:
  "isTaxonomyFile ''crm/home.record-page.json'' \<and> inferTaxonomyKind ''crm/home.record-page.json'' = NoKind"
  by code_simp

end
