(* ===== verification/Metadata_Parser.thy ===== *)
theory Metadata_Parser
  imports Metadata_Taxonomy "HOL-Library.AList"
begin

text \<open>
  The parser of metadata documents:
  \<open>packages/backend/src/modules/metadata-runtime/parser/metadata-parser.service.ts\<close>.

  A JavaScript \<open>Map\<close> is an association list in insertion order, written by \<open>AList.update\<close>. The name of a
  field is whatever truthy value the document holds under \<open>name\<close>; names are compared as values. The
  parser throws in one case only, which is a result \<open>Inl\<close>.
\<close>

section \<open>Diagnostics and snapshots\<close>

datatype severity = SevError | SevWarning

record diagnostic =
  dg_code :: string
  dg_severity :: severity
  dg_message :: string
  dg_path :: "string option"
  dg_line :: "nat option"
  dg_column :: "nat option"

definition problem :: "string \<Rightarrow> string \<Rightarrow> string \<Rightarrow> diagnostic" where
  "problem code message path =
     \<lparr>dg_code = code, dg_severity = SevError, dg_message = message, dg_path = Some path,
      dg_line = None, dg_column = None\<rparr>"

definition note_of :: "string \<Rightarrow> string \<Rightarrow> string \<Rightarrow> diagnostic" where
  "note_of code message path =
     \<lparr>dg_code = code, dg_severity = SevWarning, dg_message = message, dg_path = Some path,
      dg_line = None, dg_column = None\<rparr>"

definition SCHEMA_VERSION :: string where
  "SCHEMA_VERSION = ''metadata-runtime/v1''"

record snapshot =
  sn_workspaceId :: "string option"
  sn_source :: "string option"
  sn_objects :: "jobject list"
  sn_components :: "taxonomy_kind \<Rightarrow> jobject list"

record loaded_file =
  lf_path :: string
  lf_document :: json

record object_definition =
  od_object :: "jobject option"
  od_fields :: "(json \<times> json) list"

type_synonym object_map = "(string \<times> object_definition) list"

record parse_state =
  ps_objects :: object_map
  ps_components :: "taxonomy_kind \<Rightarrow> jobject list"
  ps_diagnostics :: "diagnostic list"

definition fields_of :: "jobject \<Rightarrow> json list" where
  "fields_of ob = (case map_of ob ''fields'' of Some (JArr fs) \<Rightarrow> fs | _ \<Rightarrow> [])"

definition report :: "diagnostic \<Rightarrow> parse_state \<Rightarrow> parse_state" where
  "report d s = s\<lparr>ps_diagnostics := ps_diagnostics s @ [d]\<rparr>"

definition entry_of :: "string \<Rightarrow> parse_state \<Rightarrow> object_definition" where
  "entry_of name s = nullish (map_of (ps_objects s) name) \<lparr>od_object = None, od_fields = []\<rparr>"

definition put_entry :: "string \<Rightarrow> object_definition \<Rightarrow> parse_state \<Rightarrow> parse_state" where
  "put_entry name e s = s\<lparr>ps_objects := AList.update name e (ps_objects s)\<rparr>"

section \<open>The envelope\<close>

datatype envelope = Invalid | FieldEnvelope | ComponentEnvelope inferred_kind

definition quoted_name :: "string \<Rightarrow> string" where
  "quoted_name s = CHR 0x22 # s @ [CHR 0x22]"

definition schema_check :: "string \<Rightarrow> jobject \<Rightarrow> diagnostic option" where
  "schema_check path document =
     (case as_string (map_of document ''schemaVersion'') of
        Some v \<Rightarrow>
          if v = SCHEMA_VERSION then None
          else if v \<noteq> []
          then Some (problem ''METADATA_RUNTIME_SCHEMA_VERSION_UNSUPPORTED''
                 (''Unsupported metadata runtime schemaVersion '' @ quoted_name v @ '', expected ''
                    @ quoted_name SCHEMA_VERSION) path)
          else Some (note_of ''METADATA_RUNTIME_SCHEMA_VERSION_MISSING''
                 (''Metadata file '' @ quoted_name path @ '' is missing schemaVersion; defaulting to ''
                    @ quoted_name SCHEMA_VERSION @ '' compatibility mode'') path)
      | None \<Rightarrow> Some (note_of ''METADATA_RUNTIME_SCHEMA_VERSION_MISSING''
                 (''Metadata file '' @ quoted_name path @ '' is missing schemaVersion; defaulting to ''
                    @ quoted_name SCHEMA_VERSION @ '' compatibility mode'') path))"

text \<open>The declared kind of a component, in the plural or the singular form.\<close>

definition declared_component :: "string \<Rightarrow> taxonomy_kind option" where
  "declared_component kind =
     (case kind_of_plural kind of Some k \<Rightarrow> Some k | None \<Rightarrow> kind_of_plural (kind @ ''s''))"

definition kind_check :: "string \<Rightarrow> jobject \<Rightarrow> diagnostic list \<times> envelope" where
  "kind_check path document =
     (case as_string (map_of document ''kind'') of
        Some kind \<Rightarrow>
          if kind = [] then
            ([note_of ''METADATA_RUNTIME_KIND_MISSING''
                (''Metadata file '' @ quoted_name path @ '' is missing kind; inferring from path'') path],
             if isFieldFile path then FieldEnvelope else ComponentEnvelope (inferTaxonomyKind path))
          else if kind = ''object'' \<or> kind = ''field'' then
            (let implied = (if isFieldFile path then ''field'' else ''object'') in
             if kind \<noteq> implied
             then ([problem ''METADATA_RUNTIME_KIND_PATH_MISMATCH''
                     (''Metadata file '' @ quoted_name path @ '' declares kind '' @ quoted_name kind
                        @ '' but its path implies '' @ quoted_name implied) path], Invalid)
             else ([], if kind = ''field'' then FieldEnvelope else ComponentEnvelope NoKind))
          else
            (case declared_component kind of
               None \<Rightarrow> ([problem ''METADATA_RUNTIME_KIND_UNSUPPORTED''
                         (''Unsupported metadata runtime kind '' @ quoted_name kind) path], Invalid)
             | Some k \<Rightarrow> ([], ComponentEnvelope (Inferred k)))
      | None \<Rightarrow>
          ([note_of ''METADATA_RUNTIME_KIND_MISSING''
              (''Metadata file '' @ quoted_name path @ '' is missing kind; inferring from path'') path],
           if isFieldFile path then FieldEnvelope else ComponentEnvelope (inferTaxonomyKind path)))"

definition validateDocumentEnvelope :: "string \<Rightarrow> jobject \<Rightarrow> parse_state \<Rightarrow> envelope \<times> parse_state" where
  "validateDocumentEnvelope path document s =
     (case schema_check path document of
        Some d \<Rightarrow>
          if dg_severity d = SevError then (Invalid, report d s)
          else (let (ds, e) = kind_check path document in (e, fold report ds (report d s)))
      | None \<Rightarrow> (let (ds, e) = kind_check path document in (e, fold report ds s)))"

section \<open>Objects\<close>

definition field_label :: "string \<Rightarrow> json \<Rightarrow> string" where
  "field_label object_name name = quoted_name (dotted object_name (js_String name))"

definition member :: "string \<Rightarrow> json \<Rightarrow> json option" where
  "member k v = prop_of k v"

text \<open>One field of an object document: a diagnostic, or a new entry of the map.\<close>

definition consume_field ::
    "string \<Rightarrow> string \<Rightarrow> json \<Rightarrow> (json \<times> json) list \<times> diagnostic list \<Rightarrow> (json \<times> json) list \<times> diagnostic list" where
  "consume_field path object_name field acc =
     (case acc of (listed, ds) \<Rightarrow>
        if \<not> truthy_json (member ''name'' field)
        then (listed, ds @ [problem ''METADATA_RUNTIME_FIELD_NAME_MISSING''
                (''Object '' @ quoted_name object_name @ '' contains a field without name'') path])
        else
          (let name = the (member ''name'' field) in
           if map_of listed name \<noteq> None
           then (listed, ds @ [problem ''METADATA_RUNTIME_DUPLICATE_FIELD''
                   (''Duplicate field definition '' @ field_label object_name name) path])
           else (listed @ [(name, field)], ds)))"

definition consumeObjectDocument :: "string \<Rightarrow> jobject \<Rightarrow> parse_state \<Rightarrow> parse_state" where
  "consumeObjectDocument path document s =
     (let object_doc = nullish (as_record (map_of document ''object'')) document in
      case as_string (map_of object_doc ''nameSingular'') of
        None \<Rightarrow> report (problem ''METADATA_RUNTIME_OBJECT_NAME_MISSING''
                  ''Object definition must include nameSingular'' path) s
      | Some name \<Rightarrow>
          if name = [] then report (problem ''METADATA_RUNTIME_OBJECT_NAME_MISSING''
                  ''Object definition must include nameSingular'' path) s
          else
            (let e = entry_of name s in
             if od_object e \<noteq> None
             then report (problem ''METADATA_RUNTIME_DUPLICATE_OBJECT''
                    (''Duplicate object definition for '' @ quoted_name name) path) s
             else
               (let listed = (case map_of object_doc ''fields'' of Some (JArr fs) \<Rightarrow> fs | _ \<Rightarrow> []);
                    (kept, ds) = fold (consume_field path name) listed (od_fields e, []) in
                put_entry name \<lparr>od_object = Some (jset ''fields'' (JArr []) object_doc), od_fields = kept\<rparr>
                  (fold report ds s))))"

section \<open>Fields\<close>

definition normalizeLegacyRelationField :: "json \<Rightarrow> json" where
  "normalizeLegacyRelationField field =
     (case field of
        JObj ps \<Rightarrow>
          if map_of ps ''type'' \<noteq> Some (JStr ''RELATION'') \<or> truthy_json (map_of ps ''relationDefinition'')
          then field
          else
            (let legacy = nullish (as_record (map_of ps ''relation'')) [];
                 direction = as_string (map_of legacy ''type'');
                 target = as_string (map_of legacy ''targetObject'') in
             if \<not> truthy direction \<or> \<not> truthy target then field
             else JObj (jdelete ''relation'' (jset ''relationDefinition''
                    (JObj [(''direction'', JStr (the direction)),
                           (''targetObjectMetadata'', JObj [(''nameSingular'', JStr (the target))])]) ps)))
      | _ \<Rightarrow> field)"

fun after_objects :: "string list \<Rightarrow> string option" where
  "after_objects [] = None"
| "after_objects (p # ps) =
     (if p = ''objects'' then (case ps of [] \<Rightarrow> None | q # _ \<Rightarrow> Some q) else after_objects ps)"

definition inferObjectName :: "string \<Rightarrow> string option" where
  "inferObjectName path = after_objects (split_char (CHR ''/'') (normalizePath path))"

definition consumeFieldDocument :: "string \<Rightarrow> jobject \<Rightarrow> parse_state \<Rightarrow> parse_state" where
  "consumeFieldDocument path document s =
     (let field = (case as_record (map_of document ''field'') of Some ps \<Rightarrow> JObj ps | None \<Rightarrow> JObj document);
          object_name = (case map_of document ''objectNameSingular'' of
                           Some (JStr n) \<Rightarrow> Some n | _ \<Rightarrow> inferObjectName path) in
      if \<not> truthy object_name
      then report (problem ''METADATA_RUNTIME_FIELD_OBJECT_MISSING''
             ''Field document must include objectNameSingular or follow objects/<Object>/fields/* path'' path) s
      else if \<not> truthy_json (member ''name'' field)
      then report (problem ''METADATA_RUNTIME_FIELD_NAME_MISSING'' ''Field definition must include name'' path) s
      else
        (let owner = the object_name; name = the (member ''name'' field); e = entry_of owner s in
         if map_of (od_fields e) name \<noteq> None
         then report (problem ''METADATA_RUNTIME_DUPLICATE_FIELD''
                (''Duplicate field definition '' @ field_label owner name) path) s
         else put_entry owner (e\<lparr>od_fields := od_fields e @ [(name, normalizeLegacyRelationField field)]\<rparr>) s))"

section \<open>Components\<close>

definition consumeTaxonomyDocument :: "jobject \<Rightarrow> taxonomy_kind \<Rightarrow> parse_state \<Rightarrow> parse_state" where
  "consumeTaxonomyDocument document k s =
     s\<lparr>ps_components := (ps_components s)(k := ps_components s k @ [envelopePayload document k])\<rparr>"

section \<open>All files\<close>

definition parse_file :: "loaded_file \<Rightarrow> parse_state \<Rightarrow> parse_state result" where
  "parse_file file s =
     (let path = normalizePath (lf_path file) in
      case lf_document file of
        JObj document \<Rightarrow>
          (case validateDocumentEnvelope path document s of
             (Invalid, s') \<Rightarrow> Inr s'
           | (FieldEnvelope, s') \<Rightarrow> Inr (consumeFieldDocument path document s')
           | (ComponentEnvelope k, s') \<Rightarrow>
               if isFieldFile path then Inr (consumeFieldDocument path document s')
               else (case k of
                       Inferred t \<Rightarrow> Inr (consumeTaxonomyDocument document t s')
                     | InheritedMember \<Rightarrow> Inl ''Cannot read properties of undefined''
                     | NoKind \<Rightarrow> Inr (consumeObjectDocument path document s')))
      | _ \<Rightarrow> Inr (report (problem ''METADATA_RUNTIME_INVALID_DOCUMENT''
               ''Metadata file must parse into an object document'' path) s))"

fun parse_all :: "loaded_file list \<Rightarrow> parse_state \<Rightarrow> parse_state result" where
  "parse_all [] s = Inr s"
| "parse_all (f # fs) s = (case parse_file f s of Inl e \<Rightarrow> Inl e | Inr s' \<Rightarrow> parse_all fs s')"

definition initial_state :: parse_state where
  "initial_state = \<lparr>ps_objects = [], ps_components = (\<lambda>_. []), ps_diagnostics = []\<rparr>"

definition snapshot_object :: "string \<Rightarrow> object_definition \<Rightarrow> jobject list" where
  "snapshot_object name e =
     (case od_object e of
        None \<Rightarrow> []
      | Some ob \<Rightarrow> [jset ''fields'' (JArr (map snd (od_fields e))) (jset ''nameSingular'' (JStr name) ob)])"

definition orphan :: "string \<times> object_definition \<Rightarrow> diagnostic list" where
  "orphan p =
     (if od_object (snd p) = None
      then [\<lparr>dg_code = ''METADATA_RUNTIME_ORPHAN_FIELDS'', dg_severity = SevError,
             dg_message = ''Fields were provided for object '' @ quoted_name (fst p)
               @ '' but no object definition exists'', dg_path = None,
             dg_line = None, dg_column = None\<rparr>]
      else [])"

definition parsed_snapshot :: "parse_state \<Rightarrow> snapshot" where
  "parsed_snapshot s =
     \<lparr>sn_workspaceId = None, sn_source = None,
      sn_objects = concat (map (\<lambda>(name, e). snapshot_object name e) (ps_objects s)),
      sn_components = ps_components s\<rparr>"

definition parseFiles :: "loaded_file list \<Rightarrow> (snapshot \<times> diagnostic list) result" where
  "parseFiles files =
     (case parse_all files initial_state of
        Inl e \<Rightarrow> Inl e
      | Inr s \<Rightarrow> Inr (parsed_snapshot s, ps_diagnostics s @ concat (map orphan (ps_objects s))))"

section \<open>Names are unique\<close>

text \<open>A field entry is listed under the name its value holds; no object has an empty name.\<close>

definition entry_ok :: "string \<Rightarrow> object_definition \<Rightarrow> bool" where
  "entry_ok name e \<longleftrightarrow> name \<noteq> [] \<and> distinct (map fst (od_fields e))
     \<and> list_all (\<lambda>(n, f). member ''name'' f = Some n) (od_fields e)"

definition names_ok :: "parse_state \<Rightarrow> bool" where
  "names_ok s \<longleftrightarrow> distinct (map fst (ps_objects s)) \<and> list_all (\<lambda>(n, e). entry_ok n e) (ps_objects s)"

lemma fold_report [simp]: "ps_objects (fold report ds s) = ps_objects s"
    "ps_components (fold report ds s) = ps_components s"
    "ps_diagnostics (fold report ds s) = ps_diagnostics s @ ds"
  by (induction ds arbitrary: s) (simp_all add: report_def)

lemma report_parts [simp]: "ps_objects (report d s) = ps_objects s" "ps_components (report d s) = ps_components s"
    "ps_diagnostics (report d s) = ps_diagnostics s @ [d]"
  by (simp_all add: report_def)

lemma entry_of_ok: "names_ok s \<Longrightarrow> name \<noteq> [] \<Longrightarrow> entry_ok name (entry_of name s)"
  by (cases "map_of (ps_objects s) name")
    (auto simp: entry_of_def names_ok_def entry_ok_def list_all_iff dest!: map_of_SomeD)

lemma put_entry_ok: "names_ok s \<Longrightarrow> entry_ok name e \<Longrightarrow> names_ok (put_entry name e s)"
proof -
  assume ok: "names_ok s" and e: "entry_ok name e"
  have d: "distinct (map fst (AList.update name e (ps_objects s)))"
    using ok by (simp add: names_ok_def distinct_update)
  have "entry_ok n e'" if "(n, e') \<in> set (AList.update name e (ps_objects s))" for n e'
  proof -
    have "map_of (AList.update name e (ps_objects s)) n = Some e'" using d that by simp
    then have "n = name \<and> e' = e \<or> (n, e') \<in> set (ps_objects s)"
      by (auto simp: update_conv' split: if_splits dest: map_of_SomeD)
    then show ?thesis using ok e by (auto simp: names_ok_def list_all_iff)
  qed
  then show ?thesis using d by (auto simp: names_ok_def put_entry_def list_all_iff)
qed

lemma put_entry_parts [simp]: "ps_components (put_entry n e s) = ps_components s"
    "ps_diagnostics (put_entry n e s) = ps_diagnostics s"
  by (simp_all add: put_entry_def)

lemma entry_of_reports [simp]: "entry_of n (fold report ds s) = entry_of n s" "entry_of n (report d s) = entry_of n s"
  by (simp_all add: entry_of_def)

lemma names_ok_reports [simp]: "names_ok (fold report ds s) = names_ok s" "names_ok (report d s) = names_ok s"
  by (simp_all add: names_ok_def)

lemma consume_fields_ok:
  assumes "distinct (map fst listed)" "list_all (\<lambda>(n, f). member ''name'' f = Some n) listed"
    "fold (consume_field path name) fs (listed, ds) = (kept, ds')"
  shows "distinct (map fst kept) \<and> list_all (\<lambda>(n, f). member ''name'' f = Some n) kept"
  using assms
proof (induction fs arbitrary: listed ds)
  case (Cons f fs)
  obtain l1 d1 where one: "consume_field path name f (listed, ds) = (l1, d1)" by force
  then have "distinct (map fst l1) \<and> list_all (\<lambda>(n, f). member ''name'' f = Some n) l1"
    using Cons.prems(1,2)
    by (cases "member ''name'' f")
      (auto simp: consume_field_def Let_def map_of_eq_None_iff split: if_splits)
  then show ?case using Cons.IH [of l1 d1] Cons.prems(3) one by simp
qed simp

lemma normalize_keeps_name: "member ''name'' (normalizeLegacyRelationField f) = member ''name'' f"
  by (cases f) (auto simp: normalizeLegacyRelationField_def member_def Let_def map_of_jset map_of_jdelete)

lemma consume_object_ok: "names_ok s \<Longrightarrow> names_ok (consumeObjectDocument path document s)"
proof -
  assume ok: "names_ok s"
  let ?doc = "nullish (as_record (map_of document ''object'')) document"
  show ?thesis
  proof (cases "as_string (map_of ?doc ''nameSingular'')")
    case None
    then show ?thesis using ok by (simp add: consumeObjectDocument_def Let_def)
  next
    case (Some name)
    let ?listed = "case map_of ?doc ''fields'' of Some (JArr fs) \<Rightarrow> fs | _ \<Rightarrow> []"
    obtain kept ds where f: "fold (consume_field path name) ?listed (od_fields (entry_of name s), []) = (kept, ds)"
      by force
    have "entry_ok name \<lparr>od_object = ob, od_fields = kept\<rparr>" if "name \<noteq> []" for ob
      using consume_fields_ok [OF _ _ f] entry_of_ok [OF ok that] by (simp add: entry_ok_def)
    then show ?thesis
      using ok Some f by (simp add: consumeObjectDocument_def Let_def put_entry_ok)
  qed
qed

lemma consume_field_document_ok: "names_ok s \<Longrightarrow> names_ok (consumeFieldDocument path document s)"
proof -
  assume ok: "names_ok s"
  have "entry_ok n ((entry_of n s)\<lparr>od_fields := od_fields (entry_of n s) @ [(v, normalizeLegacyRelationField f)]\<rparr>)"
    if "n \<noteq> []" "map_of (od_fields (entry_of n s)) v = None" "member ''name'' f = Some v" for n v f
    using entry_of_ok [OF ok that(1)] that by (auto simp: entry_ok_def normalize_keeps_name map_of_eq_None_iff)
  moreover have "truthy_json v \<Longrightarrow> v = Some (the v)" for v by (cases v) simp_all
  moreover have "truthy v \<Longrightarrow> the v \<noteq> []" for v by (auto simp: truthy_def split: option.splits)
  ultimately show ?thesis
    using ok by (auto simp: consumeFieldDocument_def Let_def intro!: put_entry_ok)
qed

lemma envelope_parts:
  assumes "validateDocumentEnvelope path document s = (e, s')"
  shows "\<exists>ds. s' = fold report ds s \<and> (e = Invalid \<longrightarrow> (\<exists>d\<in>set ds. dg_severity d = SevError))"
proof -
  have bad: "fst (kind_check path document) = ds \<Longrightarrow> snd (kind_check path document) = Invalid \<Longrightarrow>
      \<exists>d\<in>set ds. dg_severity d = SevError" for ds
    by (auto simp: kind_check_def problem_def Let_def split: option.splits if_splits)
  obtain ds e' where k: "kind_check path document = (ds, e')" by force
  show ?thesis
  proof (cases "schema_check path document")
    case None
    then have "s' = fold report ds s \<and> e = e'" using assms k by (simp add: validateDocumentEnvelope_def)
    then show ?thesis using bad k by auto
  next
    case (Some d)
    show ?thesis
    proof (cases "dg_severity d = SevError")
      case True
      then have "s' = fold report [d] s" using assms Some by (simp add: validateDocumentEnvelope_def)
      then show ?thesis using True by (intro exI [of _ "[d]"]) simp
    next
      case False
      then have "s' = fold report (d # ds) s \<and> e = e'"
        using assms k Some by (simp add: validateDocumentEnvelope_def)
      then show ?thesis using bad k by (intro exI [of _ "d # ds"]) auto
    qed
  qed
qed

lemma parse_file_cases:
  assumes "parse_file f s = Inr s'"
  obtains (problem) d where "dg_severity d = SevError" "s' = report d s"
  | (invalid) ds where "s' = fold report ds s" "\<exists>d\<in>set ds. dg_severity d = SevError"
  | (field) path document ds where "s' = consumeFieldDocument path document (fold report ds s)"
  | (component) document k ds where "s' = consumeTaxonomyDocument document k (fold report ds s)"
  | (obj) path document ds where "s' = consumeObjectDocument path document (fold report ds s)"
proof (cases "\<exists>document. lf_document f = JObj document")
  case True
  then obtain document where JObj: "lf_document f = JObj document" by blast
  let ?path = "normalizePath (lf_path f)"
  obtain e s1 where v: "validateDocumentEnvelope ?path document s = (e, s1)" by force
  obtain ds where ds: "s1 = fold report ds s" "e = Invalid \<longrightarrow> (\<exists>d\<in>set ds. dg_severity d = SevError)"
    using envelope_parts [OF v] by blast
  have "e \<noteq> Invalid \<Longrightarrow> s' = consumeFieldDocument ?path document s1
      \<or> (\<exists>k. s' = consumeTaxonomyDocument document k s1) \<or> s' = consumeObjectDocument ?path document s1"
    using assms JObj v
    by (cases e) (auto simp: parse_file_def Let_def split: if_splits inferred_kind.splits)
  moreover have "e = Invalid \<Longrightarrow> s' = s1" using assms JObj v by (simp add: parse_file_def Let_def)
  ultimately show ?thesis using ds that by blast
next
  case False
  let ?d = "problem ''METADATA_RUNTIME_INVALID_DOCUMENT''
    ''Metadata file must parse into an object document'' (normalizePath (lf_path f))"
  have "s' = report ?d s"
    using assms False by (cases "lf_document f") (simp_all add: parse_file_def Let_def)
  moreover have "dg_severity ?d = SevError" by (simp add: problem_def)
  ultimately show ?thesis using that(1) by blast
qed

lemma parse_file_ok: "names_ok s \<Longrightarrow> parse_file f s = Inr s' \<Longrightarrow> names_ok s'"
  by (erule parse_file_cases)
    (auto simp: consumeTaxonomyDocument_def consume_object_ok consume_field_document_ok, simp_all add: names_ok_def)

lemma parse_all_ok: "names_ok s \<Longrightarrow> parse_all fs s = Inr s' \<Longrightarrow> names_ok s'"
  by (induction fs arbitrary: s) (auto split: sum.splits dest: parse_file_ok)

lemma initial_ok: "names_ok initial_state"
  by (simp add: names_ok_def initial_state_def)

lemma parse_files_state:
  assumes "parseFiles files = Inr (sn, ds)"
  obtains s where "names_ok s" "parse_all files initial_state = Inr s" "sn = parsed_snapshot s"
    "ds = ps_diagnostics s @ concat (map orphan (ps_objects s))"
  using assms parse_all_ok [OF initial_ok] by (auto simp: parseFiles_def split: sum.splits)

lemma snapshot_names:
  "map (\<lambda>ob. map_of ob ''nameSingular'') (concat (map (\<lambda>(n, e). snapshot_object n e) es)) =
     map (\<lambda>p. Some (JStr (fst p))) (filter (\<lambda>p. od_object (snd p) \<noteq> None) es)"
  by (induction es) (auto simp: snapshot_object_def map_of_jset split: option.splits)

lemma field_list_names:
  "list_all (\<lambda>(n, f). member ''name'' f = Some n) fs \<Longrightarrow> map (member ''name'' \<circ> snd) fs = map (Some \<circ> fst) fs"
  by (induction fs) auto

lemma snapshot_object_fields:
  "ob \<in> set (snapshot_object n e) \<Longrightarrow> fields_of ob = map snd (od_fields e)"
  by (auto simp: snapshot_object_def fields_of_def map_of_jset split: option.splits)

section \<open>No document is lost\<close>

definition definition_size :: "object_definition \<Rightarrow> nat" where
  "definition_size e = (if od_object e = None then 0 else 1) + length (od_fields e)"

definition components_size :: "(taxonomy_kind \<Rightarrow> jobject list) \<Rightarrow> nat" where
  "components_size c = sum_list (map (\<lambda>k. length (c k)) TAXONOMY_KINDS)"

definition error_count :: "diagnostic list \<Rightarrow> nat" where
  "error_count ds = length (filter (\<lambda>d. dg_severity d = SevError) ds)"

definition state_size :: "parse_state \<Rightarrow> nat" where
  "state_size s = sum_list (map (definition_size \<circ> snd) (ps_objects s)) + components_size (ps_components s)
     + error_count (ps_diagnostics s)"

definition snapshot_size :: "snapshot \<Rightarrow> nat" where
  "snapshot_size sn = sum_list (map (\<lambda>ob. Suc (length (fields_of ob))) (sn_objects sn))
     + components_size (sn_components sn)"

lemma error_count_append [simp]: "error_count (ds @ es) = error_count ds + error_count es"
  by (simp add: error_count_def)

lemma error_count_one: "error_count [d] = (if dg_severity d = SevError then 1 else 0)"
  by (simp add: error_count_def)

lemma error_count_some: "d \<in> set ds \<Longrightarrow> dg_severity d = SevError \<Longrightarrow> 0 < error_count ds"
  by (auto simp: error_count_def filter_empty_conv)

lemma sum_update:
  "sum_list (map (g \<circ> snd) (AList.update n e al)) + (case map_of al n of None \<Rightarrow> 0 | Some x \<Rightarrow> g x)
     = sum_list (map (g \<circ> snd) al) + (g e :: nat)"
  by (induction al) (auto split: option.splits)

lemma size_put_entry:
  "state_size (put_entry n e s) + definition_size (entry_of n s) = state_size s + definition_size e"
  using sum_update [of definition_size n e "ps_objects s"]
  by (auto simp: state_size_def put_entry_def entry_of_def definition_size_def split: option.splits)

lemma size_reports [simp]: "state_size (fold report ds s) = state_size s + error_count ds"
    "state_size (report d s) = state_size s + error_count [d]"
  by (simp_all add: state_size_def)

lemma problem_counts [simp]: "error_count [problem c m p] = 1"
  by (simp add: error_count_one problem_def)

lemma components_size_add:
  "components_size (c(k := c k @ [x])) = Suc (components_size c)"
  by (cases k) (simp_all add: components_size_def TAXONOMY_KINDS_def)

lemma consume_fields_grow: "length (fst acc) \<le> length (fst (fold (consume_field path name) fs acc))"
proof (induction fs arbitrary: acc)
  case (Cons f fs)
  have "length (fst acc) \<le> length (fst (consume_field path name f acc))"
    by (cases acc) (simp add: consume_field_def Let_def)
  then show ?case using Cons [of "consume_field path name f acc"] by simp
qed simp

lemma size_consume_object: "state_size s < state_size (consumeObjectDocument path document s)"
proof -
  let ?doc = "nullish (as_record (map_of document ''object'')) document"
  show ?thesis
  proof (cases "as_string (map_of ?doc ''nameSingular'')")
    case (Some name)
    let ?listed = "case map_of ?doc ''fields'' of Some (JArr fs) \<Rightarrow> fs | _ \<Rightarrow> []"
    obtain kept ds where f: "fold (consume_field path name) ?listed (od_fields (entry_of name s), []) = (kept, ds)"
      by force
    have "length (od_fields (entry_of name s)) \<le> length kept"
      using consume_fields_grow [of "(od_fields (entry_of name s), [])" path name ?listed] f by simp
    then show ?thesis
      using Some f size_put_entry [of name "\<lparr>od_object = Some (jset ''fields'' (JArr []) ?doc), od_fields = kept\<rparr>"
          "fold report ds s"]
      by (auto simp: consumeObjectDocument_def Let_def definition_size_def)
  qed (simp add: consumeObjectDocument_def Let_def)
qed

lemma size_consume_field: "state_size s < state_size (consumeFieldDocument path document s)"
proof -
  have "state_size (put_entry n ((entry_of n s)\<lparr>od_fields := od_fields (entry_of n s) @ [x]\<rparr>) s) = Suc (state_size s)"
    for n x
    using size_put_entry [of n "(entry_of n s)\<lparr>od_fields := od_fields (entry_of n s) @ [x]\<rparr>" s]
    by (simp add: definition_size_def)
  then show ?thesis by (simp add: consumeFieldDocument_def Let_def)
qed

lemma size_consume_component: "state_size (consumeTaxonomyDocument document k s) = Suc (state_size s)"
  by (simp add: consumeTaxonomyDocument_def state_size_def components_size_add)

lemma size_parse_file: "parse_file f s = Inr s' \<Longrightarrow> state_size s < state_size s'"
  by (erule parse_file_cases)
    (use size_consume_object size_consume_field in \<open>force simp: size_consume_component error_count_one
       dest: error_count_some intro: le_less_trans [rotated]\<close>)+

lemma size_parse_all: "parse_all fs s = Inr s' \<Longrightarrow> state_size s + length fs \<le> state_size s'"
proof (induction fs arbitrary: s)
  case (Cons f fs)
  then obtain s1 where "parse_file f s = Inr s1" "parse_all fs s1 = Inr s'" by (auto split: sum.splits)
  then show ?case using Cons.IH [of s1] size_parse_file [of f s s1] by simp
qed simp

lemma initial_size: "state_size initial_state = 0"
  by (simp add: state_size_def initial_state_def components_size_def error_count_def)

lemma size_snapshot:
  assumes "concat (map orphan es) = []"
  shows "sum_list (map (\<lambda>ob. Suc (length (fields_of ob))) (concat (map (\<lambda>(n, e). snapshot_object n e) es)))
    = sum_list (map (definition_size \<circ> snd) es)"
  using assms
  by (induction es) (auto simp: orphan_def snapshot_object_def definition_size_def fields_of_def map_of_jset
      split: if_splits option.splits)

lemma no_orphans:
  assumes "error_count (concat (map orphan es)) = 0"
  shows "concat (map orphan es) = []"
  using assms by (induction es) (auto simp: orphan_def error_count_one split: if_splits)

lemma parse_file_total:
  assumes "inferTaxonomyKind (normalizePath (lf_path f)) \<noteq> InheritedMember"
  shows "\<exists>s'. parse_file f s = Inr s'"
proof (cases "lf_document f")
  case (JObj document)
  let ?path = "normalizePath (lf_path f)"
  obtain e s1 where v: "validateDocumentEnvelope ?path document s = (e, s1)" by force
  have "snd (kind_check ?path document) \<noteq> ComponentEnvelope InheritedMember"
    using assms by (auto simp: kind_check_def Let_def split: option.splits)
  then have "e \<noteq> ComponentEnvelope InheritedMember"
    using v by (auto simp: validateDocumentEnvelope_def case_prod_beta split: option.splits if_splits)
  then show ?thesis
    using JObj v by (cases e) (auto simp: parse_file_def Let_def split: inferred_kind.splits)
qed (simp_all add: parse_file_def Let_def)

lemma distinct_filter_names:
  "names_ok s \<Longrightarrow> distinct (map (\<lambda>p. Some (JStr (fst p))) (filter (\<lambda>p. od_object (snd p) \<noteq> None) (ps_objects s)))"
  by (auto simp: names_ok_def distinct_map inj_on_def)

lemma fields_distinct: "entry_ok n e \<Longrightarrow> distinct (map (member ''name'') (map snd (od_fields e)))"
proof -
  assume "entry_ok n e"
  then have "map (member ''name'') (map snd (od_fields e)) = map Some (map fst (od_fields e))"
      "distinct (map fst (od_fields e))"
    using field_list_names [of "od_fields e"] by (simp_all add: entry_ok_def)
  then show ?thesis by (simp only: distinct_map inj_on_def option.inject) blast
qed

lemma parsed_unique:
  assumes ok: "names_ok s"
  shows "distinct (map (\<lambda>ob. map_of ob ''nameSingular'') (sn_objects (parsed_snapshot s)))"
    "ob \<in> set (sn_objects (parsed_snapshot s)) \<Longrightarrow> distinct (map (member ''name'') (fields_of ob))"
proof -
  show "distinct (map (\<lambda>ob. map_of ob ''nameSingular'') (sn_objects (parsed_snapshot s)))"
    using distinct_filter_names [OF ok] unfolding parsed_snapshot_def snapshot.simps snapshot_names .
next
  assume "ob \<in> set (sn_objects (parsed_snapshot s))"
  then have "\<exists>(n, e)\<in>set (ps_objects s). ob \<in> set (snapshot_object n e)"
    by (fastforce simp: parsed_snapshot_def)
  then obtain n e where e: "(n, e) \<in> set (ps_objects s)" "ob \<in> set (snapshot_object n e)" by blast
  then have "entry_ok n e" using ok by (auto simp: names_ok_def list_all_iff)
  then show "distinct (map (member ''name'') (fields_of ob))"
    using fields_distinct snapshot_object_fields [OF e(2)] by simp
qed

lemma parse_files_total:
  assumes "list_all (\<lambda>f. inferTaxonomyKind (normalizePath (lf_path f)) \<noteq> InheritedMember) files"
  shows "\<exists>sn ds. parseFiles files = Inr (sn, ds)"
proof -
  have "\<exists>s'. parse_all files s = Inr s'" for s
    using assms
  proof (induction files arbitrary: s)
    case (Cons f fs)
    have "\<exists>s1. parse_file f s = Inr s1" using Cons.prems parse_file_total by simp
    then show ?case using Cons by auto
  qed simp
  then obtain s where "parse_all files initial_state = Inr s" by blast
  then show ?thesis by (simp add: parseFiles_def)
qed

section \<open>Properties\<close>

text \<open>
  Whatever files it reads, the parser returns a snapshot in which no two objects have the same name
  and no two fields of an object do: the second definition is reported and dropped.
\<close>

theorem parsed_names_unique:
  assumes "parseFiles files = Inr (sn, ds)"
  shows "distinct (map (\<lambda>ob. map_of ob ''nameSingular'') (sn_objects sn)) \<and>
    list_all (\<lambda>ob. distinct (map (member ''name'') (fields_of ob))) (sn_objects sn)"
proof -
  obtain s where "names_ok s" "sn = parsed_snapshot s"
    using assms by (elim parse_files_state) blast
  then show ?thesis using parsed_unique by (simp add: list_all_iff)
qed

definition sample_object_file :: loaded_file where
  "sample_object_file = \<lparr>lf_path = ''objects/Deal/object.json'', lf_document = JObj [
     (''schemaVersion'', JStr SCHEMA_VERSION), (''kind'', JStr ''object''), (''nameSingular'', JStr ''Deal''),
     (''fields'', JArr [JObj [(''name'', JStr ''amount'')], JObj [(''name'', JStr ''amount'')]])]\<rparr>"

definition sample_field_file :: loaded_file where
  "sample_field_file = \<lparr>lf_path = ''objects/Deal/fields/stage.field.json'', lf_document = JObj [
     (''schemaVersion'', JStr SCHEMA_VERSION), (''kind'', JStr ''field''), (''name'', JStr ''stage'')]\<rparr>"

lemma parsed_names_unique_witness:
  "\<exists>sn ds. parseFiles [sample_object_file, sample_field_file] = Inr (sn, ds) \<and> length (sn_objects sn) = 1
     \<and> error_count ds = 1 \<and> distinct (map (\<lambda>ob. map_of ob ''nameSingular'') (sn_objects sn))
     \<and> list_all (\<lambda>ob. distinct (map (member ''name'') (fields_of ob))) (sn_objects sn)"
proof -
  obtain sn ds where r: "parseFiles [sample_object_file, sample_field_file] = Inr (sn, ds)"
    "length (sn_objects sn) = 1" "error_count ds = 1"
  proof -
    have "case parseFiles [sample_object_file, sample_field_file] of Inl _ \<Rightarrow> False
      | Inr (sn, ds) \<Rightarrow> length (sn_objects sn) = 1 \<and> error_count ds = 1"
      by code_simp
    then show thesis using that by (auto split: sum.splits)
  qed
  then show ?thesis using parsed_names_unique [OF r(1)] by blast
qed

text \<open>
  When the parser reports no error, no document was dropped: the snapshot holds at least one object,
  field or component for every file that was read.
\<close>

theorem parser_loses_no_document:
  assumes "parseFiles files = Inr (sn, ds)" "error_count ds = 0"
  shows "length files \<le> snapshot_size sn"
proof -
  obtain s where s: "parse_all files initial_state = Inr s" "sn = parsed_snapshot s"
    "ds = ps_diagnostics s @ concat (map orphan (ps_objects s))"
    using assms(1) by (elim parse_files_state) blast
  then have "error_count (ps_diagnostics s) = 0" "concat (map orphan (ps_objects s)) = []"
    using assms(2) no_orphans [of "ps_objects s"] by simp_all
  then have "state_size s = snapshot_size sn"
    using size_snapshot by (simp add: state_size_def snapshot_size_def s(2) parsed_snapshot_def)
  then show ?thesis using size_parse_all [OF s(1)] initial_size by simp
qed

lemma parser_loses_no_document_witness:
  "case parseFiles [sample_field_file, sample_object_file\<lparr>lf_document := JObj [(''nameSingular'', JStr ''Deal'')]\<rparr>] of
     Inl _ \<Rightarrow> False | Inr (sn, ds) \<Rightarrow> error_count ds = 0 \<and> 2 \<le> snapshot_size sn"
proof -
  let ?fs = "[sample_field_file, sample_object_file\<lparr>lf_document := JObj [(''nameSingular'', JStr ''Deal'')]\<rparr>]"
  have "case parseFiles ?fs of Inl _ \<Rightarrow> False | Inr (sn, ds) \<Rightarrow> error_count ds = 0"
    by code_simp
  then obtain sn ds where r: "parseFiles ?fs = Inr (sn, ds)" "error_count ds = 0"
    by (auto split: sum.splits)
  then show ?thesis using parser_loses_no_document [OF r] by simp
qed

lemma parser_throws_on_constructor:
  "parseFiles [\<lparr>lf_path = ''x.constructor.json'', lf_document = JObj []\<rparr>] = Inl ''Cannot read properties of undefined''"
  by code_simp

end
