(* ===== verification/Metadata_Diff.thy ===== *)
theory Metadata_Diff
  imports Metadata_Parser
begin

text \<open>
  The comparison of two snapshots of the metadata:
  \<open>packages/backend/src/modules/metadata-runtime/diff/metadata-diff.service.ts\<close> and
  \<open>utils/metadata-runtime.utils.ts\<close>.

  The order of \<open>localeCompare\<close> is the argument \<open>collate\<close>, the sort key of a text: two texts compare as
  their keys do. A member that is \<open>undefined\<close> is left out, a value read under a missing key is \<open>None\<close>.
\<close>

section \<open>Stable texts\<close>

type_synonym collation = "string \<Rightarrow> nat list"

fun sortValue :: "collation \<Rightarrow> json \<Rightarrow> json" where
  "sortValue collate (JArr vs) = JArr (map (sortValue collate) vs)"
| "sortValue collate (JObj ps) =
     JObj (sort_key (\<lambda>p. collate (fst p)) (map (\<lambda>(k, v). (k, sortValue collate v)) ps))"
| "sortValue collate v = v"

text \<open>\<open>JSON.stringify(value, null, 2)\<close> on a value that stands \<open>n\<close> columns in.\<close>

definition new_line :: "nat \<Rightarrow> string" where
  "new_line n = CHR 0x0A # replicate n (CHR '' '')"

fun pretty :: "nat \<Rightarrow> json \<Rightarrow> string" where
  "pretty n (JArr vs) =
     (if vs = [] then ''[]''
      else ''['' @ new_line (n + 2)
             @ join_with (CHR '','' # new_line (n + 2)) (map (pretty (n + 2)) vs) @ new_line n @ '']'')"
| "pretty n (JObj ps) =
     (if ps = [] then ''{}''
      else ''{'' @ new_line (n + 2)
             @ join_with (CHR '','' # new_line (n + 2))
                 (map (\<lambda>(k, v). quote_string k @ '': '' @ pretty (n + 2) v) ps) @ new_line n @ ''}'')"
| "pretty n v = stringify v"

text \<open>\<open>sortValue\<close> turns \<open>undefined\<close> into the text \<open>String(undefined)\<close>.\<close>

definition stableStringify :: "collation \<Rightarrow> json option \<Rightarrow> string" where
  "stableStringify collate v = pretty 0 (sortValue collate (nullish v (JStr ''undefined'')))"

section \<open>Digests of documents\<close>

definition NAME_KEYS :: "string list" where
  "NAME_KEYS = [''nameSingular'', ''objectNameSingular'']"

fun normalizeContent :: "collation \<Rightarrow> string \<Rightarrow> json \<Rightarrow> json" where
  "normalizeContent collate parent (JArr vs) = JArr (map (normalizeContent collate parent) vs)"
| "normalizeContent collate parent (JObj ps) =
     JObj (sort_key (\<lambda>p. collate (fst p)) (map (\<lambda>(k, v). (k, normalizeContent collate k v)) ps))"
| "normalizeContent collate parent (JStr s) = JStr (if parent \<in> set NAME_KEYS then map lower_char s else s)"
| "normalizeContent collate parent v = v"

definition hashContent :: "collation \<Rightarrow> (string \<Rightarrow> string) \<Rightarrow> string \<Rightarrow> string" where
  "hashContent collate sha256Hex content =
     sha256Hex (case parse_json content of
                  None \<Rightarrow> content
                | Some v \<Rightarrow> stringify (normalizeContent collate [] v))"

section \<open>Sorting a snapshot\<close>

definition text_member :: "string \<Rightarrow> jobject \<Rightarrow> string" where
  "text_member k ps = nullish (as_string (map_of ps k)) []"

definition field_name :: "json \<Rightarrow> string" where
  "field_name f = nullish (map_option js_String (member ''name'' f)) ''undefined''"

definition sortSnapshot :: "collation \<Rightarrow> snapshot \<Rightarrow> snapshot" where
  "sortSnapshot collate sn =
     sn\<lparr>sn_objects := sort_key (\<lambda>ob. collate (text_member ''nameSingular'' ob))
            (map (\<lambda>ob. jset ''fields'' (JArr (sort_key (\<lambda>f. collate (field_name f)) (fields_of ob))) ob)
               (sn_objects sn)),
        sn_components := (\<lambda>k. sort_key (\<lambda>c. collate (componentIdentity k c)) (sn_components sn k))\<rparr>"

section \<open>Normal forms\<close>

text \<open>\<open>{...ps, k: v}\<close>, where \<open>v\<close> may be \<open>undefined\<close>.\<close>

definition jput :: "string \<Rightarrow> json option \<Rightarrow> jobject \<Rightarrow> jobject" where
  "jput k v ps = (case v of None \<Rightarrow> jdelete k ps | Some x \<Rightarrow> jset k x ps)"

definition defined :: "(string \<times> json option) list \<Rightarrow> jobject" where
  "defined ms = concat (map (\<lambda>(k, v). case v of None \<Rightarrow> [] | Some x \<Rightarrow> [(k, x)]) ms)"

definition picked :: "string list \<Rightarrow> json \<Rightarrow> json" where
  "picked keys v = JObj (defined (map (\<lambda>k. (k, member k v)) keys))"

definition picked_if :: "json option \<Rightarrow> string list \<Rightarrow> json option" where
  "picked_if v keys = (if truthy_json v then Some (picked keys (the v)) else None)"

definition normalizedRelation :: "json option \<Rightarrow> json option" where
  "normalizedRelation v =
     (case v of
        Some (JObj ps) \<Rightarrow> Some (JObj (defined
          [(''relationId'', map_of ps ''relationId''), (''direction'', map_of ps ''direction''),
           (''sourceObjectMetadata'', picked_if (map_of ps ''sourceObjectMetadata'') [''nameSingular'', ''namePlural'']),
           (''targetObjectMetadata'', picked_if (map_of ps ''targetObjectMetadata'') [''nameSingular'', ''namePlural'']),
           (''sourceFieldMetadata'', picked_if (map_of ps ''sourceFieldMetadata'') [''name'']),
           (''targetFieldMetadata'', picked_if (map_of ps ''targetFieldMetadata'') [''name''])]))
      | Some (JArr _) \<Rightarrow> Some (JObj [])
      | _ \<Rightarrow> None)"

text \<open>\<open>{...settings}\<close> of an object or an array.\<close>

definition spread :: "json option \<Rightarrow> json option" where
  "spread v = (case v of Some (JArr vs) \<Rightarrow> Some (JObj (zip (map show_nat [0..<length vs]) vs)) | _ \<Rightarrow> v)"

definition rollup_settings :: "json \<Rightarrow> jobject \<Rightarrow> jobject" where
  "rollup_settings rollup ps =
     fold jdelete [''childObjectId'', ''relationFieldId'', ''childFieldId'']
       (fold (\<lambda>k. jput k (member k rollup))
          [''childObjectNameSingular'', ''relationFieldName'', ''childFieldName''] ps)"

definition normalizedSettings :: "jobject \<Rightarrow> json option" where
  "normalizedSettings field =
     (let rollup = Option.bind (map_of field ''referenceHints'') (member ''rollup'') in
      case spread (map_of field ''settings'') of
        Some (JObj ps) \<Rightarrow> Some (JObj (if truthy_json rollup then rollup_settings (the rollup) ps else ps))
      | v \<Rightarrow> v)"

definition normalizeFieldForDiff :: "json \<Rightarrow> jobject" where
  "normalizeFieldForDiff field =
     (let ps = members_of field in
      jput ''settings'' (normalizedSettings ps)
        (jput ''relationDefinition'' (normalizedRelation (map_of ps ''relationDefinition'')) ps))"

definition normalizeObjectForDiff :: "jobject \<Rightarrow> jobject" where
  "normalizeObjectForDiff ob =
     (let hint = (\<lambda>k. Option.bind (map_of ob ''referenceHints'') (member k)) in
      jput ''imageIdentifierFieldName'' (hint ''imageIdentifierFieldName'')
        (jput ''labelIdentifierFieldName'' (hint ''labelIdentifierFieldName'')
          (jset ''fields'' (JArr (map (\<lambda>f. JObj (normalizeFieldForDiff f)) (fields_of ob))) ob)))"

section \<open>Changes\<close>

text \<open>The elements of a \<open>Set\<close> in the order they were added.\<close>

fun uniq :: "'a list \<Rightarrow> 'a list" where
  "uniq [] = []"
| "uniq (x # xs) = x # filter (\<lambda>y. y \<noteq> x) (uniq xs)"

record property_change =
  py_property :: string
  py_before :: "json option"
  py_after :: "json option"

definition getPropertyChanges ::
    "collation \<Rightarrow> jobject option \<Rightarrow> jobject option \<Rightarrow> string list \<Rightarrow> property_change list" where
  "getPropertyChanges collate before after ignoreFields =
     (let b = nullish before []; a = nullish after [];
          keys = filter (\<lambda>k. k \<notin> set ignoreFields) (uniq (map fst b @ map fst a)) in
      filter (\<lambda>c. stableStringify collate (py_before c) \<noteq> stableStringify collate (py_after c))
        (map (\<lambda>k. \<lparr>py_property = k, py_before = map_of b k, py_after = map_of a k\<rparr>) keys))"

datatype change_kind = ObjectChange | FieldChange | ComponentChange taxonomy_kind

datatype change_action = ActCreate | ActUpdate | ActDelete

record change =
  ch_kind :: change_kind
  ch_action :: change_action
  ch_objectName :: string
  ch_fieldName :: "string option"
  ch_component :: "string option"
  ch_before :: "jobject option"
  ch_after :: "jobject option"
  ch_properties :: "property_change list"

type_synonym 'a index = "(string \<times> 'a) list"

definition index_objects :: "snapshot \<Rightarrow> jobject index" where
  "index_objects sn = fold (\<lambda>ob. AList.update (text_member ''nameSingular'' ob) ob) (sn_objects sn) []"

definition field_entries :: "jobject \<Rightarrow> (string \<times> json) list" where
  "field_entries ob = map (\<lambda>f. (dotted (text_member ''nameSingular'' ob) (field_name f), f)) (fields_of ob)"

definition index_fields :: "snapshot \<Rightarrow> json index" where
  "index_fields sn = fold (\<lambda>(i, f). AList.update i f) (concat (map field_entries (sn_objects sn))) []"

definition index_components :: "snapshot \<Rightarrow> taxonomy_kind \<Rightarrow> jobject index" where
  "index_components sn k = fold (\<lambda>c. AList.update (componentIdentity k c) c) (sn_components sn k) []"

text \<open>
  The three loops of the source have one shape: over the identities of both indexes, the current one
  first, with a label for the change, a normal form, and the fields an update ignores.
\<close>

definition compare_index ::
    "collation \<Rightarrow> string list \<Rightarrow> string list \<Rightarrow> (string \<Rightarrow> change) \<Rightarrow> ('a \<Rightarrow> jobject) \<Rightarrow> 'a index \<Rightarrow> 'a index
      \<Rightarrow> change list" where
  "compare_index collate ignored ignoredOnUpdate label normal current target =
     concat (map (\<lambda>i.
       case (map_of current i, map_of target i) of
         (None, Some a) \<Rightarrow>
           [(label i)\<lparr>ch_action := ActCreate, ch_after := Some (normal a),
                      ch_properties := getPropertyChanges collate None (Some (normal a)) ignored\<rparr>]
       | (Some b, None) \<Rightarrow>
           [(label i)\<lparr>ch_action := ActDelete, ch_before := Some (normal b),
                      ch_properties := getPropertyChanges collate (Some (normal b)) None ignored\<rparr>]
       | (Some b, Some a) \<Rightarrow>
           (let changes = getPropertyChanges collate (Some (normal b)) (Some (normal a)) ignoredOnUpdate in
            if changes = [] then []
            else [(label i)\<lparr>ch_action := ActUpdate, ch_before := Some (normal b), ch_after := Some (normal a),
                            ch_properties := changes\<rparr>])
       | (None, None) \<Rightarrow> [])
       (uniq (map fst current @ map fst target)))"

definition change_label :: "change_kind \<Rightarrow> string \<Rightarrow> string option \<Rightarrow> string option \<Rightarrow> change" where
  "change_label k object_name field component =
     \<lparr>ch_kind = k, ch_action = ActUpdate, ch_objectName = object_name, ch_fieldName = field,
      ch_component = component, ch_before = None, ch_after = None, ch_properties = []\<rparr>"

definition object_label :: "string \<Rightarrow> change" where
  "object_label i = change_label ObjectChange i None None"

text \<open>\<open>const [objectNameSingular, fieldName] = identity.split('.')\<close>.\<close>

definition field_change_label :: "string \<Rightarrow> change" where
  "field_change_label i =
     (case split_char (CHR ''.'') i of
        ob # f # _ \<Rightarrow> change_label FieldChange ob (Some f) None
      | [ob] \<Rightarrow> change_label FieldChange ob None None
      | [] \<Rightarrow> change_label FieldChange [] None None)"

definition component_label :: "taxonomy_kind \<Rightarrow> string \<Rightarrow> change" where
  "component_label k i = change_label (ComponentChange k) i None (Some i)"

definition DEFAULT_IGNORE_FIELDS :: "string list" where
  "DEFAULT_IGNORE_FIELDS = [''id'', ''workspaceId'', ''createdAt'', ''updatedAt'', ''objectMetadataId'',
     ''labelIdentifierFieldMetadataId'', ''imageIdentifierFieldMetadataId'']"

record diff_options =
  dp_ignoreFields :: "string list option"
  dp_baseline :: "string option"

record change_counts =
  cc_created :: nat
  cc_updated :: nat
  cc_deleted :: nat

record diff_result =
  df_baseline :: string
  df_changes :: "change list"
  df_objects :: change_counts
  df_fields :: change_counts
  df_taxonomy :: "taxonomy_kind \<Rightarrow> change_counts"
  df_human :: "string list"

definition count_of :: "change list \<Rightarrow> change_kind \<Rightarrow> change_action \<Rightarrow> nat" where
  "count_of changes k a = length (filter (\<lambda>c. ch_kind c = k \<and> ch_action c = a) changes)"

definition counts :: "change list \<Rightarrow> change_kind \<Rightarrow> change_counts" where
  "counts changes k = \<lparr>cc_created = count_of changes k ActCreate,
     cc_updated = count_of changes k ActUpdate, cc_deleted = count_of changes k ActDelete\<rparr>"

definition show_change_action :: "change_action \<Rightarrow> string" where
  "show_change_action a = (case a of ActCreate \<Rightarrow> ''CREATE'' | ActUpdate \<Rightarrow> ''UPDATE'' | ActDelete \<Rightarrow> ''DELETE'')"

definition change_target :: "change \<Rightarrow> string" where
  "change_target c =
     (if truthy (ch_component c) then the (ch_component c)
      else if ch_kind c = ObjectChange then ch_objectName c
      else dotted (ch_objectName c) (nullish (ch_fieldName c) ''undefined''))"

definition human_line :: "change \<Rightarrow> string" where
  "human_line c =
     show_change_action (ch_action c) @ '' ''
       @ (case ch_kind c of ObjectChange \<Rightarrow> ''object'' | FieldChange \<Rightarrow> ''field''
          | ComponentChange k \<Rightarrow> singular_kind k)
       @ '' '' @ change_target c"

definition diff_changes :: "collation \<Rightarrow> string list \<Rightarrow> snapshot \<Rightarrow> snapshot \<Rightarrow> change list" where
  "diff_changes collate ignored current target =
     compare_index collate ignored (ignored @ [''fields'']) object_label normalizeObjectForDiff
       (index_objects current) (index_objects target)
     @ compare_index collate ignored ignored field_change_label normalizeFieldForDiff
         (index_fields current) (index_fields target)
     @ concat (map (\<lambda>k. compare_index collate ignored ignored (component_label k) (\<lambda>c. c)
         (index_components current k) (index_components target k)) TAXONOMY_KINDS)"

definition diffSnapshots :: "collation \<Rightarrow> snapshot \<Rightarrow> snapshot \<Rightarrow> diff_options \<Rightarrow> diff_result" where
  "diffSnapshots collate current target options =
     (let changes = diff_changes collate (nullish (dp_ignoreFields options) DEFAULT_IGNORE_FIELDS) current target in
      \<lparr>df_baseline = nullish (dp_baseline options) ''snapshot'', df_changes = changes,
       df_objects = counts changes ObjectChange, df_fields = counts changes FieldChange,
       df_taxonomy = (\<lambda>k. counts changes (ComponentChange k)), df_human = map human_line changes\<rparr>)"

section \<open>Stable texts determine values\<close>

text \<open>Dropping the white space outside string literals; in a literal a backslash takes the next character with it.\<close>

fun compact :: "bool \<Rightarrow> string \<Rightarrow> string" where
  "compact literal [] = []"
| "compact False (c # s) =
     (if c = CHR '' '' \<or> c = CHR 0x0A then compact False s else c # compact (c = CHR 0x22) s)"
| "compact True [c] = [c]"
| "compact True (c # d # s) =
     (if c = CHR 0x5C then c # d # compact True s else c # compact (c \<noteq> CHR 0x22) (d # s))"

lemma compact_plain: "c \<noteq> CHR 0x5C \<Longrightarrow> c \<noteq> CHR 0x22 \<Longrightarrow> compact True (c # s) = c # compact True s"
  by (cases s) simp_all

lemma hex_digits_plain: "\<forall>k\<in>set [0..<16]. HEX ! k \<noteq> CHR 0x5C \<and> HEX ! k \<noteq> CHR 0x22"
  by code_simp

lemma hex_digit_plain: "k < 16 \<Longrightarrow> HEX ! k \<noteq> CHR 0x5C \<and> HEX ! k \<noteq> CHR 0x22"
  using hex_digits_plain by simp

lemma hex4_plain: "\<forall>d\<in>set (hex4 n). d \<noteq> CHR 0x5C \<and> d \<noteq> CHR 0x22"
  by (simp add: hex4_def hex_digit_plain del: One_nat_def)

lemma compact_plain_list:
  "\<forall>d\<in>set ds. d \<noteq> CHR 0x5C \<and> d \<noteq> CHR 0x22 \<Longrightarrow> compact True (ds @ s) = ds @ compact True s"
  by (induction ds) (simp_all add: compact_plain)

lemma compact_unit: "compact True (quote_unit c @ s) = quote_unit c @ compact True s"
proof -
  have "compact True (hex4 (code_of c) @ s) = hex4 (code_of c) @ compact True s"
    by (intro compact_plain_list hex4_plain)
  then show ?thesis by (auto simp: quote_unit_def compact_plain)
qed

lemma compact_quoted: "compact False (quote_string t @ s) = quote_string t @ compact False s"
proof -
  have "compact True (concat (map quote_unit t) @ CHR 0x22 # s) = concat (map quote_unit t) @ CHR 0x22 # compact False s"
  proof (induction t)
    case Nil
    show ?case by (cases s) simp_all
  qed (simp add: compact_unit)
  then show ?thesis by (simp add: quote_string_def)
qed

lemma compact_outside:
  "\<forall>c\<in>set t. c \<noteq> CHR '' '' \<and> c \<noteq> CHR 0x0A \<and> c \<noteq> CHR 0x22 \<Longrightarrow> compact False (t @ s) = t @ compact False s"
  by (induction t) auto

lemma compact_new_line: "compact False (new_line n @ s) = compact False s"
  unfolding new_line_def by (induction n) simp_all

lemma show_int_outside: "\<forall>c\<in>set (show_int i). c \<noteq> CHR '' '' \<and> c \<noteq> CHR 0x0A \<and> c \<noteq> CHR 0x22"
  using show_int_chars [of _ i] by (fastforce simp: number_char_def is_digit_def)

lemma compact_join:
  assumes "\<And>x s. x \<in> set xs \<Longrightarrow> compact False (f x @ s) = g x @ compact False s"
  shows "compact False (join_with (CHR '','' # new_line n) (map f xs) @ s) = join_comma (map g xs) @ compact False s"
  using assms
proof (induction xs arbitrary: s)
  case (Cons x xs)
  show ?case
  proof (cases xs)
    case Nil
    then show ?thesis using Cons.prems by simp
  next
    case (Cons y ys)
    then have "compact False (join_with (CHR '','' # new_line n) (map f xs) @ s) = join_comma (map g xs) @ compact False s"
      using Cons.IH Cons.prems by simp
    then show ?thesis
      using Cons Cons.prems by (simp add: join_comma_more compact_new_line)
  qed
qed (simp add: join_comma_def)

lemma compact_pretty: "compact False (pretty n v @ s) = stringify v @ compact False s"
proof (induction v arbitrary: n s rule: json_ok.induct)
  case (1 vs)
  have "compact False (join_with (CHR '','' # new_line (n + 2)) (map (pretty (n + 2)) vs) @ t)
      = join_comma (map stringify vs) @ compact False t" for t
    using 1 by (intro compact_join)
  then show ?case by (simp add: compact_new_line join_comma_def)
next
  case (2 ps)
  have "compact False (join_with (CHR '','' # new_line (n + 2))
        (map (\<lambda>(k, v). quote_string k @ '': '' @ pretty (n + 2) v) ps) @ t)
      = join_comma (map (\<lambda>(k, v). quote_string k @ CHR '':'' # stringify v) ps) @ compact False t" for t
    using 2 by (intro compact_join) (auto simp: compact_quoted)
  then show ?case by (simp add: compact_new_line join_comma_def)
next
  case (5 i)
  show ?case using compact_outside [OF show_int_outside] by simp
qed (simp_all add: compact_quoted compact_outside)

lemma pretty_inject: "json_ok a \<Longrightarrow> json_ok b \<Longrightarrow> pretty n a = pretty n b \<Longrightarrow> a = b"
proof -
  assume ok: "json_ok a" "json_ok b" and same: "pretty n a = pretty n b"
  have "stringify v = compact False (pretty n v)" for v
    using compact_pretty [of n v "[]"] by simp
  then have "parse_json (stringify a) = parse_json (stringify b)" using same by metis
  then show "a = b" using ok by (simp add: parse_stringify)
qed

lemma json_ok_sort: "json_ok v \<Longrightarrow> json_ok (sortValue collate v)"
proof (induction v rule: json_ok.induct)
  case (1 vs)
  then show ?case by (simp add: list_all_iff)
next
  case (2 ps)
  let ?qs = "map (\<lambda>(k, v). (k, sortValue collate v)) ps"
  have "map fst ?qs = map fst ps" by (induction ps) auto
  moreover have "distinct (map fst (sort_key h qs)) = distinct (map fst qs)" for h :: "string \<times> json \<Rightarrow> nat list" and qs
  proof -
    have "mset (map fst (sort_key h qs)) = mset (map fst qs)" by simp
    then show ?thesis by (rule mset_eq_imp_distinct_iff)
  qed
  ultimately have "distinct (map fst (sort_key (\<lambda>p. collate (fst p)) ?qs))"
    using 2(2) by (simp only: json_ok.simps)
  then show ?case
    using 2 by (auto simp: list_all_iff simp del: map_map)
qed simp_all

text \<open>Two values have the same stable text exactly when they agree up to the order of their members.\<close>

definition defined_json :: "json option \<Rightarrow> bool" where
  "defined_json v \<longleftrightarrow> (case v of None \<Rightarrow> True | Some x \<Rightarrow> json_ok x)"

section \<open>The loops of the comparison\<close>

lemma set_uniq [simp]: "set (uniq xs) = set xs"
  by (induction xs) auto

lemma distinct_uniq [simp]: "distinct (uniq xs)"
  by (induction xs) auto

lemma filter_concat_one:
  assumes "distinct xs" "\<And>x. x \<noteq> i \<Longrightarrow> filter P (f x) = []"
  shows "filter P (concat (map f xs)) = (if i \<in> set xs then filter P (f i) else [])"
  using assms(1)
proof (induction xs)
  case (Cons x xs)
  then show ?case using assms(2) [of x] by (cases "x = i") auto
qed simp

lemma filter_concat_none:
  "(\<And>x. filter P (f x) = []) \<Longrightarrow> filter P (concat (map f xs)) = []"
  by (induction xs) auto

text \<open>What a comparison has to say of one identity: its entry in the current and in the target index.\<close>

definition agree_except :: "collation \<Rightarrow> string list \<Rightarrow> jobject \<Rightarrow> jobject \<Rightarrow> bool" where
  "agree_except collate ignored b a \<longleftrightarrow>
     list_all (\<lambda>k. k \<in> set ignored \<or> stableStringify collate (map_of b k) = stableStringify collate (map_of a k))
       (map fst b @ map fst a)"

definition expected_action ::
    "collation \<Rightarrow> string list \<Rightarrow> jobject option \<Rightarrow> jobject option \<Rightarrow> change_action list" where
  "expected_action collate ignored before after =
     (case (before, after) of
        (None, None) \<Rightarrow> []
      | (None, Some _) \<Rightarrow> [ActCreate]
      | (Some _, None) \<Rightarrow> [ActDelete]
      | (Some b, Some a) \<Rightarrow> if agree_except collate ignored b a then [] else [ActUpdate])"

lemma no_property_changes:
  "getPropertyChanges collate (Some b) (Some a) ignored = [] \<longleftrightarrow> agree_except collate ignored b a"
  by (auto simp: getPropertyChanges_def agree_except_def filter_empty_conv list_all_iff)

lemma filter_if_list: "filter P (if c then [] else [x]) = (if c \<or> \<not> P x then [] else [x])"
  by simp

lemma compare_index_other:
  assumes "\<And>c i. ch_kind c = ch_kind (label i) \<Longrightarrow> \<not> P c"
  shows "filter P (compare_index collate ignored ignoredU label normal current target) = []"
  unfolding compare_index_def
  by (rule filter_concat_none) (auto simp: Let_def assms split: option.splits)

lemma compare_index_one:
  assumes mine: "\<And>j c. ch_kind c = ch_kind (label j) \<Longrightarrow> ch_objectName c = ch_objectName (label j)
      \<Longrightarrow> ch_component c = ch_component (label j) \<Longrightarrow> P c \<longleftrightarrow> j = i"
  shows "map ch_action (filter P (compare_index collate ignored ignoredU label normal current target))
    = expected_action collate ignoredU (map_option normal (map_of current i)) (map_option normal (map_of target i))"
proof -
  have "i \<notin> fst ` set current \<Longrightarrow> i \<notin> fst ` set target \<Longrightarrow> map_of current i = None \<and> map_of target i = None"
    by (simp add: map_of_eq_None_iff)
  then show ?thesis
    unfolding compare_index_def
    by (subst filter_concat_one [where i = i])
      (auto simp: Let_def mine expected_action_def no_property_changes split: option.splits)
qed

lemma count_filter: "count_of (xs @ ys) k a = count_of xs k a + count_of ys k a"
  by (simp add: count_of_def)

definition counted :: "change_counts \<Rightarrow> nat" where
  "counted c = cc_created c + cc_updated c + cc_deleted c"

lemma counted_counts: "counted (counts cs k) = length (filter (\<lambda>c. ch_kind c = k) cs)"
proof (induction cs)
  case (Cons c cs)
  then show ?case by (cases "ch_action c") (auto simp: counted_def counts_def count_of_def)
qed (simp add: counted_def counts_def count_of_def)

lemma count_component_kinds:
  "length cs = length (filter (\<lambda>c. ch_kind c = ObjectChange) cs) + length (filter (\<lambda>c. ch_kind c = FieldChange) cs)
     + sum_list (map (\<lambda>k. length (filter (\<lambda>c. ch_kind c = ComponentChange k) cs)) TAXONOMY_KINDS)"
proof (induction cs)
  case (Cons c cs)
  have "sum_list (map (\<lambda>k. length (filter (\<lambda>c. ch_kind c = ComponentChange k) (c # cs))) TAXONOMY_KINDS)
    = sum_list (map (\<lambda>k. length (filter (\<lambda>c. ch_kind c = ComponentChange k) cs)) TAXONOMY_KINDS)
      + (case ch_kind c of ComponentChange k \<Rightarrow> 1 | _ \<Rightarrow> 0)"
  proof (cases "ch_kind c")
    case (ComponentChange k)
    then show ?thesis by (cases k) (simp_all add: TAXONOMY_KINDS_def)
  qed simp_all
  then show ?case using Cons by (cases "ch_kind c") simp_all
qed simp

section \<open>Properties\<close>


text \<open>
  The same for every kind of component, by identity.
\<close>

theorem component_changes_exact:
  "map ch_action (filter (\<lambda>c. ch_kind c = ComponentChange k \<and> ch_component c = Some i)
       (df_changes (diffSnapshots collate current target options)))
   = expected_action collate (nullish (dp_ignoreFields options) DEFAULT_IGNORE_FIELDS)
       (map_of (index_components current k) i) (map_of (index_components target k) i)"
proof -
  let ?P = "\<lambda>c. ch_kind c = ComponentChange k \<and> ch_component c = Some i"
  have "filter ?P (compare_index collate g1 g2 field_change_label n c t) = []" for g1 g2 and n :: "json \<Rightarrow> jobject" and c t
    by (rule compare_index_other) (auto simp: field_change_label_def change_label_def split: list.splits)
  moreover have "filter ?P (compare_index collate g1 g2 object_label n c t) = []"
    for g1 g2 and n :: "jobject \<Rightarrow> jobject" and c t
    by (rule compare_index_other) (simp add: object_label_def change_label_def)
  moreover have "filter ?P (compare_index collate g1 g2 (component_label k') n c t) = []" if "k' \<noteq> k"
    for g1 g2 k' and n :: "jobject \<Rightarrow> jobject" and c t
    by (rule compare_index_other) (use that in \<open>simp add: component_label_def change_label_def\<close>)
  then have "filter ?P (concat (map (\<lambda>k. compare_index collate g1 g2 (component_label k) (\<lambda>c. c)
      (index_components current k) (index_components target k)) TAXONOMY_KINDS))
    = filter ?P (compare_index collate g1 g2 (component_label k) (\<lambda>c. c)
      (index_components current k) (index_components target k))" for g1 g2
    by (subst filter_concat_one [where i = k]) (simp_all add: taxonomy_kinds_all)
  moreover have "map ch_action (filter ?P (compare_index collate g1 g2 (component_label k) (\<lambda>c. c) c t))
      = expected_action collate g2 (map_of c i) (map_of t i)" for g1 g2 c t
    using compare_index_one [of "component_label k" ?P i collate g1 g2 "\<lambda>c. c" c t]
    by (simp add: component_label_def change_label_def option.map_ident)
  ultimately show ?thesis
    by (simp add: diffSnapshots_def diff_changes_def Let_def)
qed



text \<open>
  The summary counts every change once: the created, updated and deleted objects, fields and
  components add up to the number of changes.
\<close>

theorem summary_counts_every_change:
  "(let d = diffSnapshots collate current target options in
    length (df_changes d) = length (df_human d)
    \<and> length (df_changes d) = counted (df_objects d) + counted (df_fields d)
        + sum_list (map (\<lambda>k. counted (df_taxonomy d k)) TAXONOMY_KINDS))"
  using count_component_kinds by (simp add: diffSnapshots_def Let_def counted_counts)

lemma undefined_text_hides_a_change:
  "stableStringify collate None = stableStringify collate (Some (JStr ''undefined''))"
  by (simp add: stableStringify_def)

end
