(* ===== verification/Metadata_Plan.thy ===== *)
theory Metadata_Plan
  imports Metadata_Diff
begin

text \<open>
  Loading source files and planning an import:
  \<open>packages/backend/src/modules/metadata-runtime/loader/metadata-source-file-loader.service.ts\<close> and
  \<open>packages/backend/src/community/metadata-runtime/community-metadata-runtime.service.ts\<close>.

  The YAML reader is the argument \<open>load\<close>: the error of the exception it throws, or a value (\<open>undefined\<close> is
  \<open>JNull\<close>; the reader's values are those of JSON). The tables are lists of rows.
\<close>

section \<open>Loading\<close>

record source_file =
  sf_path :: string
  sf_content :: string

record yaml_error =
  ye_message :: string
  ye_line :: "nat option"
  ye_column :: "nat option"

type_synonym yaml_reader = "string \<Rightarrow> yaml_error + json"

definition load_file ::
    "yaml_reader \<Rightarrow> source_file \<Rightarrow> loaded_file list \<times> diagnostic list \<Rightarrow> loaded_file list \<times> diagnostic list" where
  "load_file load f acc =
     (case acc of (files, ds) \<Rightarrow>
        let path = normalizePath (sf_path f) in
        if \<not> isSourceFile path
        then (files, ds @ [note_of ''METADATA_RUNTIME_SOURCE_FILE_IGNORED''
               ''File is outside the metadata-runtime JSON/YAML object, field, and taxonomy contract and was ignored'' path])
        else
          (case load (sf_content f) of
             Inr document \<Rightarrow> (files @ [\<lparr>lf_path = path, lf_document = document\<rparr>], ds)
           | Inl e \<Rightarrow> (files, ds @ [(problem ''METADATA_RUNTIME_PARSE_ERROR'' (ye_message e) path)
               \<lparr>dg_line := map_option Suc (ye_line e), dg_column := map_option Suc (ye_column e)\<rparr>])))"

definition loadFromFiles :: "yaml_reader \<Rightarrow> source_file list \<Rightarrow> loaded_file list \<times> diagnostic list" where
  "loadFromFiles load files = fold (load_file load) files ([], [])"

section \<open>The snapshot of the database\<close>

record field_row =
  fr_columns :: jobject
  fr_createdAt :: "string option"
  fr_updatedAt :: "string option"

record object_row =
  rw_workspaceId :: string
  rw_columns :: jobject
  rw_fields :: "field_row list option"
  rw_createdAt :: "string option"
  rw_updatedAt :: "string option"

definition toIsoString :: "string option \<Rightarrow> json option" where
  "toIsoString v = (if truthy v then Some (JStr (the v)) else None)"

definition FIELD_COLUMNS :: "string list" where
  "FIELD_COLUMNS = [''id'', ''objectMetadataId'', ''type'', ''name'', ''label'', ''description'', ''icon'',
     ''isCustom'', ''isActive'', ''isSystem'', ''isNullable'', ''isUnique'', ''defaultValue'', ''options'',
     ''settings'', ''isLabelSyncedWithName'', ''translations'', ''relationDefinition'']"

definition projectField :: "field_row \<Rightarrow> json" where
  "projectField r = JObj (defined (map (\<lambda>k. (k, map_of (fr_columns r) k)) FIELD_COLUMNS
     @ [(''createdAt'', toIsoString (fr_createdAt r)), (''updatedAt'', toIsoString (fr_updatedAt r))]))"

definition OBJECT_COLUMNS :: "string list" where
  "OBJECT_COLUMNS = [''id'', ''workspaceId'', ''nameSingular'', ''namePlural'', ''labelSingular'', ''labelPlural'',
     ''description'', ''icon'', ''isCustom'', ''isRemote'', ''isActive'', ''isSystem'', ''isSearchable'',
     ''labelIdentifierFieldMetadataId'', ''imageIdentifierFieldMetadataId'', ''shortcut'',
     ''isLabelSyncedWithName'', ''keyPrefix'', ''translations'', ''settings'']"

text \<open>The name of the field an object's column refers to: of the last row with that id.\<close>

definition hint_name :: "field_row list \<Rightarrow> json option \<Rightarrow> json option" where
  "hint_name rows i =
     (if truthy_json i
      then Option.bind (find (\<lambda>r. map_of (fr_columns r) ''id'' = i) (rev rows)) (\<lambda>r. map_of (fr_columns r) ''name'')
      else None)"

definition projectObject :: "object_row \<Rightarrow> jobject" where
  "projectObject r =
     (let rows = nullish (rw_fields r) [] in
      defined (map (\<lambda>k. (k, if k = ''workspaceId'' then Some (JStr (rw_workspaceId r)) else map_of (rw_columns r) k))
                 OBJECT_COLUMNS
        @ [(''referenceHints'', Some (JObj (defined
             [(''labelIdentifierFieldName'', hint_name rows (map_of (rw_columns r) ''labelIdentifierFieldMetadataId'')),
              (''imageIdentifierFieldName'', hint_name rows (map_of (rw_columns r) ''imageIdentifierFieldMetadataId''))]))),
           (''fields'', Some (JArr (map projectField rows))),
           (''createdAt'', toIsoString (rw_createdAt r)), (''updatedAt'', toIsoString (rw_updatedAt r))]))"

text \<open>The database orders the rows by \<open>nameSingular\<close>, with an order of its own.\<close>

definition exportWorkspaceSnapshot :: "collation \<Rightarrow> collation \<Rightarrow> object_row list \<Rightarrow> string \<Rightarrow> snapshot" where
  "exportWorkspaceSnapshot collate dbOrder rows workspaceId =
     (let found = sort_key (\<lambda>r. dbOrder (text_member ''nameSingular'' (rw_columns r)))
                    (filter (\<lambda>r. rw_workspaceId r = workspaceId) rows) in
      sortSnapshot collate
        \<lparr>sn_workspaceId = Some workspaceId, sn_source = Some ''community.database'',
         sn_objects = map projectObject found, sn_components = (\<lambda>_. [])\<rparr>)"

section \<open>Validation\<close>

definition complaint :: "string \<Rightarrow> string \<Rightarrow> diagnostic" where
  "complaint code message = \<lparr>dg_code = code, dg_severity = SevError, dg_message = message, dg_path = None,
     dg_line = None, dg_column = None\<rparr>"

definition object_name_text :: "jobject \<Rightarrow> string" where
  "object_name_text ob = nullish (map_option js_String (map_of ob ''nameSingular'')) ''undefined''"

definition check_field :: "jobject \<Rightarrow> json \<Rightarrow> json option list \<times> diagnostic list \<Rightarrow> json option list \<times> diagnostic list" where
  "check_field ob f acc =
     (case acc of (seen, ds) \<Rightarrow>
        let name = member ''name'' f; kind = member ''type'' f; object_name = object_name_text ob in
        (name # seen,
         ds @ (if \<not> truthy_json name \<or> \<not> truthy_json kind
               then [complaint ''METADATA_RUNTIME_FIELD_IDENTITY_INCOMPLETE''
                       (''Object '' @ quoted_name object_name @ '' has a field without name/type'')] else [])
            @ (if name \<in> set seen
               then [complaint ''METADATA_RUNTIME_DUPLICATE_FIELD''
                       (''Duplicate field '' @ quoted_name (dotted object_name (field_name f)))] else [])
            @ (if kind = Some (JStr ''FORMULA'') \<or> kind = Some (JStr ''ROLLUP'')
               then [complaint ''CAPABILITY_UNAVAILABLE_IN_COMMUNITY''
                       (''Community v0.1 cannot validate '' @ js_String (the kind) @ '' field ''
                          @ quoted_name (dotted object_name (field_name f)))] else [])))"

definition check_object :: "jobject \<Rightarrow> json option list \<times> diagnostic list \<Rightarrow> json option list \<times> diagnostic list" where
  "check_object ob acc =
     (case acc of (seen, ds) \<Rightarrow>
        let name = map_of ob ''nameSingular'' in
        (name # seen,
         ds @ (if \<not> truthy_json name \<or> \<not> truthy_json (map_of ob ''namePlural'')
               then [complaint ''METADATA_RUNTIME_OBJECT_IDENTITY_INCOMPLETE''
                       ''Community metadata objects require nameSingular and namePlural''] else [])
            @ (if name \<in> set seen
               then [complaint ''METADATA_RUNTIME_DUPLICATE_OBJECT''
                       (''Duplicate object '' @ quoted_name (object_name_text ob))] else [])
            @ snd (fold (check_field ob) (fields_of ob) ([], []))))"

definition check_kind :: "snapshot \<Rightarrow> taxonomy_kind \<Rightarrow> diagnostic list" where
  "check_kind sn k =
     (if sn_components sn k \<noteq> []
      then [complaint ''CAPABILITY_UNAVAILABLE_IN_COMMUNITY''
              (''Community v0.1 metadata taxonomy '' @ quoted_name (plural_kind k) @ '' is unavailable'')]
      else [])"

record validation_result =
  vr_valid :: bool
  vr_diagnostics :: "diagnostic list"
  vr_summary :: "string list"

definition summary_line :: "diagnostic \<Rightarrow> string" where
  "summary_line d = (case dg_severity d of SevError \<Rightarrow> ''ERROR'' | SevWarning \<Rightarrow> ''WARNING'') @ '': '' @ dg_message d"

text \<open>
  The sort of the fields calls \<open>left.name.localeCompare\<close>, which a name that is not a text does not have.
  An object with one field is not compared. Where only the field the algorithm never takes as the left
  one has such a name, the source gets by; the model throws.
\<close>

definition is_text :: "json option \<Rightarrow> bool" where
  "is_text v \<longleftrightarrow> as_string v \<noteq> None"

definition sort_throws :: "snapshot \<Rightarrow> bool" where
  "sort_throws sn \<longleftrightarrow>
     list_ex (\<lambda>ob. 2 \<le> length (fields_of ob) \<and> \<not> list_all (\<lambda>f. is_text (member ''name'' f)) (fields_of ob)) (sn_objects sn)"

definition validation_of :: "diagnostic list \<Rightarrow> validation_result" where
  "validation_of ds =
     \<lparr>vr_valid = list_all (\<lambda>d. dg_severity d \<noteq> SevError) ds, vr_diagnostics = ds, vr_summary = map summary_line ds\<rparr>"

definition validateFiles ::
    "collation \<Rightarrow> yaml_reader \<Rightarrow> source_file list \<Rightarrow> (snapshot \<times> validation_result) result" where
  "validateFiles collate load files =
     (let (loaded, lds) = loadFromFiles load files in
      case parseFiles loaded of
        Inl e \<Rightarrow> Inl e
      | Inr (sn, pds) \<Rightarrow>
          (let ds = snd (fold check_object (sn_objects sn) ([], lds @ pds)) @ concat (map (check_kind sn) TAXONOMY_KINDS) in
           if sort_throws sn then Inl ''left.name.localeCompare is not a function''
           else Inr (sortSnapshot collate sn, validation_of ds)))"

section \<open>The plan\<close>

record import_plan =
  pl_dryRun :: bool
  pl_destructiveSync :: bool
  pl_snapshot :: snapshot
  pl_validation :: validation_result
  pl_diff :: diff_result

definition buildDryRunPlan ::
    "collation \<Rightarrow> collation \<Rightarrow> yaml_reader \<Rightarrow> object_row list \<Rightarrow> string \<Rightarrow> source_file list \<Rightarrow> import_plan result" where
  "buildDryRunPlan collate dbOrder load rows workspaceId files =
     (let current = exportWorkspaceSnapshot collate dbOrder rows workspaceId in
      case validateFiles collate load files of
        Inl e \<Rightarrow> Inl e
      | Inr (sn, v) \<Rightarrow>
          (let target = sn\<lparr>sn_workspaceId := Some workspaceId\<rparr> in
           Inr \<lparr>pl_dryRun = True, pl_destructiveSync = False, pl_snapshot = target, pl_validation = v,
                pl_diff = diffSnapshots collate current target \<lparr>dp_ignoreFields = None, dp_baseline = Some ''database''\<rparr>\<rparr>))"

record unavailable =
  uv_available :: bool
  uv_code :: string
  uv_capability :: string

definition unavailableCommunityCapability :: "string \<Rightarrow> unavailable" where
  "unavailableCommunityCapability c =
     \<lparr>uv_available = False, uv_code = ''CAPABILITY_UNAVAILABLE_IN_COMMUNITY'', uv_capability = c\<rparr>"

definition packageRegistryCapability :: unavailable where
  "packageRegistryCapability = unavailableCommunityCapability ''packageRegistryDeployment''"

definition apply_plan :: "unit result" where
  "apply_plan =
     (let u = unavailableCommunityCapability ''packageRegistryDeployment'' in Inl (uv_code u @ '':'' @ uv_capability u))"

section \<open>Source files have a kind the parser knows\<close>

lemma ends_with_iff: "ends_with suffix s \<longleftrightarrow> (\<exists>t. s = t @ suffix)"
  by (auto simp: ends_with_def starts_with_iff) (metis rev_append rev_rev_ident)

text \<open>A name without slashes at the end of a path stays there when the path is normalised.\<close>

definition plain_name :: "string \<Rightarrow> bool" where
  "plain_name s \<longleftrightarrow> CHR ''/'' \<notin> set s \<and> CHR 0x5C \<notin> set s"

lemma unslash_plain: "plain_name s \<Longrightarrow> map unslash s = s"
  by (induction s) (auto simp: plain_name_def)

lemma starts_with_slash: "starts_with ''/'' s \<longleftrightarrow> (\<exists>t. s = CHR ''/'' # t)"
  "starts_with ''./'' s \<longleftrightarrow> (\<exists>t. s = CHR ''.'' # CHR ''/'' # t)"
  by (auto simp: starts_with_iff)

lemma normalize_suffix:
  assumes "plain_name s" "s \<noteq> []"
  shows "\<exists>n. normalizePath (p @ s) = drop n (map unslash p) @ s"
proof -
  let ?m = "map unslash p"
  have slash: "CHR ''/'' \<notin> set s" using assms by (simp add: plain_name_def)
  have m: "map unslash (p @ s) = ?m @ s" using unslash_plain [OF assms(1)] by simp
  consider (dot) t where "?m @ s = CHR ''.'' # CHR ''/'' # t" | (root) t where "?m @ s = CHR ''/'' # t"
    | (other) "\<nexists>t. ?m @ s = CHR ''.'' # CHR ''/'' # t" "\<nexists>t. ?m @ s = CHR ''/'' # t"
    by blast
  then show ?thesis
  proof cases
    case dot
    then obtain u where "?m = CHR ''.'' # CHR ''/'' # u"
      using slash by (cases ?m; cases "tl ?m") auto
    then show ?thesis using unslash_plain [OF assms(1)]
      by (intro exI [of _ 2]) (simp add: normalizePath_def)
  next
    case root
    then obtain u where "?m = CHR ''/'' # u" using slash by (cases ?m) auto
    then show ?thesis using unslash_plain [OF assms(1)]
      by (intro exI [of _ 1]) (simp add: normalizePath_def)
  next
    case other
    then have "normalizePath (p @ s) = ?m @ s"
      unfolding normalizePath_def m Let_def starts_with_slash by simp
    then show ?thesis by (intro exI [of _ 0]) simp
  qed
qed

definition known_suffix :: "string \<Rightarrow> string \<Rightarrow> bool" where
  "known_suffix word ext \<longleftrightarrow> plain_name (word @ ext) \<and> CHR ''.'' \<notin> set (word @ ext) \<and> map lower_char word \<noteq> ''constructor''"

lemma suffix_group_dotted:
  assumes "known_suffix word ext"
  shows "suffix_group (q @ CHR ''.'' # word @ CHR ''.'' # ext) \<in> {None, Some word}"
proof -
  have "CHR ''.'' \<notin> set word" "CHR ''.'' \<notin> set ext" using assms by (simp_all add: known_suffix_def)
  then have "split_char (CHR ''.'') (q @ CHR ''.'' # word @ CHR ''.'' # ext)
      = split_char (CHR ''.'') q @ [word, ext]"
    by (simp add: split_char_append split_char_none)
  then show ?thesis by (auto simp: suffix_group_def split: list.split)
qed

lemma last_split_char: "c \<notin> set t \<Longrightarrow> \<exists>u. last (split_char c (s @ t)) = u @ t"
proof (induction s)
  case Nil
  then show ?case by (simp add: split_char_none)
next
  case (Cons x s)
  then show ?case by (auto split: list.split)
qed

lemma suffix_group_base:
  assumes "known_suffix stem ext"
  shows "suffix_group (stem @ CHR ''.'' # ext) = None"
    "suffix_group (q @ CHR ''/'' # stem @ CHR ''.'' # ext) = None"
proof -
  have plain: "CHR ''.'' \<notin> set stem" "CHR ''.'' \<notin> set ext" using assms by (simp_all add: known_suffix_def)
  then show "suffix_group (stem @ CHR ''.'' # ext) = None"
    by (simp add: suffix_group_def split_char_append split_char_none)
  obtain u where u: "last (split_char (CHR ''.'') (q @ CHR ''/'' # stem)) = u @ CHR ''/'' # stem"
    using last_split_char [of "CHR ''.''" "CHR ''/'' # stem" q] plain by auto
  have "split_char (CHR ''.'') (q @ CHR ''/'' # stem @ CHR ''.'' # ext)
      = butlast (split_char (CHR ''.'') (q @ CHR ''/'' # stem)) @ [u @ CHR ''/'' # stem, ext]"
    using split_char_append [of "CHR ''.''" "q @ CHR ''/'' # stem" ext] plain
      append_butlast_last_id [of "split_char (CHR ''.'') (q @ CHR ''/'' # stem)"] u
    by (simp add: split_char_none)
  then show "suffix_group (q @ CHR ''/'' # stem @ CHR ''.'' # ext) = None"
    by (simp add: suffix_group_def ascii_letter_def code_of_def split: list.split)
qed

text \<open>The suffixes and file names the loader accepts, as words and extensions.\<close>

definition FILE_WORDS :: "string list" where
  "FILE_WORDS = [''field'', ''object'', ''role'', ''app'', ''relationship'', ''layout'', ''record-page'', ''view'', ''menu'',
     ''dashboard'', ''report'', ''report-folder'', ''action'', ''flow'', ''approval'', ''prompt'', ''agent'',
     ''permissionset'', ''permission'']"

definition FILE_EXTENSIONS :: "string list" where
  "FILE_EXTENSIONS = [''json'', ''yaml'', ''yml'']"

lemma file_words_known: "list_all (\<lambda>w. list_all (known_suffix w) FILE_EXTENSIONS) FILE_WORDS"
  by code_simp

lemma words_known: "w \<in> set FILE_WORDS \<Longrightarrow> x \<in> set FILE_EXTENSIONS \<Longrightarrow> known_suffix w x"
  using file_words_known by (simp add: list_all_iff)

lemma suffixes_are_words:
  "list_all (\<lambda>suffix. list_ex (\<lambda>w. list_ex (\<lambda>x. suffix = CHR ''.'' # w @ CHR ''.'' # x) FILE_EXTENSIONS) FILE_WORDS)
     (FIELD_FILE_SUFFIXES @ OBJECT_FILE_SUFFIXES @ TAXONOMY_FILE_SUFFIXES)"
  by code_simp

lemma names_are_words:
  "list_all (\<lambda>name. list_ex (\<lambda>w. list_ex (\<lambda>x. name = w @ CHR ''.'' # x) FILE_EXTENSIONS) FILE_WORDS)
     (with_extensions ''object'' @ TAXONOMY_SINGLETON_FILE_NAMES)"
  by code_simp

lemma split_char_cases: "split_char c s = [s] \<or> (\<exists>q. s = q @ c # last (split_char c s))"
proof (induction s)
  case (Cons x s)
  obtain p ps where split: "split_char c s = p # ps" by (cases "split_char c s") auto
  from Cons consider (whole) "split_char c s = [s]" | (cut) q where "s = q @ c # last (split_char c s)" by blast
  then show ?case
  proof cases
    case whole
    then show ?thesis by (cases "x = c") auto
  next
    case cut
    have "split_char c s = split_char c q @ split_char c (last (split_char c s))"
      by (subst cut, subst split_char_append) simp
    moreover have "0 < length (split_char c q)" "0 < length (split_char c (last (split_char c s)))" by simp_all
    ultimately have "1 < length (split_char c s)" by (metis length_append less_add_eq_less add.commute less_one
        linorder_neqE_nat nat_add_left_cancel_less not_less_zero plus_nat.add_0 trans_less_add1)
    then have "last (split_char c (x # s)) = last (split_char c s)" using split by auto
    moreover have "x # s = (x # q) @ c # last (split_char c s)" using cut by simp
    ultimately show ?thesis by metis
  qed
qed simp

definition source_name :: "string \<Rightarrow> bool" where
  "source_name p \<longleftrightarrow> (\<exists>w\<in>set FILE_WORDS. \<exists>x\<in>set FILE_EXTENSIONS.
     (\<exists>q. p = q @ CHR ''.'' # w @ CHR ''.'' # x)
     \<or> (\<exists>q. p = q @ w @ CHR ''.'' # x \<and> (q = [] \<or> last q = CHR ''/'')))"

lemma source_file_name: "isSourceFile p \<Longrightarrow> source_name p"
proof -
  assume "isSourceFile p"
  then consider (suffix) suffix where "suffix \<in> set (FIELD_FILE_SUFFIXES @ OBJECT_FILE_SUFFIXES @ TAXONOMY_FILE_SUFFIXES)"
      "ends_with suffix p"
    | (base) "basename p \<in> set (with_extensions ''object'' @ TAXONOMY_SINGLETON_FILE_NAMES)"
    by (auto simp: isSourceFile_def isObjectFile_def isFieldFile_def isTaxonomyFile_def list_ex_iff)
  then show ?thesis
  proof cases
    case suffix
    then obtain w x where "w \<in> set FILE_WORDS" "x \<in> set FILE_EXTENSIONS" "suffix = CHR ''.'' # w @ CHR ''.'' # x"
      using suffixes_are_words by (auto simp only: list_all_iff list_ex_iff)
    then show ?thesis using suffix(2) unfolding source_name_def ends_with_iff by blast
  next
    case base
    then obtain w x where "w \<in> set FILE_WORDS" "x \<in> set FILE_EXTENSIONS" "basename p = w @ CHR ''.'' # x"
      using names_are_words by (auto simp only: list_all_iff list_ex_iff)
    moreover have "\<exists>q. p = q @ basename p \<and> (q = [] \<or> last q = CHR ''/'')"
      using split_char_cases [of "CHR ''/''" p]
    proof
      assume "split_char (CHR ''/'') p = [p]"
      then show ?thesis by (simp add: basename_def)
    next
      assume "\<exists>q. p = q @ CHR ''/'' # last (split_char (CHR ''/'') p)"
      then obtain q where "p = (q @ ''/'') @ basename p" by (auto simp: basename_def)
      then show ?thesis by (metis last_snoc)
    qed
    ultimately show ?thesis unfolding source_name_def by metis
  qed
qed

lemma source_name_normal: "source_name p \<Longrightarrow> source_name (normalizePath p)"
proof -
  assume "source_name p"
  then obtain w x where w: "w \<in> set FILE_WORDS" "x \<in> set FILE_EXTENSIONS"
    and p: "(\<exists>q. p = q @ CHR ''.'' # w @ CHR ''.'' # x)
      \<or> (\<exists>q. p = q @ w @ CHR ''.'' # x \<and> (q = [] \<or> last q = CHR ''/''))"
    unfolding source_name_def by blast
  have plain: "plain_name (w @ CHR ''.'' # x)" "plain_name (CHR ''.'' # w @ CHR ''.'' # x)"
    using words_known [OF w] by (simp_all add: known_suffix_def plain_name_def)
  from p show ?thesis
  proof
    assume "\<exists>q. p = q @ CHR ''.'' # w @ CHR ''.'' # x"
    then have "\<exists>q. normalizePath p = q @ CHR ''.'' # w @ CHR ''.'' # x"
      using normalize_suffix [OF plain(2)] by blast
    then show ?thesis using w unfolding source_name_def by blast
  next
    assume "\<exists>q. p = q @ w @ CHR ''.'' # x \<and> (q = [] \<or> last q = CHR ''/'')"
    then obtain q where q: "p = q @ w @ CHR ''.'' # x" "q = [] \<or> last q = CHR ''/''" by blast
    obtain n where n: "normalizePath p = drop n (map unslash q) @ w @ CHR ''.'' # x"
      using normalize_suffix [OF plain(1), of q] q(1) by auto
    have "drop n (map unslash q) = [] \<or> last (drop n (map unslash q)) = CHR ''/''"
    proof (cases "n < length q")
      case True
      then have "q \<noteq> []" by auto
      then show ?thesis using q(2) True by (simp add: last_drop last_map)
    qed simp
    then show ?thesis using n w unfolding source_name_def by blast
  qed
qed

lemma source_name_known: "source_name p \<Longrightarrow> suffix_group p = None \<or>
    (\<exists>w. suffix_group p = Some w \<and> map lower_char w \<noteq> ''constructor'')"
proof -
  assume "source_name p"
  then obtain w x where w: "known_suffix w x"
    and p: "(\<exists>q. p = q @ CHR ''.'' # w @ CHR ''.'' # x)
      \<or> (\<exists>q. p = q @ w @ CHR ''.'' # x \<and> (q = [] \<or> last q = CHR ''/''))"
    unfolding source_name_def using words_known by blast
  from p show ?thesis
  proof
    assume "\<exists>q. p = q @ CHR ''.'' # w @ CHR ''.'' # x"
    then show ?thesis using suffix_group_dotted [OF w] w by (auto simp: known_suffix_def)
  next
    assume "\<exists>q. p = q @ w @ CHR ''.'' # x \<and> (q = [] \<or> last q = CHR ''/'')"
    then obtain q where q: "p = q @ w @ CHR ''.'' # x" "q = [] \<or> last q = CHR ''/''" by blast
    show ?thesis
    proof (cases "q = []")
      case True
      then show ?thesis using q suffix_group_base(1) [OF w] by simp
    next
      case False
      then have "q = butlast q @ ''/''" using q(2) append_butlast_last_id [of q] by simp
      then have "p = butlast q @ CHR ''/'' # w @ CHR ''.'' # x" using q(1) by (metis append_Cons append_Nil append_assoc)
      then show ?thesis using suffix_group_base(2) [OF w] by simp
    qed
  qed
qed

lemma source_kind_known: "source_name p \<Longrightarrow> inferTaxonomyKind p \<noteq> InheritedMember"
  using source_name_known [OF source_name_normal, of p]
  by (auto simp: inferTaxonomyKind_def Let_def kind_of_singular_def split: option.splits)

lemma loaded_names: "list_all (\<lambda>f. source_name (lf_path f)) (fst (loadFromFiles load files))"
proof -
  have "list_all (\<lambda>f. source_name (lf_path f)) (fst (fold (load_file load) files acc))"
    if "list_all (\<lambda>f. source_name (lf_path f)) (fst acc)" for acc
    using that
  proof (induction files arbitrary: acc)
    case (Cons f fs)
    obtain l ds where acc: "acc = (l, ds)" by force
    have "list_all (\<lambda>f. source_name (lf_path f)) (fst (load_file load f acc))"
      using Cons.prems source_file_name [of "normalizePath (sf_path f)"]
      by (auto simp: acc load_file_def Let_def split: sum.splits)
    then show ?case using Cons.IH by simp
  qed simp
  then show ?thesis by (simp add: loadFromFiles_def)
qed

lemma loaded_parse: "\<exists>sn ds. parseFiles (fst (loadFromFiles load files)) = Inr (sn, ds)"
proof (rule parse_files_total)
  show "list_all (\<lambda>f. inferTaxonomyKind (normalizePath (lf_path f)) \<noteq> InheritedMember) (fst (loadFromFiles load files))"
    using loaded_names [of load files] source_kind_known source_name_normal by (auto simp: list_all_iff)
qed

section \<open>What a clean validation says\<close>

definition no_error :: "diagnostic list \<Rightarrow> bool" where
  "no_error ds \<longleftrightarrow> list_all (\<lambda>d. dg_severity d \<noteq> SevError) ds"

definition supported_field :: "json \<Rightarrow> bool" where
  "supported_field f \<longleftrightarrow> truthy_json (member ''name'' f) \<and> truthy_json (member ''type'' f)
     \<and> member ''type'' f \<notin> {Some (JStr ''FORMULA''), Some (JStr ''ROLLUP'')}"

definition supported_object :: "jobject \<Rightarrow> bool" where
  "supported_object ob \<longleftrightarrow> truthy_json (map_of ob ''nameSingular'') \<and> truthy_json (map_of ob ''namePlural'')
     \<and> list_all supported_field (fields_of ob)"

lemma no_error_append [simp]: "no_error (ds @ es) \<longleftrightarrow> no_error ds \<and> no_error es" "no_error []"
  by (auto simp: no_error_def)

lemma no_error_complaint [simp]: "\<not> no_error [complaint c m]"
  by (simp add: no_error_def complaint_def)

lemma no_error_if [simp]: "no_error (if b then [complaint c m] else []) \<longleftrightarrow> \<not> b"
  by simp

lemma check_field_clean: "no_error (snd (check_field ob f (seen, ds))) \<Longrightarrow> no_error ds \<and> supported_field f"
  by (simp add: check_field_def Let_def supported_field_def del: if_not_P)

lemma check_fields_clean:
  "no_error (snd (fold (check_field ob) fs (seen, ds))) \<Longrightarrow> no_error ds \<and> list_all supported_field fs"
proof (induction fs arbitrary: seen ds)
  case (Cons f fs)
  obtain seen' ds' where one: "check_field ob f (seen, ds) = (seen', ds')" by force
  then have "no_error ds' \<and> list_all supported_field fs" using Cons by simp
  then show ?case using check_field_clean [of ob f seen ds] one by simp
qed simp

lemma check_object_clean: "no_error (snd (check_object ob (seen, ds))) \<Longrightarrow> no_error ds \<and> supported_object ob"
  using check_fields_clean [of ob "fields_of ob" "[]" "[]"]
  by (simp add: check_object_def Let_def supported_object_def)

lemma check_objects_clean:
  "no_error (snd (fold check_object obs (seen, ds))) \<Longrightarrow> no_error ds \<and> list_all supported_object obs"
proof (induction obs arbitrary: seen ds)
  case (Cons ob obs)
  obtain seen' ds' where one: "check_object ob (seen, ds) = (seen', ds')" by force
  then have "no_error ds' \<and> list_all supported_object obs" using Cons by simp
  then show ?case using check_object_clean [of ob seen ds] one by simp
qed simp

lemma check_kinds_clean: "no_error (concat (map (check_kind sn) ks)) \<Longrightarrow> list_all (\<lambda>k. sn_components sn k = []) ks"
  by (induction ks) (auto simp: check_kind_def)

lemma sorted_fields:
  "fields_of (jset ''fields'' (JArr fs) ob) = fs" "k \<noteq> ''fields'' \<Longrightarrow> map_of (jset ''fields'' (JArr fs) ob) k = map_of ob k"
  by (simp_all add: fields_of_def map_of_jset)

lemma supported_sorted:
  "list_all supported_object (sn_objects sn) \<Longrightarrow> list_all supported_object (sn_objects (sortSnapshot collate sn))"
  by (auto simp: sortSnapshot_def list_all_iff supported_object_def sorted_fields)

definition not_duplicate :: "diagnostic \<Rightarrow> bool" where
  "not_duplicate d \<longleftrightarrow> dg_code d \<notin> {''METADATA_RUNTIME_DUPLICATE_OBJECT'', ''METADATA_RUNTIME_DUPLICATE_FIELD''}"

lemma not_duplicate_complaint [simp]:
  "not_duplicate (complaint c m) \<longleftrightarrow> c \<notin> {''METADATA_RUNTIME_DUPLICATE_OBJECT'', ''METADATA_RUNTIME_DUPLICATE_FIELD''}"
  by (simp add: not_duplicate_def complaint_def)

lemma check_fields_no_duplicate:
  "distinct (map (member ''name'') fs) \<Longrightarrow> set (map (member ''name'') fs) \<inter> set seen = {} \<Longrightarrow> list_all not_duplicate ds
    \<Longrightarrow> list_all not_duplicate (snd (fold (check_field ob) fs (seen, ds)))"
proof (induction fs arbitrary: seen ds)
  case (Cons f fs)
  obtain seen' ds' where one: "check_field ob f (seen, ds) = (seen', ds')" by force
  then have "seen' = member ''name'' f # seen" "list_all not_duplicate ds'"
    using Cons.prems by (auto simp: check_field_def Let_def)
  then show ?case using Cons.IH [of seen' ds'] Cons.prems one by auto
qed simp

lemma check_objects_no_duplicate:
  "distinct (map (\<lambda>ob. map_of ob ''nameSingular'') obs) \<Longrightarrow> list_all (\<lambda>ob. distinct (map (member ''name'') (fields_of ob))) obs
    \<Longrightarrow> set (map (\<lambda>ob. map_of ob ''nameSingular'') obs) \<inter> set seen = {} \<Longrightarrow> list_all not_duplicate ds
    \<Longrightarrow> list_all not_duplicate (snd (fold check_object obs (seen, ds)))"
proof (induction obs arbitrary: seen ds)
  case (Cons ob obs)
  obtain seen' ds' where one: "check_object ob (seen, ds) = (seen', ds')" by force
  have "list_all not_duplicate (snd (fold (check_field ob) (fields_of ob) ([], [])))"
    using Cons.prems by (intro check_fields_no_duplicate) simp_all
  then have "seen' = map_of ob ''nameSingular'' # seen" "list_all not_duplicate ds'"
    using Cons.prems one by (auto simp: check_object_def Let_def)
  then show ?case using Cons.IH [of seen' ds'] Cons.prems one by auto
qed simp

section \<open>Properties\<close>

text \<open>
  An import plan is a dry run that never deletes, and a valid one holds only what the community
  edition supports: every object has both names, every field a name and a type that is neither a formula
  nor a roll-up, and no other kind of component occurs.
\<close>

theorem valid_plan_is_supported:
  assumes "buildDryRunPlan collate dbOrder load rows workspaceId files = Inr p" "vr_valid (pl_validation p)"
  shows "pl_dryRun p \<and> \<not> pl_destructiveSync p \<and> list_all supported_object (sn_objects (pl_snapshot p))
    \<and> list_all (\<lambda>k. sn_components (pl_snapshot p) k = []) TAXONOMY_KINDS"
proof -
  obtain loaded lds sn pds where l: "loadFromFiles load files = (loaded, lds)" "parseFiles loaded = Inr (sn, pds)"
    "\<not> sort_throws sn"
    and p: "sn_objects (pl_snapshot p) = sn_objects (sortSnapshot collate sn)"
      "sn_components (pl_snapshot p) = sn_components (sortSnapshot collate sn)"
      "pl_validation p = validation_of (snd (fold check_object (sn_objects sn) ([], lds @ pds))
         @ concat (map (check_kind sn) TAXONOMY_KINDS))"
      "pl_dryRun p" "\<not> pl_destructiveSync p"
    using assms(1)
    by (auto simp: buildDryRunPlan_def validateFiles_def Let_def split: prod.splits sum.splits if_splits)
  then have "no_error (snd (fold check_object (sn_objects sn) ([], lds @ pds)))"
      "no_error (concat (map (check_kind sn) TAXONOMY_KINDS))"
    using assms(2) by (simp_all add: validation_of_def no_error_def)
  then have "list_all supported_object (sn_objects sn)" "list_all (\<lambda>k. sn_components sn k = []) TAXONOMY_KINDS"
    using check_objects_clean check_kinds_clean by blast+
  then show ?thesis using p supported_sorted by (simp add: sortSnapshot_def list_all_iff)
qed

text \<open>A reader of documents for the examples: a JSON text is a YAML text.\<close>

definition json_reader :: yaml_reader where
  "json_reader s = (case parse_json s of None \<Rightarrow> Inl \<lparr>ye_message = ''bad document'', ye_line = Some 0, ye_column = None\<rparr>
     | Some v \<Rightarrow> Inr v)"

definition by_code :: collation where
  "by_code s = map of_char s"

definition sample_source :: source_file where
  "sample_source = \<lparr>sf_path = ''./objects/Deal/object.json'', sf_content = stringify (JObj
     [(''nameSingular'', JStr ''Deal''), (''namePlural'', JStr ''Deals''),
      (''fields'', JArr [JObj [(''name'', JStr ''stage''), (''type'', JStr ''TEXT'')],
                         JObj [(''name'', JStr ''amount''), (''type'', JStr ''NUMBER'')]])])\<rparr>"

lemma valid_plan_is_supported_witness:
  "\<exists>p. buildDryRunPlan by_code by_code json_reader [] ''w1'' [sample_source] = Inr p \<and> vr_valid (pl_validation p)
     \<and> sn_objects (pl_snapshot p) \<noteq> [] \<and> list_all supported_object (sn_objects (pl_snapshot p))"
proof -
  let ?r = "buildDryRunPlan by_code by_code json_reader [] ''w1'' [sample_source]"
  have "case ?r of Inl _ \<Rightarrow> False | Inr p \<Rightarrow> vr_valid (pl_validation p) \<and> sn_objects (pl_snapshot p) \<noteq> []"
    by code_simp
  then obtain p where "?r = Inr p" "vr_valid (pl_validation p)" "sn_objects (pl_snapshot p) \<noteq> []"
    by (auto split: sum.splits)
  then show ?thesis using valid_plan_is_supported [of by_code by_code json_reader "[]" "''w1''" "[sample_source]" p] by blast
qed

text \<open>
  Planning returns whenever no object with several fields has a field whose name is not a text: no
  file the loader lets through makes the parser throw.
\<close>

theorem validation_returns:
  assumes "\<not> sort_throws (fst (projr (parseFiles (fst (loadFromFiles load files)))))"
  shows "\<exists>r. validateFiles collate load files = Inr r"
proof -
  obtain sn ds where "parseFiles (fst (loadFromFiles load files)) = Inr (sn, ds)" using loaded_parse by blast
  then show ?thesis using assms by (simp add: validateFiles_def Let_def case_prod_beta)
qed

lemma validation_returns_witness:
  "\<exists>r. validateFiles by_code json_reader [sample_source, \<lparr>sf_path = ''x.constructor.json'', sf_content = ''{}''\<rparr>] = Inr r"
proof -
  have "\<not> sort_throws (fst (projr (parseFiles (fst (loadFromFiles json_reader
      [sample_source, \<lparr>sf_path = ''x.constructor.json'', sf_content = ''{}''\<rparr>])))))"
    by code_simp
  then show ?thesis by (rule validation_returns)
qed

definition numbered_source :: source_file where
  "numbered_source = \<lparr>sf_path = ''objects/Deal/object.json'', sf_content = stringify (JObj
     [(''nameSingular'', JStr ''Deal''), (''namePlural'', JStr ''Deals''),
      (''fields'', JArr [JObj [(''name'', JStr ''stage''), (''type'', JStr ''TEXT'')],
                         JObj [(''name'', JNum 2024), (''type'', JStr ''NUMBER'')]])])\<rparr>"

lemma numbered_field_throws:
  "validateFiles by_code json_reader [numbered_source] = Inl ''left.name.localeCompare is not a function''"
  by code_simp

text \<open>
  The validation's own search for duplicate objects and fields never finds one: the parser has
  dropped every second definition before.
\<close>

theorem duplicate_checks_never_fire:
  assumes "parseFiles files = Inr (sn, ds)"
  shows "list_all (\<lambda>d. dg_code d \<notin> {''METADATA_RUNTIME_DUPLICATE_OBJECT'', ''METADATA_RUNTIME_DUPLICATE_FIELD''})
    (snd (fold check_object (sn_objects sn) ([], [])))"
proof -
  obtain s where ok: "names_ok s" and sn: "sn = parsed_snapshot s"
    using assms by (elim parse_files_state) blast
  have "list_all not_duplicate (snd (fold check_object (sn_objects sn) ([], [])))"
  proof (rule check_objects_no_duplicate)
    show "distinct (map (\<lambda>ob. map_of ob ''nameSingular'') (sn_objects sn))"
      using parsed_unique(1) [OF ok] by (simp add: sn)
    show "list_all (\<lambda>ob. distinct (map (member ''name'') (fields_of ob))) (sn_objects sn)"
      using parsed_unique(2) [OF ok] by (simp add: sn list_all_iff)
  qed simp_all
  then show ?thesis unfolding not_duplicate_def [abs_def] .
qed

lemma duplicate_checks_never_fire_witness:
  "\<exists>sn ds. parseFiles [sample_object_file, sample_object_file] = Inr (sn, ds) \<and> error_count ds = 2
     \<and> list_all (\<lambda>d. dg_code d \<notin> {''METADATA_RUNTIME_DUPLICATE_OBJECT'', ''METADATA_RUNTIME_DUPLICATE_FIELD''})
          (snd (fold check_object (sn_objects sn) ([], [])))"
proof -
  have "case parseFiles [sample_object_file, sample_object_file] of Inl _ \<Rightarrow> False | Inr (sn, ds) \<Rightarrow> error_count ds = 2"
    by code_simp
  then obtain sn ds where r: "parseFiles [sample_object_file, sample_object_file] = Inr (sn, ds)" "error_count ds = 2"
    by (auto split: sum.splits)
  then show ?thesis using duplicate_checks_never_fire [OF r(1)] by blast
qed

end
