(* ===== verification/Agent_Guards.thy ===== *)
theory Agent_Guards
  imports Agent_Response
begin

text \<open>
  The guards around a turn of the product's executor:
  \<open>packages/backend/src/modules/agent-runtime/executor/executor-engine.service.ts\<close> (sensitive operations,
  tool retries, prompt budget, termination steps, the parent of a governed flow) and the sections of
  \<open>packages/shared/src/agent-markdown-policy/index.ts\<close>.
\<close>

section \<open>Sensitive operations\<close>

record sensitive_rule =
  so_toolPattern :: "string option"
  so_objectApiName :: "string option"
  so_operation :: "string option"
  so_riskLevel :: string
  so_description :: "string option"

text \<open>
  A pattern with an asterisk is compiled to a regular expression. Where its other characters have no
  meaning there but the dot's, the match is \<open>glob_match\<close>: an asterisk stands for any characters but line
  breaks, a dot for one of them. A pattern with another special character is left to \<open>regex\<close>.
\<close>

definition line_break :: "char \<Rightarrow> bool" where
  "line_break c \<longleftrightarrow> c = CHR 0x0A \<or> c = CHR 0x0D"

definition SPECIAL :: string where
  "SPECIAL = [CHR 0x5C, CHR ''^'', CHR ''$'', CHR ''+'', CHR ''?'', CHR ''('', CHR '')'', CHR ''['', CHR '']'',
     CHR ''{'', CHR ''}'', CHR ''|'']"

fun glob_match :: "string \<Rightarrow> string \<Rightarrow> bool" where
  "glob_match [] s = (s = [])"
| "glob_match (p # ps) [] = (p = CHR ''*'' \<and> glob_match ps [])"
| "glob_match (p # ps) (c # s) =
     (if p = CHR ''*'' then glob_match ps (c # s) \<or> \<not> line_break c \<and> glob_match (p # ps) s
      else if p = CHR ''.'' then \<not> line_break c \<and> glob_match ps s
      else p = c \<and> glob_match ps s)"

definition pattern_matches :: "(string \<Rightarrow> string \<Rightarrow> bool) \<Rightarrow> string \<Rightarrow> string \<Rightarrow> bool" where
  "pattern_matches regex pattern tool \<longleftrightarrow>
     pattern = tool
     \<or> CHR ''*'' \<in> set pattern
       \<and> (if list_ex (\<lambda>c. c \<in> set SPECIAL) pattern then regex pattern tool else glob_match pattern tool)"

definition input_object :: "json option \<Rightarrow> json option" where
  "input_object toolInput = optional_member ''objectApiName'' toolInput"

definition matched_by_pattern :: "(string \<Rightarrow> string \<Rightarrow> bool) \<Rightarrow> string \<Rightarrow> json option \<Rightarrow> sensitive_rule \<Rightarrow> bool" where
  "matched_by_pattern regex tool toolInput rule \<longleftrightarrow>
     truthy (so_toolPattern rule) \<and> pattern_matches regex (the (so_toolPattern rule)) tool
     \<and> \<not> (truthy (so_objectApiName rule) \<and> so_objectApiName rule \<noteq> Some ''*''
          \<and> input_object toolInput \<noteq> map_option JStr (so_objectApiName rule))"

definition second_part :: "string \<Rightarrow> string option" where
  "second_part tool = (case split_char (CHR ''.'') tool of _ # q # _ \<Rightarrow> Some q | _ \<Rightarrow> None)"

definition matched_by_object :: "string \<Rightarrow> json option \<Rightarrow> sensitive_rule \<Rightarrow> bool" where
  "matched_by_object tool toolInput rule \<longleftrightarrow>
     truthy (so_objectApiName rule) \<and> truthy (so_operation rule)
     \<and> (second_part tool = so_operation rule \<or> so_operation rule = Some ''*'')
     \<and> (so_objectApiName rule = Some ''*'' \<or> input_object toolInput = map_option JStr (so_objectApiName rule))"

fun checkSensitiveOps ::
    "(string \<Rightarrow> string \<Rightarrow> bool) \<Rightarrow> string \<Rightarrow> json option \<Rightarrow> sensitive_rule list \<Rightarrow> sensitive_rule option" where
  "checkSensitiveOps regex tool toolInput [] = None"
| "checkSensitiveOps regex tool toolInput (rule # rules) =
     (if matched_by_pattern regex tool toolInput rule \<or> matched_by_object tool toolInput rule then Some rule
      else checkSensitiveOps regex tool toolInput rules)"

section \<open>Retrying a tool\<close>

text \<open>
  \<open>to_durable\<close> holds the four ids of a durable approval, when all of them are there: of the approval, the
  payload envelope and the tool call, and the digest of the input.
\<close>

record tool_outcome =
  to_success :: bool
  to_output :: json
  to_error :: "string option"
  to_permissionCheck :: string
  to_guardrailCheck :: string
  to_riskLevel :: "string option"
  to_durable :: "(string \<times> string \<times> string \<times> string) option"

datatype error_class = GovernorError | PermissionError | ValidationError | NetworkError | UnknownError

text \<open>\<open>/\b(429|502)\b/\<close>: a number between characters that are no word characters.\<close>

fun numbered :: "string list \<Rightarrow> bool \<Rightarrow> string \<Rightarrow> bool" where
  "numbered codes inside [] = False"
| "numbered codes inside (c # s) =
     (\<not> inside \<and> list_ex (\<lambda>k. starts_with k (c # s)
          \<and> (case drop (length k) (c # s) of [] \<Rightarrow> True | d # _ \<Rightarrow> \<not> is_word d)) codes
      \<or> numbered codes (is_word c) s)"

definition mentions :: "string list \<Rightarrow> string \<Rightarrow> bool" where
  "mentions words message \<longleftrightarrow> list_ex (\<lambda>w. contains w message) words"

definition classifyToolFailure :: "tool_outcome \<Rightarrow> bool \<times> error_class" where
  "classifyToolFailure r =
     (let message = map lower_char (nullish (to_error r) []) in
      if mentions [''governor limit context missing'', ''governor limit exceeded''] message then (False, GovernorError)
      else if to_permissionCheck r = ''denied'' \<or> mentions [''permission'', ''forbidden'', ''unauthorized''] message
              \<or> numbered [''401'', ''403''] False message
      then (False, PermissionError)
      else if mentions [''validation'', ''invalid'', ''required'', ''must be''] message then (False, ValidationError)
      else if mentions [''econnreset'', ''etimedout'', ''network'', ''temporarily unavailable'', ''rate limit''] message
              \<or> numbered [''429'', ''502'', ''503'', ''504''] False message
      then (True, NetworkError)
      else (False, UnknownError))"

definition thrown_outcome :: "string \<Rightarrow> tool_outcome" where
  "thrown_outcome e = \<lparr>to_success = False, to_output = JNull, to_error = Some e,
     to_permissionCheck = ''passed'', to_guardrailCheck = ''blocked'', to_riskLevel = None, to_durable = None\<rparr>"

record retry_result =
  rt_result :: tool_outcome
  rt_retryCount :: nat
  rt_errorClass :: error_class

text \<open>
  The loop over a world that the tool acts on; \<open>left\<close> is the number of retries that remain, which bounds
  the loop. The waits are the list of delays in milliseconds.
\<close>

definition one_attempt :: "('w, tool_outcome) eff \<Rightarrow> 'w \<Rightarrow> 'w \<times> tool_outcome" where
  "one_attempt execute w =
     (case execute w of (Inr r, w') \<Rightarrow> (w', r) | (Inl e, w') \<Rightarrow> (w', thrown_outcome e))"

fun retry_loop ::
    "('w, tool_outcome) eff \<Rightarrow> nat \<Rightarrow> nat \<Rightarrow> nat \<Rightarrow> nat list \<Rightarrow> 'w \<Rightarrow> 'w \<times> nat list \<times> retry_result" where
  "retry_loop execute backoff left tries waits w =
     (let (w', r) = one_attempt execute w; (retryable, c) = classifyToolFailure r in
      if to_success r \<or> to_guardrailCheck r = ''escalated''
      then (w', waits, \<lparr>rt_result = r, rt_retryCount = tries, rt_errorClass = UnknownError\<rparr>)
      else if \<not> retryable then (w', waits, \<lparr>rt_result = r, rt_retryCount = tries, rt_errorClass = c\<rparr>)
      else (case left of
              0 \<Rightarrow> (w', waits, \<lparr>rt_result = r, rt_retryCount = tries, rt_errorClass = c\<rparr>)
            | Suc n \<Rightarrow> retry_loop execute backoff n (Suc tries) (waits @ [backoff * 2 ^ tries]) w'))"

definition executeToolWithRetry ::
    "('w, tool_outcome) eff \<Rightarrow> int option \<Rightarrow> int option \<Rightarrow> 'w \<Rightarrow> 'w \<times> nat list \<times> retry_result" where
  "executeToolWithRetry execute maxRetries backoff w =
     retry_loop execute (nat (nullish backoff 250)) (nat (nullish maxRetries 2)) 0 [] w"

section \<open>The budget of the system prompt\<close>

text \<open>
  \<open>text.replace(placeholder, content)\<close> replaces the first occurrence, and a dollar sign in the content has
  a meaning: \<open>$$\<close> a dollar sign, \<open>$&\<close> the placeholder, \<open>$`\<close> and \<open>$'\<close> the text before and after it.
\<close>

fun expand_dollar :: "string \<Rightarrow> string \<Rightarrow> string \<Rightarrow> string \<Rightarrow> string" where
  "expand_dollar pre found post [] = []"
| "expand_dollar pre found post [c] = [c]"
| "expand_dollar pre found post (c # d # s) =
     (if c \<noteq> CHR ''$'' then c # expand_dollar pre found post (d # s)
      else if d = CHR ''$'' then CHR ''$'' # expand_dollar pre found post s
      else if d = CHR ''&'' then found @ expand_dollar pre found post s
      else if d = CHR 0x60 then pre @ expand_dollar pre found post s
      else if d = CHR 0x27 then post @ expand_dollar pre found post s
      else c # expand_dollar pre found post (d # s))"

definition replace_first :: "string \<Rightarrow> string \<Rightarrow> string \<Rightarrow> string" where
  "replace_first found content text =
     (case index_of found text of
        None \<Rightarrow> text
      | Some i \<Rightarrow>
          (let pre = take i text; post = drop (i + length found) text in
           pre @ expand_dollar pre found post content @ post))"

definition fill_template :: "string \<Rightarrow> (string \<Rightarrow> string option) \<Rightarrow> string" where
  "fill_template template content =
     replace_first ''{customerMemory}'' (nullish (content ''customer_memory'') [])
       (replace_first ''{knowledge}'' (nullish (content ''knowledge_context'') [])
         (replace_first ''{exemplars}'' (nullish (content ''verified_exemplars'') []) template))"

definition estimateTokens :: "string \<Rightarrow> int" where
  "estimateTokens text = int ((length text + 1) div 2) + 4"

definition KNOWN_SEGMENTS :: "string list" where
  "KNOWN_SEGMENTS = [''verified_exemplars'', ''knowledge_context'', ''customer_memory'']"

fun trim_segments :: "string \<Rightarrow> int \<Rightarrow> (string \<times> string) list \<Rightarrow> (string \<Rightarrow> string option) \<Rightarrow> string" where
  "trim_segments template budget [] active = fill_template template active"
| "trim_segments template budget ((name, _) # segments) active =
     (if estimateTokens (fill_template template active) \<le> budget then fill_template template active
      else if name \<notin> set KNOWN_SEGMENTS \<or> nullish (active name) [] = []
      then trim_segments template budget segments active
      else trim_segments template budget segments (active(name \<mapsto> [])))"

definition enforceSystemTokenBudget :: "string \<Rightarrow> (string \<times> string) list \<Rightarrow> int option \<Rightarrow> string" where
  "enforceSystemTokenBudget template trimmable budget =
     (case budget of
        Some b \<Rightarrow> if 0 < b then trim_segments template b trimmable (map_of (rev trimmable))
                  else fill_template template (map_of trimmable)
      | None \<Rightarrow> fill_template template (map_of trimmable))"

section \<open>Sections of a prompt\<close>

record markdown_section =
  ms_level :: nat
  ms_title :: string
  ms_content :: string
  ms_order :: nat
  ms_high :: bool

text \<open>The marker \<open><!--\s*priority:\s*high\s*-->\<close> under the flag \<open>i\<close>.\<close>

definition marker_at :: "string \<Rightarrow> bool" where
  "marker_at s =
     (case after_word ''<!--'' s of None \<Rightarrow> False | Some a \<Rightarrow>
      (case after_word ''priority:'' (dropWhile is_space a) of None \<Rightarrow> False | Some b \<Rightarrow>
       (case after_word ''high'' (dropWhile is_space b) of None \<Rightarrow> False | Some c \<Rightarrow>
         starts_with ''-->'' (dropWhile is_space c))))"

fun has_marker :: "string \<Rightarrow> bool" where
  "has_marker [] = marker_at []"
| "has_marker (c # s) = (marker_at (c # s) \<or> has_marker s)"

text \<open>The title words of the source lie outside the characters of the model; they are an argument.\<close>

definition derivePriorityTier :: "string list \<Rightarrow> string \<Rightarrow> string \<Rightarrow> bool" where
  "derivePriorityTier keywords title content \<longleftrightarrow>
     has_marker content \<or> list_ex (\<lambda>k. contains k title) keywords"

text \<open>
  \<open>^(#{1,3})\s+(.*)$\<close> on one line: one to three number signs, white space, and no carriage return after it.
\<close>

definition heading_line :: "string \<Rightarrow> (nat \<times> string) option" where
  "heading_line line =
     (let n = length (takeWhile (\<lambda>c. c = CHR ''#'') line); r = drop n line; t = dropWhile is_space r in
      if 1 \<le> n \<and> n \<le> 3 \<and> r \<noteq> [] \<and> is_space (hd r) \<and> list_all (\<lambda>c. \<not> line_break c) t
      then Some (n, trim t) else None)"

definition join_lines :: "string list \<Rightarrow> string" where
  "join_lines ls = concat (case ls of [] \<Rightarrow> [] | l # ks \<Rightarrow> l # map (\<lambda>k. CHR 0x0A # k) ks)"

fun indexed_headings :: "nat \<Rightarrow> string list \<Rightarrow> (nat \<times> nat \<times> string) list" where
  "indexed_headings i [] = []"
| "indexed_headings i (l # ls) =
     (case heading_line l of Some (n, t) \<Rightarrow> (i, n, t) # indexed_headings (Suc i) ls
      | None \<Rightarrow> indexed_headings (Suc i) ls)"

fun sections_of :: "string list \<Rightarrow> string list \<Rightarrow> nat \<Rightarrow> (nat \<times> nat \<times> string) list \<Rightarrow> markdown_section list" where
  "sections_of keywords ls order [] = []"
| "sections_of keywords ls order ((i, n, t) # hs) =
     (let stop = (case hs of [] \<Rightarrow> length ls | (j, _) # _ \<Rightarrow> j);
          content = trim (join_lines (take (stop - Suc i) (drop (Suc i) ls))) in
      \<lparr>ms_level = n, ms_title = t, ms_content = content, ms_order = order,
       ms_high = derivePriorityTier keywords t content\<rparr> # sections_of keywords ls (Suc order) hs)"

definition parseMarkdownSections :: "string list \<Rightarrow> string \<Rightarrow> markdown_section list" where
  "parseMarkdownSections keywords text =
     (let ls = split_char (CHR 0x0A) text; hs = indexed_headings 0 ls in
      if hs = [] then [\<lparr>ms_level = 0, ms_title = [], ms_content = text, ms_order = 0, ms_high = False\<rparr>]
      else sections_of keywords ls 0 hs)"

definition section_text :: "markdown_section \<Rightarrow> string" where
  "section_text s =
     (if ms_title s \<noteq> []
      then replicate (max (ms_level s) 1) (CHR ''#'') @ '' '' @ ms_title s @ [CHR 0x0A] @ ms_content s
      else ms_content s)"

definition recomposeDroppingNormalSections :: "string list \<Rightarrow> string \<Rightarrow> string option" where
  "recomposeDroppingNormalSections keywords prompt =
     (let sections = parseMarkdownSections keywords prompt; high = filter ms_high sections in
      if length sections \<le> 1 \<or> high = [] \<or> length high = length sections then None
      else Some (concat (case map section_text high of [] \<Rightarrow> []
                         | t # ts \<Rightarrow> t # map ((@) [CHR 0x0A, CHR 0x0A]) ts)))"

section \<open>The parent of a governed flow\<close>

record flow_principal =
  fp_workspaceId :: string
  fp_actorType :: string
  fp_agentId :: string
  fp_agentVersionId :: string
  fp_releaseSetId :: string
  fp_executionId :: string
  fp_serviceIdentityId :: "string option"
  fp_roleId :: "string option"

record governed_parent =
  gp_workspaceId :: string
  gp_sourceWorkspaceId :: string
  gp_activeSnapshot :: bool
  gp_candidateIsolationBindingId :: "string option"
  gp_candidateIsolationSnapshotHash :: "string option"
  gp_releaseSetId :: string
  gp_agentVersionId :: string
  gp_bundleDigest :: string
  gp_principal :: flow_principal
  gp_traceId :: string
  gp_correlationId :: string
  gp_parentFlowExecutionId :: string
  gp_parentFlowStepLogId :: string

definition nonBlank :: "string option \<Rightarrow> bool" where
  "nonBlank v \<longleftrightarrow> (case v of Some s \<Rightarrow> trim s \<noteq> [] | None \<Rightarrow> False)"

definition lower_hex :: "char \<Rightarrow> bool" where
  "lower_hex c \<longleftrightarrow> is_digit c \<or> 97 \<le> code_of c \<and> code_of c \<le> 102"

definition sha256_digest :: "string \<Rightarrow> bool" where
  "sha256_digest s \<longleftrightarrow> starts_with ''sha256:'' s \<and> length s = 71 \<and> list_all lower_hex (drop 7 s)"

definition parent_complete :: "string \<Rightarrow> string \<Rightarrow> governed_parent \<Rightarrow> bool" where
  "parent_complete workspaceId agentId g \<longleftrightarrow>
     (let p = gp_principal g in
      gp_workspaceId g = workspaceId \<and> nonBlank (Some (gp_sourceWorkspaceId g)) \<and> nonBlank (Some (gp_releaseSetId g))
      \<and> nonBlank (Some (gp_agentVersionId g)) \<and> sha256_digest (gp_bundleDigest g) \<and> nonBlank (Some (gp_traceId g))
      \<and> nonBlank (Some (gp_correlationId g)) \<and> nonBlank (Some (gp_parentFlowExecutionId g))
      \<and> nonBlank (Some (gp_parentFlowStepLogId g)) \<and> fp_workspaceId p = workspaceId \<and> fp_actorType p = ''agent''
      \<and> fp_agentId p = agentId \<and> fp_agentVersionId p = gp_agentVersionId g \<and> fp_releaseSetId p = gp_releaseSetId g
      \<and> fp_executionId p = gp_parentFlowExecutionId g \<and> nonBlank (fp_serviceIdentityId p) \<and> nonBlank (fp_roleId p))"

definition parent_mode_valid :: "governed_parent \<Rightarrow> bool" where
  "parent_mode_valid g \<longleftrightarrow>
     (if gp_activeSnapshot g
      then gp_sourceWorkspaceId g = gp_workspaceId g \<and> gp_candidateIsolationBindingId g = None
           \<and> gp_candidateIsolationSnapshotHash g = None
      else gp_sourceWorkspaceId g \<noteq> gp_workspaceId g \<and> nonBlank (gp_candidateIsolationBindingId g)
           \<and> sha256_digest (nullish (gp_candidateIsolationSnapshotHash g) []))"

definition assertGovernedFlowAgentParent :: "string \<Rightarrow> string \<Rightarrow> governed_parent \<Rightarrow> unit result" where
  "assertGovernedFlowAgentParent workspaceId agentId g =
     (if \<not> parent_complete workspaceId agentId g \<or> \<not> parent_mode_valid g
      then Inl ''FLOW_AGENT_RELEASE_PARENT_INVALID'' else Inr ())"

section \<open>Tool schemas in the prompt\<close>

fun compactToolSchemaForPrompt :: "json \<Rightarrow> json" where
  "compactToolSchemaForPrompt (JArr vs) = JArr (map compactToolSchemaForPrompt vs)"
| "compactToolSchemaForPrompt (JObj ps) =
     JObj (map (\<lambda>(k, v). (k, compactToolSchemaForPrompt v))
       (filter (\<lambda>(k, v). k \<notin> {''description'', ''title'', ''examples''}) ps))"
| "compactToolSchemaForPrompt v = v"

section \<open>Lemmas\<close>

definition plain_pattern :: "string \<Rightarrow> bool" where
  "plain_pattern p \<longleftrightarrow> list_all (\<lambda>c. c \<notin> set SPECIAL \<and> c \<noteq> CHR ''*'' \<and> \<not> line_break c) p"

lemma glob_star: "list_all (\<lambda>c. \<not> line_break c) s \<Longrightarrow> glob_match ''*'' s"
  by (induction s) auto

lemma glob_prefix:
  "plain_pattern p \<Longrightarrow> list_all (\<lambda>c. \<not> line_break c) s \<Longrightarrow> glob_match (p @ ''*'') (p @ s)"
  by (induction p) (auto simp: plain_pattern_def glob_star)

lemma prefix_pattern_matches:
  assumes "plain_pattern p" "list_all (\<lambda>c. \<not> line_break c) s"
  shows "pattern_matches regex (p @ ''*'') (p @ s)"
proof -
  have "\<not> list_ex (\<lambda>c. c \<in> set SPECIAL) (p @ ''*'')"
    using assms(1) by (auto simp: plain_pattern_def list_all_iff list_ex_iff SPECIAL_def)
  then show ?thesis using glob_prefix [OF assms] by (simp add: pattern_matches_def)
qed

definition in_scope :: "json option \<Rightarrow> sensitive_rule \<Rightarrow> bool" where
  "in_scope toolInput rule \<longleftrightarrow>
     truthy (so_objectApiName rule) \<and> so_objectApiName rule \<noteq> Some ''*''
       \<longrightarrow> input_object toolInput = map_option JStr (so_objectApiName rule)"

lemma checked_rule_applies:
  "checkSensitiveOps regex tool toolInput rules = Some r \<Longrightarrow> r \<in> set rules \<and> in_scope toolInput r"
  by (induction rules) (auto simp: matched_by_pattern_def matched_by_object_def in_scope_def split: if_splits)

lemma matching_rule_found:
  "rule \<in> set rules \<Longrightarrow> matched_by_pattern regex tool toolInput rule \<Longrightarrow>
     checkSensitiveOps regex tool toolInput rules \<noteq> None"
  by (induction rules) auto

abbreviation runs :: "('w, tool_outcome) eff \<Rightarrow> nat \<Rightarrow> 'w \<Rightarrow> 'w" where
  "runs execute n \<equiv> (\<lambda>w. fst (one_attempt execute w)) ^^ n"

lemma retry_loop_runs:
  assumes "retry_loop execute backoff left tries waits w = (w', ws, r)"
  shows "\<exists>n\<le>left. rt_retryCount r = tries + n \<and> w' = runs execute (Suc n) w
    \<and> ws = waits @ map (\<lambda>k. backoff * 2 ^ k) [tries..<tries + n]"
  using assms
proof (induction left arbitrary: tries waits w)
  case 0
  then show ?case by (auto simp: Let_def split: prod.splits if_splits)
next
  case (Suc left)
  obtain w1 o1 where one: "one_attempt execute w = (w1, o1)" by force
  show ?case
  proof (cases "\<not> to_success o1 \<and> to_guardrailCheck o1 \<noteq> ''escalated'' \<and> fst (classifyToolFailure o1)")
    case True
    then have "retry_loop execute backoff left (Suc tries) (waits @ [backoff * 2 ^ tries]) w1 = (w', ws, r)"
      using Suc.prems one by (cases "classifyToolFailure o1") simp
    then obtain n where n: "n \<le> left" "rt_retryCount r = Suc tries + n" "w' = runs execute (Suc n) w1"
      "ws = (waits @ [backoff * 2 ^ tries]) @ map (\<lambda>k. backoff * 2 ^ k) [Suc tries..<Suc tries + n]"
      using Suc.IH by blast
    have "w' = runs execute (Suc (Suc n)) w"
      by (simp only: n(3) funpow_Suc_right [of "Suc n"] o_apply one fst_conv)
    moreover have "ws = waits @ map (\<lambda>k. backoff * 2 ^ k) [tries..<tries + Suc n]"
      using n(4) by (simp add: upt_rec [of tries])
    ultimately show ?thesis using n(1,2) by (intro exI [of _ "Suc n"]) simp
  next
    case False
    then have "w' = w1 \<and> ws = waits \<and> rt_retryCount r = tries"
      using Suc.prems one by (cases "classifyToolFailure o1") (auto split: if_splits)
    then show ?thesis using one by (intro exI [of _ 0]) simp
  qed
qed

lemma fill_cong:
  assumes "\<And>n. n \<in> set KNOWN_SEGMENTS \<Longrightarrow> nullish (f n) [] = nullish (g n) []"
  shows "fill_template template f = fill_template template g"
  using assms by (simp add: fill_template_def KNOWN_SEGMENTS_def)

lemma trimmed_within:
  assumes "\<And>n. n \<in> set KNOWN_SEGMENTS \<Longrightarrow> n \<notin> fst ` set segments \<Longrightarrow> nullish (active n) [] = []"
  shows "estimateTokens (trim_segments template b segments active) \<le> b
    \<or> trim_segments template b segments active = fill_template template (\<lambda>_. None)"
  using assms
proof (induction segments arbitrary: active)
  case Nil
  then show ?case using fill_cong [of active "\<lambda>_. None" template] by (simp add: nullish_def)
next
  case (Cons p segments)
  obtain name c where p: "p = (name, c)" by force
  show ?case
  proof (cases "estimateTokens (fill_template template active) \<le> b")
    case False
    have drop: "estimateTokens (trim_segments template b segments (active(name \<mapsto> []))) \<le> b
        \<or> trim_segments template b segments (active(name \<mapsto> [])) = fill_template template (\<lambda>_. None)"
    proof (rule Cons.IH)
      show "nullish ((active(name \<mapsto> [])) n) [] = []" if "n \<in> set KNOWN_SEGMENTS" "n \<notin> fst ` set segments" for n
        using Cons.prems [of n] that by (auto simp: p nullish_def)
    qed
    have keep: "estimateTokens (trim_segments template b segments active) \<le> b
        \<or> trim_segments template b segments active = fill_template template (\<lambda>_. None)"
      if "name \<notin> set KNOWN_SEGMENTS \<or> nullish (active name) [] = []"
      using Cons.IH [of active] Cons.prems that by (auto simp: p)
    show ?thesis using False drop keep by (simp add: p)
  qed (simp add: p)
qed

lemma concat_contains: "x \<in> set xs \<Longrightarrow> contains x (concat (map ((@) sep) xs))"
  by (induction xs) (auto simp: contains_iff, metis append.assoc)

lemma section_text_kept:
  assumes "recomposeDroppingNormalSections keywords prompt = Some t" "s \<in> set (parseMarkdownSections keywords prompt)" "ms_high s"
  shows "contains (section_text s) t"
proof -
  obtain u us where u: "map section_text (filter ms_high (parseMarkdownSections keywords prompt)) = u # us"
    "t = u @ concat (map ((@) [CHR 0x0A, CHR 0x0A]) us)"
    using assms(1) by (auto simp: recomposeDroppingNormalSections_def Let_def split: if_splits list.splits)
  have "section_text s \<in> section_text ` set (filter ms_high (parseMarkdownSections keywords prompt))"
    using assms(2,3) by simp
  then have "section_text s \<in> set (u # us)" using u(1) by (metis list.set_map)
  then consider "section_text s = u" | "section_text s \<in> set us" by auto
  then show ?thesis
  proof cases
    case 1
    then show ?thesis using u(2) by (auto simp: contains_iff)
  next
    case 2
    then obtain a b where "concat (map ((@) [CHR 0x0A, CHR 0x0A]) us) = a @ section_text s @ b"
      using concat_contains [of _ us "[CHR 0x0A, CHR 0x0A]"] unfolding contains_iff by blast
    then have "t = (u @ a) @ section_text s @ b" using u(2) by simp
    then show ?thesis unfolding contains_iff by blast
  qed
qed

section \<open>Properties\<close>



text \<open>
  A tool is retried a bounded number of times: after \<open>n\<close> retries it has run exactly \<open>n + 1\<close> times, \<open>n\<close>
  does not exceed the configured maximum, and the waits between the runs double.
\<close>

theorem tool_runs_are_counted:
  "(case executeToolWithRetry execute maxRetries backoff w of (w', waits, r) \<Rightarrow>
     rt_retryCount r \<le> nat (nullish maxRetries 2) \<and> w' = runs execute (Suc (rt_retryCount r)) w
     \<and> waits = map (\<lambda>k. nat (nullish backoff 250) * 2 ^ k) [0..<rt_retryCount r])"
proof -
  obtain w' waits r where x: "executeToolWithRetry execute maxRetries backoff w = (w', waits, r)"
    by (cases "executeToolWithRetry execute maxRetries backoff w") auto
  then show ?thesis using retry_loop_runs [of execute "nat (nullish backoff 250)" "nat (nullish maxRetries 2)" 0 "[]" w w' waits r]
    by (auto simp: executeToolWithRetry_def)
qed

text \<open>
  The system prompt stays in its token budget, or every expendable segment has been dropped from it.
\<close>

theorem prompt_budget_kept:
  assumes "0 < b"
  shows "estimateTokens (enforceSystemTokenBudget template trimmable (Some b)) \<le> b
    \<or> enforceSystemTokenBudget template trimmable (Some b) = fill_template template (\<lambda>_. None)"
proof -
  have "nullish (map_of (rev trimmable) n) [] = []" if "n \<notin> fst ` set trimmable" for n
    using that map_of_eq_None_iff [of "rev trimmable" n] by (simp add: nullish_def)
  then show ?thesis using assms trimmed_within [of trimmable "map_of (rev trimmable)"]
    by (simp add: enforceSystemTokenBudget_def)
qed

lemma prompt_budget_kept_witness:
  "estimateTokens (enforceSystemTokenBudget ''Use {exemplars} and {knowledge}.''
      [(''verified_exemplars'', replicate 40 (CHR ''e'')), (''knowledge_context'', ''facts'')] (Some 20)) \<le> 20"
proof -
  have "estimateTokens (fill_template ''Use {exemplars} and {knowledge}.'' (\<lambda>_. None)) \<le> 20" by code_simp
  then show ?thesis using prompt_budget_kept [of 20 "''Use {exemplars} and {knowledge}.''"
      "[(''verified_exemplars'', replicate 40 (CHR ''e'')), (''knowledge_context'', ''facts'')]"] by auto
qed

text \<open>
  When a prompt is cropped to its high-priority sections, every one of them is in the result with its
  title and its whole text.
\<close>

theorem cropping_keeps_red_lines:
  assumes "recomposeDroppingNormalSections keywords prompt = Some t"
  shows "list_all (\<lambda>s. ms_high s \<longrightarrow> contains (section_text s) t) (parseMarkdownSections keywords prompt)"
  using section_text_kept [OF assms] by (simp add: list_all_iff)

definition sample_prompt :: string where
  "sample_prompt = join_lines [''You are Ada.'', ''# Style'', ''Be brief.'', ''## Limits'', ''<!-- priority: high -->'', ''Never delete.'']"

lemma cropping_keeps_red_lines_witness:
  "recomposeDroppingNormalSections [] sample_prompt = Some (join_lines [''## Limits'', ''<!-- priority: high -->'', ''Never delete.''])
   \<and> list_all (\<lambda>s. ms_high s \<longrightarrow> contains (section_text s) (join_lines [''## Limits'', ''<!-- priority: high -->'', ''Never delete.'']))
       (parseMarkdownSections [] sample_prompt)"
proof -
  have "recomposeDroppingNormalSections [] sample_prompt = Some (join_lines [''## Limits'', ''<!-- priority: high -->'', ''Never delete.''])"
    by code_simp
  then show ?thesis using cropping_keeps_red_lines by blast
qed

text \<open>The text before the first heading is in no section, and a carriage return hides a heading.\<close>

lemma preamble_in_no_section:
  "map ms_content (parseMarkdownSections [] sample_prompt)
     = [''Be brief.'', join_lines [''<!-- priority: high -->'', ''Never delete.'']]"
  by code_simp

lemma carriage_return_hides_heading:
  "map ms_high (parseMarkdownSections [''Limits''] (''# Limits'' @ [CHR 0x0D, CHR 0x0A] @ ''Never delete.'')) = [False]"
  by code_simp

text \<open>A property that is named like a keyword of the schema disappears from the schema the model sees.\<close>

lemma title_property_hidden:
  "compactToolSchemaForPrompt (JObj [(''type'', JStr ''object''),
      (''properties'', JObj [(''title'', JObj [(''type'', JStr ''string'')])]), (''required'', JArr [JStr ''title''])])
   = JObj [(''type'', JStr ''object''), (''properties'', JObj []), (''required'', JArr [JStr ''title''])]"
  by code_simp

text \<open>A dollar sign in a segment is read as a pattern of the replacement.\<close>

lemma dollar_repeats_the_prompt:
  "fill_template ''Rules. {knowledge}'' [''knowledge_context'' \<mapsto> ''fee is $`''] = ''Rules. fee is Rules. ''"
  by code_simp

end
