(* ===== verification/React_Learning.thy ===== *)
theory React_Learning
  imports Agent_Response Canonical
begin

text \<open>
  What the product's executor records about a tool call:
  \<open>packages/backend/src/modules/agent-runtime/executor/executor-engine.service.ts\<close>, lines 2790 to 3020.
  Identifiers of the execution, with their fallbacks in the payload of its trigger; the input of a call
  as it may leave the execution; the references of a knowledge search.

  \<open>Number\<close> on texts is the argument \<open>num\<close>, SHA-256 the argument \<open>sha\<close>. Workspace, execution and agent ids,
  which every record carries, are left out, and so are durations.
\<close>

section \<open>Who and what an execution belongs to\<close>

record execution_context =
  xc_traceId :: "string option"
  xc_correlationId :: "string option"
  xc_actorType :: "string option"
  xc_actorId :: "string option"
  xc_source :: "string option"
  xc_release :: bool

record execution_origin =
  xo_id :: string
  xo_triggerPayload :: "json option"
  xo_triggeredBy :: "string option"
  xo_triggerSource :: "string option"

text \<open>\<open>typeof payload?.key === 'string' ? payload.key : undefined\<close>.\<close>

definition payload_text :: "string \<Rightarrow> execution_origin \<Rightarrow> string option" where
  "payload_text k x =
     (case optional_member k (xo_triggerPayload x) of Some (JStr s) \<Rightarrow> Some s | _ \<Rightarrow> None)"

text \<open>\<open>a ?? b\<close> where \<open>b\<close> may be absent too.\<close>

definition else_option :: "'a option \<Rightarrow> 'a option \<Rightarrow> 'a option" where
  "else_option a b = (case a of Some x \<Rightarrow> Some x | None \<Rightarrow> b)"

record correlation =
  co_traceId :: "string option"
  co_correlationId :: "string option"
  co_actorType :: "string option"
  co_actorId :: "string option"
  co_source :: "string option"

definition correlation_of :: "execution_context \<Rightarrow> execution_origin \<Rightarrow> correlation" where
  "correlation_of c x =
     \<lparr>co_traceId = else_option (xc_traceId c) (payload_text ''traceId'' x),
      co_correlationId = else_option (xc_correlationId c)
        (else_option (payload_text ''correlationId'' x) (payload_text ''traceId'' x)),
      co_actorType = else_option (xc_actorType c) (payload_text ''actorType'' x),
      co_actorId = else_option (xc_actorId c) (else_option (payload_text ''actorId'' x) (xo_triggeredBy x)),
      co_source = else_option (xc_source c) (else_option (payload_text ''source'' x) (xo_triggerSource x))\<rparr>"

definition extractWorkflowId :: "execution_origin \<Rightarrow> string option" where
  "extractWorkflowId x = payload_text ''workflowId'' x"

definition extractCorrelationId :: "execution_context \<Rightarrow> execution_origin \<Rightarrow> string" where
  "extractCorrelationId c x =
     nullish (else_option (xc_correlationId c)
       (else_option (payload_text ''correlationId'' x) (payload_text ''traceId'' x))) (xo_id x)"

definition extractActorId :: "execution_context \<Rightarrow> execution_origin \<Rightarrow> string option" where
  "extractActorId c x = else_option (xc_actorId c) (else_option (payload_text ''actorId'' x) (xo_triggeredBy x))"

section \<open>The input of a call\<close>

definition json_digest :: "(string \<Rightarrow> string) \<Rightarrow> json \<Rightarrow> string result" where
  "json_digest sha v = canonicalJsonDigest sha (jval_of v)"

text \<open>
  A value of the model is a JSON value, so the branch of \<open>isJsonValue\<close> that fails is never taken.
  In an execution that is bound to a release no input leaves, only its digest.
\<close>

definition learningSafeToolInput :: "(string \<Rightarrow> string) \<Rightarrow> execution_context \<Rightarrow> json \<Rightarrow> json" where
  "learningSafeToolInput sha c inp =
     (if \<not> xc_release c
      then (case inp of JObj ps \<Rightarrow> JObj ps | v \<Rightarrow> JObj [(''value'', v)])
      else JObj [(''redacted'', JBool True),
                 (''inputDigest'', case json_digest sha inp of Inl _ \<Rightarrow> JNull | Inr d \<Rightarrow> JStr d)])"

definition toLearningRiskLevel :: "string option \<Rightarrow> string" where
  "toLearningRiskLevel v =
     (if nullish v [] \<in> {''L0'', ''L1'', ''L2'', ''L3'', ''L4''} then the v else ''L0'')"

section \<open>The references of a knowledge search\<close>

definition optionalString :: "json option \<Rightarrow> string option" where
  "optionalString v = (case v of Some (JStr s) \<Rightarrow> if trim s \<noteq> [] then Some s else None | _ \<Rightarrow> None)"

text \<open>\<open>Number(undefined)\<close> is not finite; the other values go through \<open>Number\<close>.\<close>

definition optionalFiniteNumber :: "(string \<Rightarrow> int option) \<Rightarrow> json option \<Rightarrow> int option" where
  "optionalFiniteNumber num v = (case v of None \<Rightarrow> None | Some x \<Rightarrow> js_Number num x)"

record knowledge_ref =
  kr_sourceId :: string
  kr_chunkId :: "string option"
  kr_sourceRef :: "string option"
  kr_score :: "int option"
  kr_cited :: bool

definition buildKnowledgeSourceRef :: "string option \<Rightarrow> string option \<Rightarrow> json option \<Rightarrow> string option" where
  "buildKnowledgeSourceRef sourceType sourceObject attribution =
     (case (sourceType, sourceObject) of
        (Some t, Some q) \<Rightarrow> Some (t @ '':'' @ q)
      | (Some t, None) \<Rightarrow> Some t
      | (None, Some q) \<Rightarrow> Some q
      | (None, None) \<Rightarrow> if optionalString attribution \<noteq> None then Some ''source_attribution'' else None)"

definition mapKnowledgeSearchResult :: "(string \<Rightarrow> int option) \<Rightarrow> json \<Rightarrow> knowledge_ref option" where
  "mapKnowledgeSearchResult num row =
     (case row of
        JObj ps \<Rightarrow>
          (let chunkId = optionalString (map_of ps ''id'');
               sourceObject = optionalString (map_of ps ''sourceObject'');
               sourceType = optionalString (map_of ps ''sourceType'')
           in map_option (\<lambda>sourceId.
                \<lparr>kr_sourceId = sourceId, kr_chunkId = chunkId,
                 kr_sourceRef = buildKnowledgeSourceRef sourceType sourceObject (map_of ps ''sourceAttribution''),
                 kr_score = optionalFiniteNumber num (map_of ps ''similarity''),
                 kr_cited = (optionalString (map_of ps ''sourceAttribution'') \<noteq> None)\<rparr>)
              (else_option sourceObject (else_option sourceType chunkId)))
      | _ \<Rightarrow> None)"

definition extractKnowledgeReferences :: "(string \<Rightarrow> int option) \<Rightarrow> json \<Rightarrow> knowledge_ref list" where
  "extractKnowledgeReferences num output =
     (case prop_of ''results'' output of
        Some (JArr results) \<Rightarrow> List.map_filter (mapKnowledgeSearchResult num) results
      | _ \<Rightarrow> [])"

section \<open>The events\<close>

record learning_event =
  le_type :: string
  le_source :: string
  le_span :: "nat option"
  le_risk :: "string option"
  le_tool :: "string option"
  le_input :: json
  le_error :: "string option"
  le_check :: "string option"
  le_approval :: "(string \<times> string) option"
  le_refs :: "knowledge_ref list"

definition tool_event :: "string \<Rightarrow> string \<Rightarrow> nat option \<Rightarrow> string \<Rightarrow> json \<Rightarrow> learning_event" where
  "tool_event type source span tool inp =
     \<lparr>le_type = type, le_source = source, le_span = span, le_risk = None, le_tool = Some tool, le_input = inp,
      le_error = None, le_check = None, le_approval = None, le_refs = []\<rparr>"

end
