(* ===== verification/React_Loop.thy ===== *)
theory React_Loop
  imports Agent_Guards React_Learning Guardrail Execution_States
begin

text \<open>
  The ReAct loop of the product's executor:
  \<open>packages/backend/src/modules/agent-runtime/executor/executor-engine.service.ts\<close>, \<open>runReActLoop\<close>
  and the steps it writes.

  The world is the row of the execution, the rows of its steps, the approvals asked for, the tool calls
  handed to the registry, and the events; \<open>rx_ext\<close> is the rest: clock, model, tools, approval engine,
  which the functions of \<open>react_ports\<close> act on. A port may throw. Durations, log lines and the stamps of
  providers are left out. The dash of some messages is U+2014, outside the characters of the model, and
  is written as a hyphen.

  The loop is a function on its variables (\<open>loop_state\<close>); one iteration ends with the variables of the
  next one or with the steps to return. It ends because \<open>i\<close> grows, or stays once: when the prompt is
  cropped.
\<close>

section \<open>Steps\<close>

record termination_record =
  tm_reason :: string
  tm_rootCause :: string
  tm_toolName :: "json option"
  tm_errorClass :: "error_class option"
  tm_retryCount :: "nat option"

record react_step =
  st_iteration :: nat
  st_thought :: thought
  st_action :: agent_action
  st_success :: bool
  st_output :: json
  st_error :: "string option"
  st_guardrailTriggered :: bool
  st_termination :: "termination_record option"
  st_tokens :: "int \<times> int"
  st_model :: string

definition own_thought :: "string \<Rightarrow> string \<Rightarrow> confidence \<Rightarrow> thought" where
  "own_thought reasoning plan conf =
     \<lparr>th_reasoning = JStr reasoning, th_plan = JStr plan, th_confidence = conf\<rparr>"

text \<open>A step the loop ends with, without a call of the model.\<close>

definition closing_step :: "nat \<Rightarrow> thought \<Rightarrow> string \<Rightarrow> string \<Rightarrow> react_step" where
  "closing_step i t output error =
     \<lparr>st_iteration = i, st_thought = t, st_action = bare_action ''finish'', st_success = False,
      st_output = JStr output, st_error = Some error, st_guardrailTriggered = False, st_termination = None,
      st_tokens = (0, 0), st_model = ''n/a''\<rparr>"

definition createExecutionTimeoutStep :: "nat \<Rightarrow> int \<Rightarrow> react_step" where
  "createExecutionTimeoutStep i budgetMs =
     closing_step i (own_thought (''Wall-clock execution budget of '' @ show_int budgetMs @ ''ms exceeded'')
         ''Terminate execution'' Certain)
       ''Execution terminated: wall-clock time budget exceeded.'' ''EXECUTION_WALL_CLOCK_TIMEOUT''"

definition cap_step :: "nat \<Rightarrow> react_step" where
  "cap_step i =
     closing_step i (own_thought ''Smart Cap budget reached'' ''Terminate execution'' Certain)
       ''Smart Cap budget reached during execution. Execution terminated by budget policy.''
       ''Smart Cap budget reached''"

definition llm_error_step :: "nat \<Rightarrow> string \<Rightarrow> react_step" where
  "llm_error_step i message =
     closing_step i (own_thought (''LLM call failed: '' @ message) ''Terminate'' (Stated 0))
       (''LLM provider error: '' @ message) message"

definition createControlledTerminationStep ::
    "nat \<Rightarrow> chat_response option \<Rightarrow> termination_record \<Rightarrow> string \<Rightarrow> (thought \<times> agent_action) option \<Rightarrow> react_step" where
  "createControlledTerminationStep i response tm userMessage taken =
     \<lparr>st_iteration = i,
      st_thought = (case taken of Some (t, _) \<Rightarrow> t | None \<Rightarrow>
        own_thought (if tm_reason tm = ''token_budget'' then ''Token budget exceeded'' else tm_reason tm)
          ''Terminate'' Certain),
      st_action = (case taken of Some (_, a) \<Rightarrow> a | None \<Rightarrow> bare_action ''finish''),
      st_success = False, st_output = JStr userMessage, st_error = Some (tm_rootCause tm),
      st_guardrailTriggered = False, st_termination = Some tm,
      st_tokens = (case response of Some r \<Rightarrow> (cr_inputTokens r, cr_outputTokens r) | None \<Rightarrow> (0, 0)),
      st_model = (case response of Some r \<Rightarrow> cr_model r | None \<Rightarrow> ''n/a'')\<rparr>"

definition ended_because :: "string \<Rightarrow> string \<Rightarrow> termination_record" where
  "ended_because reason rootCause =
     \<lparr>tm_reason = reason, tm_rootCause = rootCause, tm_toolName = None, tm_errorClass = None, tm_retryCount = None\<rparr>"

definition stableToolCallDigest :: "(string \<Rightarrow> string) \<Rightarrow> string \<Rightarrow> json option \<Rightarrow> string result" where
  "stableToolCallDigest sha tool toolInput =
     json_digest sha (JObj ((''toolName'', JStr tool)
       # (case toolInput of None \<Rightarrow> [] | Some v \<Rightarrow> [(''toolInput'', v)])))"

text \<open>The entries of an error of all providers: the provider and the code, with other characters as underscores.\<close>

definition clean_with :: "(char \<Rightarrow> bool) \<Rightarrow> nat \<Rightarrow> string \<Rightarrow> string" where
  "clean_with ok n s = take n (map (\<lambda>c. if ok c then c else CHR ''_'') s)"

definition upper_letter :: "char \<Rightarrow> bool" where
  "upper_letter c \<longleftrightarrow> 65 \<le> code_of c \<and> code_of c \<le> 90"

definition formatLlmProviderError :: "string \<Rightarrow> (string \<times> string) list option \<Rightarrow> string" where
  "formatLlmProviderError message providerErrors =
     (case nullish providerErrors [] of
        [] \<Rightarrow> message
      | es \<Rightarrow>
          message @ ''; providerErrors=[''
          @ join_with '', '' (map (\<lambda>(p, e).
              clean_with (\<lambda>c. ascii_letter c \<or> is_digit c \<or> c \<in> set ''._:/-'') 160 p
              @ '':'' @ clean_with (\<lambda>c. upper_letter c \<or> is_digit c \<or> c \<in> set ''_:-'') 80 e) (take 5 es))
          @ (if length es > 5 then '', +'' @ show_nat (length es - 5) @ '' more'' else [])
          @ '']'')"

section \<open>The world and its ports\<close>

record approval_request =
  ar_tool :: string
  ar_input :: json
  ar_risk :: string
  ar_description :: "string option"
  ar_correlation :: correlation

record tool_run =
  tn_tool :: string
  tn_input :: json
  tn_requireDurable :: bool

record step_event =
  se_iteration :: nat
  se_thought :: string
  se_actionType :: "json option"
  se_toolName :: "json option"
  se_success :: bool
  se_tokens :: "int \<times> int"

record 'x react_world =
  rx_row :: "execution_status option"
  rx_status :: execution_status
  rx_persisted :: "(correlation \<times> react_step) list"
  rx_approvals :: "(string \<times> approval_request) list"
  rx_paused :: "(string \<times> string \<times> string) option"
  rx_ran :: "tool_run list"
  rx_learning :: "learning_event list"
  rx_events :: "step_event list"
  rx_ext :: 'x

record 'x react_ports =
  pt_now :: "('x, int) eff"
  pt_checkIteration :: "nat \<Rightarrow> ('x, bool) eff"
  pt_messages :: "react_step list \<Rightarrow> string option \<Rightarrow> ('x, chat_message list) eff"
  pt_freeze :: "string \<Rightarrow> nat option \<Rightarrow> ('x, unit) eff"
  pt_chat :: "chat_request \<Rightarrow> ('x, chat_response) eff"
  pt_generate :: "json \<Rightarrow> ('x, chat_response) eff"
  pt_execute :: "string \<Rightarrow> json \<Rightarrow> bool \<Rightarrow> ('x, tool_outcome) eff"
  pt_evaluate :: "string \<Rightarrow> json \<Rightarrow> string list \<Rightarrow> ('x, guardrail_evaluation) eff"
  pt_createApproval :: "approval_request \<Rightarrow> ('x, string) eff"
  pt_save :: "react_step \<Rightarrow> ('x, unit) eff"

text \<open>What an execution is given: its origin and context, and the constraints of the context.\<close>

record react_config =
  rc_origin :: execution_origin
  rc_context :: execution_context
  rc_maxIterations :: nat
  rc_timeoutMs :: "int option"
  rc_maxTokens :: int
  rc_maxOutputTokensPerStep :: "int option"
  rc_maxStepTokens :: "int option"
  rc_maxToolCalls :: nat
  rc_maxToolRetryAttempts :: "int option"
  rc_toolRetryBackoffMs :: "int option"
  rc_sensitiveOps :: "sensitive_rule list option"
  rc_guardrailRuleIds :: "string list option"
  rc_guardrailEngine :: bool
  rc_forceTier :: "int option"

text \<open>Functions outside the source: the JSON reader, regular expressions, \<open>Number\<close>, SHA-256, UTF-8 length,
  texts that no string of the model can hold (the titles of high priority and the failure messages),
  and the entries of the error with a message, when all providers failed.\<close>

record react_lib =
  lb_parse :: json_parser
  lb_regex :: "string \<Rightarrow> string \<Rightarrow> bool"
  lb_num :: "string \<Rightarrow> int option"
  lb_sha :: "string \<Rightarrow> string"
  lb_utf8 :: "string \<Rightarrow> nat"
  lb_keywords :: "string list"
  lb_failure :: "error_class \<Rightarrow> string"
  lb_providerErrors :: "string \<Rightarrow> (string \<times> string) list option"

definition ext :: "('x, 'a) eff \<Rightarrow> ('x react_world, 'a) eff" where
  "ext m w = (case m (rx_ext w) of (r, x) \<Rightarrow> (r, w\<lparr>rx_ext := x\<rparr>))"

text \<open>\<open>try\<close>: the outcome as a value.\<close>

definition attempt :: "('w, 'a) eff \<Rightarrow> ('w, 'a result) eff" where
  "attempt m w = (case m w of (r, w') \<Rightarrow> (Inr r, w'))"

definition learn :: "learning_event \<Rightarrow> ('x react_world, unit) eff" where
  "learn e = modify (\<lambda>w. w\<lparr>rx_learning := rx_learning w @ [e]\<rparr>)"

definition persistStep :: "'x react_ports \<Rightarrow> react_config \<Rightarrow> react_step \<Rightarrow> ('x react_world, unit) eff" where
  "persistStep ports c step =
     seqE (ext (pt_save ports step))
       (modify (\<lambda>w. w\<lparr>rx_persisted := rx_persisted w @ [(correlation_of (rc_context c) (rc_origin c), step)]\<rparr>))"

text \<open>The transition reads and writes the row only; the callers set the status of the entity they hold.\<close>

definition transition_to :: "react_config \<Rightarrow> execution_status \<Rightarrow> ('x react_world, unit) eff" where
  "transition_to c new =
     bindE (reads rx_row) (\<lambda>row.
     bindE (of_option (''Execution not found: '' @ xo_id (rc_origin c)) row) (\<lambda>old.
     bindE (lift_result (handleStateTransition old new)) (\<lambda>s.
     modify (\<lambda>w. w\<lparr>rx_row := Some s\<rparr>))))"

section \<open>The variables of the loop\<close>

record loop_state =
  ls_i :: nat
  ls_steps :: "react_step list"
  ls_tokens :: int
  ls_prompt :: "string option"
  ls_cropped :: bool
  ls_toolCalls :: nat
  ls_digest :: "string option"
  ls_repeats :: nat

datatype loop_next = Continue loop_state | Finished "react_step list"

definition is_tool_call :: "react_step \<Rightarrow> bool" where
  "is_tool_call s \<longleftrightarrow> ac_type (st_action s) = Some (JStr ''tool_call'')"

definition initial_loop :: "react_step list \<Rightarrow> string option \<Rightarrow> loop_state" where
  "initial_loop steps prompt =
     \<lparr>ls_i = length steps, ls_steps = steps, ls_tokens = foldl (\<lambda>t s. t + fst (st_tokens s) + snd (st_tokens s)) 0 steps,
      ls_prompt = prompt, ls_cropped = False, ls_toolCalls = length (filter is_tool_call steps),
      ls_digest = None, ls_repeats = 0\<rparr>"

text \<open>\<open>steps.push(step); await persistStep(step); break\<close>, and the same before \<open>continue\<close>.\<close>

definition stop_with :: "'x react_ports \<Rightarrow> react_config \<Rightarrow> loop_state \<Rightarrow> react_step \<Rightarrow> ('x react_world, loop_next) eff" where
  "stop_with ports c ls step = seqE (persistStep ports c step) (ret (Finished (ls_steps ls @ [step])))"

definition next_iteration :: "loop_state \<Rightarrow> react_step \<Rightarrow> loop_state" where
  "next_iteration ls step = ls\<lparr>ls_i := Suc (ls_i ls), ls_steps := ls_steps ls @ [step]\<rparr>"

section \<open>Holding a call for an approval\<close>

definition in_quotes :: "string \<Rightarrow> string" where
  "in_quotes s = CHR 0x22 # s @ [CHR 0x22]"

text \<open>
  The three ways into an approval share their steps: the event, the status of the row and of the entity,
  the approval (unless a durable one is there already), the note for the caller, the event, the step.
  A port that throws leaves the row in \<open>guardrail_pending\<close>; the caller of the loop then fails the execution.
\<close>

definition ask_approval :: "'x react_ports \<Rightarrow> string option \<Rightarrow> approval_request \<Rightarrow> ('x react_world, string) eff" where
  "ask_approval ports durable q =
     (case durable of
        Some a \<Rightarrow> ret a
      | None \<Rightarrow> bindE (ext (pt_createApproval ports q)) (\<lambda>a.
                  seqE (modify (\<lambda>w. w\<lparr>rx_approvals := rx_approvals w @ [(a, q)]\<rparr>)) (ret a)))"

definition hold ::
    "'x react_ports \<Rightarrow> react_config \<Rightarrow> loop_state \<Rightarrow> learning_event \<Rightarrow> string option \<Rightarrow> approval_request \<Rightarrow> string
      \<Rightarrow> (string \<Rightarrow> react_step) \<Rightarrow> ('x react_world, loop_next) eff" where
  "hold ports c ls e durable q pausedRisk step =
     seqE (learn (e\<lparr>le_type := ''guardrail_triggered''\<rparr>))
    (seqE (transition_to c GuardrailPending)
    (seqE (modify (\<lambda>w. w\<lparr>rx_status := GuardrailPending\<rparr>))
    (bindE (ask_approval ports durable q) (\<lambda>a.
     seqE (modify (\<lambda>w. w\<lparr>rx_paused := Some (a, ar_tool q, pausedRisk)\<rparr>))
    (seqE (learn (e\<lparr>le_type := ''approval_requested'', le_error := None, le_approval := Some (a, ''pending'')\<rparr>))
     (stop_with ports c ls (step a)))))))"

definition acted_step ::
    "nat \<Rightarrow> thought \<Rightarrow> agent_action \<Rightarrow> chat_response \<Rightarrow> bool \<Rightarrow> json \<Rightarrow> string option \<Rightarrow> bool \<Rightarrow> react_step" where
  "acted_step i t a r success output error guarded =
     \<lparr>st_iteration = i, st_thought = t, st_action = a, st_success = success, st_output = output, st_error = error,
      st_guardrailTriggered = guarded, st_termination = None,
      st_tokens = (cr_inputTokens r, cr_outputTokens r), st_model = cr_model r\<rparr>"

definition held_step :: "nat \<Rightarrow> thought \<Rightarrow> agent_action \<Rightarrow> chat_response \<Rightarrow> string \<Rightarrow> react_step" where
  "held_step i t a r text = acted_step i t a r False (JStr text) None True"

text \<open>\<open>action.toolInput ?? {}\<close>.\<close>

definition given_input :: "agent_action \<Rightarrow> json" where
  "given_input a = or_empty_object (ac_toolInput a)"

text \<open>\<open>action.toolInput || {}\<close>: what the tool is run with.\<close>

definition run_input :: "agent_action \<Rightarrow> json" where
  "run_input a = (if truthy_json (ac_toolInput a) then the (ac_toolInput a) else JObj [])"

definition approval_for :: "react_config \<Rightarrow> string \<Rightarrow> json \<Rightarrow> string \<Rightarrow> string option \<Rightarrow> approval_request" where
  "approval_for c tool inp risk description =
     \<lparr>ar_tool = tool, ar_input = inp, ar_risk = risk, ar_description = description,
      ar_correlation = correlation_of (rc_context c) (rc_origin c)\<rparr>"

section \<open>Recording a step that goes on\<close>

definition max_steps_text :: "react_config \<Rightarrow> string" where
  "max_steps_text c = ''Maximum ReAct step count '' @ show_nat (rc_maxIterations c) @ '' reached''"

definition capped :: "react_config \<Rightarrow> react_step \<Rightarrow> react_step" where
  "capped c s =
     (if rc_maxIterations c \<le> Suc (st_iteration s) \<and> ac_type (st_action s) \<noteq> Some (JStr ''human_handoff'')
         \<and> st_termination s = None
      then s\<lparr>st_success := False,
             st_output := JStr ''The execution reached its step limit before it could finish.'',
             st_error := Some (max_steps_text c), st_guardrailTriggered := False,
             st_termination := Some \<lparr>tm_reason = ''max_steps'', tm_rootCause = max_steps_text c,
               tm_toolName = ac_toolName (st_action s), tm_errorClass = None, tm_retryCount = Some 0\<rparr>\<rparr>
      else s)"

text \<open>
  The event of a step is handed to the outbox without waiting; a reasoning that is neither a text nor null
  has no \<open>substring\<close>, and the event is lost with a warning.
\<close>

definition emit_step :: "react_step \<Rightarrow> ('x react_world, unit) eff" where
  "emit_step s =
     (let event = (\<lambda>text. modify (\<lambda>w. w\<lparr>rx_events := rx_events w @
          [\<lparr>se_iteration = st_iteration s, se_thought = text, se_actionType = ac_type (st_action s),
            se_toolName = ac_toolName (st_action s), se_success = st_success s, se_tokens = st_tokens s\<rparr>]\<rparr>)) in
      (case th_reasoning (st_thought s) of
         JStr text \<Rightarrow> event (take 200 text)
       | JNull \<Rightarrow> event []
       | _ \<Rightarrow> ret ()))"

definition finish_iteration :: "'x react_ports \<Rightarrow> react_config \<Rightarrow> loop_state \<Rightarrow> react_step \<Rightarrow> ('x react_world, loop_next) eff" where
  "finish_iteration ports c ls step =
     (let s = capped c step in
      seqE (persistStep ports c s)
     (seqE (emit_step s)
      (ret (if st_termination s \<noteq> None then Finished (ls_steps ls @ [s]) else Continue (next_iteration ls s)))))"

section \<open>Running a tool\<close>

definition registry_call :: "'x react_ports \<Rightarrow> string \<Rightarrow> json \<Rightarrow> bool \<Rightarrow> ('x react_world, tool_outcome) eff" where
  "registry_call ports tool inp requireDurable =
     seqE (modify (\<lambda>w. w\<lparr>rx_ran := rx_ran w @ [\<lparr>tn_tool = tool, tn_input = inp, tn_requireDurable = requireDurable\<rparr>]\<rparr>))
       (ext (pt_execute ports tool inp requireDurable))"

definition run_with_retry ::
    "'x react_ports \<Rightarrow> react_config \<Rightarrow> string \<Rightarrow> json \<Rightarrow> bool \<Rightarrow> ('x react_world, retry_result) eff" where
  "run_with_retry ports c tool inp requireDurable w =
     (case executeToolWithRetry (registry_call ports tool inp requireDurable)
             (rc_maxToolRetryAttempts c) (rc_toolRetryBackoffMs c) w of
        (w', waits, x) \<Rightarrow> (Inr x, w'))"

definition captureKnowledgeRetrievalEvent ::
    "react_lib \<Rightarrow> nat \<Rightarrow> string \<Rightarrow> json \<Rightarrow> tool_outcome \<Rightarrow> ('x react_world, unit) eff" where
  "captureKnowledgeRetrievalEvent lib i tool safe res =
     (let refs = extractKnowledgeReferences (lb_num lib) (to_output res) in
      if tool \<noteq> ''knowledge.search'' \<or> \<not> to_success res \<or> refs = [] then ret ()
      else learn ((tool_event ''knowledge_retrieved'' ''agent_runtime.executor.knowledge_search'' (Some i) tool safe)
             \<lparr>le_risk := Some ''L0'', le_check := Some (to_guardrailCheck res), le_refs := refs\<rparr>))"

text \<open>What a step keeps of a call whose payload is stored under a durable approval.\<close>

definition redacted_input :: "string \<times> string \<times> string \<Rightarrow> json" where
  "redacted_input ids =
     (case ids of (payloadEnvelopeId, toolCallId, inputDigest) \<Rightarrow>
        JObj [(''payloadEnvelopeId'', JStr payloadEnvelopeId), (''toolCallId'', JStr toolCallId),
              (''inputDigest'', JStr inputDigest), (''redacted'', JBool True)])"

definition hold_escalated ::
    "'x react_ports \<Rightarrow> react_config \<Rightarrow> loop_state \<Rightarrow> thought \<Rightarrow> agent_action \<Rightarrow> chat_response \<Rightarrow> string \<Rightarrow> json
      \<Rightarrow> tool_outcome \<Rightarrow> ('x react_world, loop_next) eff" where
  "hold_escalated ports c ls t a r tool safe res =
     (let stored = (case to_durable res of Some (_, ids) \<Rightarrow> a\<lparr>ac_toolInput := Some (redacted_input ids)\<rparr> | None \<Rightarrow> a) in
      hold ports c ls
        ((tool_event '''' ''agent_runtime.executor'' (Some (ls_i ls)) tool safe)
           \<lparr>le_risk := Some ''L2'', le_check := Some ''escalated'', le_error := to_error res\<rparr>)
        (map_option fst (to_durable res))
        (approval_for c tool (given_input a) (nullish (to_riskLevel res) ''L2'')
           (Some (''Tool '' @ tool @ '' escalated by tool framework guardrail'')))
        ''L2''
        (\<lambda>approvalId. held_step (ls_i ls) t stored r
           (''Guardrail escalated - awaiting approval (approvalInstanceId: '' @ approvalId @ '')'')))"

definition tool_failed_step ::
    "react_lib \<Rightarrow> loop_state \<Rightarrow> thought \<Rightarrow> agent_action \<Rightarrow> chat_response \<Rightarrow> string \<Rightarrow> retry_result \<Rightarrow> react_step" where
  "tool_failed_step lib ls t a r tool x =
     (let res = rt_result x; (retryable, cls) = classifyToolFailure res in
      createControlledTerminationStep (ls_i ls) (Some r)
        \<lparr>tm_reason = (if retryable then ''tool_retries_exhausted'' else ''tool_non_retryable''),
         tm_rootCause = nullish (to_error res) ''Tool execution failed'', tm_toolName = Some (JStr tool),
         tm_errorClass = Some (rt_errorClass x), tm_retryCount = Some (rt_retryCount x)\<rparr>
        (lb_failure lib cls) (Some (t, a)))"

definition run_tool ::
    "react_lib \<Rightarrow> 'x react_ports \<Rightarrow> react_config \<Rightarrow> loop_state \<Rightarrow> thought \<Rightarrow> agent_action \<Rightarrow> chat_response \<Rightarrow> string \<Rightarrow> bool
      \<Rightarrow> ('x react_world, loop_next) eff" where
  "run_tool lib ports c ls t a r tool requireDurable =
     (let inp = run_input a; i = ls_i ls;
          safe = learningSafeToolInput (lb_sha lib) (rc_context c) inp in
      seqE (learn (tool_event ''tool_call_started'' ''agent_runtime.executor'' (Some i) tool safe))
     (bindE (run_with_retry ports c tool inp requireDurable) (\<lambda>x. let res = rt_result x in
      seqE (learn ((tool_event (if to_success res then ''tool_call_completed'' else ''tool_call_failed'')
                      ''agent_runtime.executor'' (Some i) tool safe)
              \<lparr>le_error := to_error res, le_check := Some (to_guardrailCheck res)\<rparr>))
     (seqE (captureKnowledgeRetrievalEvent lib i tool safe res)
      (if to_guardrailCheck res = ''escalated'' then hold_escalated ports c ls t a r tool safe res
       else if \<not> to_success res then stop_with ports c ls (tool_failed_step lib ls t a r tool x)
       else finish_iteration ports c ls
              (acted_step i t a r (to_success res) (to_output res) (to_error res)
                 (to_guardrailCheck res \<noteq> ''passed'')))))))"

section \<open>The gates before a tool\<close>

text \<open>
  The rules bound to the agent, read by the guardrail engine; an engine that throws is passed by.
\<close>

definition engine_gate ::
    "react_lib \<Rightarrow> 'x react_ports \<Rightarrow> react_config \<Rightarrow> loop_state \<Rightarrow> thought \<Rightarrow> agent_action \<Rightarrow> chat_response \<Rightarrow> string \<Rightarrow> bool
      \<Rightarrow> guardrail_evaluation \<Rightarrow> ('x react_world, loop_next) eff" where
  "engine_gate lib ports c ls t a r tool requireDurable ev =
     (let label = nullish (ev_ruleName ev) (nullish (ev_ruleId ev) ''unknown'');
          e = (tool_event '''' ''agent_runtime.executor.guardrail_engine'' (Some (ls_i ls)) tool
                 (learningSafeToolInput (lb_sha lib) (rc_context c) (given_input a)))
                \<lparr>le_risk := Some (show_risk (ev_riskLevel ev))\<rparr>;
          actionType = ar_type (ev_action ev);
          go_on = run_tool lib ports c ls t a r tool requireDurable in
      if \<not> ev_matched ev then go_on
      else seqE (learn (e\<lparr>le_type := ''policy_checked''\<rparr>))
        (if actionType = ''allow'' \<or> actionType = ''audit'' then go_on
         else if actionType = ''block''
         then (let step = acted_step (ls_i ls) t a r False
                     (JStr (''Guardrail L4 blocked tool '' @ in_quotes tool @ '' - rule '' @ in_quotes label
                        @ '' marks this as a hard block (requires human; cannot proceed via approval).''))
                     (Some ''TOOL_RISK_L4_BLOCKED'') True in
               seqE (learn (e\<lparr>le_type := ''guardrail_triggered'', le_check := Some ''blocked''\<rparr>))
              (seqE (persistStep ports c step) (ret (Continue (next_iteration ls step)))))
         else hold ports c ls (e\<lparr>le_check := Some ''blocked''\<rparr>) None
                (approval_for c tool (given_input a) (show_risk (ev_riskLevel ev)) (Some label))
                (show_risk (ev_riskLevel ev))
                (\<lambda>approvalId. held_step (ls_i ls) t a r
                   (''Guardrail '' @ show_risk (ev_riskLevel ev) @ '' triggered - tool '' @ in_quotes tool
                      @ '' requires human approval: '' @ label @ '' (approvalInstanceId: '' @ approvalId @ '')''))))"

definition engine_rules :: "react_config \<Rightarrow> string list" where
  "engine_rules c = (if rc_guardrailEngine c then nullish (rc_guardrailRuleIds c) [] else [])"

definition after_sensitive_check ::
    "react_lib \<Rightarrow> 'x react_ports \<Rightarrow> react_config \<Rightarrow> loop_state \<Rightarrow> thought \<Rightarrow> agent_action \<Rightarrow> chat_response \<Rightarrow> string \<Rightarrow> bool
      \<Rightarrow> ('x react_world, loop_next) eff" where
  "after_sensitive_check lib ports c ls t a r tool requireDurable =
     (if engine_rules c = [] then run_tool lib ports c ls t a r tool requireDurable
      else bindE (attempt (ext (pt_evaluate ports tool (given_input a) (engine_rules c)))) (\<lambda>ev.
             case ev of
               Inl _ \<Rightarrow> run_tool lib ports c ls t a r tool requireDurable
             | Inr e \<Rightarrow> engine_gate lib ports c ls t a r tool requireDurable e))"

definition GOVERNED_FAIL_CLOSED :: string where
  "GOVERNED_FAIL_CLOSED = ''GOVERNED_SENSITIVE_OPERATION_FAIL_CLOSED''"

definition sensitive_gate ::
    "react_lib \<Rightarrow> 'x react_ports \<Rightarrow> react_config \<Rightarrow> loop_state \<Rightarrow> thought \<Rightarrow> agent_action \<Rightarrow> chat_response \<Rightarrow> string
      \<Rightarrow> ('x react_world, loop_next) eff" where
  "sensitive_gate lib ports c ls t a r tool =
     (case checkSensitiveOps (lb_regex lib) tool (ac_toolInput a) (nullish (rc_sensitiveOps c) []) of
        None \<Rightarrow> after_sensitive_check lib ports c ls t a r tool False
      | Some rule \<Rightarrow>
          (let e = (tool_event '''' ''agent_runtime.executor'' (Some (ls_i ls)) tool
                      (learningSafeToolInput (lb_sha lib) (rc_context c) (given_input a)))
                     \<lparr>le_risk := Some (toLearningRiskLevel (Some (so_riskLevel rule)))\<rparr>;
               description = or_string (so_description rule) (so_operation rule) in
           seqE (learn (e\<lparr>le_type := ''policy_checked''\<rparr>))
             (if so_riskLevel rule = ''L1'' then after_sensitive_check lib ports c ls t a r tool False
              else if xc_release (rc_context c)
              then (if so_riskLevel rule \<noteq> ''L3'' then throw GOVERNED_FAIL_CLOSED
                    else after_sensitive_check lib ports c ls t a r tool True)
              else hold ports c ls (e\<lparr>le_check := Some ''blocked''\<rparr>) None
                     (approval_for c tool (given_input a) (so_riskLevel rule) description) (so_riskLevel rule)
                     (\<lambda>approvalId. held_step (ls_i ls) t a r
                        (''Guardrail L2 triggered - tool '' @ in_quotes tool @ '' requires human approval: ''
                           @ nullish description ''undefined'' @ '' (approvalInstanceId: '' @ approvalId @ '')'')))))"

text \<open>The fuse for repeated calls and the limit of calls come before the gates.\<close>

definition JITTER_THRESHOLD :: nat where
  "JITTER_THRESHOLD = 3"

definition count_call :: "string \<Rightarrow> loop_state \<Rightarrow> loop_state" where
  "count_call digest ls =
     ls\<lparr>ls_toolCalls := Suc (ls_toolCalls ls), ls_digest := Some digest,
        ls_repeats := (if ls_digest ls = Some digest then Suc (ls_repeats ls) else 1)\<rparr>"

definition tool_branch ::
    "react_lib \<Rightarrow> 'x react_ports \<Rightarrow> react_config \<Rightarrow> loop_state \<Rightarrow> thought \<Rightarrow> agent_action \<Rightarrow> chat_response \<Rightarrow> string
      \<Rightarrow> ('x react_world, loop_next) eff" where
  "tool_branch lib ports c ls0 t a r tool =
     bindE (lift_result (stableToolCallDigest (lb_sha lib) tool (ac_toolInput a))) (\<lambda>digest.
       let ls = count_call digest ls0 in
       if JITTER_THRESHOLD \<le> ls_repeats ls
       then seqE (learn ((tool_event ''tool_call_failed'' ''agent_runtime.executor'' (Some (ls_i ls)) tool
                           (nullish (ac_toolInput a) JNull))
                    \<lparr>le_risk := Some ''L1'', le_error := Some ''JITTER_DETECTED''\<rparr>))
              (stop_with ports c ls (createControlledTerminationStep (ls_i ls) (Some r)
                 ((ended_because ''tool_call_jitter''
                     (''Identical tool call repeated '' @ show_nat (ls_repeats ls)
                        @ '' times consecutively (jitter fuse at '' @ show_nat JITTER_THRESHOLD @ '')''))
                    \<lparr>tm_toolName := Some (JStr tool)\<rparr>)
                 ''The execution stopped because the agent repeated the same tool call without progress.'' None))
       else if rc_maxToolCalls c < ls_toolCalls ls
       then stop_with ports c ls (createControlledTerminationStep (ls_i ls) (Some r)
              ((ended_because ''max_tool_calls''
                  (''Tool call limit '' @ show_nat (rc_maxToolCalls c) @ '' exceeded''))
                 \<lparr>tm_toolName := Some (JStr tool)\<rparr>)
              ''The execution stopped after too many tool calls.'' None)
       else sensitive_gate lib ports c ls t a r tool)"

section \<open>The other actions\<close>

definition generate_branch ::
    "'x react_ports \<Rightarrow> react_config \<Rightarrow> loop_state \<Rightarrow> thought \<Rightarrow> agent_action \<Rightarrow> chat_response
      \<Rightarrow> ('x react_world, loop_next) eff" where
  "generate_branch ports c ls t a r =
     bindE (attempt (seqE (ext (pt_freeze ports ''generation_subcall'' (Some (ls_i ls))))
              (ext (pt_generate ports (nullish (or_json (ac_generatePrompt a) (Some (JStr []))) JNull))))) (\<lambda>g.
       case g of
         Inr answer \<Rightarrow>
           finish_iteration ports c
             (ls\<lparr>ls_tokens := ls_tokens ls + cr_inputTokens answer + cr_outputTokens answer\<rparr>)
             ((acted_step (ls_i ls) t a r True (JStr (cr_content answer)) None False)
                \<lparr>st_tokens := (cr_inputTokens r + cr_inputTokens answer, cr_outputTokens r + cr_outputTokens answer)\<rparr>)
       | Inl e \<Rightarrow>
           finish_iteration ports c ls
             (acted_step (ls_i ls) t a r False (JStr (''Generation failed: '' @ e)) (Some e) False))"

definition other_branch ::
    "'x react_ports \<Rightarrow> react_config \<Rightarrow> loop_state \<Rightarrow> thought \<Rightarrow> agent_action \<Rightarrow> chat_response
      \<Rightarrow> ('x react_world, loop_next) eff" where
  "other_branch ports c ls t a r =
     (let handed = acted_step (ls_i ls) t a r True (JStr ''Handed off to human agent'') None False in
      if ac_type a = Some (JStr ''human_handoff'')
      then seqE (learn \<lparr>le_type = ''human_handoff_triggered'', le_source = ''agent_runtime.executor'',
                    le_span = Some (ls_i ls), le_risk = None, le_tool = None, le_input = JNull,
                    le_error = None, le_check = None, le_approval = None, le_refs = []\<rparr>)
             (finish_iteration ports c ls
                (handed\<lparr>st_termination := Some \<lparr>tm_reason = ''human_handoff_completed'',
                   tm_rootCause = ''Human handoff completed; execution terminated to avoid repeated handoff calls'',
                   tm_toolName = ac_toolName a, tm_errorClass = None, tm_retryCount = Some 0\<rparr>\<rparr>))
      else finish_iteration ports c ls handed)"

definition call_name :: "agent_action \<Rightarrow> string option" where
  "call_name a =
     (case ac_toolName a of
        Some (JStr n) \<Rightarrow> if ac_type a = Some (JStr ''tool_call'') \<and> n \<noteq> [] then Some n else None
      | _ \<Rightarrow> None)"

definition dispatch ::
    "react_lib \<Rightarrow> 'x react_ports \<Rightarrow> react_config \<Rightarrow> loop_state \<Rightarrow> thought \<Rightarrow> agent_action \<Rightarrow> chat_response \<Rightarrow> chat_response
      \<Rightarrow> ('x react_world, loop_next) eff" where
  "dispatch lib ports c ls t a r effective =
     (if ac_type a = Some (JStr ''finish'')
      then bindE (lift_result (materializeFinalAnswer (lb_parse lib) (ac_generatePrompt a))) (\<lambda>answer.
             stop_with ports c ls (acted_step (ls_i ls) t a effective True (JStr answer) None False))
      else (case call_name a of
              Some tool \<Rightarrow> tool_branch lib ports c ls t a r tool
            | None \<Rightarrow>
                if ac_type a = Some (JStr ''llm_generate'') then generate_branch ports c ls t a r
                else other_branch ports c ls t a r))"

section \<open>One iteration\<close>

definition remaining_tokens :: "react_config \<Rightarrow> loop_state \<Rightarrow> int" where
  "remaining_tokens c ls = rc_maxTokens c - ls_tokens ls"

definition MINIMUM_OUTPUT :: int where
  "MINIMUM_OUTPUT = 128"

text \<open>
  The prompt is cropped at most once: before the call of the model when it cannot fit, or after it when the
  budget is exceeded.
\<close>

definition crop :: "react_lib \<Rightarrow> loop_state \<Rightarrow> loop_state option" where
  "crop lib ls =
     (if \<not> ls_cropped ls \<and> truthy (ls_prompt ls)
      then Some (ls\<lparr>ls_cropped := True,
                    ls_prompt := (let p = recomposeDroppingNormalSections (lb_keywords lib) (the (ls_prompt ls)) in
                                  if truthy p then p else ls_prompt ls)\<rparr>)
      else None)"

definition crop_changes :: "react_lib \<Rightarrow> loop_state \<Rightarrow> bool" where
  "crop_changes lib ls = truthy (recomposeDroppingNormalSections (lb_keywords lib) (the (ls_prompt ls)))"

definition gather_messages ::
    "react_lib \<Rightarrow> 'x react_ports \<Rightarrow> react_config \<Rightarrow> loop_state \<Rightarrow> ('x react_world, chat_message list \<times> loop_state) eff" where
  "gather_messages lib ports c ls =
     bindE (ext (pt_messages ports (ls_steps ls) (ls_prompt ls))) (\<lambda>messages.
       if remaining_tokens c ls \<le> estimateChatInputTokens messages + MINIMUM_OUTPUT
       then (case crop lib ls of
               None \<Rightarrow> ret (messages, ls)
             | Some ls' \<Rightarrow>
                 if crop_changes lib ls
                 then bindE (ext (pt_messages ports (ls_steps ls) (ls_prompt ls'))) (\<lambda>lighter. ret (lighter, ls'))
                 else ret (messages, ls'))
       else ret (messages, ls))"

definition structuredResponseDiagnostic :: "react_lib \<Rightarrow> chat_response \<Rightarrow> string \<Rightarrow> string result" where
  "structuredResponseDiagnostic lib r parseError =
     (case json_digest (lb_sha lib) (JStr (cr_content r)) of
        Inl e \<Rightarrow> Inl e
      | Inr digest \<Rightarrow> Inr (join_with '';''
          [''class='' @ (if starts_with ''MODEL_FINISH_INVALID'' parseError then ''finish_invalid'' else ''response_invalid''),
           ''finishReason='' @ (if truthy (cr_finishReason r) then the (cr_finishReason r) else ''unknown''),
           ''length='' @ show_nat (lb_utf8 lib (cr_content r)),
           ''digest='' @ digest]))"

text \<open>The tokens of the response and of the call that repaired it.\<close>

definition with_tokens_of :: "chat_response \<Rightarrow> chat_response \<Rightarrow> chat_response" where
  "with_tokens_of r repaired =
     repaired\<lparr>cr_inputTokens := cr_inputTokens r + cr_inputTokens repaired,
              cr_outputTokens := cr_outputTokens r + cr_outputTokens repaired\<rparr>"

definition after_repair ::
    "react_lib \<Rightarrow> 'x react_ports \<Rightarrow> react_config \<Rightarrow> loop_state \<Rightarrow> chat_response \<Rightarrow> string \<Rightarrow> repair_result
      \<Rightarrow> ('x react_world, loop_next) eff" where
  "after_repair lib ports c ls r parseError repair =
     (let effective = (case rr_response repair of Some q \<Rightarrow> with_tokens_of r q | None \<Rightarrow> r);
          ls' = (case rr_response repair of
                   Some q \<Rightarrow> ls\<lparr>ls_tokens := ls_tokens ls + cr_inputTokens q + cr_outputTokens q\<rparr> | None \<Rightarrow> ls)
      in (case rr_parsed repair of
            Some (t, a) \<Rightarrow> dispatch lib ports c ls' t a r effective
          | None \<Rightarrow>
              bindE (lift_result (structuredResponseDiagnostic lib r parseError)) (\<lambda>diagnostic.
                stop_with ports c ls' (createControlledTerminationStep (ls_i ls) (Some effective)
                  ((ended_because ''model_response_invalid'' diagnostic)
                     \<lparr>tm_retryCount := Some (if rr_attempted repair then 1 else 0)\<rparr>)
                  ''The agent could not produce a valid response. Please try again.'' None))))"

definition read_and_dispatch ::
    "react_lib \<Rightarrow> 'x react_ports \<Rightarrow> react_config \<Rightarrow> loop_state \<Rightarrow> chat_response \<Rightarrow> ('x react_world, loop_next) eff" where
  "read_and_dispatch lib ports c ls r =
     (case extractNativeAction r of
        Some (t, a) \<Rightarrow> dispatch lib ports c ls t a r r
      | None \<Rightarrow>
          (case parseThoughtAndAction (lb_parse lib) (cr_content r) of
             Inr (t, a) \<Rightarrow> dispatch lib ports c ls t a r r
           | Inl parseError \<Rightarrow>
               bindE (repairStructuredResponse (lb_parse lib) (\<lambda>q. ext (pt_chat ports q)) r
                        (rc_maxOutputTokensPerStep c) (remaining_tokens c ls) (rc_forceTier c))
                 (after_repair lib ports c ls r parseError)))"

text \<open>The error of the last step that failed, when it has one.\<close>

definition last_failure :: "react_step list \<Rightarrow> string option" where
  "last_failure steps = Option.bind (List.find (\<lambda>s. \<not> st_success s) (List.rev steps)) st_error"

definition check_budget ::
    "react_lib \<Rightarrow> 'x react_ports \<Rightarrow> react_config \<Rightarrow> loop_state \<Rightarrow> chat_response \<Rightarrow> ('x react_world, loop_next) eff" where
  "check_budget lib ports c ls r =
     (let exceeded = (\<lambda>ls. stop_with ports c ls (createControlledTerminationStep (ls_i ls) (Some r)
            (ended_because ''token_budget''
               (nullish (last_failure (ls_steps ls))
                  (''Execution used '' @ show_int (ls_tokens ls) @ '' tokens; limit is '' @ show_int (rc_maxTokens c))))
            ''The execution reached its token limit before it could finish.'' None)) in
      if ls_tokens ls \<le> rc_maxTokens c then read_and_dispatch lib ports c ls r
      else (case crop lib ls of
              Some ls' \<Rightarrow> if crop_changes lib ls then ret (Continue ls') else exceeded ls'
            | None \<Rightarrow> exceeded ls))"

definition after_response ::
    "react_lib \<Rightarrow> 'x react_ports \<Rightarrow> react_config \<Rightarrow> loop_state \<Rightarrow> chat_response \<Rightarrow> ('x react_world, loop_next) eff" where
  "after_response lib ports c ls0 r =
     (let used = cr_inputTokens r + cr_outputTokens r;
          ls = ls0\<lparr>ls_tokens := ls_tokens ls0 + used\<rparr> in
      case rc_maxStepTokens c of
        Some limit \<Rightarrow>
          if limit < used
          then stop_with ports c ls (createControlledTerminationStep (ls_i ls) (Some r)
                 (ended_because ''step_token_budget''
                    (''Single model step used '' @ show_int used @ '' tokens; limit is '' @ show_int limit))
                 ''This step was too large to run safely. Please narrow the request.'' None)
          else check_budget lib ports c ls r
      | None \<Rightarrow> check_budget lib ports c ls r)"

definition ask_model ::
    "react_lib \<Rightarrow> 'x react_ports \<Rightarrow> react_config \<Rightarrow> chat_message list \<times> loop_state \<Rightarrow> ('x react_world, loop_next) eff" where
  "ask_model lib ports c gathered =
     (case gathered of (messages, ls) \<Rightarrow>
      let i = ls_i ls; estimated = estimateChatInputTokens messages; remaining = remaining_tokens c ls in
      if remaining \<le> estimated + MINIMUM_OUTPUT
      then stop_with ports c ls (createControlledTerminationStep i None
             (ended_because ''token_budget''
                (''Estimated next call requires at least '' @ show_int (estimated + MINIMUM_OUTPUT) @ '' tokens; ''
                   @ show_int remaining @ '' remain''))
             ''The execution is close to its token limit and stopped before starting another model call.'' None)
      else seqE (ext (pt_freeze ports ''react_model_call'' (Some i)))
        (bindE (attempt (ext (pt_chat ports
             \<lparr>cq_messages = messages, cq_maxTokens = min (nullish (rc_maxOutputTokensPerStep c) 2048) (remaining - estimated),
              cq_tier = nullish (rc_forceTier c) 2\<rparr>))) (\<lambda>answer.
           case answer of
             Inl e \<Rightarrow> stop_with ports c ls (llm_error_step i (formatLlmProviderError e (lb_providerErrors lib e)))
           | Inr r \<Rightarrow> after_response lib ports c ls r)))"

definition react_iteration ::
    "react_lib \<Rightarrow> 'x react_ports \<Rightarrow> react_config \<Rightarrow> int \<Rightarrow> int \<Rightarrow> loop_state \<Rightarrow> ('x react_world, loop_next) eff" where
  "react_iteration lib ports c budgetMs deadline ls =
     bindE (ext (pt_now ports)) (\<lambda>now.
     if deadline \<le> now then stop_with ports c ls (createExecutionTimeoutStep (ls_i ls) budgetMs)
     else bindE (ext (pt_checkIteration ports (ls_i ls))) (\<lambda>allowed.
       if \<not> allowed then stop_with ports c ls (cap_step (ls_i ls))
       else bindE (gather_messages lib ports c ls) (ask_model lib ports c)))"

section \<open>The loop\<close>

text \<open>The iterations that remain; an iteration that only crops the prompt takes one away too.\<close>

definition loop_measure :: "react_config \<Rightarrow> loop_state \<Rightarrow> nat" where
  "loop_measure c ls = 2 * (rc_maxIterations c - ls_i ls) + (if ls_cropped ls then 0 else 1)"

text \<open>What one iteration makes of the variables: a step of its own number, or a cropped prompt.\<close>

definition same_point :: "loop_state \<Rightarrow> loop_state \<Rightarrow> bool" where
  "same_point ls ls' \<longleftrightarrow>
     ls_i ls' = ls_i ls \<and> ls_steps ls' = ls_steps ls \<and> (ls_cropped ls \<longrightarrow> ls_cropped ls')"

fun written :: "loop_state \<Rightarrow> loop_next \<Rightarrow> react_step list" where
  "written ls (Continue ls') = drop (length (ls_steps ls)) (ls_steps ls')"
| "written ls (Finished steps) = drop (length (ls_steps ls)) steps"

fun follows :: "loop_state \<Rightarrow> loop_next \<Rightarrow> bool" where
  "follows ls (Continue ls') \<longleftrightarrow>
     same_point ls ls' \<and> \<not> ls_cropped ls \<and> ls_cropped ls'
     \<or> (\<exists>s. ls_i ls' = Suc (ls_i ls) \<and> ls_steps ls' = ls_steps ls @ [s] \<and> st_iteration s = ls_i ls
          \<and> (ls_cropped ls \<longrightarrow> ls_cropped ls'))"
| "follows ls (Finished steps) \<longleftrightarrow> (\<exists>s. steps = ls_steps ls @ [s] \<and> st_iteration s = ls_i ls)"

lemma follows_decreases: "follows ls (Continue ls') \<Longrightarrow> ls_i ls < rc_maxIterations c \<Longrightarrow> loop_measure c ls' < loop_measure c ls"
  by (auto simp: loop_measure_def same_point_def)

definition persisted_steps :: "'x react_world \<Rightarrow> react_step list" where
  "persisted_steps w = map snd (rx_persisted w)"

text \<open>The part of the world that only a step or a hold changes.\<close>

definition standing :: "'x react_world \<Rightarrow> (correlation \<times> react_step) list \<times> execution_status \<times> execution_status option
    \<times> (string \<times> string \<times> string) option" where
  "standing w = (rx_persisted w, rx_status w, rx_row w, rx_paused w)"

definition unmoved :: "'x react_world \<Rightarrow> 'x react_world \<Rightarrow> bool" where
  "unmoved w w' \<longleftrightarrow> rx_status w' = rx_status w \<and> rx_row w' = rx_row w \<and> rx_paused w' = rx_paused w"

text \<open>The loop has stopped for an approval, and says so everywhere.\<close>

definition held_on :: "react_step list \<Rightarrow> 'x react_world \<Rightarrow> bool" where
  "held_on steps w \<longleftrightarrow>
     rx_status w = GuardrailPending \<and> rx_row w = Some GuardrailPending
     \<and> (\<exists>a tool risk. rx_paused w = Some (a, tool, risk)) \<and> steps \<noteq> [] \<and> st_guardrailTriggered (last steps)"

definition advances :: "loop_state \<Rightarrow> ('x react_world, loop_next) eff \<Rightarrow> bool" where
  "advances ls m \<longleftrightarrow> (\<forall>w n w'. m w = (Inr n, w') \<longrightarrow>
     follows ls n \<and> persisted_steps w' = persisted_steps w @ written ls n
     \<and> (unmoved w w' \<or> (\<exists>steps. n = Finished steps \<and> held_on steps w')))"

definition moved :: "loop_state \<Rightarrow> 'x react_world \<Rightarrow> loop_next \<Rightarrow> 'x react_world \<Rightarrow> bool" where
  "moved ls w n w' \<longleftrightarrow> persisted_steps w' = persisted_steps w @ written ls n
     \<and> (unmoved w w' \<or> (\<exists>steps. n = Finished steps \<and> held_on steps w'))"

lemma moved_standing: "standing v = standing w \<Longrightarrow> moved ls v n w' \<Longrightarrow> moved ls w n w'"
  by (simp add: moved_def standing_def persisted_steps_def unmoved_def)

lemma advancesI: "(\<And>w n w'. m w = (Inr n, w') \<Longrightarrow> follows ls n \<and> moved ls w n w') \<Longrightarrow> advances ls m"
  by (simp add: advances_def moved_def)

lemma advancesD: "advances ls m \<Longrightarrow> m w = (Inr n, w') \<Longrightarrow> follows ls n \<and> moved ls w n w'"
  by (simp add: advances_def moved_def)

lemma advances_bind_Inr:
  assumes "keeps standing m" and "\<And>a w w'. m w = (Inr a, w') \<Longrightarrow> advances ls (f a)"
  shows "advances ls (bindE m f)"
proof (rule advancesI)
  fix w n w' assume "bindE m f w = (Inr n, w')"
  then obtain a v where run: "m w = (Inr a, v)" "f a v = (Inr n, w')" by (auto simp: bindE_eq_Inr_iff)
  then show "follows ls n \<and> moved ls w n w'"
    using advancesD [OF assms(2) [OF run(1)] run(2)] moved_standing keepsD [OF assms(1) run(1)] by blast
qed

lemma advances_bind: "keeps standing m \<Longrightarrow> (\<And>a. advances ls (f a)) \<Longrightarrow> advances ls (bindE m f)"
  by (rule advances_bind_Inr)

lemma advances_seq: "keeps standing m \<Longrightarrow> advances ls n \<Longrightarrow> advances ls (seqE m n)"
  unfolding seqE_def by (rule advances_bind)

lemma advances_same:
  assumes "advances ls' m" "same_point ls ls'"
  shows "advances ls m"
proof (rule advancesI)
  fix w n w' assume "m w = (Inr n, w')"
  from advancesD [OF assms(1) this] assms(2) show "follows ls n \<and> moved ls w n w'"
    by (cases n) (auto simp: same_point_def moved_def)
qed

lemma advances_throw: "advances ls (throw e)"
  by (simp add: advances_def throw_apply)

lemma keeps_ext: "(\<And>w x. part (w\<lparr>rx_ext := x\<rparr>) = part w) \<Longrightarrow> keeps part (ext m)"
  by (rule keepsI) (auto simp: ext_def split: prod.splits)

lemma keeps_attempt: "keeps part m \<Longrightarrow> keeps part (attempt m)"
  by (rule keepsI) (auto simp: attempt_def split: prod.splits dest: keepsD)

lemma standing_simps [simp]:
  "standing (w\<lparr>rx_ext := x\<rparr>) = standing w" "standing (w\<lparr>rx_ran := tr\<rparr>) = standing w"
  "standing (w\<lparr>rx_learning := l\<rparr>) = standing w" "standing (w\<lparr>rx_events := es\<rparr>) = standing w"
  "standing (w\<lparr>rx_approvals := q\<rparr>) = standing w"
  by (simp_all add: standing_def)

lemma keeps_learn: "(\<And>w l. part (w\<lparr>rx_learning := l\<rparr>) = part w) \<Longrightarrow> keeps part (learn e)"
  unfolding learn_def by (rule keeps_modify) simp

lemmas standing_rules = keeps_rules keeps_modify keeps_ext [of standing] keeps_learn [of standing] keeps_attempt

lemma persist_run: "persistStep ports c step w = (Inr u, w') \<Longrightarrow>
    persisted_steps w' = persisted_steps w @ [step] \<and> rx_status w' = rx_status w \<and> rx_row w' = rx_row w \<and> rx_paused w' = rx_paused w"
  by (auto simp: persistStep_def eff_Inr_iffs ext_def persisted_steps_def split: prod.splits)

lemma stop_run: "stop_with ports c ls step w = (Inr n, w') \<Longrightarrow> n = Finished (ls_steps ls @ [step])
    \<and> persisted_steps w' = persisted_steps w @ [step] \<and> rx_status w' = rx_status w \<and> rx_row w' = rx_row w \<and> rx_paused w' = rx_paused w"
  by (auto simp: stop_with_def eff_Inr_iffs dest: persist_run)

lemma advances_stop: "st_iteration step = ls_i ls \<Longrightarrow> advances ls (stop_with ports c ls step)"
  by (rule advancesI) (auto simp: moved_def unmoved_def dest!: stop_run)

lemma capped_iteration [simp]: "st_iteration (capped c s) = st_iteration s"
  by (simp add: capped_def)

lemma emit_keeps: "(\<And>w es. part (w\<lparr>rx_events := es\<rparr>) = part w) \<Longrightarrow> keeps part (emit_step s)"
  unfolding emit_step_def Let_def by (auto split: json.split intro!: keeps_rules keeps_modify)

lemma advances_finish:
  assumes "st_iteration step = ls_i ls"
  shows "advances ls (finish_iteration ports c ls step)"
proof (rule advancesI)
  fix w n w' assume "finish_iteration ports c ls step w = (Inr n, w')"
  then obtain u v where p: "persistStep ports c (capped c step) w = (Inr u, v)"
    and e: "emit_step (capped c step) v = (Inr (), w')"
    and n: "n = (if st_termination (capped c step) \<noteq> None then Finished (ls_steps ls @ [capped c step])
                 else Continue (next_iteration ls (capped c step)))"
    by (auto simp: finish_iteration_def Let_def eff_Inr_iffs)
  have "standing w' = standing v" by (rule keepsD [OF emit_keeps e]) simp
  with persist_run [OF p] show "follows ls n \<and> moved ls w n w'"
    using assms by (auto simp: n moved_def unmoved_def standing_def persisted_steps_def next_iteration_def)
qed

lemma transition_run: "transition_to c new w = (Inr u, w') \<Longrightarrow> rx_row w' = Some new \<and> rx_status w' = rx_status w
    \<and> persisted_steps w' = persisted_steps w"
  by (auto simp: transition_to_def eff_Inr_iffs lift_result_apply handleStateTransition_def persisted_steps_def split: if_splits)

lemma ask_approval_keeps: "keeps standing (ask_approval ports durable q)"
  unfolding ask_approval_def by (intro standing_rules) simp_all

lemma hold_run:
  assumes "hold ports c ls e durable q risk step w = (Inr n, w')"
  shows "\<exists>a. n = Finished (ls_steps ls @ [step a]) \<and> persisted_steps w' = persisted_steps w @ [step a]
      \<and> rx_status w' = GuardrailPending \<and> rx_row w' = Some GuardrailPending \<and> rx_paused w' = Some (a, ar_tool q, risk)"
proof -
  obtain w1 a w2 where t: "transition_to c GuardrailPending (w\<lparr>rx_learning := rx_learning w @ [e\<lparr>le_type := ''guardrail_triggered''\<rparr>]\<rparr>) = (Inr (), w1)"
    and k: "ask_approval ports durable q (w1\<lparr>rx_status := GuardrailPending\<rparr>) = (Inr a, w2)"
    and s: "stop_with ports c ls (step a) (w2\<lparr>rx_paused := Some (a, ar_tool q, risk),
        rx_learning := rx_learning w2 @ [e\<lparr>le_type := ''approval_requested'', le_error := None, le_approval := Some (a, ''pending'')\<rparr>]\<rparr>) = (Inr n, w')"
    using assms by (auto simp: hold_def eff_Inr_iffs learn_def)
  have "standing w2 = standing (w1\<lparr>rx_status := GuardrailPending\<rparr>)" by (rule keepsD [OF ask_approval_keeps k])
  then show ?thesis using transition_run [OF t] stop_run [OF s]
    by (auto simp: standing_def persisted_steps_def)
qed

lemma advances_hold:
  assumes "\<And>a. st_iteration (step a) = ls_i ls \<and> st_guardrailTriggered (step a)"
  shows "advances ls (hold ports c ls e durable q risk step)"
  by (rule advancesI) (use assms in \<open>auto simp: moved_def held_on_def dest!: hold_run\<close>)

text \<open>The parts of the loop, from the inside out.\<close>

context state_preorder
begin

lemma in_runs: "steps_in R execute \<Longrightarrow> R w (runs execute n w)"
proof (induction n)
  case (Suc n)
  have "R v (fst (one_attempt execute v))" for v
    using Suc.prems by (auto simp: one_attempt_def split: prod.splits sum.splits dest: steps_inD)
  then show ?case using Suc R_trans by auto
qed (simp add: R_refl)

end

lemma in_run_with_retry:
  assumes "state_preorder R" "steps_in R (registry_call ports tool inp requireDurable)"
  shows "steps_in R (run_with_retry ports c tool inp requireDurable)"
proof (rule steps_inI)
  fix w r w' assume "run_with_retry ports c tool inp requireDurable w = (r, w')"
  then obtain waits x where "executeToolWithRetry (registry_call ports tool inp requireDurable)
      (rc_maxToolRetryAttempts c) (rc_toolRetryBackoffMs c) w = (w', waits, x)"
    by (auto simp: run_with_retry_def split: prod.splits)
  then show "R w w'" using state_preorder.in_runs [OF assms] retry_loop_runs [of "registry_call ports tool inp requireDurable"]
    unfolding executeToolWithRetry_def by metis
qed

lemma run_keeps: "keeps standing (run_with_retry ports c tool inp requireDurable)"
  unfolding keeps_def
  by (rule in_run_with_retry [OF part.state_preorder_axioms]) (unfold registry_call_def, fold keeps_def, intro standing_rules, simp_all)

lemma advances_if: "(b \<Longrightarrow> advances ls m) \<Longrightarrow> (\<not> b \<Longrightarrow> advances ls n) \<Longrightarrow> advances ls (if b then m else n)"
  by simp

lemma acted_step_simps [simp]:
  "st_iteration (acted_step i t a r s out e g) = i" "st_guardrailTriggered (held_step i t a r text)"
  "st_iteration (held_step i t a r text) = i"
  "st_iteration (createControlledTerminationStep i q tm u x) = i"
  "st_iteration (tool_failed_step lib ls t a r tool y) = ls_i ls"
  by (simp_all add: acted_step_def held_step_def createControlledTerminationStep_def tool_failed_step_def Let_def split: prod.split)

lemma knowledge_keeps: "keeps standing (captureKnowledgeRetrievalEvent lib i tool safe res)"
  unfolding captureKnowledgeRetrievalEvent_def Let_def by (intro standing_rules) simp_all

lemma advances_run_tool: "advances ls (run_tool lib ports c ls t a r tool requireDurable)"
  unfolding run_tool_def Let_def hold_escalated_def
  by (intro advances_seq advances_bind advances_if advances_stop advances_finish advances_hold run_keeps knowledge_keeps
        keeps_learn) simp_all

lemma advances_engine_gate: "advances ls (engine_gate lib ports c ls t a r tool requireDurable ev)"
proof -
  have block: "advances ls (seqE (persistStep ports c step) (ret (Continue (next_iteration ls step))))"
    if "st_iteration step = ls_i ls" for step
    by (rule advancesI) (use that in \<open>auto simp: eff_Inr_iffs moved_def unmoved_def next_iteration_def dest!: persist_run\<close>)
  show ?thesis
    unfolding engine_gate_def Let_def
    by (intro advances_if advances_run_tool advances_seq [OF keeps_learn] advances_hold block) simp_all
qed

lemma advances_after_check: "advances ls (after_sensitive_check lib ports c ls t a r tool requireDurable)"
  unfolding after_sensitive_check_def
  by (intro advances_if advances_bind advances_run_tool keeps_attempt keeps_ext)
    (auto split: sum.split intro: advances_run_tool advances_engine_gate)

lemma advances_sensitive_gate: "advances ls (sensitive_gate lib ports c ls t a r tool)"
  unfolding sensitive_gate_def Let_def
  by (auto split: option.split intro!: advances_seq keeps_learn advances_after_check advances_hold advances_throw)

lemma same_pointI:
  "same_point ls (ls\<lparr>ls_tokens := n\<rparr>)" "same_point ls (count_call digest ls)"
  by (simp_all add: same_point_def count_call_def)

lemma crop_point: "crop lib ls = Some ls' \<Longrightarrow> same_point ls ls' \<and> \<not> ls_cropped ls \<and> ls_cropped ls'"
  by (auto simp: crop_def same_point_def split: if_splits)

lemma same_point_i: "same_point ls ls' \<Longrightarrow> ls_i ls' = ls_i ls"
  by (simp add: same_point_def)

lemma advances_tool_branch: "advances ls (tool_branch lib ports c ls t a r tool)"
proof -
  have inner: "advances (count_call digest ls)
      (if JITTER_THRESHOLD \<le> ls_repeats (count_call digest ls)
       then seqE (learn e) (stop_with ports c (count_call digest ls) (createControlledTerminationStep (ls_i (count_call digest ls)) q tm u x))
       else if b then stop_with ports c (count_call digest ls) (createControlledTerminationStep (ls_i (count_call digest ls)) q tm' u' x)
       else sensitive_gate lib ports c (count_call digest ls) t a r tool)" for digest e q tm u x b tm' u'
    by (intro advances_if advances_seq [OF keeps_learn] advances_stop advances_sensitive_gate) simp_all
  show ?thesis
    unfolding tool_branch_def Let_def
    by (intro advances_bind [OF keeps_rules(6)] advances_same [OF inner] same_pointI)
qed

lemma generated_point: "advances ls (finish_iteration ports c (ls\<lparr>ls_tokens := n\<rparr>) (s\<lparr>st_tokens := m\<rparr>))"
  if "st_iteration s = ls_i ls"
  by (rule advances_same [OF advances_finish same_pointI(1)]) (simp add: that)

lemma advances_generate: "advances ls (generate_branch ports c ls t a r)"
  unfolding generate_branch_def
  by (intro advances_bind keeps_attempt keeps_rules(8) keeps_ext)
    (auto split: sum.split intro!: advances_finish generated_point)

lemma advances_other: "advances ls (other_branch ports c ls t a r)"
  unfolding other_branch_def Let_def
  by (intro advances_if advances_seq [OF keeps_learn] advances_finish) simp_all

lemma advances_dispatch: "advances ls (dispatch lib ports c ls t a r effective)"
  unfolding dispatch_def
  by (auto split: option.split intro!: advances_if advances_bind [OF keeps_rules(6)] advances_stop advances_tool_branch
      advances_generate advances_other)

lemma advances_after_repair: "advances ls (after_repair lib ports c ls r parseError repair)"
proof -
  have "advances ls' (case rr_parsed repair of
            Some (t, a) \<Rightarrow> dispatch lib ports c ls' t a r effective
          | None \<Rightarrow>
              bindE (lift_result (structuredResponseDiagnostic lib r parseError)) (\<lambda>diagnostic.
                stop_with ports c ls' (createControlledTerminationStep (ls_i ls) q (tm diagnostic) u x)))"
    if "same_point ls ls'" for ls' effective q tm u x
    using that by (auto split: option.split intro!: advances_dispatch advances_bind [OF keeps_rules(6)] advances_stop
        simp: same_point_i)
  then show ?thesis
    unfolding after_repair_def Let_def
    by (rule advances_same) (auto split: option.split simp: same_point_def)
qed

lemma repair_keeps: "(\<And>q. keeps part (chat q)) \<Longrightarrow> keeps part (repairStructuredResponse parse chat r p n f)"
  unfolding repairStructuredResponse_def by (auto split: option.split intro!: keeps_rules)

lemma advances_read: "advances ls (read_and_dispatch lib ports c ls r)"
  unfolding read_and_dispatch_def
  by (auto split: option.split sum.split intro!: advances_dispatch advances_bind repair_keeps keeps_ext advances_after_repair)

lemma advances_budget: "advances ls (check_budget lib ports c ls r)"
proof -
  have cropped: "advances ls (ret (Continue ls'))" if "crop lib ls = Some ls'" for ls'
    by (rule advancesI) (use crop_point [OF that] in \<open>auto simp: eff_Inr_iffs moved_def unmoved_def same_point_def\<close>)
  have exceeded: "advances ls (stop_with ports c ls' (createControlledTerminationStep (ls_i ls') q tm u x))"
    if "crop lib ls = Some ls'" for ls' q tm u x
    by (rule advances_same [OF advances_stop]) (use crop_point [OF that] in auto)
  show ?thesis
    unfolding check_budget_def Let_def
    by (intro advances_if advances_read)
      (auto split: option.split intro: advances_if advances_stop cropped exceeded)
qed

lemma advances_response: "advances ls (after_response lib ports c ls r)"
  unfolding after_response_def Let_def
  by (rule advances_same [OF _ same_pointI(1)])
    (auto split: option.split intro!: advances_if advances_stop advances_budget)

lemma gathered_point: "gather_messages lib ports c ls w = (Inr (m, ls'), w') \<Longrightarrow> same_point ls ls'"
  by (auto simp: gather_messages_def eff_Inr_iffs same_point_def split: if_splits option.splits dest: crop_point)

lemma gather_keeps: "(\<And>w x. part (w\<lparr>rx_ext := x\<rparr>) = part w) \<Longrightarrow> keeps part (gather_messages lib ports c ls)"
  unfolding gather_messages_def by (auto split: option.split intro!: keeps_rules keeps_ext)

lemma advances_ask: "advances ls (ask_model lib ports c (messages, ls))"
  unfolding ask_model_def Let_def prod.case
  by (intro advances_if advances_stop advances_seq advances_bind keeps_attempt keeps_ext)
    (auto split: sum.split intro!: advances_stop advances_response simp: llm_error_step_def closing_step_def)

lemma advances_iteration: "advances ls (react_iteration lib ports c budgetMs deadline ls)"
proof -
  have "advances ls (ask_model lib ports c p)" if "gather_messages lib ports c ls w = (Inr p, w')" for p w w'
    by (cases p) (use that in \<open>auto intro: advances_same [OF advances_ask gathered_point]\<close>)
  then have rest: "advances ls (bindE (gather_messages lib ports c ls) (ask_model lib ports c))"
    by (intro advances_bind_Inr gather_keeps) auto
  show ?thesis
    unfolding react_iteration_def
    by (rule advances_bind, (rule keeps_ext, simp), rule advances_if, rule advances_stop)
      (auto intro!: advances_bind keeps_ext advances_if advances_stop rest simp: createExecutionTimeoutStep_def cap_step_def closing_step_def)
qed

lemma iteration_decreases:
  "react_iteration lib ports c b d ls w = (Inr (Continue ls'), w') \<Longrightarrow> ls_i ls < rc_maxIterations c \<Longrightarrow>
     loop_measure c ls' < loop_measure c ls"
  using advancesD [OF advances_iteration] by (blast intro: follows_decreases)

function react_from ::
    "react_lib \<Rightarrow> 'x react_ports \<Rightarrow> react_config \<Rightarrow> int \<Rightarrow> int \<Rightarrow> loop_state \<Rightarrow> ('x react_world, react_step list) eff" where
  "react_from lib ports c budgetMs deadline ls w =
     (if ls_i ls < rc_maxIterations c
      then (case react_iteration lib ports c budgetMs deadline ls w of
              (Inl e, w') \<Rightarrow> (Inl e, w')
            | (Inr (Finished steps), w') \<Rightarrow> (Inr steps, w')
            | (Inr (Continue ls'), w') \<Rightarrow> react_from lib ports c budgetMs deadline ls' w')
      else (Inr (ls_steps ls), w))"
  by pat_completeness auto

termination
proof (relation "measure (\<lambda>(lib, ports, c, b, d, ls, w). loop_measure c ls)", goal_cases)
  case 2
  then show ?case by (auto intro!: iteration_decreases dest: sym simp del: follows.simps)
qed simp

declare react_from.simps [simp del]

definition wall_clock_budget :: "react_config \<Rightarrow> int" where
  "wall_clock_budget c = (case rc_timeoutMs c of Some ms \<Rightarrow> if 0 < ms then ms else 300000 | None \<Rightarrow> 300000)"

definition runReActLoop ::
    "react_lib \<Rightarrow> 'x react_ports \<Rightarrow> react_config \<Rightarrow> string option \<Rightarrow> react_step list \<Rightarrow> ('x react_world, react_step list) eff" where
  "runReActLoop lib ports c agentPrompt initialSteps =
     bindE (ext (pt_now ports)) (\<lambda>now.
       react_from lib ports c (wall_clock_budget c) (now + wall_clock_budget c) (initial_loop initialSteps agentPrompt))"

section \<open>What the loop leaves\<close>

text \<open>Induction over the iterations: what holds of every iteration's result, carried to the loop's.\<close>

lemma react_from_follows:
  assumes "react_from lib ports c b d ls w = (Inr steps, w')" "length (ls_steps ls) = ls_i ls"
  shows "\<exists>new. steps = ls_steps ls @ new \<and> map st_iteration new = [ls_i ls..<length steps]
     \<and> length steps \<le> max (rc_maxIterations c) (ls_i ls) \<and> persisted_steps w' = persisted_steps w @ new
     \<and> (unmoved w w' \<or> held_on steps w')"
  using assms
proof (induction lib ports c b d ls w rule: react_from.induct)
  case (1 lib ports c b d ls w)
  obtain r v where it: "react_iteration lib ports c b d ls w = (r, v)" by force
  show ?case
  proof (cases "ls_i ls < rc_maxIterations c")
    case False
    then show ?thesis using 1(2,3) by (auto simp: react_from.simps unmoved_def)
  next
    case True
    with 1(2) it obtain n where r: "r = Inr n" by (cases r) (auto simp: react_from.simps)
    have f: "follows ls n" "moved ls w n v" using advancesD [OF advances_iteration] it r by blast+
    show ?thesis
    proof (cases n)
      case (Finished ss)
      then show ?thesis using f 1(2,3) True it r by (auto simp: react_from.simps moved_def)
    next
      case (Continue ls')
      have rest: "react_from lib ports c b d ls' v = (Inr steps, w')"
        using 1(2) True it r Continue by (simp add: react_from.simps [of _ _ _ _ _ ls])
      have m: "unmoved w v" "persisted_steps v = persisted_steps w @ drop (length (ls_steps ls)) (ls_steps ls')"
        using f(2) Continue by (simp_all add: moved_def)
      have len: "length (ls_steps ls') = ls_i ls'" using f(1) Continue 1(3) by (auto simp: same_point_def)
      obtain new where new: "steps = ls_steps ls' @ new" "map st_iteration new = [ls_i ls'..<length steps]"
        "length steps \<le> max (rc_maxIterations c) (ls_i ls')" "persisted_steps w' = persisted_steps v @ new"
        "unmoved v w' \<or> held_on steps w'"
        using 1(1) [OF True it [symmetric] r Continue rest len] by auto
      have u: "unmoved w w' \<or> held_on steps w'" using new(5) m(1) by (auto simp: unmoved_def)
      show ?thesis
      proof (cases "ls_steps ls' = ls_steps ls")
        case True
        then show ?thesis using new m u f(1) Continue by (intro exI [of _ new]) (auto simp: same_point_def)
      next
        case False
        then obtain s where s: "ls_i ls' = Suc (ls_i ls)" "ls_steps ls' = ls_steps ls @ [s]" "st_iteration s = ls_i ls"
          using f(1) Continue by (auto simp: same_point_def)
        have "[ls_i ls..<length steps] = ls_i ls # [Suc (ls_i ls)..<length steps]"
          using new(1) s 1(3) by (intro upt_conv_Cons) simp
        then show ?thesis using new m u s \<open>ls_i ls < rc_maxIterations c\<close> by (intro exI [of _ "s # new"]) auto
      qed
    qed
  qed
qed

end
