(* ===== verification/React_Tools.thy ===== *)
theory React_Tools
  imports React_Loop
begin

text \<open>
  Which tools the ReAct loop of \<open>React_Loop\<close> runs, and how often: only calls that the rules for sensitive
  operations clear, at most as many as the constraints allow, each in a bounded number of attempts.
\<close>

section \<open>Which tools run, and how often\<close>

text \<open>A call may run when no rule matches it, or one that only warns, or the durable approval is demanded.\<close>

definition cleared :: "react_lib \<Rightarrow> react_config \<Rightarrow> tool_run \<Rightarrow> bool" where
  "cleared lib c x =
     (case checkSensitiveOps (lb_regex lib) (tn_tool x) (Some (tn_input x)) (nullish (rc_sensitiveOps c) []) of
        None \<Rightarrow> True
      | Some rule \<Rightarrow> so_riskLevel rule = ''L1''
          \<or> xc_release (rc_context c) \<and> so_riskLevel rule = ''L3'' \<and> tn_requireDurable x)"

definition attempts :: "react_config \<Rightarrow> nat" where
  "attempts c = Suc (nat (nullish (rc_maxToolRetryAttempts c) 2))"

text \<open>
  An iteration runs at most one call, in at most that many attempts, and counts it.
\<close>

definition bursts :: "react_lib \<Rightarrow> react_config \<Rightarrow> nat \<Rightarrow> ('x react_world, loop_next) eff \<Rightarrow> bool" where
  "bursts lib c calls m \<longleftrightarrow> (\<forall>w r w'. m w = (r, w') \<longrightarrow>
     (\<exists>n x. rx_ran w' = rx_ran w @ replicate n x \<and> n \<le> attempts c
        \<and> (0 < n \<longrightarrow> cleared lib c x \<and> calls < rc_maxToolCalls c)
        \<and> (\<forall>ls'. r = Inr (Continue ls') \<longrightarrow> (if n = 0 then calls else Suc calls) \<le> ls_toolCalls ls')))"

definition quiet :: "nat \<Rightarrow> ('x react_world, loop_next) eff \<Rightarrow> bool" where
  "quiet calls m \<longleftrightarrow> (\<forall>w r w'. m w = (r, w') \<longrightarrow>
     rx_ran w' = rx_ran w \<and> (\<forall>ls'. r = Inr (Continue ls') \<longrightarrow> calls \<le> ls_toolCalls ls'))"

lemma quiet_bursts: "quiet k m \<Longrightarrow> calls \<le> k \<Longrightarrow> bursts lib c calls m"
  by (fastforce simp: quiet_def bursts_def)

lemma quiet_bind: "keeps rx_ran m \<Longrightarrow> (\<And>a. quiet k (f a)) \<Longrightarrow> quiet k (bindE m f)"
  unfolding quiet_def bindE_apply by (fastforce split: prod.splits sum.splits dest: keepsD)

lemma quiet_seq: "keeps rx_ran m \<Longrightarrow> quiet k n \<Longrightarrow> quiet k (seqE m n)"
  unfolding seqE_def by (rule quiet_bind)

lemma quiet_if: "(b \<Longrightarrow> quiet k m) \<Longrightarrow> (\<not> b \<Longrightarrow> quiet k n) \<Longrightarrow> quiet k (if b then m else n)"
  by simp

lemma bursts_bind_Inr:
  assumes "keeps rx_ran m" "\<And>a w w'. m w = (Inr a, w') \<Longrightarrow> bursts lib c calls (f a)"
  shows "bursts lib c calls (bindE m f)"
  unfolding bursts_def
proof (intro allI impI)
  fix w r w' assume run: "bindE m f w = (r, w')"
  obtain s v where m: "m w = (s, v)" by force
  have k: "rx_ran v = rx_ran w" by (rule keepsD [OF assms(1) m])
  show "\<exists>n x. rx_ran w' = rx_ran w @ replicate n x \<and> n \<le> attempts c
        \<and> (0 < n \<longrightarrow> cleared lib c x \<and> calls < rc_maxToolCalls c)
        \<and> (\<forall>ls'. r = Inr (Continue ls') \<longrightarrow> (if n = 0 then calls else Suc calls) \<le> ls_toolCalls ls')"
  proof (cases s)
    case (Inl e)
    then show ?thesis using run m k by (intro exI [of _ 0]) (auto simp: bindE_apply)
  next
    case (Inr a)
    then have "f a v = (r, w')" using run m by (simp add: bindE_apply)
    then show ?thesis using assms(2) m Inr k unfolding bursts_def by metis
  qed
qed

lemma bursts_bind: "keeps rx_ran m \<Longrightarrow> (\<And>a. bursts lib c calls (f a)) \<Longrightarrow> bursts lib c calls (bindE m f)"
  by (rule bursts_bind_Inr)

lemma bursts_seq: "keeps rx_ran m \<Longrightarrow> bursts lib c calls n \<Longrightarrow> bursts lib c calls (seqE m n)"
  unfolding seqE_def by (rule bursts_bind)

lemma bursts_if: "(b \<Longrightarrow> bursts lib c calls m) \<Longrightarrow> (\<not> b \<Longrightarrow> bursts lib c calls n) \<Longrightarrow> bursts lib c calls (if b then m else n)"
  by simp

lemma persist_ran: "keeps rx_ran (persistStep ports c step)"
  unfolding persistStep_def by (intro keeps_rules keeps_ext keeps_modify) simp_all

lemma quiet_stop: "quiet k (stop_with ports c ls step)"
  using keepsD [OF persist_ran]
  by (fastforce simp: quiet_def stop_with_def seqE_apply ret_apply split: prod.splits sum.splits)

lemma quiet_ret: "k \<le> ls_toolCalls ls \<Longrightarrow> quiet k (ret (Continue ls))"
  by (simp add: quiet_def ret_apply)

lemma quiet_throw: "quiet k (throw e)"
  by (simp add: quiet_def throw_apply)

lemma quiet_finish: "k \<le> ls_toolCalls ls \<Longrightarrow> quiet k (finish_iteration ports c ls step)"
  unfolding finish_iteration_def Let_def
  by (intro quiet_seq persist_ran emit_keeps)
    (auto simp: quiet_def ret_apply next_iteration_def)

lemma transition_ran: "keeps rx_ran (transition_to c s)"
  unfolding transition_to_def by (intro keeps_rules keeps_modify) simp

lemma ask_approval_ran: "keeps rx_ran (ask_approval ports durable q)"
  unfolding ask_approval_def by (intro keeps_rules keeps_ext keeps_modify) simp_all

lemma quiet_hold: "quiet k (hold ports c ls e durable q risk step)"
  unfolding hold_def
  by (intro quiet_seq quiet_bind keeps_learn transition_ran keeps_modify ask_approval_ran quiet_stop) simp_all

lemma knowledge_ran: "keeps rx_ran (captureKnowledgeRetrievalEvent lib i tool safe res)"
  unfolding captureKnowledgeRetrievalEvent_def Let_def by (intro keeps_rules keeps_learn) simp_all

lemma attempt_ran: "rx_ran (fst (one_attempt (registry_call ports tool inp d) w)) = rx_ran w @ [\<lparr>tn_tool = tool, tn_input = inp, tn_requireDurable = d\<rparr>]"
  by (auto simp: one_attempt_def registry_call_def seqE_apply modify_apply ext_def split: prod.splits sum.splits)

lemma runs_ran: "rx_ran (runs (registry_call ports tool inp d) n w) = rx_ran w @ replicate n \<lparr>tn_tool = tool, tn_input = inp, tn_requireDurable = d\<rparr>"
  by (induction n) (simp_all add: attempt_ran flip: replicate_append_same)

lemma retried_ran:
  assumes "run_with_retry ports c tool inp d w = (r, w')"
  shows "\<exists>n. 0 < n \<and> n \<le> attempts c \<and> rx_ran w' = rx_ran w @ replicate n \<lparr>tn_tool = tool, tn_input = inp, tn_requireDurable = d\<rparr>"
proof -
  obtain waits x where "executeToolWithRetry (registry_call ports tool inp d)
      (rc_maxToolRetryAttempts c) (rc_toolRetryBackoffMs c) w = (w', waits, x)"
    using assms by (auto simp: run_with_retry_def split: prod.splits)
  then obtain n where "n \<le> nat (nullish (rc_maxToolRetryAttempts c) 2)" "w' = runs (registry_call ports tool inp d) (Suc n) w"
    unfolding executeToolWithRetry_def using retry_loop_runs [of "registry_call ports tool inp d"] by metis
  then show ?thesis using runs_ran [where n = "Suc n"] by (intro exI [of _ "Suc n"]) (simp add: attempts_def)
qed

lemma after_run_quiet:
  assumes "Suc calls \<le> ls_toolCalls ls"
  shows "quiet (Suc calls)
    (if to_guardrailCheck res = ''escalated'' then hold_escalated ports c ls t a r tool safe res
     else if \<not> to_success res then stop_with ports c ls (tool_failed_step lib ls t a r tool x)
     else finish_iteration ports c ls step)"
  unfolding hold_escalated_def Let_def by (intro quiet_if quiet_hold quiet_stop quiet_finish assms)

lemma bursts_run_tool:
  assumes "Suc calls \<le> ls_toolCalls ls" "calls < rc_maxToolCalls c"
    "cleared lib c \<lparr>tn_tool = tool, tn_input = run_input a, tn_requireDurable = d\<rparr>"
  shows "bursts lib c calls (run_tool lib ports c ls t a r tool d)"
proof -
  define body where "body = (\<lambda>x. let res = rt_result x;
      safe = learningSafeToolInput (lb_sha lib) (rc_context c) (run_input a) in
      seqE (learn ((tool_event (if to_success res then ''tool_call_completed'' else ''tool_call_failed'')
                      ''agent_runtime.executor'' (Some (ls_i ls)) tool safe)
              \<lparr>le_error := to_error res, le_check := Some (to_guardrailCheck res)\<rparr>))
     (seqE (captureKnowledgeRetrievalEvent lib (ls_i ls) tool safe res)
      (if to_guardrailCheck res = ''escalated'' then hold_escalated ports c ls t a r tool safe res
       else if \<not> to_success res then stop_with ports c ls (tool_failed_step lib ls t a r tool x)
       else finish_iteration ports c ls
              (acted_step (ls_i ls) t a r (to_success res) (to_output res) (to_error res)
                 (to_guardrailCheck res \<noteq> ''passed'')))))"
  have quiet: "quiet (Suc calls) (body x)" for x
    unfolding body_def Let_def by (intro quiet_seq keeps_learn knowledge_ran after_run_quiet assms) simp
  have "bursts lib c calls (bindE (run_with_retry ports c tool (run_input a) d) body)"
    unfolding bursts_def
  proof (intro allI impI)
    fix w r w' assume run: "bindE (run_with_retry ports c tool (run_input a) d) body w = (r, w')"
    obtain v ws x where "executeToolWithRetry (registry_call ports tool (run_input a) d)
        (rc_maxToolRetryAttempts c) (rc_toolRetryBackoffMs c) w = (v, ws, x)" by (metis prod.collapse)
    then have m: "run_with_retry ports c tool (run_input a) d w = (Inr x, v)" by (simp add: run_with_retry_def)
    then have "body x v = (r, w')" using run by (simp add: bindE_apply)
    then have "rx_ran w' = rx_ran v" "\<forall>ls'. r = Inr (Continue ls') \<longrightarrow> Suc calls \<le> ls_toolCalls ls'"
      using quiet unfolding quiet_def by blast+
    then show "\<exists>n x. rx_ran w' = rx_ran w @ replicate n x \<and> n \<le> attempts c
        \<and> (0 < n \<longrightarrow> cleared lib c x \<and> calls < rc_maxToolCalls c)
        \<and> (\<forall>ls'. r = Inr (Continue ls') \<longrightarrow> (if n = 0 then calls else Suc calls) \<le> ls_toolCalls ls')"
      using retried_ran [OF m] assms(2,3) by fastforce
  qed
  then show ?thesis
    unfolding run_tool_def Let_def body_def by (intro bursts_seq keeps_learn) simp_all
qed

text \<open>The check of a call reads only the object its input names, which a falsy input has not.\<close>

lemma falsy_has_no_member: "\<not> truthy_json (Some v) \<Longrightarrow> prop_of ''objectApiName'' v = None"
  by (cases v) auto

lemma checked_input: "checkSensitiveOps regex tool (Some (run_input a)) rules = checkSensitiveOps regex tool (ac_toolInput a) rules"
proof -
  have "input_object (Some (run_input a)) = input_object (ac_toolInput a)"
    by (cases "ac_toolInput a") (auto simp: run_input_def input_object_def optional_member_def falsy_has_no_member)
  then show ?thesis
    by (induction rules) (simp_all only: checkSensitiveOps.simps matched_by_pattern_def matched_by_object_def)
qed

lemma bursts_gates:
  assumes "Suc calls \<le> ls_toolCalls ls" "calls < rc_maxToolCalls c"
  shows "bursts lib c calls (sensitive_gate lib ports c ls t a r tool)"
proof -
  have engine: "bursts lib c calls (after_sensitive_check lib ports c ls t a r tool d)"
    if "cleared lib c \<lparr>tn_tool = tool, tn_input = run_input a, tn_requireDurable = d\<rparr>" for d
  proof -
    note run = bursts_run_tool [OF assms that]
    have block: "bursts lib c calls (seqE (learn e) (seqE (persistStep ports c step) (ret (Continue (next_iteration ls step)))))"
      for e step
      by (rule quiet_bursts [of "Suc calls"], intro quiet_seq keeps_learn persist_ran quiet_ret)
        (use assms in \<open>simp_all add: next_iteration_def\<close>)
    have "bursts lib c calls (engine_gate lib ports c ls t a r tool d ev)" for ev
      unfolding engine_gate_def Let_def
      by (intro bursts_if run bursts_seq keeps_learn block quiet_bursts [OF quiet_hold order_refl]) simp_all
    then show ?thesis unfolding after_sensitive_check_def
      by (intro bursts_if run bursts_bind keeps_attempt keeps_ext) (auto split: sum.split intro: run)
  qed
  show ?thesis
  proof (cases "checkSensitiveOps (lb_regex lib) tool (ac_toolInput a) (nullish (rc_sensitiveOps c) [])")
    case None
    then show ?thesis by (simp add: sensitive_gate_def engine cleared_def checked_input)
  next
    case (Some rule)
    have c: "cleared lib c \<lparr>tn_tool = tool, tn_input = run_input a, tn_requireDurable = d\<rparr>"
      if "so_riskLevel rule = ''L1'' \<or> xc_release (rc_context c) \<and> so_riskLevel rule = ''L3'' \<and> d" for d
      using Some that by (simp add: cleared_def checked_input)
    show ?thesis unfolding sensitive_gate_def Some option.case Let_def
      by (intro bursts_seq bursts_if engine c keeps_learn quiet_bursts [OF quiet_hold order_refl]
          quiet_bursts [OF quiet_throw order_refl]) simp_all
  qed
qed

lemma bursts_tool_branch: "bursts lib c (ls_toolCalls ls) (tool_branch lib ports c ls t a r tool)"
proof -
  have counted: "ls_toolCalls (count_call digest ls) = Suc (ls_toolCalls ls)" for digest
    by (simp add: count_call_def)
  show ?thesis
    unfolding tool_branch_def Let_def
  proof (rule bursts_bind, rule keeps_rules, goal_cases)
    case (1 digest)
    show ?case
    proof (rule bursts_if, goal_cases)
      case 1
      show ?case by (intro quiet_bursts [OF _ order_refl] quiet_seq keeps_learn quiet_stop) simp
    next
      case 2
      show ?case
        by (intro bursts_if quiet_bursts [OF quiet_stop order_refl] bursts_gates) (simp_all add: counted)
    qed
  qed
qed

lemma bursts_dispatch: "bursts lib c (ls_toolCalls ls) (dispatch lib ports c ls t a r effective)"
proof -
  have generated: "quiet (ls_toolCalls ls) (generate_branch ports c ls t a r)"
    unfolding generate_branch_def
    by (intro quiet_bind keeps_attempt keeps_rules(8) keeps_ext) (auto split: sum.split intro: quiet_finish)
  have other: "quiet (ls_toolCalls ls) (other_branch ports c ls t a r)"
    unfolding other_branch_def Let_def by (intro quiet_if quiet_seq keeps_learn quiet_finish) simp_all
  have finish: "quiet (ls_toolCalls ls) (bindE (lift_result x) (\<lambda>answer. stop_with ports c ls (f answer)))" for x f
    by (intro quiet_bind quiet_stop keeps_rules)
  show ?thesis
    unfolding dispatch_def
    by (auto split: option.split intro!: bursts_tool_branch
        intro: quiet_bursts [OF generated] quiet_bursts [OF other] quiet_bursts [OF finish])
qed

lemma bursts_fewer: "bursts lib c (ls_toolCalls ls') m \<Longrightarrow> ls_toolCalls ls' = ls_toolCalls ls \<Longrightarrow> bursts lib c (ls_toolCalls ls) m"
  by simp

lemma bursts_stop: "bursts lib c calls (stop_with ports c ls step)"
  by (rule quiet_bursts [OF quiet_stop order_refl])

lemma bursts_after_repair: "bursts lib c (ls_toolCalls ls) (after_repair lib ports c ls r parseError repair)"
proof -
  define ls' where "ls' = (case rr_response repair of
      Some q \<Rightarrow> ls\<lparr>ls_tokens := ls_tokens ls + cr_inputTokens q + cr_outputTokens q\<rparr> | None \<Rightarrow> ls)"
  have "ls_toolCalls ls' = ls_toolCalls ls" by (simp add: ls'_def split: option.split)
  then show ?thesis
    unfolding after_repair_def Let_def ls'_def [symmetric]
    by (auto split: option.split intro!: bursts_fewer [OF bursts_dispatch] bursts_bind bursts_stop keeps_rules)
qed

lemma bursts_read: "bursts lib c (ls_toolCalls ls) (read_and_dispatch lib ports c ls r)"
  unfolding read_and_dispatch_def
  by (auto split: option.split sum.split intro!: bursts_dispatch bursts_bind repair_keeps keeps_ext bursts_after_repair)

lemma crop_calls: "crop lib ls = Some ls' \<Longrightarrow> ls_toolCalls ls' = ls_toolCalls ls"
  by (auto simp: crop_def split: if_splits)

lemma bursts_budget: "bursts lib c (ls_toolCalls ls) (check_budget lib ports c ls r)"
proof -
  have again: "bursts lib c (ls_toolCalls ls) (ret (Continue ls'))" if "crop lib ls = Some ls'" for ls'
    by (rule quiet_bursts [OF quiet_ret order_refl]) (simp add: crop_calls [OF that])
  show ?thesis
    unfolding check_budget_def Let_def
    by (intro bursts_if bursts_read) (auto split: option.split intro: bursts_stop again)
qed

lemma bursts_response: "bursts lib c (ls_toolCalls ls) (after_response lib ports c ls r)"
  unfolding after_response_def Let_def
  by (auto split: option.split intro!: bursts_if bursts_stop bursts_fewer [OF bursts_budget])

lemma bursts_ask: "bursts lib c (ls_toolCalls ls) (ask_model lib ports c (messages, ls))"
  unfolding ask_model_def Let_def prod.case
  by (intro bursts_if bursts_stop bursts_seq bursts_bind keeps_attempt keeps_ext)
    (auto split: sum.split intro: bursts_stop bursts_response)

lemma gathered_calls: "gather_messages lib ports c ls w = (Inr (m, ls'), w') \<Longrightarrow> ls_toolCalls ls' = ls_toolCalls ls"
  by (auto simp: gather_messages_def eff_Inr_iffs split: if_splits option.splits dest: crop_calls)

lemma bursts_iteration: "bursts lib c (ls_toolCalls ls) (react_iteration lib ports c budgetMs deadline ls)"
proof -
  have "bursts lib c (ls_toolCalls ls) (ask_model lib ports c p)" if "gather_messages lib ports c ls w = (Inr p, w')" for p w w'
    by (cases p) (use that in \<open>auto intro: bursts_fewer [OF bursts_ask gathered_calls]\<close>)
  then have rest: "bursts lib c (ls_toolCalls ls) (bindE (gather_messages lib ports c ls) (ask_model lib ports c))"
    by (intro bursts_bind_Inr gather_keeps) auto
  show ?thesis
    unfolding react_iteration_def
    by (rule bursts_bind, (rule keeps_ext, simp), rule bursts_if, rule bursts_stop)
      (auto intro!: bursts_bind keeps_ext bursts_if bursts_stop rest)
qed

text \<open>Every call counts, so the calls that are left bound what is still run.\<close>

lemma loop_runs:
  "\<exists>new. rx_ran (snd (react_from lib ports c b d ls w)) = rx_ran w @ new \<and> list_all (cleared lib c) new
     \<and> length new \<le> attempts c * (rc_maxToolCalls c - ls_toolCalls ls)"
proof (induction lib ports c b d ls w rule: react_from.induct)
  case (1 lib ports c b d ls w)
  obtain r v where it: "react_iteration lib ports c b d ls w = (r, v)" by force
  obtain n x where n: "rx_ran v = rx_ran w @ replicate n x" "n \<le> attempts c"
      "0 < n \<longrightarrow> cleared lib c x \<and> ls_toolCalls ls < rc_maxToolCalls c"
      "\<And>ls'. r = Inr (Continue ls') \<Longrightarrow> (if n = 0 then ls_toolCalls ls else Suc (ls_toolCalls ls)) \<le> ls_toolCalls ls'"
    using bursts_iteration it unfolding bursts_def by metis
  have clear: "list_all (cleared lib c) (replicate n x)" using n(3) by (simp add: list_all_length)
  have one: "n \<le> attempts c * (rc_maxToolCalls c - ls_toolCalls ls)"
  proof (cases "n = 0")
    case False
    then have "attempts c * 1 \<le> attempts c * (rc_maxToolCalls c - ls_toolCalls ls)" using n(3) by (intro mult_le_mono) auto
    then show ?thesis using n(2) by (simp only: mult_1_right)
  qed simp
  show ?case
  proof (cases "ls_i ls < rc_maxIterations c \<and> (\<exists>ls'. r = Inr (Continue ls'))")
    case False
    then have "snd (react_from lib ports c b d ls w) = v \<or> snd (react_from lib ports c b d ls w) = w"
      using it by (auto simp: react_from.simps [of _ _ _ _ _ ls] split: sum.splits loop_next.splits)
    then show ?thesis
    proof
      assume "snd (react_from lib ports c b d ls w) = v"
      then show ?thesis using n(1) clear one by (intro exI [of _ "replicate n x"]) simp
    next
      assume "snd (react_from lib ports c b d ls w) = w"
      then show ?thesis by (intro exI [of _ "[]"]) simp
    qed
  next
    case True
    then obtain ls' where more: "ls_i ls < rc_maxIterations c" "r = Inr (Continue ls')" by blast
    obtain new where new: "rx_ran (snd (react_from lib ports c b d ls' v)) = rx_ran v @ new" "list_all (cleared lib c) new"
        "length new \<le> attempts c * (rc_maxToolCalls c - ls_toolCalls ls')"
      using 1 [OF more(1) it [symmetric] more(2) refl] by blast
    have "n + length new \<le> attempts c * (rc_maxToolCalls c - ls_toolCalls ls)"
    proof (cases "n = 0")
      case True
      then have "attempts c * (rc_maxToolCalls c - ls_toolCalls ls') \<le> attempts c * (rc_maxToolCalls c - ls_toolCalls ls)"
        using n(4) [OF more(2)] by (intro mult_le_mono) auto
      then show ?thesis using new(3) True by linarith
    next
      case False
      then have "Suc (rc_maxToolCalls c - ls_toolCalls ls') \<le> rc_maxToolCalls c - ls_toolCalls ls"
        using n(3) n(4) [OF more(2)] by auto
      then have "attempts c * Suc (rc_maxToolCalls c - ls_toolCalls ls') \<le> attempts c * (rc_maxToolCalls c - ls_toolCalls ls)"
        by (rule mult_le_mono2)
      then show ?thesis using new(3) n(2) by simp
    qed
    then show ?thesis using new n(1) clear it more
      by (intro exI [of _ "replicate n x @ new"]) (simp add: react_from.simps [of _ _ _ _ _ ls])
  qed
qed

text \<open>The steps of the loop and its rows, for the callers.\<close>

lemma loop_returns:
  assumes "runReActLoop lib ports c agentPrompt initialSteps w = (Inr steps, w')"
  shows "(\<exists>new. steps = initialSteps @ new \<and> map st_iteration new = [length initialSteps..<length steps]
          \<and> length steps \<le> max (rc_maxIterations c) (length initialSteps)
          \<and> persisted_steps w' = persisted_steps w @ new)
       \<and> (unmoved w w' \<or> held_on steps w')"
proof -
  obtain now v where n: "ext (pt_now ports) w = (Inr now, v)"
    and rest: "react_from lib ports c (wall_clock_budget c) (now + wall_clock_budget c) (initial_loop initialSteps agentPrompt) v = (Inr steps, w')"
    using assms by (auto simp: runReActLoop_def bindE_eq_Inr_iff)
  have "standing v = standing w" by (rule keepsD [OF keeps_ext n]) simp
  then show ?thesis using react_from_follows [OF rest]
    by (auto simp: initial_loop_def standing_def persisted_steps_def unmoved_def)
qed

section \<open>Properties\<close>

text \<open>
  C3. Every call the ReAct loop hands to the registry has passed the rules for sensitive operations: no
  rule matches it, or the one that does only warns, or, in an execution bound to a release, it is of
  level L3 and the registry is told to demand the durable approval. This holds whatever the model says,
  and also when the loop ends with an error. The runs are at most as many as the tool calls that are
  left, times the attempts of one call.
\<close>

theorem react_loop_runs_cleared_calls:
  "\<exists>new. rx_ran (snd (runReActLoop lib ports c agentPrompt initialSteps w)) = rx_ran w @ new
     \<and> list_all (cleared lib c) new
     \<and> length new \<le> attempts c * (rc_maxToolCalls c - length (filter is_tool_call initialSteps))"
proof (cases "ext (pt_now ports) w")
  case (Pair s v)
  have k: "rx_ran v = rx_ran w" by (rule keepsD [OF keeps_ext Pair]) simp
  show ?thesis
  proof (cases s)
    case (Inl e)
    then show ?thesis using Pair k by (simp add: runReActLoop_def bindE_apply)
  next
    case (Inr now)
    then have "runReActLoop lib ports c agentPrompt initialSteps w
        = react_from lib ports c (wall_clock_budget c) (now + wall_clock_budget c) (initial_loop initialSteps agentPrompt) v"
      using Pair by (simp add: runReActLoop_def bindE_apply)
    then show ?thesis
      using loop_runs [of lib ports c "wall_clock_budget c" "now + wall_clock_budget c" "initial_loop initialSteps agentPrompt" v] k
      by (simp add: initial_loop_def)
  qed
qed

text \<open>
  C4. When the ReAct loop returns, it has appended steps to those it was given, numbered by their position,
  no more than the constraints allow, and exactly these steps have been written to the table, in this order.
  Either the status of the execution is as before, or the loop is held: the row and the entity say
  \<open>guardrail_pending\<close>, the approval is noted for the caller, and the last step is the held one.
\<close>

theorem react_loop_numbers_and_persists:
  "case runReActLoop lib ports c agentPrompt initialSteps w of
     (Inl e, w') \<Rightarrow> True
   | (Inr steps, w') \<Rightarrow>
       (\<exists>new. steps = initialSteps @ new \<and> map st_iteration new = [length initialSteps..<length steps]
          \<and> length steps \<le> max (rc_maxIterations c) (length initialSteps)
          \<and> persisted_steps w' = persisted_steps w @ new)
       \<and> (unmoved w w' \<or> held_on steps w')"
  by (auto split: prod.split sum.split dest: loop_returns)

section \<open>What the loop gets wrong\<close>

text \<open>
  The crop after the budget is exceeded is of no use: the tokens are not given back, so the next iteration
  stops before it asks the model.
\<close>

lemma estimate_positive: "0 < estimateChatInputTokens messages"
proof -
  have "2 \<le> foldl (\<lambda>total (_, content). total + int ((length content + 1) div 2) + 4) k messages" if "2 \<le> k" for k
    using that by (induction messages arbitrary: k) (auto simp: split_beta)
  from this [of 2] show ?thesis unfolding estimateChatInputTokens_def by simp
qed

lemma crop_retry_never_asks:
  assumes "rc_maxTokens c < ls_tokens ls"
  shows "\<exists>step. ask_model lib ports c (messages, ls) = stop_with ports c ls step
    \<and> map_option tm_reason (st_termination step) = Some ''token_budget''"
proof -
  have "remaining_tokens c ls \<le> estimateChatInputTokens messages + MINIMUM_OUTPUT"
    using assms estimate_positive [of messages] by (simp add: remaining_tokens_def MINIMUM_OUTPUT_def)
  then show ?thesis
    unfolding ask_model_def Let_def prod.case
    by (subst if_P, assumption)
      (intro exI conjI, rule refl, simp only: createControlledTerminationStep_def ended_because_def
        react_step.simps termination_record.simps option.map)
qed

text \<open>
  The event of the fuse for repeated calls holds the input as it is, also in an execution bound to a
  release, whose other events hold its digest only.
\<close>

lemma stop_keeps_learning: "rx_learning (snd (stop_with ports c ls step w)) = rx_learning w"
  by (simp add: stop_with_def persistStep_def seqE_apply ext_def ret_apply modify_apply split: prod.split sum.split)

lemma fuse_event_shows_input:
  assumes "stableToolCallDigest (lb_sha lib) tool (ac_toolInput a) = Inr digest" "ac_toolInput a = Some inp"
    "ls_digest ls = Some digest" "2 \<le> ls_repeats ls"
  shows "\<exists>e\<in>set (rx_learning (snd (tool_branch lib ports c ls t a r tool w))). le_input e = inp"
proof -
  have fuse: "JITTER_THRESHOLD \<le> ls_repeats (count_call digest ls)"
    using assms(3,4) by (simp add: JITTER_THRESHOLD_def count_call_def)
  show ?thesis
    unfolding tool_branch_def assms(1) bindE_apply lift_result_apply Let_def
    by (simp only: fuse if_True prod.case sum.case seqE_apply learn_def modify_apply stop_keeps_learning assms(2) tool_event_def)
      simp
qed

text \<open>A native call without a name is recorded as a handoff that succeeded, and the loop goes on.\<close>

lemma unnamed_call_handed_off:
  assumes "cr_toolCalls r = Some [\<lparr>tp_name = [], tp_input = inp\<rparr>]"
  shows "\<exists>t a. read_and_dispatch lib ports c ls r
    = finish_iteration ports c ls (acted_step (ls_i ls) t a r True (JStr ''Handed off to human agent'') None False)"
  using assms by (auto simp: read_and_dispatch_def extractNativeAction_def dispatch_def call_name_def other_branch_def)

end
