(* ===== verification/React_Execution.thy ===== *)
theory React_Execution
  imports React_Tools
begin

text \<open>
  An execution around the ReAct loop:
  \<open>packages/backend/src/modules/agent-runtime/executor/executor-engine.service.ts\<close>, \<open>execute\<close>,
  \<open>executeWithinGovernorContext\<close>, the two ways to run an approved call and the history of a resumed
  execution.

  Building the context of an execution (agent, release, cognition) is a port that yields what the loop is
  given; so are the claim of a durable payload, the transactions and the planning call. Costs, durations,
  the stamps of providers and the memory distiller, which runs on its own, are left out.
\<close>

section \<open>The history of steps\<close>

text \<open>What a row gives back: the termination of a step is not stored, and a missing text reads as empty.\<close>

definition or_empty_text :: "json \<Rightarrow> json" where
  "or_empty_text v = (if v = JNull then JStr [] else v)"

definition from_row :: "react_step \<Rightarrow> react_step" where
  "from_row s =
     s\<lparr>st_thought := (st_thought s)\<lparr>th_reasoning := or_empty_text (th_reasoning (st_thought s)),
                                    th_plan := or_empty_text (th_plan (st_thought s))\<rparr>,
       st_termination := None\<rparr>"

definition rebuildHistorySteps :: "'x react_world \<Rightarrow> react_step list" where
  "rebuildHistorySteps w = map from_row (sort_key st_iteration (persisted_steps w))"

text \<open>The number of the step that an approval adds: one more than the largest so far.\<close>

definition next_number :: "react_step list \<Rightarrow> nat" where
  "next_number steps = (if steps = [] then 0 else Suc (fold max (map st_iteration steps) 0))"

section \<open>Resuming after an approval\<close>

record tool_grant =
  tg_toolName :: string
  tg_approvalInstanceId :: string
  tg_toolCallId :: "string option"
  tg_inputDigest :: "string option"

record paused_call =
  pc_toolName :: string
  pc_toolInput :: "json option"
  pc_toolCallId :: "string option"
  pc_inputDigest :: "string option"

text \<open>The asset a durable approval is bound to: a release and a checksum, or a revision and a checksum.\<close>

datatype asset_binding = ReleaseTool string string | StaticConnector string string

record checkpoint =
  cp_payloadEnvelopeId :: string
  cp_toolCallId :: string
  cp_toolName :: string
  cp_inputDigest :: string
  cp_binding :: asset_binding

record resume_context =
  rs_approvalInstanceId :: string
  rs_paused :: "paused_call option"
  rs_durable :: "checkpoint option"

text \<open>What the owner of approvals gives for a checkpoint: the payload and the tuple it was approved with.\<close>

record claimed_payload =
  cl_parentKind :: string
  cl_agentExecutionId :: string
  cl_toolName :: string
  cl_inputDigest :: string
  cl_bindingKind :: string
  cl_hasContext :: bool
  cl_releaseSetId :: "string option"
  cl_publishedChecksum :: "string option"
  cl_staticRevisionId :: "string option"
  cl_staticChecksum :: "string option"
  cl_staticExecutionId :: "string option"
  cl_staticAgentId :: "string option"
  cl_rawInput :: json

fun binding_kind :: "asset_binding \<Rightarrow> string" where
  "binding_kind (ReleaseTool _ _) = ''release_tool''"
| "binding_kind (StaticConnector _ _) = ''static_connector''"

definition claim_matches :: "string \<Rightarrow> string \<Rightarrow> checkpoint \<Rightarrow> claimed_payload \<Rightarrow> bool" where
  "claim_matches executionId agentId cp cl \<longleftrightarrow>
     cl_parentKind cl = ''agent'' \<and> cl_agentExecutionId cl = executionId \<and> cl_toolName cl = cp_toolName cp
     \<and> cl_inputDigest cl = cp_inputDigest cp \<and> cl_bindingKind cl = binding_kind (cp_binding cp)
     \<and> (case cp_binding cp of
          ReleaseTool releaseSetId publishedChecksum \<Rightarrow>
            cl_bindingKind cl = ''release_tool'' \<and> cl_hasContext cl
            \<and> cl_releaseSetId cl = Some releaseSetId \<and> cl_publishedChecksum cl = Some publishedChecksum
        | StaticConnector revisionId checksum \<Rightarrow>
            cl_bindingKind cl = ''static_connector'' \<and> cl_staticRevisionId cl = Some revisionId
            \<and> cl_staticChecksum cl = Some checksum \<and> cl_staticExecutionId cl = Some executionId
            \<and> cl_staticAgentId cl = Some agentId)"

section \<open>The world of an execution\<close>

record lifecycle_event =
  lv_type :: string
  lv_status :: "execution_status option"
  lv_pause :: "(string \<times> string \<times> string) option"
  lv_termination :: "termination_record option"
  lv_summary :: string
  lv_stepCount :: nat
  lv_tokens :: "int \<times> int"

record 'x execution_world =
  ew_loop :: "'x react_world"
  ew_grant :: "tool_grant option"
  ew_outbox :: "lifecycle_event list"
  ew_metering :: "(int \<times> int \<times> string) option"
  ew_completed :: bool

datatype budget_decision = BudgetAllowed | BudgetPaused | BudgetDowngraded "int option"

record 'x execution_ports =
  xp_load :: "('x, unit) eff"
  xp_preflight :: "('x, budget_decision) eff"
  xp_context :: "bool \<Rightarrow> ('x, react_config \<times> string option \<times> bool) eff"
  xp_plan :: "string option \<Rightarrow> ('x, string) eff"
  xp_commit :: "('x, unit) eff"
  xp_approved :: "tool_grant option \<Rightarrow> string \<Rightarrow> json \<Rightarrow> ('x, tool_outcome) eff"
  xp_claim :: "string \<Rightarrow> checkpoint \<Rightarrow> ('x, claimed_payload) eff"
  xp_durable :: "claimed_payload \<Rightarrow> bool \<Rightarrow> ('x, tool_outcome) eff"
  xp_acknowledge :: "string \<Rightarrow> string \<Rightarrow> ('x, unit) eff"
  xp_evaluate :: "('x, unit) eff"

record execution_request =
  eq_origin :: execution_origin
  eq_agentId :: string
  eq_rawInput :: string

definition inside :: "('x react_world, 'a) eff \<Rightarrow> ('x execution_world, 'a) eff" where
  "inside m w = (case m (ew_loop w) of (r, v) \<Rightarrow> (r, w\<lparr>ew_loop := v\<rparr>))"

definition port :: "('x, 'a) eff \<Rightarrow> ('x execution_world, 'a) eff" where
  "port m = inside (ext m)"

definition note_event :: "learning_event \<Rightarrow> ('x execution_world, unit) eff" where
  "note_event e = inside (learn e)"

definition log_run :: "string \<Rightarrow> json \<Rightarrow> ('x execution_world, unit) eff" where
  "log_run tool inp = inside (modify (\<lambda>v. v\<lparr>rx_ran := rx_ran v @ [\<lparr>tn_tool = tool, tn_input = inp, tn_requireDurable = False\<rparr>]\<rparr>))"

section \<open>Running the approved call\<close>

definition approved_step :: "nat \<Rightarrow> string \<Rightarrow> string \<Rightarrow> string \<Rightarrow> json option \<Rightarrow> tool_outcome \<Rightarrow> react_step" where
  "approved_step i approvalId plan tool inp res =
     \<lparr>st_iteration = i,
      st_thought = own_thought (''Tool call approved by human approval '' @ approvalId) plan Certain,
      st_action = \<lparr>ac_type = Some (JStr ''tool_call''), ac_toolName = Some (JStr tool), ac_toolInput = inp,
                   ac_generatePrompt = None\<rparr>,
      st_success = to_success res, st_output = to_output res, st_error = to_error res,
      st_guardrailTriggered = (to_guardrailCheck res \<noteq> ''passed''), st_termination = None,
      st_tokens = (0, 0), st_model = ''n/a''\<rparr>"

definition truthy_only :: "string option \<Rightarrow> string option" where
  "truthy_only s = (if truthy s then s else None)"

definition approved_event :: "string \<Rightarrow> string \<Rightarrow> json \<Rightarrow> string \<Rightarrow> learning_event" where
  "approved_event type tool inp approvalId =
     (tool_event type ''agent_runtime.executor'' None tool inp)\<lparr>le_approval := Some (approvalId, ''approved'')\<rparr>"

definition outcome_event :: "string \<Rightarrow> json \<Rightarrow> string \<Rightarrow> tool_outcome \<Rightarrow> learning_event" where
  "outcome_event tool inp approvalId res =
     (approved_event (if to_success res then ''tool_call_completed'' else ''tool_call_failed'') tool inp approvalId)
       \<lparr>le_error := to_error res, le_check := Some (to_guardrailCheck res)\<rparr>"

definition executeApprovedToolCall ::
    "'x react_ports \<Rightarrow> 'x execution_ports \<Rightarrow> react_config \<Rightarrow> resume_context \<Rightarrow> react_step list
      \<Rightarrow> ('x execution_world, react_step) eff" where
  "executeApprovedToolCall ports xp c resume rebuilt =
     bindE (of_option ''APPROVAL_LEGACY_RESUME_CONTEXT_MISSING'' (rs_paused resume)) (\<lambda>p.
       let a = rs_approvalInstanceId resume; tool = pc_toolName p; inp = or_empty_object (pc_toolInput p);
           grant = \<lparr>tg_toolName = tool, tg_approvalInstanceId = a, tg_toolCallId = truthy_only (pc_toolCallId p),
                    tg_inputDigest = truthy_only (pc_inputDigest p)\<rparr> in
       seqE (modify (\<lambda>w. w\<lparr>ew_grant := Some grant\<rparr>))
      (seqE (note_event (approved_event ''tool_call_started'' tool inp a))
      (seqE (log_run tool inp)
      (bindE (reads ew_grant) (\<lambda>g.
       bindE (attempt (port (xp_approved xp g tool inp))) (\<lambda>answer.
       seqE (note_event (case answer of
               Inl e \<Rightarrow> (approved_event ''tool_call_failed'' tool inp a)\<lparr>le_error := Some e\<rparr>
             | Inr res \<Rightarrow> outcome_event tool inp a res))
      (seqE (modify (\<lambda>w. w\<lparr>ew_grant := None\<rparr>))
      (bindE (lift_result answer) (\<lambda>res.
       let step = approved_step (next_number rebuilt) a ''Execute approved tool call'' tool (pc_toolInput p) res in
       seqE (inside (persistStep ports c step)) (ret step))))))))))"

definition executeDurableApprovedToolCall ::
    "'x react_ports \<Rightarrow> 'x execution_ports \<Rightarrow> react_config \<Rightarrow> string \<Rightarrow> bool \<Rightarrow> resume_context \<Rightarrow> react_step list
      \<Rightarrow> ('x execution_world, react_step) eff" where
  "executeDurableApprovedToolCall ports xp c agentId owned resume rebuilt =
     bindE (of_option ''APPROVAL_DURABLE_RESUME_OWNER_UNAVAILABLE'' (if owned then rs_durable resume else None)) (\<lambda>cp.
     bindE (port (xp_claim xp (rs_approvalInstanceId resume) cp)) (\<lambda>cl.
     seqE (throw_if (\<not> claim_matches (xo_id (rc_origin c)) agentId cp cl) ''APPROVAL_DURABLE_RESUME_CONTEXT_MISMATCH'')
       (let a = rs_approvalInstanceId resume; tool = cp_toolName cp;
            redacted = redacted_input (cp_payloadEnvelopeId cp, cp_toolCallId cp, cp_inputDigest cp) in
        seqE (log_run tool (cl_rawInput cl))
       (bindE (port (xp_durable xp cl (binding_kind (cp_binding cp) = ''release_tool''))) (\<lambda>res.
        seqE (port (xp_acknowledge xp (cp_payloadEnvelopeId cp) a))
       (seqE (note_event (outcome_event tool redacted a res))
        (let step = approved_step (next_number rebuilt) a ''Execute exact encrypted approval payload'' tool (Some redacted) res in
         seqE (inside (persistStep ports c step)) (ret step))))))))"

section \<open>The execution\<close>

definition execution_event :: "string \<Rightarrow> string \<Rightarrow> learning_event" where
  "execution_event type source =
     \<lparr>le_type = type, le_source = source, le_span = None, le_risk = None, le_tool = None, le_input = JNull,
      le_error = None, le_check = None, le_approval = None, le_refs = []\<rparr>"

definition enqueue :: "lifecycle_event \<Rightarrow> ('x execution_world, unit) eff" where
  "enqueue e = modify (\<lambda>w. w\<lparr>ew_outbox := ew_outbox w @ [e]\<rparr>)"

definition plain_event :: "string \<Rightarrow> lifecycle_event" where
  "plain_event type = \<lparr>lv_type = type, lv_status = None, lv_pause = None, lv_termination = None, lv_summary = [],
     lv_stepCount = 0, lv_tokens = (0, 0)\<rparr>"

text \<open>The actor the limits of the governor are counted for.\<close>

definition governor_actor :: "string option \<Rightarrow> execution_request \<Rightarrow> string" where
  "governor_actor principalAgentId q =
     (let recorded = (case payload_text ''actorId'' (eq_origin q) of Some s \<Rightarrow> Some s
                      | None \<Rightarrow> xo_triggeredBy (eq_origin q)) in
      if truthy principalAgentId then the principalAgentId
      else if truthy recorded then the recorded else eq_agentId q)"

definition announce_start :: "'x execution_ports \<Rightarrow> execution_request \<Rightarrow> ('x execution_world, unit) eff" where
  "announce_start xp q =
     seqE (port (xp_load xp))
    (seqE (port (xp_commit xp))
    (seqE (enqueue (plain_event ''agent.execution.started''))
    (seqE (note_event (execution_event ''execution_started'' ''agent_runtime.executor''))
     (if eq_rawInput q \<noteq> [] then note_event (execution_event ''user_input_received'' ''agent_runtime.executor'')
      else ret ()))))"

definition forced_tier :: "'x execution_ports \<Rightarrow> ('x execution_world, int option) eff" where
  "forced_tier xp =
     bindE (port (xp_preflight xp)) (\<lambda>d.
       case d of
         BudgetPaused \<Rightarrow> throw ''Smart Cap budget exhausted. Agent execution paused by budget policy.''
       | BudgetDowngraded tier \<Rightarrow> ret tier
       | BudgetAllowed \<Rightarrow> ret None)"

definition history_of :: "('x execution_world, react_step list) eff" where
  "history_of = reads (\<lambda>w. rebuildHistorySteps (ew_loop w))"

definition initial_steps ::
    "'x react_ports \<Rightarrow> 'x execution_ports \<Rightarrow> react_config \<Rightarrow> string \<Rightarrow> bool \<Rightarrow> resume_context option
      \<Rightarrow> ('x execution_world, react_step list) eff" where
  "initial_steps ports xp c agentId owned resume =
     (case resume of
        None \<Rightarrow> ret []
      | Some r \<Rightarrow>
          bindE history_of (\<lambda>rebuilt.
          bindE (if rs_durable r \<noteq> None then executeDurableApprovedToolCall ports xp c agentId owned r rebuilt
                 else executeApprovedToolCall ports xp c r rebuilt) (\<lambda>step.
          ret (rebuilt @ [step]))))"

text \<open>A plan is put after the prompt; planning that fails, or says nothing, changes nothing.\<close>

definition generatePlan :: "'x execution_ports \<Rightarrow> string option \<Rightarrow> ('x execution_world, string option) eff" where
  "generatePlan xp prompt =
     bindE (port (xp_plan xp prompt)) (\<lambda>content. ret (if trim content = [] then None else Some (trim content)))"

definition planned_prompt ::
    "string \<Rightarrow> 'x execution_ports \<Rightarrow> string option \<Rightarrow> bool \<Rightarrow> ('x execution_world, string option) eff" where
  "planned_prompt heading xp prompt planning =
     (if \<not> planning then ret prompt
      else bindE (attempt (generatePlan xp prompt)) (\<lambda>plan.
             case plan of Inr (Some text) \<Rightarrow> ret (Some (nullish prompt [] @ heading @ text)) | _ \<Rightarrow> ret prompt))"

section \<open>Closing an execution\<close>

definition last_termination :: "react_step list \<Rightarrow> termination_record option" where
  "last_termination steps = (if steps = [] then None else st_termination (last steps))"

definition final_status :: "execution_status \<Rightarrow> react_step list \<Rightarrow> execution_status" where
  "final_status s steps =
     (if s = GuardrailPending then GuardrailPending
      else (case last_termination steps of
              Some tm \<Rightarrow> if tm_reason tm = ''human_handoff_completed'' then Done else Failed
            | None \<Rightarrow> Done))"

text \<open>\<open>lastStep?.observation?.output?.toString() || ''\<close>.\<close>

definition final_output :: "react_step list \<Rightarrow> string" where
  "final_output steps =
     (if steps = [] then [] else case st_output (last steps) of JNull \<Rightarrow> [] | v \<Rightarrow> js_String v)"

definition total_tokens :: "react_step list \<Rightarrow> int \<times> int" where
  "total_tokens steps = (sum_list (map (fst \<circ> st_tokens) steps), sum_list (map (snd \<circ> st_tokens) steps))"

record execution_result =
  er_status :: execution_status
  er_content :: json
  er_summary :: string
  er_steps :: "react_step list"
  er_tokens :: "int \<times> int"

definition metering :: "react_step list \<Rightarrow> int \<times> int \<times> string" where
  "metering steps = (fst (total_tokens steps), snd (total_tokens steps), take 500 (final_output steps))"

text \<open>The row is written by its id; a row that is gone stays gone.\<close>

definition set_row :: "execution_status \<Rightarrow> 'x execution_world \<Rightarrow> 'x execution_world" where
  "set_row s w = w\<lparr>ew_loop := (ew_loop w)\<lparr>rx_row := map_option (\<lambda>_. s) (rx_row (ew_loop w))\<rparr>, ew_completed := True\<rparr>"

definition close_held :: "'x execution_ports \<Rightarrow> react_step list \<Rightarrow> ('x execution_world, unit) eff" where
  "close_held xp steps =
     bindE (reads (\<lambda>w. rx_paused (ew_loop w))) (\<lambda>pause.
     seqE (inside (modify (\<lambda>v. v\<lparr>rx_paused := None\<rparr>)))
    (seqE (port (xp_commit xp))
    (seqE (modify (\<lambda>w. w\<lparr>ew_metering := Some (metering steps)\<rparr>))
     (enqueue ((plain_event ''agent.execution.paused'')\<lparr>lv_pause := pause\<rparr>)))))"

definition close_finished :: "'x execution_ports \<Rightarrow> execution_status \<Rightarrow> react_step list \<Rightarrow> ('x execution_world, unit) eff" where
  "close_finished xp s steps =
     seqE (port (xp_commit xp))
    (seqE (modify (\<lambda>w. set_row s (w\<lparr>ew_metering := Some (metering steps)\<rparr>)))
    (seqE (enqueue \<lparr>lv_type = (if s = Failed then ''agent.execution.failed'' else ''agent.execution.completed''),
             lv_status = Some s, lv_pause = None, lv_termination = last_termination steps,
             lv_summary = take 200 (final_output steps), lv_stepCount = length steps, lv_tokens = total_tokens steps\<rparr>)
     (if s = Done
      then seqE (note_event (execution_event ''agent_output_generated'' ''agent_runtime.executor''))
          (seqE (note_event (execution_event ''execution_completed'' ''agent_runtime.executor''))
          (bindE (attempt (port (xp_evaluate xp))) (\<lambda>_. ret ())))
      else ret ())))"

definition close_execution :: "'x execution_ports \<Rightarrow> react_step list \<Rightarrow> ('x execution_world, execution_result) eff" where
  "close_execution xp steps =
     bindE (reads (\<lambda>w. final_status (rx_status (ew_loop w)) steps)) (\<lambda>s.
     seqE (if s = GuardrailPending then close_held xp steps else close_finished xp s steps)
      (ret \<lparr>er_status = s, er_content = (if steps = [] then JNull else st_output (last steps)),
            er_summary = take 500 (final_output steps), er_steps = steps, er_tokens = total_tokens steps\<rparr>))"

definition fail_execution :: "'x execution_ports \<Rightarrow> string \<Rightarrow> ('x execution_world, execution_result) eff" where
  "fail_execution xp e =
     seqE (port (xp_commit xp))
    (seqE (modify (set_row Failed))
    (seqE (enqueue ((plain_event ''agent.execution.failed'')\<lparr>lv_summary := e\<rparr>))
    (seqE (note_event ((execution_event ''execution_failed'' ''agent_runtime.executor'')\<lparr>le_error := Some e\<rparr>))
     (ret \<lparr>er_status = Failed, er_content = JNull, er_summary = e, er_steps = [], er_tokens = (0, 0)\<rparr>))))"

definition execution_body ::
    "string \<Rightarrow> react_lib \<Rightarrow> 'x react_ports \<Rightarrow> 'x execution_ports \<Rightarrow> execution_request \<Rightarrow> bool \<Rightarrow> resume_context option
      \<Rightarrow> ('x execution_world, execution_result) eff" where
  "execution_body heading lib ports xp q owned resume =
     seqE (announce_start xp q)
    (bindE (forced_tier xp) (\<lambda>tier.
     bindE (port (xp_context xp (resume \<noteq> None))) (\<lambda>(c0, prompt, planning).
       let c = c0\<lparr>rc_forceTier := tier\<rparr> in
     seqE (note_event (execution_event ''context_retrieved'' ''agent_runtime.executor''))
    (bindE (initial_steps ports xp c (eq_agentId q) owned resume) (\<lambda>initial.
     bindE (planned_prompt heading xp prompt planning) (\<lambda>effective.
     bindE (inside (runReActLoop lib ports c effective initial)) (close_execution xp)))))))"

definition executeWithinGovernorContext ::
    "string \<Rightarrow> react_lib \<Rightarrow> 'x react_ports \<Rightarrow> 'x execution_ports \<Rightarrow> execution_request \<Rightarrow> bool \<Rightarrow> resume_context option
      \<Rightarrow> ('x execution_world, execution_result) eff" where
  "executeWithinGovernorContext heading lib ports xp q owned resume =
     catchE (execution_body heading lib ports xp q owned resume) (fail_execution xp)"

section \<open>What the parts leave alone\<close>

text \<open>The rows, the status of the entity and the approval it waits for.\<close>

definition progress :: "'x execution_world \<Rightarrow> react_step list \<times> execution_status" where
  "progress w = (persisted_steps (ew_loop w), rx_status (ew_loop w))"

definition loop_progress :: "'x react_world \<Rightarrow> react_step list \<times> execution_status" where
  "loop_progress v = (persisted_steps v, rx_status v)"

lemma progress_inside: "keeps loop_progress m \<Longrightarrow> keeps progress (inside m)"
  by (rule keepsI) (auto simp: inside_def progress_def loop_progress_def split: prod.splits dest: keepsD)

lemma loop_progress_simps [simp]:
  "loop_progress (v\<lparr>rx_ext := x\<rparr>) = loop_progress v" "loop_progress (v\<lparr>rx_ran := t\<rparr>) = loop_progress v"
  "loop_progress (v\<lparr>rx_learning := l\<rparr>) = loop_progress v" "loop_progress (v\<lparr>rx_paused := p\<rparr>) = loop_progress v"
  by (simp_all add: loop_progress_def persisted_steps_def)

lemma progress_simps [simp]:
  "progress (w\<lparr>ew_grant := g\<rparr>) = progress w" "progress (w\<lparr>ew_outbox := es\<rparr>) = progress w"
  "progress (w\<lparr>ew_metering := m\<rparr>) = progress w" "progress (set_row s w) = progress w"
  by (simp_all add: progress_def set_row_def persisted_steps_def)

lemma progress_port: "keeps progress (port m)"
  unfolding port_def by (intro progress_inside keeps_ext) simp

lemma progress_note: "keeps progress (note_event e)"
  unfolding note_event_def by (intro progress_inside keeps_learn) simp

lemma progress_log: "keeps progress (log_run tool inp)"
  unfolding log_run_def by (intro progress_inside keeps_modify) simp

lemma progress_enqueue: "keeps progress (enqueue e)"
  unfolding enqueue_def by (intro keeps_modify) simp

lemmas progress_rules = keeps_rules keeps_attempt progress_port progress_note progress_log progress_enqueue

lemma progress_start: "keeps progress (announce_start xp q)"
  unfolding announce_start_def by (intro progress_rules)

lemma progress_tier: "keeps progress (forced_tier xp)"
  unfolding forced_tier_def by (intro progress_rules) (auto split: budget_decision.split intro: keeps_rules)

lemma progress_plan: "keeps progress (planned_prompt heading xp prompt planning)"
  unfolding planned_prompt_def generatePlan_def
  by (intro progress_rules) (auto split: sum.split option.split intro: keeps_rules)

lemma progress_close: "keeps progress (close_execution xp steps)"
  unfolding close_execution_def close_held_def close_finished_def
  by (intro progress_rules progress_inside keeps_modify) simp_all

section \<open>The approved step\<close>

lemma largest_number: "map st_iteration steps = [0..<length steps] \<Longrightarrow> next_number steps = length steps"
proof -
  have "fold max [0..<n] 0 = n - 1" for n :: nat by (induction n) auto
  then show "map st_iteration steps = [0..<length steps] \<Longrightarrow> next_number steps = length steps"
    by (auto simp: next_number_def)
qed

lemma persist_inside: "inside (persistStep ports c step) w = (Inr u, w') \<Longrightarrow>
    progress w' = (persisted_steps (ew_loop w) @ [step], rx_status (ew_loop w)) \<and> ew_grant w' = ew_grant w
      \<and> rx_ran (ew_loop w') = rx_ran (ew_loop w)"
  using persist_run keepsD [OF persist_ran] by (fastforce simp: inside_def progress_def split: prod.splits)

definition adds :: "nat \<Rightarrow> ('x execution_world, react_step) eff \<Rightarrow> bool" where
  "adds k m \<longleftrightarrow> (\<forall>w s w'. m w = (Inr s, w') \<longrightarrow>
     st_iteration s = k \<and> progress w' = (persisted_steps (ew_loop w) @ [s], rx_status (ew_loop w)))"

lemma adds_bind:
  assumes "keeps progress m" "\<And>a. adds k (f a)"
  shows "adds k (bindE m f)"
  unfolding adds_def
proof (intro allI impI)
  fix w s w' assume "bindE m f w = (Inr s, w')"
  then obtain a v where run: "m w = (Inr a, v)" "f a v = (Inr s, w')" by (auto simp: bindE_eq_Inr_iff)
  have "progress v = progress w" by (rule keepsD [OF assms(1) run(1)])
  then show "st_iteration s = k \<and> progress w' = (persisted_steps (ew_loop w) @ [s], rx_status (ew_loop w))"
    using assms(2) run(2) unfolding adds_def progress_def by fastforce
qed

lemma adds_seq: "keeps progress m \<Longrightarrow> adds k n \<Longrightarrow> adds k (seqE m n)"
  unfolding seqE_def by (rule adds_bind)

lemma adds_persist: "st_iteration step = k \<Longrightarrow> adds k (seqE (inside (persistStep ports c step)) (ret step))"
  by (auto simp: adds_def eff_Inr_iffs dest: persist_inside)

lemma adds_if: "(b \<Longrightarrow> adds k m) \<Longrightarrow> (\<not> b \<Longrightarrow> adds k n) \<Longrightarrow> adds k (if b then m else n)"
  by simp

lemma approved_number [simp]: "st_iteration (approved_step i a p tool inp res) = i"
  by (simp add: approved_step_def)

lemma approved_adds: "adds (next_number rebuilt) (executeApprovedToolCall ports xp c resume rebuilt)"
  unfolding executeApprovedToolCall_def Let_def
  by (intro adds_bind adds_seq adds_persist progress_rules keeps_modify) (simp_all split: sum.split)

lemma durable_adds: "adds (next_number rebuilt) (executeDurableApprovedToolCall ports xp c agentId owned resume rebuilt)"
  unfolding executeDurableApprovedToolCall_def Let_def
  by (intro adds_bind adds_seq adds_persist progress_rules) simp_all

lemma initial_run:
  assumes "initial_steps ports xp c agentId owned resume w = (Inr initial, w')"
  shows "case resume of
      None \<Rightarrow> initial = [] \<and> progress w' = progress w
    | Some r \<Rightarrow> \<exists>s. initial = rebuildHistorySteps (ew_loop w) @ [s] \<and> st_iteration s = next_number (rebuildHistorySteps (ew_loop w))
        \<and> progress w' = (persisted_steps (ew_loop w) @ [s], rx_status (ew_loop w))"
proof (cases resume)
  case None
  then show ?thesis using assms by (simp add: initial_steps_def ret_apply)
next
  case (Some r)
  then obtain s where "(if rs_durable r \<noteq> None
      then executeDurableApprovedToolCall ports xp c agentId owned r (rebuildHistorySteps (ew_loop w))
      else executeApprovedToolCall ports xp c r (rebuildHistorySteps (ew_loop w))) w = (Inr s, w')"
    and "initial = rebuildHistorySteps (ew_loop w) @ [s]"
    using assms by (auto simp: initial_steps_def history_of_def eff_Inr_iffs)
  moreover have "adds (next_number (rebuildHistorySteps (ew_loop w))) (if rs_durable r \<noteq> None
      then executeDurableApprovedToolCall ports xp c agentId owned r (rebuildHistorySteps (ew_loop w))
      else executeApprovedToolCall ports xp c r (rebuildHistorySteps (ew_loop w)))"
    by (intro adds_if approved_adds durable_adds)
  ultimately show ?thesis using Some unfolding adds_def by fastforce
qed

section \<open>History and closing\<close>

definition numbered_rows :: "'x react_world \<Rightarrow> bool" where
  "numbered_rows v \<longleftrightarrow> map st_iteration (persisted_steps v) = [0..<length (persisted_steps v)]"

lemma sorted_rows: "numbered_rows v \<Longrightarrow> rebuildHistorySteps v = map from_row (persisted_steps v)"
  unfolding rebuildHistorySteps_def numbered_rows_def by (simp add: sort_key_id_if_sorted)

lemma from_row_number [simp]: "st_iteration (from_row s) = st_iteration s"
  by (simp add: from_row_def)

lemma from_row_idem [simp]: "from_row (from_row s) = from_row s"
  by (simp add: from_row_def or_empty_text_def)

lemma body_runs:
  assumes "execution_body heading lib ports xp q owned resume w = (Inr res, w')"
  obtains c v1 initial v2 prompt v3 v4 steps where
    "progress v1 = progress w" "initial_steps ports xp c (eq_agentId q) owned resume v1 = (Inr initial, v2)"
    "progress v3 = progress v2" "runReActLoop lib ports c prompt initial (ew_loop v3) = (Inr steps, ew_loop v4)"
    "close_execution xp steps v4 = (Inr res, w')"
proof -
  define after where "after = (\<lambda>c0 p planning tier.
      seqE (note_event (execution_event ''context_retrieved'' ''agent_runtime.executor''))
        (bindE (initial_steps ports xp (c0\<lparr>rc_forceTier := tier\<rparr>) (eq_agentId q) owned resume) (\<lambda>initial.
         bindE (planned_prompt heading xp p planning) (\<lambda>effective.
         bindE (inside (runReActLoop lib ports (c0\<lparr>rc_forceTier := tier\<rparr>) effective initial)) (close_execution xp)))))"
  have body: "execution_body heading lib ports xp q owned resume
      = seqE (announce_start xp q) (bindE (forced_tier xp) (\<lambda>tier.
          bindE (port (xp_context xp (resume \<noteq> None))) (\<lambda>(c0, p, planning). after c0 p planning tier)))"
    by (simp only: execution_body_def after_def Let_def)
  obtain u1 tier u2 x u3 where
    first': "announce_start xp q w = (Inr (), u1)" "forced_tier xp u1 = (Inr tier, u2)"
      "port (xp_context xp (resume \<noteq> None)) u2 = (Inr x, u3)" "(case x of (c0, p, planning) \<Rightarrow> after c0 p planning tier) u3 = (Inr res, w')"
    using assms unfolding body by (elim seqE_elim bindE_elim) auto
  obtain c0 p planning where x: "x = (c0, p, planning)" by (cases x)
  note first = first'(1,2) first'(3) [unfolded x]
  have rest: "after c0 p planning tier u3 = (Inr res, w')" using first'(4) by (simp add: x)
  define c where "c = c0\<lparr>rc_forceTier := tier\<rparr>"
  obtain v1 initial v2 prompt v3 steps v4 where
    second: "note_event (execution_event ''context_retrieved'' ''agent_runtime.executor'') u3 = (Inr (), v1)"
      "initial_steps ports xp c (eq_agentId q) owned resume v1 = (Inr initial, v2)"
      "planned_prompt heading xp p planning v2 = (Inr prompt, v3)"
      "inside (runReActLoop lib ports c prompt initial) v3 = (Inr steps, v4)"
      "close_execution xp steps v4 = (Inr res, w')"
    using rest unfolding after_def c_def [symmetric] by (elim seqE_elim bindE_elim) auto
  note run = first second
  have "progress v1 = progress w"
    using keepsD [OF progress_start run(1)] keepsD [OF progress_tier run(2)] keepsD [OF progress_port run(3)]
      keepsD [OF progress_note run(4)] by simp
  moreover have "progress v3 = progress v2" by (rule keepsD [OF progress_plan run(6)])
  moreover have "runReActLoop lib ports c prompt initial (ew_loop v3) = (Inr steps, ew_loop v4)"
    using run(7) by (auto simp: inside_def split: prod.splits)
  ultimately show ?thesis using run(5,8) that by blast
qed

section \<open>Properties\<close>

text \<open>
  C9. What a resume will read is what the execution has returned: when the rows of an execution are
  numbered by position, so they are after a run of the body, fresh or resumed, and the history rebuilt from
  them is the list of returned steps (as rows keep them).
\<close>

theorem history_survives_resume:
  assumes "numbered_rows (ew_loop w)" "resume = None \<longrightarrow> persisted_steps (ew_loop w) = []"
    and "execution_body heading lib ports xp q owned resume w = (Inr res, w')"
  shows "numbered_rows (ew_loop w') \<and> rebuildHistorySteps (ew_loop w') = map from_row (er_steps res)"
proof -
  obtain c v1 initial v2 prompt v3 v4 steps where
    p: "progress v1 = progress w" and i: "initial_steps ports xp c (eq_agentId q) owned resume v1 = (Inr initial, v2)"
    and p3: "progress v3 = progress v2" and l: "runReActLoop lib ports c prompt initial (ew_loop v3) = (Inr steps, ew_loop v4)"
    and z: "close_execution xp steps v4 = (Inr res, w')"
    by (rule body_runs [OF assms(3)]) (rule that)
  have rows: "persisted_steps (ew_loop v1) = persisted_steps (ew_loop w)" using p by (simp add: progress_def)
  have n1: "numbered_rows (ew_loop v1)" using assms(1) rows by (simp add: numbered_rows_def)
  have begun: "numbered_rows (ew_loop v3) \<and> length initial = length (persisted_steps (ew_loop v3))
      \<and> map from_row initial = map from_row (persisted_steps (ew_loop v3))"
  proof (cases resume)
    case None
    then show ?thesis using initial_run [OF i] assms(2) n1 rows p3 by (simp add: progress_def numbered_rows_def)
  next
    case (Some r)
    then obtain s where s: "initial = rebuildHistorySteps (ew_loop v1) @ [s]"
        "st_iteration s = next_number (rebuildHistorySteps (ew_loop v1))"
        "persisted_steps (ew_loop v3) = persisted_steps (ew_loop v1) @ [s]"
      using initial_run [OF i] p3 by (auto simp: progress_def)
    have r: "rebuildHistorySteps (ew_loop v1) = map from_row (persisted_steps (ew_loop v1))" by (rule sorted_rows [OF n1])
    then have "next_number (rebuildHistorySteps (ew_loop v1)) = length (persisted_steps (ew_loop v1))"
      using largest_number [of "rebuildHistorySteps (ew_loop v1)"] n1 by (simp add: numbered_rows_def o_def)
    then show ?thesis using s r n1 by (simp add: numbered_rows_def o_def)
  qed
  obtain new where new: "steps = initial @ new" "map st_iteration new = [length initial..<length steps]"
      "persisted_steps (ew_loop v4) = persisted_steps (ew_loop v3) @ new"
    using loop_returns [OF l] by blast
  have "progress w' = progress v4" by (rule keepsD [OF progress_close z])
  then have w': "persisted_steps (ew_loop w') = persisted_steps (ew_loop v3) @ new" using new(3) by (simp add: progress_def)
  have num: "numbered_rows (ew_loop w')"
    using begun new(1,2) w' by (simp add: numbered_rows_def upt_add_eq_append [of 0, symmetric])
  moreover have "er_steps res = steps" using z by (auto simp: close_execution_def eff_Inr_iffs)
  ultimately show ?thesis using sorted_rows [OF num] begun new(1) w' by simp
qed

section \<open>The row and the last event\<close>

definition ledger :: "'x execution_world \<Rightarrow> execution_status option \<times> lifecycle_event list \<times> (string \<times> string \<times> string) option" where
  "ledger w = (rx_row (ew_loop w), ew_outbox w, rx_paused (ew_loop w))"

lemma ledger_port: "keeps ledger (port m)"
  by (rule keepsI) (auto simp: port_def inside_def ext_def ledger_def split: prod.splits)

lemma ledger_note: "keeps ledger (note_event e)"
  by (rule keepsI) (auto simp: note_event_def inside_def learn_def modify_apply ledger_def)

lemma close_held_run:
  assumes "close_held xp steps w = (Inr u, w')"
  shows "rx_row (ew_loop w') = rx_row (ew_loop w)
     \<and> ew_outbox w' = ew_outbox w @ [(plain_event ''agent.execution.paused'')\<lparr>lv_pause := rx_paused (ew_loop w)\<rparr>]"
proof -
  obtain v x where "port (xp_commit xp) (w\<lparr>ew_loop := (ew_loop w)\<lparr>rx_paused := None\<rparr>\<rparr>) = (Inr x, v)"
    and "w' = v\<lparr>ew_metering := Some (metering steps),
        ew_outbox := ew_outbox v @ [(plain_event ''agent.execution.paused'')\<lparr>lv_pause := rx_paused (ew_loop w)\<rparr>]\<rparr>"
    using assms by (auto simp: close_held_def eff_Inr_iffs inside_def modify_apply enqueue_def)
  then show ?thesis using keepsD [OF ledger_port] by (fastforce simp: ledger_def)
qed

definition enqueue_row :: "execution_status \<Rightarrow> react_step list \<Rightarrow> 'x execution_world \<Rightarrow> 'x execution_world" where
  "enqueue_row s steps w = w\<lparr>ew_outbox := ew_outbox w @
     [\<lparr>lv_type = (if s = Failed then ''agent.execution.failed'' else ''agent.execution.completed''),
       lv_status = Some s, lv_pause = None, lv_termination = last_termination steps,
       lv_summary = take 200 (final_output steps), lv_stepCount = length steps, lv_tokens = total_tokens steps\<rparr>]\<rparr>"

lemma close_finished_run:
  assumes "close_finished xp s steps w = (Inr u, w')"
  shows "rx_row (ew_loop w') = map_option (\<lambda>_. s) (rx_row (ew_loop w)) \<and> ew_completed w'
     \<and> (\<exists>e. ew_outbox w' = ew_outbox w @ [e] \<and> lv_status e = Some s
          \<and> lv_type e = (if s = Failed then ''agent.execution.failed'' else ''agent.execution.completed''))"
proof -
  define tail where "tail = (if s = Done
      then seqE (note_event (execution_event ''agent_output_generated'' ''agent_runtime.executor''))
          (seqE (note_event (execution_event ''execution_completed'' ''agent_runtime.executor''))
          (bindE (attempt (port (xp_evaluate xp))) (\<lambda>_. ret ())))
      else (ret () :: ('a execution_world, unit) eff))"
  define part where "part = (\<lambda>w :: 'a execution_world. (ledger w, ew_completed w))"
  have port: "keeps part (port m)" for m :: "('a, 'b) eff"
    by (rule keepsI) (auto simp: part_def port_def inside_def ext_def ledger_def split: prod.splits)
  have note': "keeps part (note_event e)" for e
    by (rule keepsI) (auto simp: part_def note_event_def inside_def learn_def modify_apply ledger_def)
  have tail: "keeps part tail" unfolding tail_def by (intro keeps_rules keeps_attempt port note')
  define closed where "closed = (\<lambda>v :: 'a execution_world. enqueue_row s steps (set_row s (v\<lparr>ew_metering := Some (metering steps)\<rparr>)))"
  obtain v x where c: "port (xp_commit xp) w = (Inr x, v)" and t: "tail (closed v) = (Inr u, w')"
    using assms unfolding close_finished_def tail_def [symmetric] closed_def enqueue_row_def
    by (elim seqE_elim) (simp add: modify_apply enqueue_def)
  have w1: "rx_row (ew_loop (closed v)) = map_option (\<lambda>_. s) (rx_row (ew_loop v))" "ew_completed (closed v)"
      "\<exists>e. ew_outbox (closed v) = ew_outbox v @ [e] \<and> lv_status e = Some s
          \<and> lv_type e = (if s = Failed then ''agent.execution.failed'' else ''agent.execution.completed'')"
    by (simp_all add: closed_def enqueue_row_def set_row_def)
  have "part v = part w" by (rule keepsD [OF port c])
  moreover have "part w' = part (closed v)" by (rule keepsD [OF tail t])
  ultimately show ?thesis using w1 by (auto simp: part_def ledger_def)
qed

lemma fail_run:
  assumes "fail_execution xp e w = (Inr res, w')"
  shows "er_status res = Failed \<and> rx_row (ew_loop w') = map_option (\<lambda>_. Failed) (rx_row (ew_loop w))
     \<and> ew_outbox w' = ew_outbox w @ [(plain_event ''agent.execution.failed'')\<lparr>lv_summary := e\<rparr>]"
proof -
  obtain x v u where c: "port (xp_commit xp) w = (Inr x, v)"
    and n: "note_event ((execution_event ''execution_failed'' ''agent_runtime.executor'')\<lparr>le_error := Some e\<rparr>)
        ((set_row Failed v)\<lparr>ew_outbox := ew_outbox (set_row Failed v) @ [(plain_event ''agent.execution.failed'')\<lparr>lv_summary := e\<rparr>]\<rparr>) = (Inr u, w')"
    and r: "er_status res = Failed"
    using assms by (auto simp: fail_execution_def eff_Inr_iffs enqueue_def)
  have "ledger v = ledger w" by (rule keepsD [OF ledger_port c])
  then show ?thesis using keepsD [OF ledger_note n] r by (auto simp: ledger_def set_row_def)
qed

definition closing_type :: "execution_status \<Rightarrow> string" where
  "closing_type s =
     (if s = GuardrailPending then ''agent.execution.paused''
      else if s = Failed then ''agent.execution.failed'' else ''agent.execution.completed'')"


text \<open>
  C5. An approval is good for one call: whatever the registry answers, also when it throws, the tool of the
  paused call has been run exactly once with the paused input, under a grant that names this approval, and
  no grant is left for the loop that goes on.
\<close>

theorem approved_call_runs_once:
  assumes "rs_paused resume = Some p"
  shows "case executeApprovedToolCall ports xp c resume rebuilt w of (r, w') \<Rightarrow>
     ew_grant w' = None
     \<and> rx_ran (ew_loop w') = rx_ran (ew_loop w)
         @ [\<lparr>tn_tool = pc_toolName p, tn_input = or_empty_object (pc_toolInput p), tn_requireDurable = False\<rparr>]
     \<and> fst (executeApprovedToolCall ports (xp\<lparr>xp_approved := (\<lambda>g tool inp.
            if map_option tg_approvalInstanceId g = Some (rs_approvalInstanceId resume) then xp_approved xp g tool inp
            else throw ''NO_GRANT'')\<rparr>) c resume rebuilt w) = r"
proof -
  define grant where "grant = \<lparr>tg_toolName = pc_toolName p, tg_approvalInstanceId = rs_approvalInstanceId resume,
      tg_toolCallId = truthy_only (pc_toolCallId p), tg_inputDigest = truthy_only (pc_inputDigest p)\<rparr>"
  define call where "call = (\<lambda>xp :: 'a execution_ports. xp_approved xp (Some grant) (pc_toolName p) (or_empty_object (pc_toolInput p)) (rx_ext (ew_loop w)))"
  define persist where "persist = (\<lambda>res. inside (persistStep ports c (approved_step (next_number rebuilt) (rs_approvalInstanceId resume)
      ''Execute approved tool call'' (pc_toolName p) (pc_toolInput p) res)))"
  have run: "executeApprovedToolCall ports xp' c resume rebuilt w =
      (case call xp' of (answer, x) \<Rightarrow>
        let v = (ew_loop w)\<lparr>rx_ran := rx_ran (ew_loop w) @ [\<lparr>tn_tool = pc_toolName p, tn_input = or_empty_object (pc_toolInput p), tn_requireDurable = False\<rparr>],
              rx_ext := x, rx_learning := rx_learning (ew_loop w) @ [approved_event ''tool_call_started'' (pc_toolName p) (or_empty_object (pc_toolInput p)) (rs_approvalInstanceId resume),
                (case answer of
                   Inl e \<Rightarrow> (approved_event ''tool_call_failed'' (pc_toolName p) (or_empty_object (pc_toolInput p)) (rs_approvalInstanceId resume))\<lparr>le_error := Some e\<rparr>
                 | Inr res \<Rightarrow> outcome_event (pc_toolName p) (or_empty_object (pc_toolInput p)) (rs_approvalInstanceId resume) res)]\<rparr>;
            w1 = w\<lparr>ew_loop := v, ew_grant := None\<rparr> in
        (case answer of Inl e \<Rightarrow> (Inl e, w1) | Inr res \<Rightarrow> seqE (persist res) (ret (approved_step (next_number rebuilt) (rs_approvalInstanceId resume)
            ''Execute approved tool call'' (pc_toolName p) (pc_toolInput p) res)) w1))" for xp'
  proof (cases "call xp'")
    case (Pair answer x)
    then have x: "xp_approved xp' (Some \<lparr>tg_toolName = pc_toolName p, tg_approvalInstanceId = rs_approvalInstanceId resume,
        tg_toolCallId = truthy_only (pc_toolCallId p), tg_inputDigest = truthy_only (pc_inputDigest p)\<rparr>)
        (pc_toolName p) (or_empty_object (pc_toolInput p)) (rx_ext (ew_loop w)) = (answer, x)"
      by (simp add: call_def grant_def)
    show ?thesis
      unfolding executeApprovedToolCall_def assms Pair
      by (cases answer) (simp_all add: x bindE_apply seqE_apply of_option_simps modify_apply reads_apply note_event_def
          inside_def learn_def log_run_def attempt_def port_def ext_def lift_result_apply persist_def Let_def)
  qed
  have same: "call (xp\<lparr>xp_approved := (\<lambda>g tool inp.
        if map_option tg_approvalInstanceId g = Some (rs_approvalInstanceId resume) then xp_approved xp g tool inp
        else throw ''NO_GRANT'')\<rparr>) = call xp"
    by (simp add: call_def grant_def)
  have kept: "ew_grant w' = ew_grant v \<and> rx_ran (ew_loop w') = rx_ran (ew_loop v)"
    if "seqE (persist res) (ret s) v = (r, w')" for res s r v w'
    using that keepsD [OF persist_ran]
    by (fastforce simp: persist_def seqE_apply ret_apply inside_def split: prod.splits sum.splits)
  show ?thesis
    unfolding run [of xp] run [of "xp\<lparr>xp_approved := _\<rparr>"] same
    using kept by (cases "call xp") (auto simp: Let_def split: sum.split prod.split dest!: kept)
qed


section \<open>Runs\<close>

text \<open>A world whose ports answer with nothing.\<close>

definition idle_ports :: "unit react_ports" where
  "idle_ports =
     \<lparr>pt_now = ret 0, pt_checkIteration = \<lambda>_. ret False, pt_messages = \<lambda>_ _. ret [], pt_freeze = \<lambda>_ _. ret (),
      pt_chat = \<lambda>_. throw ''down'', pt_generate = \<lambda>_. throw ''down'', pt_execute = \<lambda>_ _ _. throw ''down'',
      pt_evaluate = \<lambda>_ _ _. throw ''down'', pt_createApproval = \<lambda>_. throw ''down'', pt_save = \<lambda>_. ret ()\<rparr>"

definition idle_config :: react_config where
  "idle_config =
     \<lparr>rc_origin = \<lparr>xo_id = ''e1'', xo_triggerPayload = None, xo_triggeredBy = None, xo_triggerSource = None\<rparr>,
      rc_context = \<lparr>xc_traceId = None, xc_correlationId = None, xc_actorType = None, xc_actorId = None,
        xc_source = None, xc_release = False\<rparr>,
      rc_maxIterations = 4, rc_timeoutMs = None, rc_maxTokens = 4000, rc_maxOutputTokensPerStep = None,
      rc_maxStepTokens = None, rc_maxToolCalls = 3, rc_maxToolRetryAttempts = None, rc_toolRetryBackoffMs = None,
      rc_sensitiveOps = None, rc_guardrailRuleIds = None, rc_guardrailEngine = False, rc_forceTier = None\<rparr>"

definition idle_lib :: react_lib where
  "idle_lib =
     \<lparr>lb_parse = \<lambda>_. None, lb_regex = \<lambda>_ _. False, lb_num = \<lambda>_. None, lb_sha = \<lambda>s. s, lb_utf8 = length,
      lb_keywords = [], lb_failure = \<lambda>_. [], lb_providerErrors = \<lambda>_. None\<rparr>"

definition idle_execution :: "unit execution_ports" where
  "idle_execution =
     \<lparr>xp_load = ret (), xp_preflight = ret BudgetAllowed, xp_context = \<lambda>_. ret (idle_config, None, False),
      xp_plan = \<lambda>_. ret [], xp_commit = ret (), xp_approved = \<lambda>_ _ _. ret (thrown_outcome ''down''),
      xp_claim = \<lambda>_ _. throw ''down'', xp_durable = \<lambda>_ _. throw ''down'', xp_acknowledge = \<lambda>_ _. ret (),
      xp_evaluate = ret ()\<rparr>"

definition idle_request :: execution_request where
  "idle_request = \<lparr>eq_origin = rc_origin idle_config, eq_agentId = ''a1'', eq_rawInput = ''hi''\<rparr>"

definition idle_world :: "react_step list \<Rightarrow> unit execution_world" where
  "idle_world steps = \<lparr>ew_loop = \<lparr>rx_row = Some Running, rx_status = Running,
     rx_persisted = map (Pair (correlation_of (rc_context idle_config) (rc_origin idle_config))) steps,
     rx_approvals = [], rx_paused = None, rx_ran = [], rx_learning = [], rx_events = [], rx_ext = ()\<rparr>,
     ew_grant = None, ew_outbox = [], ew_metering = None, ew_completed = False\<rparr>"

definition idle_resume :: resume_context where
  "idle_resume = \<lparr>rs_approvalInstanceId = ''ap1'',
     rs_paused = Some \<lparr>pc_toolName = ''mail.send'', pc_toolInput = None, pc_toolCallId = None, pc_inputDigest = None\<rparr>,
     rs_durable = None\<rparr>"

lemmas idle_defs = idle_ports_def idle_config_def idle_lib_def idle_execution_def idle_request_def idle_world_def idle_resume_def

text \<open>An iteration that the cap ends.\<close>

lemma idle_loop:
  "react_from idle_lib idle_ports idle_config b d \<lparr>ls_i = i, ls_steps = steps, ls_tokens = n, ls_prompt = p,
      ls_cropped = cr, ls_toolCalls = k, ls_digest = g, ls_repeats = m\<rparr> v
    = (if i < 4 then (let s = (if d \<le> 0 then createExecutionTimeoutStep i b else cap_step i) in
          (Inr (steps @ [s]), v\<lparr>rx_persisted := rx_persisted v @ [(correlation_of (rc_context idle_config) (rc_origin idle_config), s)]\<rparr>))
       else (Inr steps, v))"
  by (subst react_from.simps)
    (simp add: react_iteration_def idle_ports_def idle_config_def bindE_apply seqE_apply ext_def ret_apply stop_with_def
      persistStep_def modify_apply Let_def)

lemma idle_run: "\<exists>res w'. execution_body [] idle_lib idle_ports idle_execution idle_request False None (idle_world []) = (Inr res, w')
    \<and> er_status res = Done \<and> er_steps res = [cap_step 0]"
proof -
  have loop: "runReActLoop idle_lib idle_ports idle_config p [] v
      = (Inr [cap_step 0], v\<lparr>rx_persisted := rx_persisted v @ [(correlation_of (rc_context idle_config) (rc_origin idle_config), cap_step 0)]\<rparr>)"
    for p v
  proof -
    have "pt_now idle_ports = ret 0" "wall_clock_budget idle_config = 300000" by (simp_all add: idle_ports_def wall_clock_budget_def idle_config_def)
    then have "runReActLoop idle_lib idle_ports idle_config p [] v = react_from idle_lib idle_ports idle_config 300000 300000
        \<lparr>ls_i = 0, ls_steps = [], ls_tokens = 0, ls_prompt = p, ls_cropped = False, ls_toolCalls = 0,
         ls_digest = None, ls_repeats = 0\<rparr> (v\<lparr>rx_ext := ()\<rparr>)"
      by (simp add: runReActLoop_def bindE_apply ext_def ret_apply initial_loop_def)
    moreover have e: "v\<lparr>rx_ext := ()\<rparr> = v" by (cases v) simp
    ultimately show ?thesis
      using idle_loop [of 300000 300000 0 "[]" 0 p False 0 None 0 v] unfolding e by (simp add: Let_def)
  qed
  have tier: "idle_config\<lparr>rc_forceTier := None\<rparr> = idle_config" by (simp add: idle_config_def)
  have ports: "xp_load idle_execution = ret ()" "xp_commit idle_execution = ret ()" "xp_preflight idle_execution = ret BudgetAllowed"
      "xp_context idle_execution = (\<lambda>_. ret (idle_config, None, False))" "xp_evaluate idle_execution = ret ()"
    by (simp_all add: idle_execution_def)
  show ?thesis
    unfolding execution_body_def announce_start_def forced_tier_def planned_prompt_def initial_steps_def ports
    by (simp add: bindE_apply seqE_apply port_def inside_def ext_def ret_apply enqueue_def modify_apply note_event_def learn_def
        loop tier Let_def close_execution_def reads_apply final_status_def last_termination_def cap_step_def closing_step_def
        idle_world_def close_finished_def attempt_def ports set_row_def)
qed

lemma history_survives_resume_witness:
  "\<exists>res w'. execution_body [] idle_lib idle_ports idle_execution idle_request False None (idle_world []) = (Inr res, w')
     \<and> rebuildHistorySteps (ew_loop w') = map from_row (er_steps res) \<and> er_steps res \<noteq> []"
proof -
  obtain res w' where run: "execution_body [] idle_lib idle_ports idle_execution idle_request False None (idle_world []) = (Inr res, w')"
    "er_steps res = [cap_step 0]" using idle_run by blast
  have "numbered_rows (ew_loop (idle_world []))" "(None :: resume_context option) = None \<longrightarrow> persisted_steps (ew_loop (idle_world [])) = []"
    by (simp_all add: numbered_rows_def persisted_steps_def idle_world_def)
  from history_survives_resume [OF this run(1)] run show ?thesis by auto
qed


lemma approved_call_runs_once_witness:
  "ew_grant (snd (executeApprovedToolCall idle_ports idle_execution idle_config idle_resume [] (idle_world []))) = None"
proof -
  have "rs_paused idle_resume = Some \<lparr>pc_toolName = ''mail.send'', pc_toolInput = None, pc_toolCallId = None, pc_inputDigest = None\<rparr>"
    by (simp add: idle_resume_def)
  from approved_call_runs_once [OF this, where ports = idle_ports and xp = idle_execution and c = idle_config
      and rebuilt = "[]" and w = "idle_world []"]
  show ?thesis by (simp split: prod.splits)
qed

section \<open>What an execution gets wrong\<close>

text \<open>
  The steps that end the loop for the clock, for the cap and for a model that fails have no termination, so
  the execution is closed as done, and announced as completed.
\<close>

lemma failures_closed_as_done:
  "final_status Running (steps @ [createExecutionTimeoutStep i b]) = Done"
  "final_status Running (steps @ [cap_step i]) = Done"
  "final_status Running (steps @ [llm_error_step i e]) = Done"
  by (simp_all add: final_status_def last_termination_def createExecutionTimeoutStep_def cap_step_def llm_error_step_def closing_step_def)

text \<open>The row is written without its status being looked at: a cancelled execution becomes done.\<close>

lemma cancelled_row_overwritten:
  "close_finished xp Done steps w = (Inr u, w') \<Longrightarrow> rx_row (ew_loop w) = Some Cancelled \<Longrightarrow>
     rx_row (ew_loop w') = Some Done \<and> \<not> isValidTransition Cancelled Done"
  by (auto simp: isValidTransition_def dest: close_finished_run)

text \<open>
  The call that was held and the step that ran it are both tool calls of the history, so an approved call
  counts twice against the limit of calls.
\<close>

lemma approved_call_counts_twice:
  "is_tool_call held \<Longrightarrow>
     ls_toolCalls (initial_loop (steps @ [held, approved_step i a p tool inp res]) prompt) = Suc (Suc (ls_toolCalls (initial_loop steps prompt)))"
  by (simp add: initial_loop_def is_tool_call_def approved_step_def)

end
