(* ===== verification/Product_Registry.thy ===== *)
theory Product_Registry
  imports Tool_Call_Lifecycle Js_Text
begin

text \<open>
  The tool registry of the product:
  \<open>packages/backend/src/modules/agent-runtime/tool-framework/tool-registry.service.ts\<close>, with
  \<open>contextual-agent-tool-provider.ts\<close> and \<open>code-action-runtime-budget.ts\<close>.

  The rows of tool calls are written by the life cycle of \<open>Tool_Call_Lifecycle\<close> (the backend has the
  kernel's module). The bodies of tools, the preparation of approvals, the providers and the owner of the
  approval subjects are computations on the same database, which may throw; the validator of schemas is a
  function. A context is one of the two types of its union; an input is a JSON value. \<open>gw_events\<close> are the
  rows of the audit logger, \<open>gw_runs\<close> notes which bodies were started, which no code reads. Log lines are
  left out. A name that \<open>Object.prototype\<close> has is outside the model of required members.
\<close>

section \<open>Contexts, tools and providers\<close>

record object_permission =
  om_objectApiName :: string
  om_canRead :: bool
  om_canCreate :: bool
  om_canUpdate :: bool
  om_canDelete :: bool

record legacy_run =
  lr_call :: legacy_context
  lr_objectPermissions :: "object_permission list"

datatype run_scope = LegacyRun legacy_run | GovernedRun governed_context

record tool_context =
  tx_scope :: run_scope
  tx_traceId :: "string option"
  tx_correlationId :: "string option"
  tx_allowedTools :: "string list"
  tx_timeoutMs :: int
  tx_grant :: "approval_grant option"

fun isGovernedContext :: "tool_context \<Rightarrow> bool" where
  "isGovernedContext x = (case tx_scope x of GovernedRun g \<Rightarrow> True | LegacyRun l \<Rightarrow> False)"

fun isLegacyExecutionContext :: "tool_context \<Rightarrow> bool" where
  "isLegacyExecutionContext x = (case tx_scope x of LegacyRun l \<Rightarrow> True | GovernedRun g \<Rightarrow> False)"

definition call_context_of :: "tool_context \<Rightarrow> call_context" where
  "call_context_of x =
     \<lparr>cc_scope = (case tx_scope x of LegacyRun l \<Rightarrow> Legacy (lr_call l) | GovernedRun g \<Rightarrow> Governed g),
      cc_traceId = tx_traceId x, cc_correlationId = tx_correlationId x, cc_timeoutMs = tx_timeoutMs x\<rparr>"

record host =
  hs_toolCallId :: string
  hs_inputDigest :: "string option"

datatype asset_binding = ReleaseTool string string | StaticConnector string string

record subject_created =
  sc_toolCallId :: string
  sc_approvalInstanceId :: string
  sc_payloadEnvelopeId :: string
  sc_inputDigest :: string
  sc_riskLevel :: string
  sc_binding :: asset_binding

record call_result =
  ur_success :: bool
  ur_output :: "payload option"
  ur_error :: "string option"
  ur_permissionCheck :: string
  ur_permissionDetail :: "string option"
  ur_guardrailCheck :: string
  ur_duration :: int
  ur_toolCallId :: "string option"
  ur_status :: "string option"
  ur_toolName :: "string option"
  ur_inputDigest :: "string option"
  ur_releaseSetId :: "string option"
  ur_publishedChecksum :: "string option"
  ur_riskLevel :: "string option"
  ur_subject :: "subject_created option"
  ur_preparation :: "json option"

record tool_schema =
  ts_required :: "string list option"
  ts_schema :: json

type_synonym body = "json \<Rightarrow> tool_context \<Rightarrow> host \<Rightarrow> call_result act"

record static_tool =
  sx_name :: string
  sx_category :: string
  sx_inputSchema :: "tool_schema option"
  sx_objectApiName :: "string option"
  sx_operation :: "string option"
  sx_riskLevel :: string
  sx_execute :: body
  sx_prepareApproval :: "(json \<Rightarrow> tool_context \<Rightarrow> host \<Rightarrow> json act) option"

record contextual_tool =
  kt_toolName :: string
  kt_declaredRiskLevel :: string
  kt_limitsTimeoutMs :: int
  kt_releaseSetId :: string
  kt_resolved :: resolved_tool

datatype product_tool = Static static_tool | Contextual contextual_tool

fun isStaticTool :: "product_tool \<Rightarrow> bool" where
  "isStaticTool (Static s) = True"
| "isStaticTool (Contextual k) = False"

fun resolvedName :: "product_tool \<Rightarrow> string" where
  "resolvedName (Static s) = sx_name s"
| "resolvedName (Contextual k) = kt_toolName k"

text \<open>The flag of an execution is \<open>completionCoordinated\<close>.\<close>

record contextual_provider =
  pv_providerKey :: string
  pv_declaredToolNames :: "string list option"
  pv_resolveTool :: "string \<Rightarrow> tool_context \<Rightarrow> contextual_tool option act"
  pv_resolveAvailableTools :: "tool_context \<Rightarrow> contextual_tool list act"
  pv_executeResolvedTool :: "(contextual_tool \<Rightarrow> json \<Rightarrow> tool_context \<Rightarrow> string \<Rightarrow> (call_result \<times> bool) act) option"

record subject_port =
  sj_submitToolSubject :: "string \<Rightarrow> json \<Rightarrow> contextual_tool \<Rightarrow> tool_context \<Rightarrow> subject_created act"
  sj_submitStaticToolSubject :: "string \<Rightarrow> json \<Rightarrow> tool_context \<Rightarrow> json \<Rightarrow> subject_created act"

text \<open>An error of the validator: the path in the instance and the message.\<close>

type_synonym schema_error = "string option \<times> string option"

record registry_deps =
  gy_library :: library
  gy_validator :: "json \<Rightarrow> (json \<Rightarrow> schema_error list option) result"
  gy_toolCalls :: bool
  gy_approvalSubjects :: "subject_port option"

section \<open>Registration\<close>

text \<open>The two maps in the order of insertion.\<close>

record product_registry =
  px_tools :: "static_tool list"
  px_providers :: "(string \<times> contextual_provider) list"
  px_sealed :: bool

definition getTool :: "product_registry \<Rightarrow> string \<Rightarrow> static_tool option" where
  "getTool pg name = tb_find (\<lambda>t. sx_name t = name) (px_tools pg)"

definition registerTool :: "static_tool \<Rightarrow> (product_registry, unit) eff" where
  "registerTool tool =
     bindE (reads (\<lambda>pg. getTool pg (sx_name tool))) (\<lambda>present.
     seqE (throw_if (present \<noteq> None) (''Tool already registered: '' @ sx_name tool))
       (modify (\<lambda>pg. pg\<lparr>px_tools := px_tools pg @ [tool]\<rparr>)))"

definition registerProvider :: "static_tool list \<Rightarrow> (product_registry, unit) eff" where
  "registerProvider tools = for_each registerTool tools"

definition registerContextualProvider :: "string \<Rightarrow> contextual_provider \<Rightarrow> (product_registry, unit) eff" where
  "registerContextualProvider providerKey provider =
     (let normalizedKey = trim providerKey; declaredNames = nullish (pv_declaredToolNames provider) [] in
     bindE (reads px_sealed) (\<lambda>closed.
     seqE (throw_if closed ''TOOL_CONTEXTUAL_PROVIDER_REGISTRY_SEALED'')
    (seqE (throw_if (normalizedKey = [] \<or> normalizedKey \<noteq> pv_providerKey provider)
            ''TOOL_CONTEXTUAL_PROVIDER_KEY_INVALID'')
    (bindE (reads (\<lambda>pg. map_of (px_providers pg) normalizedKey \<noteq> None)) (\<lambda>present.
     seqE (throw_if present ''TOOL_CONTEXTUAL_PROVIDER_DUPLICATE'')
    (seqE (throw_if (list_ex (\<lambda>n. n = [] \<or> trim n \<noteq> n) declaredNames \<or> \<not> distinct declaredNames)
            ''TOOL_CONTEXTUAL_PROVIDER_DECLARATIONS_INVALID'')
    (bindE (reads (\<lambda>pg. find (\<lambda>n. getTool pg n \<noteq> None) declaredNames)) (\<lambda>collision.
     seqE (throw_if (collision \<noteq> None)
            (''TOOL_STATIC_CONTEXTUAL_NAME_COLLISION:'' @ nullish collision []))
       (modify (\<lambda>pg. pg\<lparr>px_providers := px_providers pg @ [(normalizedKey, provider)]\<rparr>))))))))))"

definition onApplicationBootstrap :: "(product_registry, unit) eff" where
  "onApplicationBootstrap = modify (\<lambda>pg. pg\<lparr>px_sealed := True\<rparr>)"

definition getAvailableTools :: "product_registry \<Rightarrow> tool_context \<Rightarrow> static_tool list" where
  "getAvailableTools pg x = filter (\<lambda>t. sx_name t \<in> set (tx_allowedTools x)) (px_tools pg)"

definition listTools :: "product_registry \<Rightarrow> static_tool list" where
  "listTools pg = px_tools pg"

section \<open>The world of a call\<close>

record governance_event =
  ge_workspaceId :: string
  ge_executionId :: string
  ge_ruleName :: string
  ge_riskLevel :: string
  ge_operationType :: string
  ge_objectApiName :: "json option"
  ge_actionTaken :: string
  ge_approvalStatus :: "string option"
  ge_category :: string
  ge_toolName :: string
  ge_toolCategory :: string
  ge_reason :: string
  ge_traceId :: "string option"
  ge_correlationId :: "string option"
  ge_actorType :: "string option"
  ge_actorId :: "string option"
  ge_source :: "string option"
  ge_input :: json

record registry_world =
  gw_store :: world
  gw_events :: "governance_event list"
  gw_runs :: "(string \<times> json) list"

type_synonym 'a reg = "(registry_world, 'a) eff"

definition on_store :: "'a act \<Rightarrow> 'a reg" where
  "on_store m = (\<lambda>w. case m (gw_store w) of (r, v) \<Rightarrow> (r, w\<lparr>gw_store := v\<rparr>))"

definition note_run :: "string \<Rightarrow> json \<Rightarrow> unit reg" where
  "note_run name inp = modify (\<lambda>w. w\<lparr>gw_runs := gw_runs w @ [(name, inp)]\<rparr>)"

definition or_else :: "'a option \<Rightarrow> 'a option \<Rightarrow> 'a option" where
  "or_else a b = (case a of None \<Rightarrow> b | Some v \<Rightarrow> Some v)"

text \<open>What differs between the events of one call.\<close>

record event_case =
  ev_category :: string
  ev_riskLevel :: string
  ev_actionTaken :: string
  ev_reason :: string
  ev_approvalStatus :: "string option"
  ev_operation :: "string option"
  ev_objectApiName :: "json option"

definition logGovernanceEvent ::
    "tool_context \<Rightarrow> legacy_run \<Rightarrow> static_tool \<Rightarrow> string \<Rightarrow> json \<Rightarrow> event_case \<Rightarrow> unit reg" where
  "logGovernanceEvent x l tool toolName inp e =
     modify (\<lambda>w. w\<lparr>gw_events := gw_events w @
       [\<lparr>ge_workspaceId = lc_workspaceId (lr_call l), ge_executionId = lc_executionId (lr_call l),
         ge_ruleName = (if ev_category e = ''runtime_permission_denied'' then ''Runtime Permission Guard''
                        else if ev_category e = ''guardrail_blocked'' then ''Runtime Guardrail Block''
                        else ''Approval Degradation Gate''),
         ge_riskLevel = ev_riskLevel e, ge_operationType = nullish (ev_operation e) toolName,
         ge_objectApiName = ev_objectApiName e, ge_actionTaken = ev_actionTaken e,
         ge_approvalStatus = ev_approvalStatus e, ge_category = ev_category e, ge_toolName = toolName,
         ge_toolCategory = sx_category tool, ge_reason = ev_reason e, ge_traceId = tx_traceId x,
         ge_correlationId = or_else (tx_correlationId x) (tx_traceId x),
         ge_actorType = lc_actorType (lr_call l),
         ge_actorId = or_else (lc_actorId (lr_call l)) (lc_triggeredBy (lr_call l)),
         ge_source = lc_source (lr_call l), ge_input = inp\<rparr>]\<rparr>)"

definition failResult :: "string \<Rightarrow> string \<Rightarrow> string \<Rightarrow> int \<Rightarrow> call_result" where
  "failResult error permissionCheck guardrailCheck duration =
     \<lparr>ur_success = False, ur_output = Some (Json JNull), ur_error = Some error,
      ur_permissionCheck = permissionCheck, ur_permissionDetail = None, ur_guardrailCheck = guardrailCheck,
      ur_duration = duration, ur_toolCallId = None, ur_status = None, ur_toolName = None,
      ur_inputDigest = None, ur_releaseSetId = None, ur_publishedChecksum = None, ur_riskLevel = None,
      ur_subject = None, ur_preparation = None\<rparr>"

definition failed_call :: "tool_call_record \<Rightarrow> string \<Rightarrow> string \<Rightarrow> string \<Rightarrow> int \<Rightarrow> call_result" where
  "failed_call call error permissionCheck guardrailCheck duration =
     (failResult error permissionCheck guardrailCheck duration)\<lparr>ur_toolCallId := Some (tc_id call)\<rparr>"

definition openCallStatuses :: "tool_call_record \<Rightarrow> tool_call_status list" where
  "openCallStatuses call =
     (if tc_status call = Some REQUIRES_APPROVAL then [REQUIRES_APPROVAL] else [STARTED])"

section \<open>Resolution\<close>

fun resolve_matches ::
    "string \<Rightarrow> tool_context \<Rightarrow> (string \<times> contextual_provider) list \<Rightarrow> contextual_tool list reg" where
  "resolve_matches name x [] = ret []"
| "resolve_matches name x ((_, p) # ps) =
     bindE (on_store (pv_resolveTool p name x)) (\<lambda>resolved.
     bindE (resolve_matches name x ps) (\<lambda>rest.
     ret (case resolved of None \<Rightarrow> rest | Some k \<Rightarrow> k # rest)))"

definition resolveTool :: "product_registry \<Rightarrow> string \<Rightarrow> tool_context \<Rightarrow> product_tool option reg" where
  "resolveTool pg name x =
     (let staticTool = getTool pg name in
      if \<not> isGovernedContext x then ret (map_option Static staticTool)
      else
        bindE (resolve_matches name x (px_providers pg)) (\<lambda>matches.
        seqE (throw_if (length matches > 1) (''TOOL_CONTEXTUAL_NAME_COLLISION:'' @ name))
       (seqE (throw_if (staticTool \<noteq> None \<and> length matches > 0)
               (''TOOL_STATIC_CONTEXTUAL_NAME_COLLISION:'' @ name))
        (ret (case staticTool of Some s \<Rightarrow> Some (Static s)
              | None \<Rightarrow> (case matches of [] \<Rightarrow> None | k # _ \<Rightarrow> Some (Contextual k)))))))"

text \<open>The inner loop over the tools of one provider; it returns the names seen so far.\<close>

fun check_names :: "product_registry \<Rightarrow> string list \<Rightarrow> contextual_tool list \<Rightarrow> string list result" where
  "check_names pg seen [] = Inr seen"
| "check_names pg seen (k # ks) =
     (let name = kt_toolName k in
      if getTool pg name \<noteq> None then Inl (''TOOL_STATIC_CONTEXTUAL_NAME_COLLISION:'' @ name)
      else if name \<in> set seen then Inl (''TOOL_CONTEXTUAL_NAME_COLLISION:'' @ name)
      else check_names pg (seen @ [name]) ks)"

fun gather_contextual ::
    "product_registry \<Rightarrow> tool_context \<Rightarrow> string list \<Rightarrow> (string \<times> contextual_provider) list \<Rightarrow> contextual_tool list reg" where
  "gather_contextual pg x seen [] = ret []"
| "gather_contextual pg x seen ((_, p) # ps) =
     bindE (on_store (pv_resolveAvailableTools p x)) (\<lambda>ks.
     bindE (lift_result (check_names pg seen ks)) (\<lambda>seen'.
     bindE (gather_contextual pg x seen' ps) (\<lambda>rest.
     ret (filter (\<lambda>k. kt_toolName k \<in> set (tx_allowedTools x)) ks @ rest))))"

text \<open>The order of \<open>localeCompare\<close> is the argument \<open>collate\<close>, the sort key of a text.\<close>

definition resolveAvailableTools ::
    "(string \<Rightarrow> nat list) \<Rightarrow> product_registry \<Rightarrow> tool_context \<Rightarrow> product_tool list reg" where
  "resolveAvailableTools collate pg x =
     (let staticTools = map Static (getAvailableTools pg x) in
      if \<not> isGovernedContext x then ret staticTools
      else bindE (gather_contextual pg x [] (px_providers pg)) (\<lambda>contextual.
        ret (sort_key (\<lambda>t. collate (resolvedName t)) (staticTools @ map Contextual contextual))))"
section \<open>Checks\<close>

text \<open>
  Every branch returns the input itself: a unique match of the folded name is looked for, and its casing
  is not taken over.
\<close>

definition word_char :: "char \<Rightarrow> bool" where
  "word_char c \<longleftrightarrow> ascii_letter c \<or> is_digit c \<or> c = CHR ''_''"

definition folded :: "string \<Rightarrow> string" where
  "folded s = map lower_char s"

definition canonicalizeAuthorizedObjectApiName :: "json \<Rightarrow> legacy_run \<Rightarrow> json" where
  "canonicalizeAuthorizedObjectApiName inp l =
     (case inp of
        JObj ps \<Rightarrow>
          (case map_of ps ''objectApiName'' of
             Some (JStr objectApiName) \<Rightarrow>
               if objectApiName = [] then inp
               else if \<not> list_all word_char objectApiName then inp
               else
                 (let foldedName = folded objectApiName;
                      matches = filter (\<lambda>p. folded (om_objectApiName p) = foldedName) (lr_objectPermissions l)
                  in if length matches \<noteq> 1 then inp else inp)
           | _ \<Rightarrow> inp)
      | _ \<Rightarrow> inp)"

definition granted :: "tool_context \<Rightarrow> string \<Rightarrow> bool" where
  "granted x toolName \<longleftrightarrow> map_option ag_toolName (tx_grant x) = Some toolName"

definition allowed_in :: "tool_context \<Rightarrow> string \<Rightarrow> bool" where
  "allowed_in x toolName \<longleftrightarrow> toolName \<in> set (tx_allowedTools x)"

definition input_member :: "json \<Rightarrow> string \<Rightarrow> json option" where
  "input_member inp k = (case inp of JObj ps \<Rightarrow> map_of ps k | _ \<Rightarrow> None)"

definition has_required :: "static_tool \<Rightarrow> json \<Rightarrow> bool" where
  "has_required tool inp \<longleftrightarrow>
     (case inp of JObj ps \<Rightarrow> True | JArr vs \<Rightarrow> True | _ \<Rightarrow> False)
     \<and> list_all (\<lambda>field. input_member inp field \<noteq> None)
         (nullish (Option.bind (sx_inputSchema tool) ts_required) [])"

definition risk_num :: "string \<Rightarrow> nat option" where
  "risk_num = map_of [(''L0'', 0), (''L1'', 1), (''L2'', 2), (''L3'', 3), (''L4'', 4)]"

text \<open>\<open>{ ... }[riskLevel] || 0\<close>; a comparison with \<open>undefined\<close> is false.\<close>

definition at_least :: "nat \<Rightarrow> string \<Rightarrow> bool" where
  "at_least n riskLevel \<longleftrightarrow> n \<le> nullish (risk_num riskLevel) 0"

text \<open>The first error of the schema check, as the message of the result; the compiler may throw.\<close>

definition schema_message :: "schema_error list \<Rightarrow> string" where
  "schema_message errors =
     (let schemaError = (case errors of [] \<Rightarrow> (None, None) | e # _ \<Rightarrow> e);
          or_text = (\<lambda>s d. if truthy s then nullish s [] else d)
      in ''Tool input schema validation failed: '' @ or_text (fst schemaError) ''/''
         @ '' '' @ or_text (snd schemaError) ''invalid input'')"

definition schema_check :: "registry_deps \<Rightarrow> static_tool \<Rightarrow> json \<Rightarrow> string option result" where
  "schema_check dp tool inp =
     (case sx_inputSchema tool of
        None \<Rightarrow> Inr None
      | Some schema \<Rightarrow>
          (case gy_validator dp (ts_schema schema) of
             Inl e \<Rightarrow> Inl e
           | Inr validate \<Rightarrow> Inr (map_option schema_message (validate inp))))"

definition resolved_object :: "static_tool \<Rightarrow> json \<Rightarrow> json option" where
  "resolved_object tool inp =
     (if truthy (sx_objectApiName tool) then map_option JStr (sx_objectApiName tool)
      else input_member inp ''objectApiName'')"

text \<open>A name that is no string has no \<open>toLocaleLowerCase\<close>; the filter asks for it at its first row.\<close>

definition find_permission :: "legacy_run \<Rightarrow> json \<Rightarrow> object_permission option result" where
  "find_permission l name =
     (case find (\<lambda>p. JStr (om_objectApiName p) = name) (lr_objectPermissions l) of
        Some p \<Rightarrow> Inr (Some p)
      | None \<Rightarrow>
          (case name of
             JStr s \<Rightarrow>
               (case filter (\<lambda>p. folded (om_objectApiName p) = folded s) (lr_objectPermissions l) of
                  [p] \<Rightarrow> Inr (Some p) | _ \<Rightarrow> Inr None)
           | _ \<Rightarrow> if lr_objectPermissions l = [] then Inr None
                  else Inl ''resolvedObjectApiName.toLocaleLowerCase is not a function''))"

definition has_access :: "string \<Rightarrow> object_permission \<Rightarrow> bool" where
  "has_access operation p \<longleftrightarrow>
     operation = ''read'' \<and> om_canRead p \<or> operation = ''create'' \<and> om_canCreate p
     \<or> operation = ''update'' \<and> om_canUpdate p \<or> operation = ''delete'' \<and> om_canDelete p"

text \<open>Permitted, or the reason and the error code of the denial.\<close>

definition permission_check :: "static_tool \<Rightarrow> legacy_run \<Rightarrow> json \<Rightarrow> (string \<times> string) option result" where
  "permission_check tool l inp =
     (let operation = sx_operation tool; name = resolved_object tool inp in
      if truthy operation \<and> truthy_json name
      then (case find_permission l (nullish name JNull) of
              Inl e \<Rightarrow> Inl e
            | Inr None \<Rightarrow> Inr (Some (''No permission for object '' @ js_String (nullish name JNull),
                                     ''OBJECT_PERMISSION_MISSING''))
            | Inr (Some p) \<Rightarrow>
                if has_access (nullish operation []) p then Inr None
                else Inr (Some (''No '' @ nullish operation [] @ '' permission on ''
                                @ js_String (nullish name JNull), ''OBJECT_OPERATION_DENIED'')))
      else Inr None)"

section \<open>Executing a tool\<close>

definition approval_patch :: "tool_call_record \<Rightarrow> tool_call_record" where
  "approval_patch r =
     (verdict_patch (Some ''passed'') (Some ''escalated'') (Some ''TOOL_APPROVAL_REQUIRED'') r)
       \<lparr>tc_leaseExpiresAt := None, tc_lastHeartbeatAt := None\<rparr>"

definition pending_result :: call_result where
  "pending_result =
     (failResult ''L3 operation requires approval'' ''passed'' ''escalated'' 0)\<lparr>ur_status := Some ''requires_approval''\<rparr>"

text \<open>\<open>...approval\<close>: the members of the created subject.\<close>

definition with_subject :: "subject_created \<Rightarrow> call_result \<Rightarrow> call_result" where
  "with_subject sc r =
     r\<lparr>ur_toolCallId := Some (sc_toolCallId sc), ur_inputDigest := Some (sc_inputDigest sc),
       ur_riskLevel := Some (sc_riskLevel sc), ur_subject := Some sc,
       ur_releaseSetId := (case sc_binding sc of ReleaseTool s c \<Rightarrow> Some s | _ \<Rightarrow> None),
       ur_publishedChecksum := (case sc_binding sc of ReleaseTool s c \<Rightarrow> Some c | _ \<Rightarrow> None)\<rparr>"

definition needs_static_subject :: "static_tool \<Rightarrow> string \<Rightarrow> tool_context \<Rightarrow> json \<Rightarrow> bool" where
  "needs_static_subject tool toolName x inp \<longleftrightarrow>
     (toolName = ''slack.message.send'' \<or> toolName = ''teams.message.send'')
     \<and> sx_riskLevel tool = ''L3'' \<and> \<not> granted x toolName \<and> allowed_in x toolName
     \<and> \<not> truthy (sx_objectApiName tool) \<and> \<not> truthy (sx_operation tool) \<and> has_required tool inp"

definition submit_static ::
    "registry_deps \<Rightarrow> string \<Rightarrow> static_tool \<Rightarrow> tool_context \<Rightarrow> legacy_run \<Rightarrow> json \<Rightarrow> call_result reg" where
  "submit_static dp toolName tool x l inp =
     (case (sx_prepareApproval tool, gy_approvalSubjects dp) of
        (Some prepare, Some port) \<Rightarrow>
          seqE (throw_if (\<not> gy_toolCalls dp) ''TOOL_CALL_LIFECYCLE_SERVICE_UNAVAILABLE'')
         (bindE (on_store fresh_id) (\<lambda>toolCallId.
          bindE (lift_result (deriveInputDigest (gy_library dp) (Json inp))) (\<lambda>inputDigest.
          bindE (on_store (prepare inp x \<lparr>hs_toolCallId = toolCallId, hs_inputDigest = Some inputDigest\<rparr>)) (\<lambda>preparation.
          bindE (on_store (sj_submitStaticToolSubject port toolName inp x preparation)) (\<lambda>approval.
          seqE (logGovernanceEvent x l tool toolName inp
                  \<lparr>ev_category = ''approval_degradation'', ev_riskLevel = sx_riskLevel tool,
                   ev_actionTaken = ''approve'', ev_reason = ''L3 operation requires durable approval'',
                   ev_approvalStatus = Some ''pending'', ev_operation = None, ev_objectApiName = None\<rparr>)
          (ret (with_subject approval (pending_result\<lparr>ur_toolName := Some toolName\<rparr>))))))))
      | _ \<Rightarrow> ret (failResult ''TOOL_APPROVAL_SUBJECT_OWNER_UNAVAILABLE'' ''passed'' ''blocked'' 0))"

definition begin_static ::
    "registry_deps \<Rightarrow> string \<Rightarrow> static_tool \<Rightarrow> tool_context \<Rightarrow> json \<Rightarrow> (tool_call_record \<times> bool) reg" where
  "begin_static dp toolName tool x inp =
     bindE (on_store (begin_call (gy_library dp)
       \<lparr>bi_id = None, bi_toolName = toolName, bi_toolCategory = sx_category tool, bi_input = Json inp,
        bi_context = call_context_of x, bi_resolvedTool = None\<rparr>)) (\<lambda>call. ret (call, False))"

definition open_static ::
    "registry_deps \<Rightarrow> string \<Rightarrow> static_tool \<Rightarrow> tool_context \<Rightarrow> legacy_run \<Rightarrow> json \<Rightarrow> (tool_call_record \<times> bool) reg" where
  "open_static dp toolName tool x l inp =
     (case tx_grant x of
        Some g \<Rightarrow>
          if ag_toolName g = toolName \<and> truthy (ag_toolCallId g)
          then bindE (on_store (resumeApprovedStatic (gy_library dp)
                 \<lparr>sr_toolName = toolName, sr_input = Json inp,
                  sr_workspaceId = lc_workspaceId (lr_call l), sr_grant = g\<rparr>)) (\<lambda>call. ret (call, True))
          else begin_static dp toolName tool x inp
      | None \<Rightarrow> begin_static dp toolName tool x inp)"

definition denial :: "string \<Rightarrow> string \<Rightarrow> string option \<Rightarrow> json option \<Rightarrow> event_case" where
  "denial riskLevel reason operation objectApiName =
     \<lparr>ev_category = ''runtime_permission_denied'', ev_riskLevel = riskLevel, ev_actionTaken = ''block'',
      ev_reason = reason, ev_approvalStatus = None, ev_operation = operation, ev_objectApiName = objectApiName\<rparr>"

definition denied_patch :: "string \<Rightarrow> tool_call_record \<Rightarrow> tool_call_record" where
  "denied_patch errorCode = verdict_patch (Some ''denied'') (Some ''blocked'') (Some errorCode)"

definition blocked_patch :: "string \<Rightarrow> tool_call_record \<Rightarrow> tool_call_record" where
  "blocked_patch errorCode = verdict_patch (Some ''passed'') (Some ''blocked'') (Some errorCode)"

definition failed_input :: "int \<Rightarrow> string \<Rightarrow> finalize_input" where
  "failed_input durationMs errorCode =
     \<lparr>fi_status = FinalFailed, fi_output = None, fi_permissionCheck = ''passed'', fi_permissionDetail = None,
      fi_guardrailCheck = ''passed'', fi_durationMs = durationMs, fi_errorCode = Some errorCode\<rparr>"

definition result_input :: "call_result \<Rightarrow> string option \<Rightarrow> int \<Rightarrow> string \<Rightarrow> finalize_input" where
  "result_input result permissionDetail durationMs errorCode =
     \<lparr>fi_status = (if ur_success result then FinalSucceeded else FinalFailed), fi_output = ur_output result,
      fi_permissionCheck = ur_permissionCheck result, fi_permissionDetail = permissionDetail,
      fi_guardrailCheck = ur_guardrailCheck result, fi_durationMs = durationMs,
      fi_errorCode = (if ur_success result then None else Some errorCode)\<rparr>"

text \<open>The running mark, which a call that is running already keeps.\<close>

definition start_running :: "tool_call_record \<Rightarrow> int \<Rightarrow> bool \<Rightarrow> unit act" where
  "start_running call leaseMs approvedResume =
     (if tc_status call \<noteq> Some RUNNING
      then markRunning (tc_id call) leaseMs (Some (if approvedResume then [REQUIRES_APPROVAL] else [STARTED]))
      else ret ())"

definition execute_body ::
    "registry_deps \<Rightarrow> string \<Rightarrow> static_tool \<Rightarrow> tool_context \<Rightarrow> json \<Rightarrow> tool_call_record \<Rightarrow> bool \<Rightarrow> call_result reg" where
  "execute_body dp toolName tool x inp call approvedResume =
     bindE (on_store now) (\<lambda>startTime.
     seqE (on_store (start_running call (tx_timeoutMs x) approvedResume))
       (catchE
         (seqE (note_run toolName inp)
         (bindE (on_store (sx_execute tool inp x
                  \<lparr>hs_toolCallId = tc_id call, hs_inputDigest = tc_inputDigest call\<rparr>)) (\<lambda>result.
          bindE (on_store now) (\<lambda>t.
          seqE (on_store (finalize (gy_library dp) (tc_id call)
                 (result_input result (ur_permissionDetail result) (t - startTime) ''TOOL_EXECUTION_FAILED'') None))
            (ret (result\<lparr>ur_duration := t - startTime, ur_toolCallId := Some (tc_id call)\<rparr>))))))
         (\<lambda>message.
          bindE (on_store now) (\<lambda>t.
          seqE (on_store (finalize (gy_library dp) (tc_id call) (failed_input (t - startTime) ''TOOL_EXECUTION_THROWN'') None))
            (ret (failed_call call message ''passed'' ''passed'' (t - startTime)))))))"

definition risk_gate ::
    "registry_deps \<Rightarrow> string \<Rightarrow> static_tool \<Rightarrow> tool_context \<Rightarrow> legacy_run \<Rightarrow> json \<Rightarrow> tool_call_record \<Rightarrow> bool \<Rightarrow>
     call_result reg" where
  "risk_gate dp toolName tool x l inp call approvedResume =
     (let log = logGovernanceEvent x l tool toolName inp;
          object = resolved_object tool inp;
          event = \<lparr>ev_category = ''approval_degradation'', ev_riskLevel = sx_riskLevel tool,
                   ev_actionTaken = ''approve'', ev_reason = ''L3 operation requires approval'',
                   ev_approvalStatus = Some ''pending'', ev_operation = sx_operation tool, ev_objectApiName = object\<rparr>
      in
      if at_least 4 (sx_riskLevel tool) then
        seqE (log (event\<lparr>ev_category := ''guardrail_blocked'', ev_actionTaken := ''block'',
                ev_reason := ''L4 operation blocked - requires human'', ev_approvalStatus := None\<rparr>))
       (seqE (on_store (transition_call (tc_id call) [STARTED] BLOCKED (blocked_patch ''TOOL_RISK_L4_BLOCKED'')))
        (ret (failed_call call ''L4 operation blocked - requires human'' ''passed'' ''blocked'' 0)))
      else if at_least 3 (sx_riskLevel tool) \<and> granted x toolName then
        seqE (log (event\<lparr>ev_actionTaken := ''allow'', ev_approvalStatus := None,
                ev_reason := ''approved via '' @ (case tx_grant x of Some g \<Rightarrow> ag_approvalInstanceId g | None \<Rightarrow> [])\<rparr>))
          (execute_body dp toolName tool x inp call approvedResume)
      else if at_least 3 (sx_riskLevel tool) then
        bindE (case sx_prepareApproval tool of
                 None \<Rightarrow> ret None
               | Some prepare \<Rightarrow>
                   bindE (on_store (prepare inp x \<lparr>hs_toolCallId = tc_id call, hs_inputDigest = tc_inputDigest call\<rparr>))
                     (\<lambda>p. ret (Some p))) (\<lambda>preparation.
        seqE (log event)
       (seqE (on_store (transition_call (tc_id call) [STARTED] REQUIRES_APPROVAL approval_patch))
        (ret (pending_result\<lparr>ur_toolCallId := Some (tc_id call), ur_toolName := Some toolName,
                ur_inputDigest := tc_inputDigest call, ur_riskLevel := Some (sx_riskLevel tool),
                ur_preparation := preparation\<rparr>))))
      else execute_body dp toolName tool x inp call approvedResume)"

definition permission_gate ::
    "registry_deps \<Rightarrow> string \<Rightarrow> static_tool \<Rightarrow> tool_context \<Rightarrow> legacy_run \<Rightarrow> json \<Rightarrow> tool_call_record \<Rightarrow> bool \<Rightarrow>
     call_result reg" where
  "permission_gate dp toolName tool x l inp call approvedResume =
     bindE (lift_result (permission_check tool l inp)) (\<lambda>verdict.
     case verdict of
       Some (reason, errorCode) \<Rightarrow>
         seqE (logGovernanceEvent x l tool toolName inp
                 (denial ''L4'' reason (sx_operation tool) (resolved_object tool inp)))
        (seqE (on_store (transition_call (tc_id call) [STARTED] DENIED (denied_patch errorCode)))
         (ret (failed_call call reason ''denied'' ''blocked'' 0)))
     | None \<Rightarrow> risk_gate dp toolName tool x l inp call approvedResume)"

definition static_pipeline ::
    "registry_deps \<Rightarrow> string \<Rightarrow> static_tool \<Rightarrow> tool_context \<Rightarrow> legacy_run \<Rightarrow> json \<Rightarrow> tool_call_record \<Rightarrow> bool \<Rightarrow>
     call_result reg" where
  "static_pipeline dp toolName tool x l inp call approvedResume =
     (if \<not> allowed_in x toolName then
        seqE (logGovernanceEvent x l tool toolName inp (denial ''L4'' ''Tool not allowed'' None None))
       (seqE (on_store (transition_call (tc_id call) (openCallStatuses call) DENIED (denied_patch ''TOOL_NOT_ALLOWED'')))
        (ret (failed_call call ''Tool not allowed'' ''denied'' ''blocked'' 0)))
      else
        bindE (lift_result (schema_check dp tool inp)) (\<lambda>invalid.
        case invalid of
          Some message \<Rightarrow>
            seqE (on_store (finalize (gy_library dp) (tc_id call) (failed_input 0 ''TOOL_INPUT_SCHEMA_INVALID'') None))
              (ret (failed_call call message ''passed'' ''passed'' 0))
        | None \<Rightarrow> permission_gate dp toolName tool x l inp call approvedResume))"

definition execute_static ::
    "registry_deps \<Rightarrow> string \<Rightarrow> static_tool \<Rightarrow> tool_context \<Rightarrow> legacy_run \<Rightarrow> json \<Rightarrow> call_result reg" where
  "execute_static dp toolName tool x l inp =
     (if needs_static_subject tool toolName x inp then submit_static dp toolName tool x l inp
      else
        seqE (throw_if (\<not> gy_toolCalls dp) ''TOOL_CALL_LIFECYCLE_SERVICE_UNAVAILABLE'')
       (bindE (open_static dp toolName tool x l inp) (\<lambda>(call, approvedResume).
        static_pipeline dp toolName tool x l inp call approvedResume)))"

subsection \<open>Contextual tools\<close>

definition CODE_ACTION_MAX_EXECUTION_MS :: int where "CODE_ACTION_MAX_EXECUTION_MS = 60000"
definition VERIFIED_ISOLATE_STARTUP_GRACE_MS :: int where "VERIFIED_ISOLATE_STARTUP_GRACE_MS = 60000"
definition CODE_ACTION_COMPLETION_SETTLEMENT_GRACE_MS :: int where
  "CODE_ACTION_COMPLETION_SETTLEMENT_GRACE_MS = 30000"

definition deriveCodeActionExecutionBudgetMs :: "contextual_tool \<Rightarrow> int \<Rightarrow> int" where
  "deriveCodeActionExecutionBudgetMs tool requestedTimeoutMs =
     max 1 (min requestedTimeoutMs (min (kt_limitsTimeoutMs tool) CODE_ACTION_MAX_EXECUTION_MS))"

definition deriveCodeActionLifecycleLeaseMs :: "contextual_tool \<Rightarrow> int \<Rightarrow> int" where
  "deriveCodeActionLifecycleLeaseMs tool requestedTimeoutMs =
     VERIFIED_ISOLATE_STARTUP_GRACE_MS + deriveCodeActionExecutionBudgetMs tool requestedTimeoutMs
     + CODE_ACTION_COMPLETION_SETTLEMENT_GRACE_MS"

text \<open>\<open>supportsContextualExecution\<close> of the provider of serverless actions.\<close>

definition contextual_executor ::
    "product_registry \<Rightarrow> (contextual_tool \<Rightarrow> json \<Rightarrow> tool_context \<Rightarrow> string \<Rightarrow> (call_result \<times> bool) act) option" where
  "contextual_executor pg = Option.bind (map_of (px_providers pg) ''serverless-action'') pv_executeResolvedTool"

definition run_contextual ::
    "registry_deps \<Rightarrow> contextual_tool \<Rightarrow> (contextual_tool \<Rightarrow> json \<Rightarrow> tool_context \<Rightarrow> string \<Rightarrow> (call_result \<times> bool) act) \<Rightarrow>
     json \<Rightarrow> tool_context \<Rightarrow> tool_call_record \<Rightarrow> bool \<Rightarrow> call_result reg" where
  "run_contextual dp tool executor inp x call approvedResume =
     bindE (on_store now) (\<lambda>startedAt.
     seqE (on_store (start_running call (deriveCodeActionLifecycleLeaseMs tool (tx_timeoutMs x)) approvedResume))
       (catchE
         (seqE (note_run (kt_toolName tool) inp)
         (bindE (on_store (executor tool inp x (tc_id call))) (\<lambda>(result, coordinated).
          bindE (on_store now) (\<lambda>t.
          seqE (if coordinated then ret ()
                else on_store (finalize (gy_library dp) (tc_id call)
                  (result_input result None (t - startedAt) ''CODE_ACTION_EXECUTION_FAILED'')
                  (Some (rt_exportDescriptor (kt_resolved tool)))))
            (ret (result\<lparr>ur_duration := t - startedAt, ur_toolCallId := Some (tc_id call)\<rparr>))))))
         (\<lambda>message.
          bindE (on_store now) (\<lambda>t.
          seqE (on_store (finalize (gy_library dp) (tc_id call) (failed_input (t - startedAt) ''CODE_ACTION_EXECUTION_THROWN'')
                  (Some (rt_exportDescriptor (kt_resolved tool)))))
            (ret (failed_call call message ''passed'' ''passed'' (t - startedAt)))))))"

definition executeContextualTool ::
    "registry_deps \<Rightarrow> product_registry \<Rightarrow> contextual_tool \<Rightarrow> json \<Rightarrow> tool_context \<Rightarrow> tool_call_record \<Rightarrow> bool \<Rightarrow>
     call_result reg" where
  "executeContextualTool dp pg tool inp x call approvedResume =
     (let riskLevel = kt_declaredRiskLevel tool in
      if at_least 4 riskLevel then
        seqE (on_store (transition_call (tc_id call) (openCallStatuses call) BLOCKED (blocked_patch ''TOOL_RISK_L4_BLOCKED'')))
          (ret (failed_call call ''L4 operation blocked - requires human'' ''passed'' ''blocked'' 0))
      else if at_least 3 riskLevel \<and> \<not> approvedResume then
        seqE (on_store (transition_call (tc_id call) (openCallStatuses call) REQUIRES_APPROVAL approval_patch))
          (ret (pending_result\<lparr>ur_toolCallId := Some (tc_id call), ur_toolName := Some (kt_toolName tool),
             ur_inputDigest := tc_inputDigest call, ur_releaseSetId := Some (kt_releaseSetId tool),
             ur_publishedChecksum := rt_publishedChecksum (kt_resolved tool), ur_riskLevel := Some riskLevel\<rparr>))
      else
        (case contextual_executor pg of
           None \<Rightarrow>
             seqE (on_store (transition_call (tc_id call) (openCallStatuses call) BLOCKED
                     (blocked_patch ''CODE_RUNTIME_ISOLATION_UNVERIFIED'')))
               (ret (failed_call call ''CODE_RUNTIME_ISOLATION_UNVERIFIED'' ''passed'' ''blocked'' 0))
         | Some executor \<Rightarrow> run_contextual dp tool executor inp x call approvedResume))"

definition begin_contextual ::
    "registry_deps \<Rightarrow> string \<Rightarrow> contextual_tool \<Rightarrow> tool_context \<Rightarrow> json \<Rightarrow> (tool_call_record \<times> bool) reg" where
  "begin_contextual dp toolName tool x inp =
     bindE (on_store (begin_call (gy_library dp)
       \<lparr>bi_id = None, bi_toolName = toolName, bi_toolCategory = ''internal'', bi_input = Json inp,
        bi_context = call_context_of x, bi_resolvedTool = Some (kt_resolved tool)\<rparr>)) (\<lambda>call. ret (call, False))"

definition open_contextual ::
    "registry_deps \<Rightarrow> string \<Rightarrow> contextual_tool \<Rightarrow> tool_context \<Rightarrow> governed_context \<Rightarrow> json \<Rightarrow>
     (tool_call_record \<times> bool) reg" where
  "open_contextual dp toolName tool x g inp =
     (case tx_grant x of
        Some grant \<Rightarrow>
          if ag_toolName grant = toolName
          then bindE (on_store (resumeApproved (gy_library dp)
                 \<lparr>ri_toolName = toolName, ri_input = Json inp, ri_context = g,
                  ri_resolvedTool = kt_resolved tool, ri_grant = grant\<rparr>)) (\<lambda>call. ret (call, True))
          else begin_contextual dp toolName tool x inp
      | None \<Rightarrow> begin_contextual dp toolName tool x inp)"

definition execute_contextual ::
    "registry_deps \<Rightarrow> product_registry \<Rightarrow> string \<Rightarrow> contextual_tool \<Rightarrow> tool_context \<Rightarrow> governed_context \<Rightarrow> json \<Rightarrow> bool \<Rightarrow>
     call_result reg" where
  "execute_contextual dp pg toolName tool x g inp durable =
     (if (kt_declaredRiskLevel tool = ''L3'' \<or> durable) \<and> \<not> granted x toolName \<and> allowed_in x toolName then
        (case gy_approvalSubjects dp of
           None \<Rightarrow> ret (failResult ''TOOL_APPROVAL_SUBJECT_OWNER_UNAVAILABLE'' ''passed'' ''blocked'' 0)
         | Some port \<Rightarrow>
             bindE (on_store (sj_submitToolSubject port toolName inp tool x)) (\<lambda>approval.
             ret (with_subject approval pending_result)))
      else
        seqE (throw_if (\<not> gy_toolCalls dp) ''TOOL_CALL_LIFECYCLE_SERVICE_UNAVAILABLE'')
       (bindE (open_contextual dp toolName tool x g inp) (\<lambda>(call, approvedResume).
        if \<not> allowed_in x toolName then
          seqE (on_store (transition_call (tc_id call) (openCallStatuses call) DENIED (denied_patch ''TOOL_NOT_ALLOWED'')))
            (ret (failed_call call ''Tool not allowed'' ''denied'' ''blocked'' 0))
        else executeContextualTool dp pg tool inp x call approvedResume)))"

definition declared_risk :: "product_tool \<Rightarrow> string" where
  "declared_risk t = (case t of Static s \<Rightarrow> [] | Contextual k \<Rightarrow> kt_declaredRiskLevel k)"

definition executeTool ::
    "registry_deps \<Rightarrow> product_registry \<Rightarrow> string \<Rightarrow> json \<Rightarrow> tool_context \<Rightarrow> bool \<Rightarrow> call_result reg" where
  "executeTool dp pg toolName inp x requireDurableL3Approval =
     bindE (resolveTool pg toolName x) (\<lambda>found.
     case found of
       None \<Rightarrow> ret (failResult (''Tool not found: '' @ toolName) ''denied'' ''blocked'' 0)
     | Some resolved \<Rightarrow>
         if requireDurableL3Approval
            \<and> (isStaticTool resolved \<or> \<not> isGovernedContext x \<or> declared_risk resolved \<noteq> ''L3'')
         then ret (failResult ''GOVERNED_SENSITIVE_APPROVAL_DESCRIPTOR_MISMATCH'' ''denied'' ''blocked'' 0)
         else if \<not> isStaticTool resolved \<and> \<not> isGovernedContext x
         then ret (failResult ''Contextual tool requires a governed execution snapshot'' ''denied'' ''blocked'' 0)
         else if isStaticTool resolved \<and> \<not> isLegacyExecutionContext x
         then ret (failResult ''Static tool requires the persisted runtime security context'' ''denied'' ''blocked'' 0)
         else
           (case (resolved, tx_scope x) of
              (Static tool, LegacyRun l) \<Rightarrow>
                execute_static dp toolName tool x l (canonicalizeAuthorizedObjectApiName inp l)
            | (Contextual tool, GovernedRun g) \<Rightarrow>
                execute_contextual dp pg toolName tool x g inp requireDurableL3Approval
            | _ \<Rightarrow> throw ''TOOL_CONTEXT_INVARIANT_VIOLATION''))"

section \<open>Which bodies run\<close>

text \<open>The canonical name is computed and dropped.\<close>

lemma canonicalize_same: "canonicalizeAuthorizedObjectApiName inp l = inp"
  by (auto simp: canonicalizeAuthorizedObjectApiName_def Let_def split: json.split option.split)

text \<open>
  A computation that starts at most one body, one that satisfies \<open>Q\<close>. Everything but \<open>note_run\<close> keeps the
  log of bodies, whatever the bodies, providers and ports do to the database.
\<close>

definition runs_at_most :: "(string \<times> json \<Rightarrow> bool) \<Rightarrow> 'a reg \<Rightarrow> bool" where
  "runs_at_most Q m \<longleftrightarrow> (\<forall>w r w'. m w = (r, w') \<longrightarrow>
     gw_runs w' = gw_runs w \<or> (\<exists>e. Q e \<and> gw_runs w' = gw_runs w @ [e]))"

lemma runs_atI:
  "(\<And>w r w'. m w = (r, w') \<Longrightarrow> gw_runs w' = gw_runs w \<or> (\<exists>e. Q e \<and> gw_runs w' = gw_runs w @ [e]))
    \<Longrightarrow> runs_at_most Q m"
  unfolding runs_at_most_def by blast

lemma runs_atD:
  "runs_at_most Q m \<Longrightarrow> m w = (r, w') \<Longrightarrow> gw_runs w' = gw_runs w \<or> (\<exists>e. Q e \<and> gw_runs w' = gw_runs w @ [e])"
  unfolding runs_at_most_def by blast

lemma keeps_on_store [simp]: "keeps gw_runs (on_store m)"
  by (rule keepsI) (auto simp: on_store_def split: prod.splits)

lemma keeps_logGovernanceEvent [simp]: "keeps gw_runs (logGovernanceEvent x l t n inp e)"
  unfolding logGovernanceEvent_def by (rule keeps_modify) simp

lemma keeps_prim [simp]:
  "keeps gw_runs (ret a)" "keeps gw_runs (throw e)" "keeps gw_runs (throw_if c e)" "keeps gw_runs (lift_result s)"
  by (rule keeps_rules)+

lemma none_run: "keeps gw_runs m \<Longrightarrow> runs_at_most Q m"
  by (rule runs_atI) (rule disjI1, rule keepsD)

lemma runs_bindE:
  assumes "keeps gw_runs m" and "\<And>a w w'. m w = (Inr a, w') \<Longrightarrow> runs_at_most Q (f a)"
  shows "runs_at_most Q (bindE m f)"
proof (rule runs_atI)
  fix w r w' assume run: "bindE m f w = (r, w')"
  obtain s v where mv: "m w = (s, v)" by (cases "m w")
  have same: "gw_runs v = gw_runs w" using assms(1) mv by (rule keepsD)
  show "gw_runs w' = gw_runs w \<or> (\<exists>e. Q e \<and> gw_runs w' = gw_runs w @ [e])"
  proof (cases s)
    case (Inl e)
    with run mv same show ?thesis by (simp add: bindE_apply)
  next
    case (Inr a)
    with run mv have "f a v = (r, w')" by (simp add: bindE_apply)
    moreover have "runs_at_most Q (f a)" using assms(2) mv Inr by blast
    ultimately show ?thesis using same runs_atD by fastforce
  qed
qed

lemma runs_seqE: "keeps gw_runs m \<Longrightarrow> runs_at_most Q n \<Longrightarrow> runs_at_most Q (seqE m n)"
  unfolding seqE_def by (rule runs_bindE)

text \<open>The body of a call: noted, then run, then its handler.\<close>

lemma runs_noted:
  assumes "Q (n, inp)" "keeps gw_runs m" "\<And>e. keeps gw_runs (h e)"
  shows "runs_at_most Q (catchE (seqE (note_run n inp) m) h)"
proof (rule runs_atI)
  fix w r w' assume run: "catchE (seqE (note_run n inp) m) h w = (r, w')"
  define u where "u = w\<lparr>gw_runs := gw_runs w @ [(n, inp)]\<rparr>"
  obtain s v where mv: "m u = (s, v)" by (cases "m u")
  have "gw_runs v = gw_runs u" using assms(2) mv by (rule keepsD)
  then have "gw_runs v = gw_runs w @ [(n, inp)]" by (simp add: u_def)
  moreover have "gw_runs w' = gw_runs v"
  proof (cases s)
    case (Inl e)
    then have "h e v = (r, w')" using run mv by (simp add: eff_simps note_run_def flip: u_def)
    with assms(3) show ?thesis by (rule keepsD)
  next
    case (Inr a)
    then show ?thesis using run mv by (simp add: eff_simps note_run_def flip: u_def)
  qed
  ultimately show "gw_runs w' = gw_runs w \<or> (\<exists>e. Q e \<and> gw_runs w' = gw_runs w @ [e])"
    using assms(1) by auto
qed

lemma runs_execute_body: "Q (n, inp) \<Longrightarrow> runs_at_most Q (execute_body dp n tool x inp call b)"
  unfolding execute_body_def
  by (intro runs_bindE runs_seqE runs_noted) (assumption | intro keeps_rules keeps_on_store)+

lemma runs_run_contextual: "Q (kt_toolName k, inp) \<Longrightarrow> runs_at_most Q (run_contextual dp k executor inp x call b)"
  unfolding run_contextual_def
  by (intro runs_bindE runs_seqE runs_noted) (assumption | intro keeps_rules keeps_case_prod keeps_on_store)+

definition static_cleared :: "registry_deps \<Rightarrow> static_tool \<Rightarrow> tool_context \<Rightarrow> legacy_run \<Rightarrow> string \<Rightarrow> json \<Rightarrow> bool" where
  "static_cleared dp tool x l name inp \<longleftrightarrow> allowed_in x name
     \<and> schema_check dp tool inp = Inr None \<and> permission_check tool l inp = Inr None
     \<and> \<not> at_least 4 (sx_riskLevel tool) \<and> (at_least 3 (sx_riskLevel tool) \<longrightarrow> granted x name)"

lemma runs_risk_gate:
  assumes "static_cleared dp tool x l name inp \<Longrightarrow> Q (name, inp)"
    "allowed_in x name" "schema_check dp tool inp = Inr None" "permission_check tool l inp = Inr None"
  shows "runs_at_most Q (risk_gate dp name tool x l inp call b)"
proof (cases "at_least 4 (sx_riskLevel tool)")
  case True
  then show ?thesis unfolding risk_gate_def Let_def by (simp only: if_True) (intro none_run keeps_rules keeps_on_store keeps_logGovernanceEvent)
next
  case False
  show ?thesis
  proof (cases "at_least 3 (sx_riskLevel tool) \<and> \<not> granted x name")
    case True
    then show ?thesis
      using False unfolding risk_gate_def Let_def by (simp only: if_False if_True simp_thms) (intro none_run keeps_rules keeps_on_store keeps_logGovernanceEvent)
  next
    case passes: False
    then have "Q (name, inp)" using assms False unfolding static_cleared_def by blast
    then have "runs_at_most Q (execute_body dp name tool x inp call b)" by (rule runs_execute_body)
    then show ?thesis
      using False passes unfolding risk_gate_def Let_def
      by (cases "at_least 3 (sx_riskLevel tool)") (simp_all add: runs_seqE)
  qed
qed

lemma runs_static_pipeline:
  assumes "static_cleared dp tool x l name inp \<Longrightarrow> Q (name, inp)"
  shows "runs_at_most Q (static_pipeline dp name tool x l inp call b)"
proof (cases "allowed_in x name")
  case True
  have gate: "runs_at_most Q (permission_gate dp name tool x l inp call b)" if "schema_check dp tool inp = Inr None"
    unfolding permission_gate_def
  proof (rule runs_bindE)
    fix v w w' assume "lift_result (permission_check tool l inp) w = (Inr v, w')"
    then have v: "permission_check tool l inp = Inr v" by (simp add: lift_result_apply)
    show "runs_at_most Q (case v of
         Some (reason, errorCode) \<Rightarrow>
           seqE (logGovernanceEvent x l tool name inp (denial ''L4'' reason (sx_operation tool) (resolved_object tool inp)))
          (seqE (on_store (transition_call (tc_id call) [STARTED] DENIED (denied_patch errorCode)))
           (ret (failed_call call reason ''denied'' ''blocked'' 0)))
       | None \<Rightarrow> risk_gate dp name tool x l inp call b)"
    proof (cases v)
      case None
      then show ?thesis
        using runs_risk_gate [where Q = Q, OF assms True that] v by simp
    next
      case (Some d)
      then show ?thesis
        by (simp only: option.case case_prod_beta) (intro none_run keeps_rules keeps_on_store keeps_logGovernanceEvent)
    qed
  qed simp
  show ?thesis
    unfolding static_pipeline_def if_not_P [OF not_not [THEN iffD2, OF True]]
  proof (rule runs_bindE)
    fix v w w' assume "lift_result (schema_check dp tool inp) w = (Inr v, w')"
    then show "runs_at_most Q (case v of
          Some message \<Rightarrow>
            seqE (on_store (finalize (gy_library dp) (tc_id call) (failed_input 0 ''TOOL_INPUT_SCHEMA_INVALID'') None))
              (ret (failed_call call message ''passed'' ''passed'' 0))
        | None \<Rightarrow> permission_gate dp name tool x l inp call b)"
    proof (cases v)
      case None
      then show ?thesis using gate \<open>lift_result _ w = _\<close> by (simp add: lift_result_apply)
    next
      case (Some d)
      then show ?thesis by (simp only: option.case) (intro none_run keeps_rules keeps_on_store)
    qed
  qed simp
next
  case False
  then show ?thesis
    unfolding static_pipeline_def
    by (simp only: not_False_eq_True if_True) (intro none_run keeps_rules keeps_on_store keeps_logGovernanceEvent)
qed

lemma keeps_submit_static [simp]: "keeps gw_runs (submit_static dp name tool x l inp)"
  unfolding submit_static_def prod.case
  by (intro keeps_rules keeps_on_store keeps_logGovernanceEvent)

lemma keeps_open_static [simp]: "keeps gw_runs (open_static dp name tool x l inp)"
  unfolding open_static_def begin_static_def by (intro keeps_rules keeps_on_store)

lemma keeps_open_contextual [simp]: "keeps gw_runs (open_contextual dp name k x g inp)"
  unfolding open_contextual_def begin_contextual_def by (intro keeps_rules keeps_on_store)

lemma runs_execute_static:
  assumes "static_cleared dp tool x l name inp \<Longrightarrow> Q (name, inp)"
  shows "runs_at_most Q (execute_static dp name tool x l inp)"
proof (cases "needs_static_subject tool name x inp")
  case True
  then show ?thesis unfolding execute_static_def by (simp add: none_run)
next
  case False
  have "runs_at_most Q (case c of (call, b) \<Rightarrow> static_pipeline dp name tool x l inp call b)" for c
    using runs_static_pipeline [where Q = Q, OF assms] by (cases c) simp
  then show ?thesis using False unfolding execute_static_def by (simp add: runs_seqE runs_bindE)
qed


lemma resolve_matches_from:
  "resolve_matches name x ps w = (Inr ks, w') \<Longrightarrow> k \<in> set ks \<Longrightarrow>
     \<exists>p v v'. p \<in> snd ` set ps \<and> pv_resolveTool p name x v = (Inr (Some k), v')"
proof (induction name x ps arbitrary: w ks w' rule: resolve_matches.induct)
  case (2 name x key p ps)
  obtain found v rest v' where
    steps: "on_store (pv_resolveTool p name x) w = (Inr found, v)" "resolve_matches name x ps v = (Inr rest, v')"
    and ks: "ks = (case found of None \<Rightarrow> rest | Some k \<Rightarrow> k # rest)"
    using 2(2) unfolding resolve_matches.simps by (elim bindE_elim) (auto simp: ret_apply)
  show ?case
  proof (cases "found = Some k")
    case True
    then have "pv_resolveTool p name x (gw_store w) = (Inr (Some k), gw_store v)"
      using steps(1) by (auto simp: on_store_def split: prod.splits)
    then show ?thesis by fastforce
  next
    case False
    then have "k \<in> set rest" using 2(3) ks by (auto split: option.splits)
    then show ?thesis using 2(1) [OF steps(2)] by auto
  qed
qed (simp add: ret_apply)

lemma keeps_resolve_matches: "keeps gw_runs (resolve_matches name x ps)"
  by (induction name x ps rule: resolve_matches.induct)
    (simp_all only: resolve_matches.simps, (intro keeps_rules keeps_on_store | assumption)+)

lemma keeps_resolveTool: "keeps gw_runs (resolveTool pg name x)"
  unfolding resolveTool_def Let_def by (intro keeps_rules keeps_resolve_matches)

text \<open>What a resolution found is the static tool of the name, or what one provider resolved.\<close>

lemma resolveTool_from:
  assumes "resolveTool pg name x w = (Inr (Some t), w')"
  shows "case t of
      Static s \<Rightarrow> getTool pg name = Some s
    | Contextual k \<Rightarrow> getTool pg name = None
        \<and> (\<exists>p v v'. p \<in> snd ` set (px_providers pg) \<and> pv_resolveTool p name x v = (Inr (Some k), v'))"
proof (cases "isGovernedContext x")
  case False
  then have "Some t = map_option Static (getTool pg name)"
    using assms unfolding resolveTool_def Let_def by (simp only: if_True not_False_eq_True) (simp only: ret_apply prod.inject sum.inject)
  then show ?thesis by (cases "getTool pg name") auto
next
  case True
  then obtain ks v where ks: "resolve_matches name x (px_providers pg) w = (Inr ks, v)"
    and t: "Some t = (case getTool pg name of Some s \<Rightarrow> Some (Static s)
              | None \<Rightarrow> (case ks of [] \<Rightarrow> None | k # _ \<Rightarrow> Some (Contextual k)))"
    using assms unfolding resolveTool_def Let_def
    by (simp only: if_False not_True_eq_False) (elim bindE_elim seqE_elim, auto simp: ret_apply)
  show ?thesis
  proof (cases "getTool pg name")
    case None
    then obtain k ks' where "ks = k # ks'" "t = Contextual k" using t by (auto split: list.splits)
    then show ?thesis using resolve_matches_from [OF ks, of k] None by simp
  next
    case (Some s)
    then show ?thesis using t by simp
  qed
qed

text \<open>A contextual call that was opened as approved holds the grant of the release it runs in.\<close>

definition grant_binds :: "approval_grant \<Rightarrow> string \<Rightarrow> contextual_tool \<Rightarrow> governed_context \<Rightarrow> bool" where
  "grant_binds g name k ctx \<longleftrightarrow> ag_toolName g = name \<and> ag_approvalInstanceId g \<noteq> [] \<and> truthy (ag_toolCallId g)
     \<and> truthy (ag_inputDigest g) \<and> ag_releaseSetId g = Some (gc_releaseSetId ctx)
     \<and> ag_publishedChecksum g = rt_publishedChecksum (kt_resolved k)"

definition contextual_cleared ::
    "product_registry \<Rightarrow> contextual_tool \<Rightarrow> tool_context \<Rightarrow> governed_context \<Rightarrow> string \<Rightarrow> bool" where
  "contextual_cleared pg k x ctx name \<longleftrightarrow> allowed_in x name \<and> \<not> at_least 4 (kt_declaredRiskLevel k)
     \<and> contextual_executor pg \<noteq> None
     \<and> (at_least 3 (kt_declaredRiskLevel k) \<longrightarrow> (\<exists>g. tx_grant x = Some g \<and> grant_binds g name k ctx))"

lemma open_contextual_approved:
  assumes "open_contextual dp name k x ctx inp w = (Inr (call, True), w')"
  shows "\<exists>g. tx_grant x = Some g \<and> grant_binds g name k ctx"
proof (cases "tx_grant x")
  case None
  then show ?thesis
    using assms unfolding open_contextual_def begin_contextual_def None option.case
    by (elim bindE_elim) (simp add: ret_apply)
next
  case (Some g)
  show ?thesis
  proof (cases "ag_toolName g = name")
    case False
    then show ?thesis
      using assms unfolding open_contextual_def begin_contextual_def Some option.case
      by (simp only: if_False) (elim bindE_elim, simp add: ret_apply)
  next
    case True
    then obtain c v where "on_store (resumeApproved (gy_library dp)
        \<lparr>ri_toolName = name, ri_input = Json inp, ri_context = ctx, ri_resolvedTool = kt_resolved k, ri_grant = g\<rparr>) w
        = (Inr c, v)"
      using assms unfolding open_contextual_def Some option.case if_P [OF True]
      by (elim bindE_elim) (simp add: ret_apply)
    then obtain u where "resumeApproved (gy_library dp)
        \<lparr>ri_toolName = name, ri_input = Json inp, ri_context = ctx, ri_resolvedTool = kt_resolved k, ri_grant = g\<rparr>
        (gw_store w) = (Inr c, u)"
      by (auto simp: on_store_def split: prod.splits)
    then have "grant_binds g name k ctx"
      unfolding resumeApproved_def Let_def grant_binds_def
      by (elim seqE_elim bindE_elim) (auto simp: throw_if_apply split: if_splits)
    then show ?thesis using Some by blast
  qed
qed

lemma runs_execute_contextual:
  assumes "contextual_cleared pg k x ctx name \<Longrightarrow> Q (kt_toolName k, inp)"
  shows "runs_at_most Q (execute_contextual dp pg name k x ctx inp durable)"
proof -
  have call: "runs_at_most Q (executeContextualTool dp pg k inp x c b)"
    if "allowed_in x name" "b \<Longrightarrow> \<exists>g. tx_grant x = Some g \<and> grant_binds g name k ctx" for c b
  proof (cases "at_least 4 (kt_declaredRiskLevel k) \<or> at_least 3 (kt_declaredRiskLevel k) \<and> \<not> b \<or> contextual_executor pg = None")
    case True
    have "keeps gw_runs (executeContextualTool dp pg k inp x c b)"
      using True unfolding executeContextualTool_def Let_def
      by (auto simp del: One_nat_def intro!: part.in_if [folded keeps_def] part.in_seqE [folded keeps_def])
    then show ?thesis by (rule none_run)
  next
    case False
    then obtain executor where "contextual_executor pg = Some executor" by blast
    moreover have "contextual_cleared pg k x ctx name" using False that unfolding contextual_cleared_def by blast
    ultimately show ?thesis
      using False runs_run_contextual [of Q k inp dp executor x c b, OF assms]
      unfolding executeContextualTool_def Let_def by auto
  qed
  show ?thesis
  proof (cases "(kt_declaredRiskLevel k = ''L3'' \<or> durable) \<and> \<not> granted x name \<and> allowed_in x name")
    case True
    have "keeps gw_runs (execute_contextual dp pg name k x ctx inp durable)"
      unfolding execute_contextual_def if_P [OF True] by (intro keeps_rules keeps_on_store)
    then show ?thesis by (rule none_run)
  next
    case False
    show ?thesis
      unfolding execute_contextual_def if_not_P [OF False]
    proof (intro runs_seqE runs_bindE keeps_open_contextual)
      fix c :: "tool_call_record \<times> bool" and w w'
      assume opened: "open_contextual dp name k x ctx inp w = (Inr c, w')"
      obtain call b where c: "c = (call, b)" by (cases c)
      have "b \<Longrightarrow> \<exists>g. tx_grant x = Some g \<and> grant_binds g name k ctx"
        using open_contextual_approved opened by (simp add: c)
      then show "runs_at_most Q (case c of (call, approvedResume) \<Rightarrow>
          if \<not> allowed_in x name then
            seqE (on_store (transition_call (tc_id call) (openCallStatuses call) DENIED (denied_patch ''TOOL_NOT_ALLOWED'')))
              (ret (failed_call call ''Tool not allowed'' ''denied'' ''blocked'' 0))
          else executeContextualTool dp pg k inp x call approvedResume)"
        using call [of b call] by (cases "allowed_in x name") (simp_all add: c none_run part.in_seqE [folded keeps_def])
    qed simp
  qed
qed


definition sample_answer :: call_result where
  "sample_answer = (failResult [] ''passed'' ''passed'' 0)\<lparr>ur_success := True, ur_error := None\<rparr>"

definition sample_static :: "string \<Rightarrow> static_tool" where
  "sample_static riskLevel =
     \<lparr>sx_name = ''t'', sx_category = ''crm'', sx_inputSchema = None, sx_objectApiName = Some ''Account'',
      sx_operation = Some ''read'', sx_riskLevel = riskLevel, sx_execute = (\<lambda>_ _ _. ret sample_answer),
      sx_prepareApproval = None\<rparr>"

definition sample_static_registry :: "string \<Rightarrow> product_registry" where
  "sample_static_registry riskLevel = \<lparr>px_tools = [sample_static riskLevel], px_providers = [], px_sealed = True\<rparr>"

definition sample_deps :: registry_deps where
  "sample_deps = \<lparr>gy_library = sample_library, gy_validator = (\<lambda>_. Inr (\<lambda>_. None)), gy_toolCalls = True,
     gy_approvalSubjects = None\<rparr>"

definition sample_legacy :: "object_permission list \<Rightarrow> legacy_run" where
  "sample_legacy perms =
     \<lparr>lr_call = \<lparr>lc_executionId = ''e'', lc_workspaceId = ''ws'', lc_actorType = None, lc_actorId = None,
        lc_triggeredBy = None, lc_source = None\<rparr>, lr_objectPermissions = perms\<rparr>"

definition sample_read_permission :: object_permission where
  "sample_read_permission = \<lparr>om_objectApiName = ''Account'', om_canRead = True, om_canCreate = False,
     om_canUpdate = False, om_canDelete = False\<rparr>"

definition sample_tool_context :: "object_permission list \<Rightarrow> approval_grant option \<Rightarrow> tool_context" where
  "sample_tool_context perms grant =
     \<lparr>tx_scope = LegacyRun (sample_legacy perms), tx_traceId = None, tx_correlationId = None,
      tx_allowedTools = [''t''], tx_timeoutMs = 1000, tx_grant = grant\<rparr>"

definition sample_registry_world :: "tool_call_record list \<Rightarrow> registry_world" where
  "sample_registry_world rs = \<lparr>gw_store = sample_calls rs, gw_events = [], gw_runs = []\<rparr>"

lemma sample_call_runs:
  "gw_runs (snd (executeTool sample_deps (sample_static_registry ''L1'') ''t'' (JObj [])
     (sample_tool_context [sample_read_permission] None) False (sample_registry_world []))) = [(''t'', JObj [])]"
  by code_simp


section \<open>Refusals\<close>

text \<open>
  When no body was started, no approval subject was created and the result names a call, the row of that
  call holds the checks of the result and is denied, blocked, failed or waiting for an approval.
\<close>

definition refusal_recorded :: "call_result \<Rightarrow> registry_world \<Rightarrow> bool" where
  "refusal_recorded r w \<longleftrightarrow> \<not> ur_success r \<and>
     (\<exists>c s. c \<in> set (tool_calls (gw_store w)) \<and> Some (tc_id c) = ur_toolCallId r \<and> tc_status c = Some s
        \<and> s \<in> {DENIED, BLOCKED, FAILED, REQUIRES_APPROVAL}
        \<and> (s = REQUIRES_APPROVAL \<longleftrightarrow> ur_status r = Some ''requires_approval'')
        \<and> tc_permissionCheck c = Some (ur_permissionCheck r) \<and> tc_guardrailCheck c = Some (ur_guardrailCheck r)
        \<and> tc_errorCode c \<noteq> None)"

definition accounts :: "call_result reg \<Rightarrow> bool" where
  "accounts m \<longleftrightarrow> (\<forall>w r w'. m w = (Inr r, w') \<longrightarrow> gw_runs w' = gw_runs w \<longrightarrow>
     ur_toolCallId r = None \<or> ur_subject r \<noteq> None \<or> refusal_recorded r w')"

lemma accountsI:
  "(\<And>w r w'. m w = (Inr r, w') \<Longrightarrow> gw_runs w' = gw_runs w \<Longrightarrow>
      ur_toolCallId r = None \<or> ur_subject r \<noteq> None \<or> refusal_recorded r w') \<Longrightarrow> accounts m"
  unfolding accounts_def by blast

lemma accounts_bindE:
  assumes "keeps gw_runs m" "\<And>a. accounts (f a)"
  shows "accounts (bindE m f)"
proof (rule accountsI)
  fix w r w' assume run: "bindE m f w = (Inr r, w')" and same: "gw_runs w' = gw_runs w"
  obtain a v where v: "m w = (Inr a, v)" "f a v = (Inr r, w')" using run by (rule bindE_elim)
  have "gw_runs v = gw_runs w" using assms(1) v(1) by (rule keepsD)
  then show "ur_toolCallId r = None \<or> ur_subject r \<noteq> None \<or> refusal_recorded r w'"
    using assms(2) [of a] v(2) same unfolding accounts_def by metis
qed

lemma accounts_seqE: "keeps gw_runs m \<Longrightarrow> accounts n \<Longrightarrow> accounts (seqE m n)"
  unfolding seqE_def by (rule accounts_bindE)

lemma accounts_throw: "accounts (throw e)"
  by (simp add: accounts_def throw_apply)

lemma accounts_unnamed: "ur_toolCallId r = None \<or> ur_subject r \<noteq> None \<Longrightarrow> accounts (ret r)"
  by (auto simp: accounts_def ret_apply)

text \<open>A computation that starts a body leaves a longer log.\<close>

lemma accounts_noted:
  assumes "keeps gw_runs m" "\<And>e. keeps gw_runs (h e)"
  shows "accounts (catchE (seqE (note_run n inp) m) h)"
proof (rule accountsI)
  fix w r w' assume run: "catchE (seqE (note_run n inp) m) h w = (Inr r, w')" and same: "gw_runs w' = gw_runs w"
  define u where "u = w\<lparr>gw_runs := gw_runs w @ [(n, inp)]\<rparr>"
  obtain s v where mv: "m u = (s, v)" by (cases "m u")
  have "gw_runs v = gw_runs u" using assms(1) mv by (rule keepsD)
  moreover have "gw_runs w' = gw_runs v"
  proof (cases s)
    case (Inl e)
    then have "h e v = (Inr r, w')" using run mv by (simp add: eff_simps note_run_def flip: u_def)
    with assms(2) show ?thesis by (rule keepsD)
  next
    case (Inr a)
    then show ?thesis using run mv by (simp add: eff_simps note_run_def flip: u_def)
  qed
  ultimately have False using same by (simp add: u_def)
  then show "ur_toolCallId r = None \<or> ur_subject r \<noteq> None \<or> refusal_recorded r w'" ..
qed

text \<open>A transition that succeeds leaves its row behind.\<close>

lemma transition_leaves:
  assumes "transition_call i expected s patch w = (Inr u, w')" "\<And>r. tc_id (patch r) = tc_id r"
  shows "\<exists>c. c \<in> set (tool_calls w') \<and> tc_id c = i \<and> (\<exists>c0. c = (patch c0)\<lparr>tc_status := Some s\<rparr>)"
proof -
  have one: "tb_affected (\<lambda>r. tc_id r = i \<and> status_in expected r) (tool_calls w) = 1"
    and w': "w' = w\<lparr>tool_calls := tb_update (\<lambda>r. tc_id r = i \<and> status_in expected r)
        (\<lambda>r. (patch r)\<lparr>tc_status := Some s\<rparr>) (tool_calls w)\<rparr>"
    using assms(1) by (auto simp: transition_call_def eff_simps split: if_splits)
  have "\<exists>c0\<in>set (tool_calls w). tc_id c0 = i \<and> status_in expected c0"
  proof (rule ccontr)
    assume none: "\<not> (\<exists>c0\<in>set (tool_calls w). tc_id c0 = i \<and> status_in expected c0)"
    have "filter (\<lambda>r. tc_id r = i \<and> status_in expected r) (tool_calls w) = []"
      using none by (simp add: filter_empty_conv)
    then show False using one by (simp add: tb_affected_def)
  qed
  then obtain c0 where c0: "c0 \<in> set (tool_calls w)" "tc_id c0 = i" "status_in expected c0" by blast
  let ?c = "(patch c0)\<lparr>tc_status := Some s\<rparr>"
  have "?c \<in> set (tool_calls w')" using c0 by (force simp: w' set_tb_update)
  moreover have "tc_id ?c = i" using assms(2) c0(2) by simp
  ultimately show ?thesis by blast
qed

lemma accounts_transition:
  assumes "\<And>r. tc_id (patch r) = tc_id r"
    and "\<And>r. tc_permissionCheck (patch r) = Some (ur_permissionCheck q)"
    and "\<And>r. tc_guardrailCheck (patch r) = Some (ur_guardrailCheck q)"
    and "\<And>r. tc_errorCode (patch r) \<noteq> None"
    and "\<not> ur_success q" "ur_toolCallId q = Some i" "s \<in> {DENIED, BLOCKED, FAILED, REQUIRES_APPROVAL}"
    and "s = REQUIRES_APPROVAL \<longleftrightarrow> ur_status q = Some ''requires_approval''"
  shows "accounts (seqE (on_store (transition_call i expected s patch)) (ret q))"
proof (rule accountsI, intro disjI2)
  fix w r w' assume run: "seqE (on_store (transition_call i expected s patch)) (ret q) w = (Inr r, w')"
  then obtain u v where v: "transition_call i expected s patch (gw_store w) = (Inr u, v)"
    and w': "w' = w\<lparr>gw_store := v\<rparr>" and r: "r = q"
    by (elim seqE_elim) (auto simp: on_store_def ret_apply split: prod.splits)
  obtain c c0 where "c \<in> set (tool_calls v)" "tc_id c = i" "c = (patch c0)\<lparr>tc_status := Some s\<rparr>"
    using transition_leaves [OF v assms(1)] by blast
  then show "refusal_recorded r w'"
    unfolding refusal_recorded_def r w' using assms(2-8)
    by (intro conjI exI [of _ c] exI [of _ s]) simp_all
qed

lemmas accounts_rules = accounts_transition accounts_seqE accounts_bindE accounts_unnamed accounts_throw
  keeps_on_store keeps_logGovernanceEvent keeps_prim

lemma patch_facts [simp]:
  "tc_id (denied_patch e r) = tc_id r" "tc_permissionCheck (denied_patch e r) = Some ''denied''"
  "tc_guardrailCheck (denied_patch e r) = Some ''blocked''" "tc_errorCode (denied_patch e r) = Some e"
  "tc_id (blocked_patch e r) = tc_id r" "tc_permissionCheck (blocked_patch e r) = Some ''passed''"
  "tc_guardrailCheck (blocked_patch e r) = Some ''blocked''" "tc_errorCode (blocked_patch e r) = Some e"
  "tc_id (approval_patch r) = tc_id r" "tc_permissionCheck (approval_patch r) = Some ''passed''"
  "tc_guardrailCheck (approval_patch r) = Some ''escalated''"
  "tc_errorCode (approval_patch r) = Some ''TOOL_APPROVAL_REQUIRED''"
  by (simp_all add: denied_patch_def blocked_patch_def approval_patch_def verdict_patch_def)

lemma result_facts [simp]:
  "ur_success (failed_call c e p g d) = False" "ur_toolCallId (failed_call c e p g d) = Some (tc_id c)"
  "ur_permissionCheck (failed_call c e p g d) = p" "ur_guardrailCheck (failed_call c e p g d) = g"
  "ur_status (failed_call c e p g d) = None" "ur_toolCallId (failResult e p g d) = None"
  "ur_success pending_result = False" "ur_permissionCheck pending_result = ''passed''"
  "ur_guardrailCheck pending_result = ''escalated''" "ur_status pending_result = Some ''requires_approval''"
  "ur_subject (with_subject sc r) = Some sc"
  by (simp_all add: failed_call_def failResult_def pending_result_def with_subject_def)

lemma accounts_execute_body: "accounts (execute_body dp n tool x inp call b)"
  unfolding execute_body_def
  by (intro accounts_bindE accounts_seqE accounts_noted) (intro keeps_rules keeps_on_store)+

lemma accounts_run_contextual: "accounts (run_contextual dp k executor inp x call b)"
  unfolding run_contextual_def
  by (intro accounts_bindE accounts_seqE accounts_noted) (intro keeps_rules keeps_case_prod keeps_on_store)+

lemma accounts_schema_refusal:
  "accounts (seqE (on_store (finalize lib (tc_id call) (failed_input 0 code) None))
     (ret (failed_call call message ''passed'' ''passed'' 0)))"
proof -
  have "finalize lib i (failed_input 0 code) None
      = transition_call i [STARTED, RUNNING] FAILED (final_patch (failed_input 0 code) None)" for i
    by (simp add: finalize_def failed_input_def bindE_def ret_def)
  then show ?thesis
    by (simp only:) (rule accounts_transition, simp_all add: final_patch_def failed_input_def)
qed

lemma accounts_risk_gate: "accounts (risk_gate dp name tool x l inp call b)"
proof -
  have "accounts (bindE m (\<lambda>p. seqE (logGovernanceEvent x l tool name inp e)
     (seqE (on_store (transition_call (tc_id call) [STARTED] REQUIRES_APPROVAL approval_patch))
       (ret (pending_result\<lparr>ur_toolCallId := Some (tc_id call), ur_toolName := Some name,
          ur_inputDigest := d, ur_riskLevel := rl, ur_preparation := p\<rparr>)))))"
    if "keeps gw_runs m" for m e d rl
    using that
    by (intro accounts_bindE accounts_seqE [OF keeps_logGovernanceEvent] accounts_transition) simp_all
  moreover have "keeps gw_runs (case sx_prepareApproval tool of
       None \<Rightarrow> ret None
     | Some prepare \<Rightarrow> bindE (on_store (prepare inp x h)) (\<lambda>p. ret (Some p)))" for h
    by (intro keeps_rules keeps_on_store)
  moreover have "accounts (seqE (logGovernanceEvent x l tool name inp e)
     (seqE (on_store (transition_call (tc_id call) [STARTED] BLOCKED (blocked_patch code)))
        (ret (failed_call call message ''passed'' ''blocked'' 0))))" for e code message
    by (intro accounts_seqE [OF keeps_logGovernanceEvent] accounts_transition) simp_all
  ultimately show ?thesis
    unfolding risk_gate_def Let_def
    by (cases "at_least 4 (sx_riskLevel tool)"; cases "at_least 3 (sx_riskLevel tool)"; cases "granted x name")
      (simp_all add: accounts_execute_body accounts_seqE)
qed

lemma accounts_denial:
  "accounts (seqE (logGovernanceEvent x l tool name inp e)
     (seqE (on_store (transition_call (tc_id call) expected DENIED (denied_patch code)))
        (ret (failed_call call message ''denied'' ''blocked'' 0))))"
  by (intro accounts_seqE [OF keeps_logGovernanceEvent] accounts_transition) simp_all

lemma accounts_permission_gate: "accounts (permission_gate dp name tool x l inp call b)"
proof -
  have "accounts (case v of
       Some (reason, errorCode) \<Rightarrow>
         seqE (logGovernanceEvent x l tool name inp
                 (denial ''L4'' reason (sx_operation tool) (resolved_object tool inp)))
        (seqE (on_store (transition_call (tc_id call) [STARTED] DENIED (denied_patch errorCode)))
         (ret (failed_call call reason ''denied'' ''blocked'' 0)))
     | None \<Rightarrow> risk_gate dp name tool x l inp call b)" for v
    by (cases v) (simp_all add: case_prod_beta accounts_risk_gate accounts_denial)
  then show ?thesis unfolding permission_gate_def by (rule accounts_bindE [rotated]) simp
qed

lemma accounts_static_pipeline: "accounts (static_pipeline dp name tool x l inp call b)"
proof (cases "allowed_in x name")
  case True
  have "accounts (case v of
          Some message \<Rightarrow>
            seqE (on_store (finalize (gy_library dp) (tc_id call) (failed_input 0 ''TOOL_INPUT_SCHEMA_INVALID'') None))
              (ret (failed_call call message ''passed'' ''passed'' 0))
        | None \<Rightarrow> permission_gate dp name tool x l inp call b)" for v
    by (cases v) (simp_all add: accounts_permission_gate accounts_schema_refusal)
  then show ?thesis
    unfolding static_pipeline_def if_not_P [OF not_not [THEN iffD2, OF True]]
    by (rule accounts_bindE [rotated]) simp
next
  case False
  then show ?thesis unfolding static_pipeline_def by (simp add: accounts_denial)
qed

lemma accounts_submit_static: "accounts (submit_static dp name tool x l inp)"
  unfolding submit_static_def prod.case
  by (cases "sx_prepareApproval tool"; cases "gy_approvalSubjects dp")
    (simp_all add: accounts_unnamed accounts_seqE accounts_bindE)

lemma accounts_execute_static: "accounts (execute_static dp name tool x l inp)"
proof -
  have "accounts (case c of (call, b) \<Rightarrow> static_pipeline dp name tool x l inp call b)" for c
    by (cases c) (simp add: accounts_static_pipeline)
  then show ?thesis
    unfolding execute_static_def by (simp add: accounts_submit_static accounts_seqE accounts_bindE)
qed

lemma accounts_contextual_refusal:
  "accounts (seqE (on_store (transition_call (tc_id call) expected BLOCKED (blocked_patch code)))
     (ret (failed_call call message ''passed'' ''blocked'' 0)))"
  "accounts (seqE (on_store (transition_call (tc_id call) expected DENIED (denied_patch code)))
     (ret (failed_call call message ''denied'' ''blocked'' 0)))"
  "accounts (seqE (on_store (transition_call (tc_id call) expected REQUIRES_APPROVAL approval_patch))
     (ret (pending_result\<lparr>ur_toolCallId := Some (tc_id call), ur_toolName := t, ur_inputDigest := d,
        ur_releaseSetId := rs, ur_publishedChecksum := c, ur_riskLevel := rl\<rparr>)))"
  by (rule accounts_transition; simp)+

lemma accounts_executeContextualTool: "accounts (executeContextualTool dp pg k inp x call b)"
  unfolding executeContextualTool_def Let_def
  by (cases "at_least 4 (kt_declaredRiskLevel k)"; cases "at_least 3 (kt_declaredRiskLevel k) \<and> \<not> b";
      cases "contextual_executor pg")
    (simp_all add: accounts_contextual_refusal accounts_run_contextual)

lemma accounts_execute_contextual: "accounts (execute_contextual dp pg name k x g inp durable)"
proof -
  have "accounts (case c of (call, b) \<Rightarrow>
        if \<not> allowed_in x name then
          seqE (on_store (transition_call (tc_id call) (openCallStatuses call) DENIED (denied_patch ''TOOL_NOT_ALLOWED'')))
            (ret (failed_call call ''Tool not allowed'' ''denied'' ''blocked'' 0))
        else executeContextualTool dp pg k inp x call b)" for c
    by (cases c) (simp add: accounts_contextual_refusal accounts_executeContextualTool)
  then show ?thesis
    unfolding execute_contextual_def
    by (cases "gy_approvalSubjects dp")
      (simp_all add: accounts_seqE accounts_bindE accounts_unnamed)
qed



section \<open>The catalogue\<close>

datatype registration =
    AddTool static_tool
  | AddTools "static_tool list"
  | AddContextual string contextual_provider
  | Bootstrap

fun registration_step :: "registration \<Rightarrow> (product_registry, unit) eff" where
  "registration_step (AddTool t) = registerTool t"
| "registration_step (AddTools ts) = registerProvider ts"
| "registration_step (AddContextual k p) = registerContextualProvider k p"
| "registration_step Bootstrap = onApplicationBootstrap"

text \<open>A history of registrations, each of which may throw.\<close>

fun registered :: "registration list \<Rightarrow> product_registry \<Rightarrow> product_registry" where
  "registered [] pg = pg"
| "registered (s # ss) pg = registered ss (snd (registration_step s pg))"

definition empty_registry :: product_registry where
  "empty_registry = \<lparr>px_tools = [], px_providers = [], px_sealed = False\<rparr>"

definition names_unique :: "product_registry \<Rightarrow> bool" where
  "names_unique pg \<longleftrightarrow> keyed sx_name (px_tools pg) \<and> distinct (map fst (px_providers pg))"

definition names_kept :: "product_registry \<Rightarrow> product_registry \<Rightarrow> bool" where
  "names_kept pg pg' \<longleftrightarrow> (names_unique pg \<longrightarrow> names_unique pg') \<and> (px_sealed pg \<longrightarrow> px_sealed pg' \<and> px_providers pg' = px_providers pg)"

interpretation naming: state_preorder names_kept
  by unfold_locales (auto simp: names_kept_def)

lemma getTool_None: "getTool pg n = None \<longleftrightarrow> n \<notin> sx_name ` set (px_tools pg)"
  by (auto simp: getTool_def tb_find_None_iff)

lemma naming_registerTool: "steps_in names_kept (registerTool t)"
proof (rule steps_inI)
  fix pg r pg' assume run: "registerTool t pg = (r, pg')"
  show "names_kept pg pg'"
  proof (cases "getTool pg (sx_name t)")
    case None
    then have "pg' = pg\<lparr>px_tools := px_tools pg @ [t]\<rparr>" using run by (simp add: registerTool_def eff_simps)
    then show ?thesis using None by (auto simp: names_kept_def names_unique_def keyed_def getTool_None)
  next
    case (Some s)
    then have "pg' = pg" using run by (simp add: registerTool_def eff_simps)
    then show ?thesis by (simp add: names_kept_def)
  qed
qed

lemma naming_registerContextual: "steps_in names_kept (registerContextualProvider k p)"
proof (rule steps_inI)
  fix pg r pg' assume run: "registerContextualProvider k p pg = (r, pg')"
  show "names_kept pg pg'"
  proof (cases "px_sealed pg \<or> map_of (px_providers pg) (trim k) \<noteq> None")
    case True
    then have "pg' = pg"
      using run by (auto simp: registerContextualProvider_def Let_def eff_simps split: if_splits)
    then show ?thesis by (simp add: names_kept_def)
  next
    case False
    then have new: "trim k \<notin> fst ` set (px_providers pg)" by (simp add: map_of_eq_None_iff)
    have "pg' = pg \<or> pg' = pg\<lparr>px_providers := px_providers pg @ [(trim k, p)]\<rparr>"
      using run by (auto simp: registerContextualProvider_def Let_def eff_simps split: if_splits)
    then show ?thesis using False new by (auto simp: names_kept_def names_unique_def)
  qed
qed

lemma naming_step: "steps_in names_kept (registration_step s)"
proof (cases s)
  case (AddTools ts)
  then show ?thesis by (simp add: registerProvider_def naming.in_for_each naming_registerTool)
next
  case Bootstrap
  then show ?thesis
    unfolding Bootstrap registration_step.simps onApplicationBootstrap_def
    by (intro naming.in_modify) (simp add: names_kept_def names_unique_def)
qed (simp_all add: naming_registerTool naming_registerContextual)

lemma names_registered: "names_kept pg (registered ss pg)"
proof (induction ss arbitrary: pg)
  case (Cons s ss)
  have "names_kept pg (snd (registration_step s pg))" using naming_step by (simp add: steps_in_def)
  then show ?case using Cons naming.R_trans by (auto intro: naming.R_trans)
qed (simp add: naming.R_refl)

lemma check_names_Inr:
  "check_names pg seen ks = Inr seen' \<Longrightarrow> distinct seen \<Longrightarrow>
     seen' = seen @ map kt_toolName ks \<and> distinct seen' \<and> (\<forall>k\<in>set ks. getTool pg (kt_toolName k) = None)"
proof (induction ks arbitrary: seen)
  case (Cons k ks)
  have new: "getTool pg (kt_toolName k) = None" "kt_toolName k \<notin> set seen"
    and rest: "check_names pg (seen @ [kt_toolName k]) ks = Inr seen'"
    using Cons(2) by (simp_all add: Let_def split: if_splits)
  have "distinct (seen @ [kt_toolName k])" using new(2) Cons(3) by simp
  from Cons(1) [OF rest this] have eq: "seen' = (seen @ [kt_toolName k]) @ map kt_toolName ks"
    and d: "distinct seen'" and none: "\<forall>k\<in>set ks. getTool pg (kt_toolName k) = None" by blast+
  have "seen' = seen @ map kt_toolName (k # ks)" by (simp add: eq)
  then show ?case using d none new(1) by simp
qed simp

lemma gather_contextual_names:
  "gather_contextual pg x seen ps w = (Inr ks, w') \<Longrightarrow> distinct seen \<Longrightarrow>
     distinct (map kt_toolName ks) \<and> set (map kt_toolName ks) \<inter> set seen = {}
     \<and> (\<forall>k\<in>set ks. getTool pg (kt_toolName k) = None \<and> allowed_in x (kt_toolName k))"
proof (induction pg x seen ps arbitrary: w ks rule: gather_contextual.induct)
  case (2 pg x seen key p ps)
  obtain found v seen' rest where
    steps: "check_names pg seen found = Inr seen'" "gather_contextual pg x seen' ps v = (Inr rest, w')"
    and ks: "ks = filter (\<lambda>k. kt_toolName k \<in> set (tx_allowedTools x)) found @ rest"
    using 2(2) unfolding gather_contextual.simps by (elim bindE_elim) (auto simp: ret_apply lift_result_apply)
  have names: "seen' = seen @ map kt_toolName found" "distinct seen'" "\<forall>k\<in>set found. getTool pg (kt_toolName k) = None"
    using check_names_Inr [OF steps(1) 2(3)] by blast+
  have rest: "distinct (map kt_toolName rest)" "set (map kt_toolName rest) \<inter> set seen' = {}"
    "\<forall>k\<in>set rest. getTool pg (kt_toolName k) = None \<and> allowed_in x (kt_toolName k)"
    using 2(1) [OF steps(2) names(2)] by auto
  have "distinct (map kt_toolName (filter (\<lambda>k. kt_toolName k \<in> set (tx_allowedTools x)) found))"
    using names(1,2) by (simp add: distinct_map_filter)
  moreover have "kt_toolName k \<notin> set seen" if "k \<in> set found" for k
    using names(1,2) that by (metis IntI distinct_append empty_iff image_eqI set_map)
  ultimately show ?case using names rest by (auto simp: ks allowed_in_def)
qed (simp add: ret_apply)

lemma resolveAvailableTools_names:
  assumes unique: "names_unique pg" and run: "resolveAvailableTools collate pg x w = (Inr ts, w')"
  shows "distinct (map resolvedName ts)" "t \<in> set ts \<Longrightarrow> allowed_in x (resolvedName t)"
proof -
  define ss where "ss = map Static (getAvailableTools pg x)"
  have static: "distinct (map resolvedName ss)" "\<forall>t\<in>set ss. allowed_in x (resolvedName t)"
    using unique by (auto simp: ss_def getAvailableTools_def names_unique_def keyed_def allowed_in_def o_def distinct_map_filter)
  have "distinct (map resolvedName ts) \<and> (\<forall>t\<in>set ts. allowed_in x (resolvedName t))"
  proof (cases "isGovernedContext x")
    case False
    then have "ts = ss"
      using run unfolding resolveAvailableTools_def Let_def if_P [OF False] by (simp add: ret_apply ss_def)
    then show ?thesis using static by simp
  next
    case True
    then obtain ks v where ks: "gather_contextual pg x [] (px_providers pg) w = (Inr ks, v)"
      and ts: "ts = sort_key (\<lambda>t. collate (resolvedName t)) (ss @ map Contextual ks)"
      using run unfolding resolveAvailableTools_def Let_def
      by (simp only: if_False not_True_eq_False) (elim bindE_elim, auto simp: ret_apply ss_def)
    have k: "distinct (map kt_toolName ks)" "\<forall>k\<in>set ks. getTool pg (kt_toolName k) = None \<and> allowed_in x (kt_toolName k)"
      using gather_contextual_names [OF ks] by auto
    have "distinct (map resolvedName (ss @ map Contextual ks))"
    proof -
      have "sx_name s \<noteq> kt_toolName k" if "s \<in> set (px_tools pg)" "k \<in> set ks" for s k
        using k(2) that by (force simp: getTool_None)
      then have "set (map resolvedName ss) \<inter> set (map kt_toolName ks) = {}"
        by (auto simp: ss_def getAvailableTools_def)
      then show ?thesis using static(1) k(1) by (simp add: o_def)
    qed
    moreover have "mset (map resolvedName ts) = mset (map resolvedName (ss @ map Contextual ks))"
      by (simp only: ts mset_map mset_sort)
    ultimately have "distinct (map resolvedName ts)" by (metis distinct_count_atmost_1 set_mset_mset)
    then show ?thesis using static(2) k(2) by (auto simp: ts)
  qed
  then show "distinct (map resolvedName ts)" "t \<in> set ts \<Longrightarrow> allowed_in x (resolvedName t)" by auto
qed

text \<open>
  Whatever was registered, in whatever order and with whatever registrations refused, no two static
  tools and no two providers share a name, and the catalogue a context is shown names no tool twice, static
  or contextual, and holds only tools on the allow list of the context.
\<close>

theorem catalogue_unambiguous:
  assumes "pg = registered steps empty_registry" "resolveAvailableTools collate pg x w = (Inr ts, w')"
  shows "distinct (map resolvedName ts) \<and> list_all (\<lambda>t. allowed_in x (resolvedName t)) ts \<and> names_unique pg"
proof -
  have "names_unique empty_registry" by (simp add: names_unique_def empty_registry_def keyed_def)
  then have "names_unique pg" using names_registered [of empty_registry steps] assms(1) by (simp add: names_kept_def)
  then show ?thesis using resolveAvailableTools_names [OF _ assms(2)] by (auto simp: list_all_iff)
qed

definition sample_provider :: contextual_provider where
  "sample_provider = \<lparr>pv_providerKey = ''serverless-action'', pv_declaredToolNames = None,
     pv_resolveTool = (\<lambda>_ _. ret None), pv_resolveAvailableTools = (\<lambda>_. ret []), pv_executeResolvedTool = None\<rparr>"

lemma catalogue_unambiguous_witness:
  "names_unique (registered [AddTool (sample_static ''L1''), AddContextual ''serverless-action'' sample_provider,
       Bootstrap, AddTools [sample_static ''L2'']] empty_registry)"
proof -
  define pg where "pg = registered [AddTool (sample_static ''L1''), AddContextual ''serverless-action'' sample_provider,
       Bootstrap, AddTools [sample_static ''L2'']] empty_registry"
  let ?x = "sample_tool_context [] None"
  have "resolveAvailableTools (\<lambda>_. []) pg ?x (sample_registry_world [])
      = (Inr (map Static (getAvailableTools pg ?x)), sample_registry_world [])"
    by (simp add: resolveAvailableTools_def sample_tool_context_def ret_apply)
  from catalogue_unambiguous [OF pg_def this] show ?thesis by (simp add: pg_def)
qed

section \<open>Where the registry lets a call pass, or loses its refusal\<close>

text \<open>
  A risk level outside the five counts as level 0: such a tool runs without an approval. And the check of
  permissions needs a name: a tool that requires an operation on the object its input names runs without
  any permission when the input names none.
\<close>

lemma unknown_risk_runs:
  "gw_runs (snd (executeTool sample_deps (sample_static_registry ''high'') ''t'' (JObj [])
     (sample_tool_context [sample_read_permission] None) False (sample_registry_world []))) = [(''t'', JObj [])]"
  by code_simp

definition sample_unbound_registry :: product_registry where
  "sample_unbound_registry =
     \<lparr>px_tools = [(sample_static ''L2'')\<lparr>sx_objectApiName := None, sx_operation := Some ''delete''\<rparr>],
      px_providers = [], px_sealed = True\<rparr>"

lemma nameless_object_skips_permissions:
  "gw_runs (snd (executeTool sample_deps sample_unbound_registry ''t'' (JObj [])
     (sample_tool_context [] None) False (sample_registry_world []))) = [(''t'', JObj [])]"
  by code_simp

text \<open>
  An approved static call is resumed on a row that waits for its approval, but a denial of permission and a
  schema failure expect a row that has just started: when the permission was withdrawn in between, the
  denial is a conflict that is thrown, and the row goes on waiting for an approval.
\<close>

definition sample_static_grant :: approval_grant where
  "sample_static_grant =
     \<lparr>ag_toolName = ''t'', ag_approvalInstanceId = ''a'', ag_toolCallId = Some ''id-0'',
      ag_inputDigest = Some ''sha256:00'', ag_releaseSetId = None, ag_publishedChecksum = None\<rparr>"

definition sample_held_call :: tool_call_record where
  "sample_held_call = (sample_row ''id-0'' REQUIRES_APPROVAL)\<lparr>tc_workspaceId := Some ''ws'',
     tc_inputDigest := Some ''sha256:00'',
     tc_static := no_binding\<lparr>sb_revisionId := Some ''r'', sb_checksum := Some ''c'', sb_generation := Some ''1''\<rparr>\<rparr>"

lemma withdrawn_permission_conflicts:
  "let run = executeTool sample_deps (sample_static_registry ''L3'') ''t'' (JObj [])
       (sample_tool_context [] (Some sample_static_grant)) False (sample_registry_world [sample_held_call])
   in fst run = Inl ''TOOL_CALL_STATE_CONFLICT:id-0:DENIED''
      \<and> map tc_status (tool_calls (gw_store (snd run))) = [Some REQUIRES_APPROVAL]"
  by code_simp

text \<open>A tool whose answer is no JSON value has run, and its call is closed and reported as failed.\<close>

definition sample_odd_registry :: product_registry where
  "sample_odd_registry =
     \<lparr>px_tools = [(sample_static ''L1'')\<lparr>sx_execute := (\<lambda>_ _ _. ret (sample_answer\<lparr>ur_output := Some NotJson\<rparr>))\<rparr>],
      px_providers = [], px_sealed = True\<rparr>"

lemma undigested_answer_reported_failed:
  "let run = executeTool sample_deps sample_odd_registry ''t'' (JObj [])
       (sample_tool_context [sample_read_permission] None) False (sample_registry_world [])
   in map_option ur_error (case fst run of Inr r \<Rightarrow> Some r | Inl e \<Rightarrow> None) = Some (Some ''TOOL_CALL_OUTPUT_NOT_JSON'')
      \<and> gw_runs (snd run) = [(''t'', JObj [])]
      \<and> map tc_status (tool_calls (gw_store (snd run))) = [Some FAILED]"
  by code_simp

text \<open>The lease of a contextual call covers start and settlement: 90 seconds and the budget, at most 150.\<close>

lemma lease_bounds:
  "90001 \<le> deriveCodeActionLifecycleLeaseMs tool t \<and> deriveCodeActionLifecycleLeaseMs tool t \<le> 150000"
  by (simp add: deriveCodeActionLifecycleLeaseMs_def deriveCodeActionExecutionBudgetMs_def
      CODE_ACTION_MAX_EXECUTION_MS_def VERIFIED_ISOLATE_STARTUP_GRACE_MS_def
      CODE_ACTION_COMPLETION_SETTLEMENT_GRACE_MS_def)

end
