(* ===== verification/Playground.thy ===== *)
theory Playground
  imports Audit_Store Js_Text
begin

text \<open>
  The hosted playground: \<open>packages/backend/src/community/playground/\<close> (\<open>community-playground.registry.ts\<close>,
  \<open>community-playground-session.service.ts\<close>, \<open>community-playground-reaper.service.ts\<close>).

  The state is the registry of sessions in memory and the tables a session is made of. A map is the list
  of its entries in the order of insertion. Executions, approvals and events are those of the world of
  \<open>Audit_Store\<close>; deleting an execution deletes its steps and calls (\<open>onDelete: 'CASCADE'\<close>). The hash of the
  password and the signature of the token are arguments. The text with a dash outside the characters of
  the model (U+2014) is written with a hyphen. The timer and the log lines of the reaper are left out.
\<close>

section \<open>Rows\<close>

record workspace_row =
  wk_id :: string
  wk_displayName :: string

record role_row =
  rl_id :: string
  rl_workspaceId :: string
  rl_label :: string
  rl_apiName :: string
  rl_name :: string
  rl_isActive :: bool

record user_row =
  us_id :: string
  us_username :: string
  us_email :: string
  us_passwordHash :: "string option"
  us_firstName :: string
  us_lastName :: string
  us_hasPasswordSet :: bool
  us_isActive :: bool
  us_isFrozen :: bool
  us_isServiceAccount :: bool
  us_defaultWorkspaceId :: "string option"
  us_roleId :: "string option"
  us_orgNodeId :: "string option"

record member_row =
  mb_id :: string
  mb_workspaceId :: string
  mb_userId :: string
  mb_firstName :: string
  mb_lastName :: string

record object_row =
  oj_id :: string
  oj_workspaceId :: string
  oj_nameSingular :: string
  oj_namePlural :: string
  oj_labelSingular :: string
  oj_labelPlural :: string

record object_permission_row =
  pe_id :: string
  pe_roleId :: string
  pe_objectMetadataId :: string
  pe_canRead :: bool
  pe_canCreate :: bool
  pe_canEdit :: bool
  pe_canDelete :: bool

record agent_row =
  an_id :: string
  an_workspaceId :: string
  an_name :: string
  an_apiName :: string
  an_description :: "string option"
  an_prompt :: "string option"
  an_type :: string
  an_status :: string
  an_isActive :: bool
  an_isCustom :: bool
  an_version :: nat
  an_roleId :: "string option"
  an_serviceUserId :: "string option"
  an_guardrailRules :: json

text \<open>Of a guardrail log only its workspace is read here.\<close>

record playground_tables =
  yt_workspaces :: "workspace_row list"
  yt_roles :: "role_row list"
  yt_users :: "user_row list"
  yt_members :: "member_row list"
  yt_objects :: "object_row list"
  yt_objectPermissions :: "object_permission_row list"
  yt_agents :: "agent_row list"
  yt_guardrailLogs :: "(string \<times> json) list"

section \<open>The registry\<close>

record session_info =
  ys_workspaceId :: string
  ys_userId :: string
  ys_roleId :: string
  ys_ip :: string
  ys_lastActiveAt :: int
  ys_executions :: nat
  ys_decisions :: nat

record ip_window =
  yw_windowStart :: int
  yw_sessions :: nat
  yw_executions :: nat

record playground =
  yg_sessions :: "(string \<times> session_info) list"
  yg_ipWindows :: "string \<Rightarrow> ip_window option"
  yg_tables :: playground_tables
  yg_store :: world

type_synonym 'a play = "(playground, 'a) eff"

definition sessionsPerIpPerHour :: nat where "sessionsPerIpPerHour = 3"
definition executionsPerIpPerHour :: nat where "executionsPerIpPerHour = 20"
definition executionsPerSession :: nat where "executionsPerSession = 10"
definition maxConcurrentSessions :: nat where "maxConcurrentSessions = 200"
definition ttlMinutes :: int where "ttlMinutes = 30"
definition HOUR_MS :: int where "HOUR_MS = 3600000"

lemmas playground_limits = sessionsPerIpPerHour_def executionsPerIpPerHour_def executionsPerSession_def
  maxConcurrentSessions_def ttlMinutes_def HOUR_MS_def

definition in_store :: "'a act \<Rightarrow> 'a play" where
  "in_store m = (\<lambda>p. case m (yg_store p) of (r, w) \<Rightarrow> (r, p\<lparr>yg_store := w\<rparr>))"

text \<open>\<open>map.set\<close> and \<open>map.delete\<close>.\<close>

fun map_set :: "string \<Rightarrow> 'a \<Rightarrow> (string \<times> 'a) list \<Rightarrow> (string \<times> 'a) list" where
  "map_set k v [] = [(k, v)]"
| "map_set k v ((k', v') # ps) = (if k = k' then (k, v) # ps else (k', v') # map_set k v ps)"

definition map_remove :: "string \<Rightarrow> (string \<times> 'a) list \<Rightarrow> (string \<times> 'a) list" where
  "map_remove k ps = filter (\<lambda>p. fst p \<noteq> k) ps"

definition registry_size :: "playground \<Rightarrow> nat" where
  "registry_size p = length (yg_sessions p)"

definition isPlayground :: "string \<Rightarrow> playground \<Rightarrow> bool" where
  "isPlayground workspaceId p \<longleftrightarrow> map_of (yg_sessions p) workspaceId \<noteq> None"

definition put_session :: "string \<Rightarrow> session_info \<Rightarrow> unit play" where
  "put_session k s = modify (\<lambda>p. p\<lparr>yg_sessions := map_set k s (yg_sessions p)\<rparr>)"

text \<open>A session that is found is changed in place.\<close>

definition touch_session :: "string \<Rightarrow> unit play" where
  "touch_session workspaceId =
     bindE (reads (\<lambda>p. map_of (yg_sessions p) workspaceId)) (\<lambda>session.
     case session of
       None \<Rightarrow> ret ()
     | Some s \<Rightarrow> bindE (in_store now) (\<lambda>t. put_session workspaceId (s\<lparr>ys_lastActiveAt := t\<rparr>)))"

definition put_window :: "string \<Rightarrow> ip_window \<Rightarrow> unit play" where
  "put_window ip win = modify (\<lambda>p. p\<lparr>yg_ipWindows := (yg_ipWindows p)(ip \<mapsto> win)\<rparr>)"

definition windowFor :: "string \<Rightarrow> ip_window play" where
  "windowFor ip =
     bindE (in_store now) (\<lambda>t.
     bindE (reads (\<lambda>p. yg_ipWindows p ip)) (\<lambda>existing.
     let fresh = \<lparr>yw_windowStart = t, yw_sessions = 0, yw_executions = 0\<rparr> in
     case existing of
       Some win \<Rightarrow> if t - yw_windowStart win \<ge> HOUR_MS then seqE (put_window ip fresh) (ret fresh) else ret win
     | None \<Rightarrow> seqE (put_window ip fresh) (ret fresh)))"

definition assertSessionAllowed :: "string \<Rightarrow> unit play" where
  "assertSessionAllowed ip =
     bindE (windowFor ip) (\<lambda>win.
     seqE (throw_if (yw_sessions win \<ge> sessionsPerIpPerHour) ''PLAYGROUND_SESSION_RATE_LIMIT'')
    (bindE (reads registry_size) (\<lambda>size.
     throw_if (size \<ge> maxConcurrentSessions) ''PLAYGROUND_CAPACITY'')))"

definition register_session :: "session_info \<Rightarrow> unit play" where
  "register_session info =
     bindE (windowFor (ys_ip info)) (\<lambda>win.
     seqE (put_window (ys_ip info) (win\<lparr>yw_sessions := yw_sessions win + 1\<rparr>))
       (put_session (ys_workspaceId info) info))"

definition assertExecutionAllowed :: "string \<Rightarrow> unit play" where
  "assertExecutionAllowed workspaceId =
     bindE (reads (\<lambda>p. map_of (yg_sessions p) workspaceId)) (\<lambda>session.
     case session of
       None \<Rightarrow> ret ()
     | Some s \<Rightarrow>
         seqE (throw_if (ys_executions s \<ge> executionsPerSession) ''PLAYGROUND_SESSION_EXECUTION_LIMIT'')
        (bindE (windowFor (ys_ip s)) (\<lambda>win.
         throw_if (yw_executions win \<ge> executionsPerIpPerHour) ''PLAYGROUND_EXECUTION_RATE_LIMIT'')))"

definition countExecution :: "string \<Rightarrow> unit play" where
  "countExecution workspaceId =
     bindE (reads (\<lambda>p. map_of (yg_sessions p) workspaceId)) (\<lambda>session.
     case session of
       None \<Rightarrow> ret ()
     | Some s \<Rightarrow>
         bindE (in_store now) (\<lambda>t.
         seqE (put_session workspaceId (s\<lparr>ys_executions := ys_executions s + 1, ys_lastActiveAt := t\<rparr>))
        (bindE (windowFor (ys_ip s)) (\<lambda>win.
         put_window (ys_ip s) (win\<lparr>yw_executions := yw_executions win + 1\<rparr>)))))"

definition countDecision :: "string \<Rightarrow> unit play" where
  "countDecision workspaceId = touch_session workspaceId"

definition expiredWorkspaceIds :: "int \<Rightarrow> playground \<Rightarrow> string list" where
  "expiredWorkspaceIds t p =
     map (\<lambda>(_, s). ys_workspaceId s)
       (filter (\<lambda>(_, s). t - ys_lastActiveAt s \<ge> ttlMinutes * 60000) (yg_sessions p))"

definition forget_session :: "string \<Rightarrow> unit play" where
  "forget_session workspaceId = modify (\<lambda>p. p\<lparr>yg_sessions := map_remove workspaceId (yg_sessions p)\<rparr>)"

definition clear_registry :: "unit play" where
  "clear_registry = modify (\<lambda>p. p\<lparr>yg_sessions := [], yg_ipWindows := (\<lambda>_. None)\<rparr>)"

text \<open>What the resolver does before a run, without an await in between.\<close>

definition admit_execution :: "string \<Rightarrow> unit play" where
  "admit_execution workspaceId = seqE (assertExecutionAllowed workspaceId) (countExecution workspaceId)"

section \<open>Sessions\<close>

record session_ports =
  yv_hash :: "string \<Rightarrow> string result"
  yv_sign :: "string \<Rightarrow> string \<Rightarrow> string \<Rightarrow> string result"

definition SESSION_TTL_SECONDS :: int where "SESSION_TTL_SECONDS = 30 * 60"

definition AGENT_DESCRIPTION :: string where
  "AGENT_DESCRIPTION = ''Demo digital employee: looks up a customer, then asks a human to approve an outbound follow-up email.''"

definition AGENT_PROMPT :: string where
  "AGENT_PROMPT = ''You are a governed demo digital employee. Look up the customer first, then draft the follow-up email and request human approval before sending.''"

definition DEMO_TOOL_LOOKUP :: string where "DEMO_TOOL_LOOKUP = ''demo.customer_lookup''"
definition DEMO_TOOL_SEND_EMAIL :: string where "DEMO_TOOL_SEND_EMAIL = ''demo.send_followup_email''"

definition demo_rule :: "string \<Rightarrow> string \<Rightarrow> string \<Rightarrow> string \<Rightarrow> string \<Rightarrow> json" where
  "demo_rule operation riskLevel action toolPattern description =
     JObj [(''objectApiName'', JStr ''*''), (''operation'', JStr operation), (''riskLevel'', JStr riskLevel),
       (''action'', JStr action), (''toolPattern'', JStr toolPattern), (''description'', JStr description)]"

definition demo_rules :: json where
  "demo_rules = JObj
     [(''allowedTools'', JArr [JStr DEMO_TOOL_LOOKUP, JStr DEMO_TOOL_SEND_EMAIL]),
      (''sensitiveOps'', JArr
        [demo_rule ''customer_lookup'' ''L1'' ''audit'' DEMO_TOOL_LOOKUP
           ''Read-only customer lookup - audited, allowed to proceed'',
         demo_rule ''send_followup_email'' ''L3'' ''approve'' DEMO_TOOL_SEND_EMAIL
           ''Outbound follow-up email - requires human approval''])]"

text \<open>The last ten characters of an identifier without its hyphens.\<close>

definition short_of :: "string \<Rightarrow> string" where
  "short_of i = (let s = filter (\<lambda>c. c \<noteq> CHR ''-'') i in drop (length s - 10) s)"

record session_ids =
  yi_workspace :: string
  yi_role :: string
  yi_user :: string
  yi_member :: string
  yi_object :: string
  yi_permission :: string
  yi_agent :: string
  yi_short :: string

definition session_user :: "session_ids \<Rightarrow> string \<Rightarrow> user_row" where
  "session_user i passwordHash =
     \<lparr>us_id = yi_user i, us_username = ''pg_'' @ yi_short i,
      us_email = ''pg_'' @ yi_short i @ ''@playground.local'', us_passwordHash = Some passwordHash,
      us_firstName = ''Playground'', us_lastName = ''Visitor'', us_hasPasswordSet = True, us_isActive = True,
      us_isFrozen = False, us_isServiceAccount = False, us_defaultWorkspaceId = Some (yi_workspace i),
      us_roleId = Some (yi_role i), us_orgNodeId = None\<rparr>"

definition session_agent :: "session_ids \<Rightarrow> agent_row" where
  "session_agent i =
     \<lparr>an_id = yi_agent i, an_workspaceId = yi_workspace i, an_name = ''Follow-up Assistant'',
      an_apiName = ''pg_followup_'' @ yi_short i, an_description = Some AGENT_DESCRIPTION,
      an_prompt = Some AGENT_PROMPT, an_type = ''custom'', an_status = ''active'', an_isActive = True,
      an_isCustom = False, an_version = 1, an_roleId = Some (yi_role i), an_serviceUserId = Some (yi_user i),
      an_guardrailRules = demo_rules\<rparr>"

definition in_tables :: "(playground_tables \<Rightarrow> playground_tables) \<Rightarrow> unit play" where
  "in_tables f = modify (\<lambda>p. p\<lparr>yg_tables := f (yg_tables p)\<rparr>)"

definition insert_session_rows :: "session_ports \<Rightarrow> session_ids \<Rightarrow> unit play" where
  "insert_session_rows ports i =
     seqE (in_tables (\<lambda>t. t\<lparr>yt_workspaces := tb_insert
        \<lparr>wk_id = yi_workspace i, wk_displayName = ''Playground '' @ yi_short i\<rparr> (yt_workspaces t)\<rparr>))
    (seqE (in_tables (\<lambda>t. t\<lparr>yt_roles := tb_insert
        \<lparr>rl_id = yi_role i, rl_workspaceId = yi_workspace i, rl_label = ''Playground Visitor'',
         rl_apiName = ''pg_visitor_'' @ yi_short i, rl_name = ''PlaygroundVisitor'', rl_isActive = True\<rparr> (yt_roles t)\<rparr>))
    (bindE (in_store fresh_id) (\<lambda>secret.
     bindE (lift_result (yv_hash ports secret)) (\<lambda>passwordHash.
     seqE (in_tables (\<lambda>t. t\<lparr>yt_users := tb_insert (session_user i passwordHash) (yt_users t)\<rparr>))
    (seqE (in_tables (\<lambda>t. t\<lparr>yt_members := tb_insert
        \<lparr>mb_id = yi_member i, mb_workspaceId = yi_workspace i, mb_userId = yi_user i,
         mb_firstName = ''Playground'', mb_lastName = ''Visitor''\<rparr> (yt_members t)\<rparr>))
    (seqE (in_tables (\<lambda>t. t\<lparr>yt_objects := tb_insert
        \<lparr>oj_id = yi_object i, oj_workspaceId = yi_workspace i, oj_nameSingular = ''Contact'',
         oj_namePlural = ''Contacts'', oj_labelSingular = ''Contact'', oj_labelPlural = ''Contacts''\<rparr> (yt_objects t)\<rparr>))
    (seqE (in_tables (\<lambda>t. t\<lparr>yt_objectPermissions := tb_insert
        \<lparr>pe_id = yi_permission i, pe_roleId = yi_role i, pe_objectMetadataId = yi_object i, pe_canRead = True,
         pe_canCreate = True, pe_canEdit = True, pe_canDelete = True\<rparr> (yt_objectPermissions t)\<rparr>))
      (in_tables (\<lambda>t. t\<lparr>yt_agents := tb_insert (session_agent i) (yt_agents t)\<rparr>)))))))))"

definition draw_ids :: "session_ids play" where
  "draw_ids =
     bindE (in_store fresh_id) (\<lambda>workspaceId. bindE (in_store fresh_id) (\<lambda>roleId.
     bindE (in_store fresh_id) (\<lambda>userId. bindE (in_store fresh_id) (\<lambda>memberId.
     bindE (in_store fresh_id) (\<lambda>objectId. bindE (in_store fresh_id) (\<lambda>permissionId.
     bindE (in_store fresh_id) (\<lambda>agentId. bindE (in_store fresh_id) (\<lambda>tail.
     ret \<lparr>yi_workspace = workspaceId, yi_role = roleId, yi_user = userId, yi_member = memberId,
          yi_object = objectId, yi_permission = permissionId, yi_agent = agentId, yi_short = short_of tail\<rparr>))))))))"

record created_session =
  yc_token :: string
  yc_expiresAt :: int
  yc_agentId :: string
  yc_workspaceId :: string

definition createSession :: "session_ports \<Rightarrow> string \<Rightarrow> created_session play" where
  "createSession ports ip =
     seqE (assertSessionAllowed ip)
    (bindE draw_ids (\<lambda>i.
     seqE (insert_session_rows ports i)
    (bindE (lift_result (yv_sign ports (yi_user i) (yi_workspace i) (yi_role i))) (\<lambda>token.
     bindE (in_store now) (\<lambda>t.
     seqE (register_session
            \<lparr>ys_workspaceId = yi_workspace i, ys_userId = yi_user i, ys_roleId = yi_role i, ys_ip = ip,
             ys_lastActiveAt = t, ys_executions = 0, ys_decisions = 0\<rparr>)
    (bindE (in_store now) (\<lambda>t'.
     ret \<lparr>yc_token = token, yc_expiresAt = t' + SESSION_TTL_SECONDS * 1000, yc_agentId = yi_agent i,
          yc_workspaceId = yi_workspace i\<rparr>)))))))"

definition delete_executions :: "string \<Rightarrow> unit act" where
  "delete_executions workspaceId = modify (\<lambda>w.
     let gone = ex_id ` set (filter (\<lambda>e. ex_workspaceId e = workspaceId) (executions w)) in
     w\<lparr>executions := filter (\<lambda>e. ex_workspaceId e \<noteq> workspaceId) (executions w),
       react_steps := filter (\<lambda>s. rs_executionId s \<notin> gone) (react_steps w),
       tool_calls := filter (\<lambda>c. \<not> (case tc_executionId c of None \<Rightarrow> False | Some e \<Rightarrow> e \<in> gone)) (tool_calls w)\<rparr>)"

text \<open>\<open>if (effectiveRoleId)\<close>: neither null nor empty.\<close>

definition when_truthy :: "string option \<Rightarrow> (string \<Rightarrow> unit play) \<Rightarrow> unit play" where
  "when_truthy v f = (case v of None \<Rightarrow> ret () | Some s \<Rightarrow> if s = [] then ret () else f s)"

definition recycleWorkspace :: "string \<Rightarrow> string option \<Rightarrow> unit play" where
  "recycleWorkspace workspaceId roleId =
     bindE (reads (\<lambda>p. tb_find (\<lambda>u. us_defaultWorkspaceId u = Some workspaceId) (yt_users (yg_tables p)))) (\<lambda>user.
     let effectiveRoleId = (case roleId of Some r \<Rightarrow> Some r | None \<Rightarrow> Option.bind user us_roleId) in
     seqE (in_store (modify (\<lambda>w. w\<lparr>approvals := filter (\<lambda>a. ai_workspaceId a \<noteq> workspaceId) (approvals w)\<rparr>)))
    (seqE (in_store (delete_executions workspaceId))
    (seqE (in_tables (\<lambda>t. t\<lparr>yt_guardrailLogs := filter (\<lambda>g. fst g \<noteq> workspaceId) (yt_guardrailLogs t)\<rparr>))
    (seqE (in_store (modify (\<lambda>w. w\<lparr>outbox_events := filter (\<lambda>e. oe_workspaceId e \<noteq> workspaceId) (outbox_events w)\<rparr>)))
    (seqE (in_tables (\<lambda>t. t\<lparr>yt_agents := filter (\<lambda>a. an_workspaceId a \<noteq> workspaceId) (yt_agents t)\<rparr>))
    (seqE (in_tables (\<lambda>t. t\<lparr>yt_members := filter (\<lambda>m. mb_workspaceId m \<noteq> workspaceId) (yt_members t)\<rparr>))
    (seqE (when_truthy effectiveRoleId (\<lambda>r.
       in_tables (\<lambda>t. t\<lparr>yt_objectPermissions := filter (\<lambda>q. pe_roleId q \<noteq> r) (yt_objectPermissions t)\<rparr>)))
    (seqE (case user of
             None \<Rightarrow> ret ()
           | Some u \<Rightarrow> in_tables (\<lambda>t. t\<lparr>yt_users := filter (\<lambda>v. us_id v \<noteq> us_id u) (yt_users t)\<rparr>))
    (seqE (when_truthy effectiveRoleId (\<lambda>r.
       in_tables (\<lambda>t. t\<lparr>yt_roles := filter (\<lambda>q. rl_id q \<noteq> r) (yt_roles t)\<rparr>)))
    (seqE (in_tables (\<lambda>t. t\<lparr>yt_objects := filter (\<lambda>q. oj_workspaceId q \<noteq> workspaceId) (yt_objects t)\<rparr>))
    (seqE (in_tables (\<lambda>t. t\<lparr>yt_workspaces := filter (\<lambda>q. wk_id q \<noteq> workspaceId) (yt_workspaces t)\<rparr>))
      (forget_session workspaceId))))))))))))"

text \<open>\<open>LIKE 'Playground %'\<close>. A query that fails counts as no rows.\<close>

definition playground_named :: "workspace_row \<Rightarrow> bool" where
  "playground_named w \<longleftrightarrow> starts_with ''Playground '' (wk_displayName w)"

fun sweep_rows :: "workspace_row list \<Rightarrow> nat play" where
  "sweep_rows [] = ret 0"
| "sweep_rows (w # ws) =
     bindE (reads (\<lambda>p. tb_find (\<lambda>u. us_defaultWorkspaceId u = Some (wk_id w)) (yt_users (yg_tables p)))) (\<lambda>user.
     seqE (recycleWorkspace (wk_id w) (Option.bind user us_roleId))
    (bindE (sweep_rows ws) (\<lambda>n. ret (Suc n))))"

definition sweepOrphans :: "bool \<Rightarrow> nat play" where
  "sweepOrphans query_works =
     bindE (reads (\<lambda>p. if query_works then filter playground_named (yt_workspaces (yg_tables p)) else [])) (\<lambda>rows.
     bindE (sweep_rows rows) (\<lambda>swept.
     seqE clear_registry (ret swept)))"

definition assertEnabled :: "bool \<Rightarrow> unit play" where
  "assertEnabled enabled = throw_if (\<not> enabled) ''Playground is not enabled''"

section \<open>The reaper\<close>

definition reaper_boot :: "bool \<Rightarrow> unit play" where
  "reaper_boot query_works = catchE (seqE (sweepOrphans query_works) (ret ())) (\<lambda>_. ret ())"

definition reaper_tick :: "unit play" where
  "reaper_tick =
     bindE (in_store now) (\<lambda>t.
     bindE (reads (expiredWorkspaceIds t)) (\<lambda>expired.
     for_each (\<lambda>workspaceId. catchE (recycleWorkspace workspaceId None) (\<lambda>_. ret ())) expired))"

section \<open>The caps hold\<close>

lemma map_of_map_set [simp]: "map_of (map_set k v ps) = (map_of ps)(k \<mapsto> v)"
  by (induction k v ps rule: map_set.induct) auto

lemma map_of_map_remove [simp]: "map_of (map_remove k ps) = (map_of ps)(k := None)"
  by (induction ps) (auto simp: map_remove_def)

lemma in_store_apply [eff_simps]: "in_store m p = (case m (yg_store p) of (r, w) \<Rightarrow> (r, p\<lparr>yg_store := w\<rparr>))"
  by (simp add: in_store_def)

definition within_caps :: "playground \<Rightarrow> bool" where
  "within_caps p \<longleftrightarrow>
     (\<forall>k s. map_of (yg_sessions p) k = Some s \<longrightarrow> ys_executions s \<le> executionsPerSession)
     \<and> (\<forall>ip win. yg_ipWindows p ip = Some win \<longrightarrow> yw_executions win \<le> executionsPerIpPerHour)"

definition same_registry :: "playground \<Rightarrow> (string \<times> session_info) list \<times> (string \<Rightarrow> ip_window option)" where
  "same_registry p = (yg_sessions p, yg_ipWindows p)"

lemma within_same: "same_registry p' = same_registry p \<Longrightarrow> within_caps p \<Longrightarrow> within_caps p'"
  by (simp add: within_caps_def same_registry_def)

text \<open>A window that was asked for is the stored one; it is the old one, or new and empty.\<close>

lemma windowFor_outcome:
  obtains win p' where "windowFor ip p = (Inr win, p')" "yg_ipWindows p' = (yg_ipWindows p)(ip \<mapsto> win)"
    "yg_sessions p' = yg_sessions p" "yg_ipWindows p ip = Some win \<or> yw_executions win = 0 \<and> yw_sessions win = 0"
proof -
  let ?fresh = "\<lparr>yw_windowStart = clock_of (yg_store p) (next_tick (yg_store p)), yw_sessions = 0, yw_executions = 0\<rparr>"
  let ?new = "p\<lparr>yg_store := snd (now (yg_store p)), yg_ipWindows := (yg_ipWindows p)(ip \<mapsto> ?fresh)\<rparr>"
  show ?thesis
  proof (cases "yg_ipWindows p ip")
  case None
  then show ?thesis
    by (intro that [of ?fresh ?new]) (simp_all add: windowFor_def put_window_def eff_simps Let_def)
next
  case (Some old)
  show ?thesis
  proof (cases "clock_of (yg_store p) (next_tick (yg_store p)) - yw_windowStart old \<ge> HOUR_MS")
    case True
    then show ?thesis
      by (intro that [of ?fresh ?new]) (simp_all add: windowFor_def put_window_def eff_simps Let_def Some)
  next
    case False
    then show ?thesis
      by (intro that [of old "p\<lparr>yg_store := snd (now (yg_store p))\<rparr>"])
        (simp_all add: windowFor_def put_window_def eff_simps Let_def Some map_upd_triv)
  qed
  qed
qed

lemma within_window:
  assumes "within_caps p" "yg_ipWindows p' = (yg_ipWindows p)(ip \<mapsto> win)" "yg_sessions p' = yg_sessions p"
    "yw_executions win \<le> executionsPerIpPerHour"
  shows "within_caps p'"
  using assms by (auto simp: within_caps_def)

lemma within_windowFor:
  assumes "windowFor ip p = (r, p')" "within_caps p" shows "within_caps p'"
proof -
  obtain win q where q: "windowFor ip p = (Inr win, q)" "yg_ipWindows q = (yg_ipWindows p)(ip \<mapsto> win)"
    "yg_sessions q = yg_sessions p" "yg_ipWindows p ip = Some win \<or> yw_executions win = 0 \<and> yw_sessions win = 0"
    by (rule windowFor_outcome)
  have "yw_executions win \<le> executionsPerIpPerHour" using q(4) assms(2) by (auto simp: within_caps_def)
  then have "within_caps q" using within_window [OF assms(2) q(2,3)] by blast
  then show ?thesis using q(1) assms(1) by simp
qed

definition caps_kept :: "playground \<Rightarrow> playground \<Rightarrow> bool" where
  "caps_kept p p' \<longleftrightarrow> (within_caps p \<longrightarrow> within_caps p')"

interpretation capping: state_preorder caps_kept
  by unfold_locales (auto simp: caps_kept_def)

lemma capping_same: "keeps same_registry m \<Longrightarrow> steps_in caps_kept m"
  by (rule steps_inI) (auto simp: caps_kept_def intro: within_same keepsD)

lemma keeps_in_store [simp]: "keeps same_registry (in_store m)"
  by (rule keepsI) (auto simp: eff_simps same_registry_def split: prod.splits)

lemma keeps_in_tables [simp]: "keeps same_registry (in_tables f)"
  unfolding in_tables_def by (rule keeps_modify) (simp add: same_registry_def)

lemma capping_windowFor: "steps_in caps_kept (windowFor ip)"
  by (rule steps_inI) (simp add: caps_kept_def within_windowFor)

lemma capping_assertSessionAllowed: "steps_in caps_kept (assertSessionAllowed ip)"
  unfolding assertSessionAllowed_def by (intro capping.in_rules capping_windowFor)

lemma capping_forget: "steps_in caps_kept (forget_session i)"
  unfolding forget_session_def by (rule capping.in_modify) (auto simp: caps_kept_def within_caps_def)

lemma capping_clear: "steps_in caps_kept clear_registry"
  unfolding clear_registry_def by (rule capping.in_modify) (simp add: caps_kept_def within_caps_def)

lemma capping_touch: "steps_in caps_kept (touch_session i)"
proof (rule steps_inI)
  fix p r p' assume run: "touch_session i p = (r, p')"
  show "caps_kept p p'"
  proof (cases "map_of (yg_sessions p) i")
    case None
    then show ?thesis using run by (simp add: touch_session_def eff_simps caps_kept_def)
  next
    case (Some s)
    then have "yg_ipWindows p' = yg_ipWindows p"
      "map_of (yg_sessions p') = (map_of (yg_sessions p))(i \<mapsto> s\<lparr>ys_lastActiveAt := clock_of (yg_store p) (next_tick (yg_store p))\<rparr>)"
      using run by (auto simp: touch_session_def eff_simps put_session_def)
    then show ?thesis using Some by (auto simp: caps_kept_def within_caps_def)
  qed
qed

lemma capping_register:
  assumes "ys_executions info = 0" shows "steps_in caps_kept (register_session info)"
proof (rule steps_inI)
  fix p r p' assume run: "register_session info p = (r, p')"
  obtain win q where q: "windowFor (ys_ip info) p = (Inr win, q)" "yg_ipWindows q = (yg_ipWindows p)(ys_ip info \<mapsto> win)"
    "yg_sessions q = yg_sessions p" "yg_ipWindows p (ys_ip info) = Some win \<or> yw_executions win = 0 \<and> yw_sessions win = 0"
    by (rule windowFor_outcome)
  have p': "yg_ipWindows p' = (yg_ipWindows p)(ys_ip info \<mapsto> win\<lparr>yw_sessions := yw_sessions win + 1\<rparr>)"
    "map_of (yg_sessions p') = (map_of (yg_sessions p))(ys_workspaceId info \<mapsto> info)"
    using run q by (auto simp: register_session_def put_window_def put_session_def eff_simps)
  show "caps_kept p p'"
    unfolding caps_kept_def
  proof
    assume ok: "within_caps p"
    then have "yw_executions win \<le> executionsPerIpPerHour" using q(4) by (auto simp: within_caps_def)
    then show "within_caps p'" using ok p' assms by (auto simp: within_caps_def)
  qed
qed

text \<open>Admission checks the caps and counts without another request in between.\<close>

lemma capping_admit: "steps_in caps_kept (admit_execution i)"
proof (rule steps_inI)
  fix p r p' assume run: "admit_execution i p = (r, p')"
  show "caps_kept p p'"
  proof (cases "map_of (yg_sessions p) i")
    case None
    then show ?thesis
      using run by (simp add: admit_execution_def assertExecutionAllowed_def countExecution_def eff_simps caps_kept_def)
  next
    case (Some s)
    show ?thesis
    proof (cases "ys_executions s \<ge> executionsPerSession")
      case True
      then show ?thesis
        using run Some by (simp add: admit_execution_def assertExecutionAllowed_def eff_simps caps_kept_def)
    next
      case few: False
      obtain win q where q: "windowFor (ys_ip s) p = (Inr win, q)" "yg_ipWindows q = (yg_ipWindows p)(ys_ip s \<mapsto> win)"
        "yg_sessions q = yg_sessions p" "yg_ipWindows p (ys_ip s) = Some win \<or> yw_executions win = 0 \<and> yw_sessions win = 0"
        by (rule windowFor_outcome)
      show ?thesis
      proof (cases "yw_executions win \<ge> executionsPerIpPerHour")
        case True
        then have "p' = q"
          using run Some few q by (auto simp: admit_execution_def assertExecutionAllowed_def eff_simps)
        then show ?thesis using within_windowFor [OF q(1)] by (simp add: caps_kept_def)
      next
        case room: False
        define s' where "s' = s\<lparr>ys_executions := ys_executions s + 1,
            ys_lastActiveAt := clock_of (yg_store q) (next_tick (yg_store q))\<rparr>"
        define u where "u = q\<lparr>yg_store := snd (now (yg_store q)), yg_sessions := map_set i s' (yg_sessions q)\<rparr>"
        obtain win' v where v: "windowFor (ys_ip s) u = (Inr win', v)" "yg_ipWindows v = (yg_ipWindows u)(ys_ip s \<mapsto> win')"
          "yg_sessions v = yg_sessions u" "yg_ipWindows u (ys_ip s) = Some win' \<or> yw_executions win' = 0 \<and> yw_sessions win' = 0"
          by (rule windowFor_outcome)
        have "p' = v\<lparr>yg_ipWindows := (yg_ipWindows v)(ys_ip s \<mapsto> win'\<lparr>yw_executions := yw_executions win' + 1\<rparr>)\<rparr>"
          using run Some few q room v
          by (simp add: admit_execution_def assertExecutionAllowed_def countExecution_def eff_simps put_session_def
              put_window_def s'_def u_def)
        then have p': "yg_ipWindows p' = (yg_ipWindows p)(ys_ip s \<mapsto> win'\<lparr>yw_executions := yw_executions win' + 1\<rparr>)"
          "map_of (yg_sessions p') = (map_of (yg_sessions p))(i \<mapsto> s')"
          using v q by (simp_all add: u_def)
        have "yw_executions win' < executionsPerIpPerHour"
          using v(4) q(2) room by (auto simp: u_def playground_limits)
        then show ?thesis using p' few by (auto simp: caps_kept_def within_caps_def s'_def)
      qed
    qed
  qed
qed

lemma same_insert_session_rows: "keeps same_registry (insert_session_rows ports i)"
  unfolding insert_session_rows_def by (intro keeps_rules keeps_in_tables keeps_in_store)

lemma same_draw_ids: "keeps same_registry draw_ids"
  unfolding draw_ids_def by (intro keeps_rules keeps_in_store)

lemma capping_create: "steps_in caps_kept (createSession ports ip)"
  unfolding createSession_def
  by (intro capping.in_rules capping_assertSessionAllowed capping_same [OF same_draw_ids]
      capping_same [OF same_insert_session_rows] capping_same [OF keeps_in_store] capping_register) simp

lemma capping_recycle: "steps_in caps_kept (recycleWorkspace i r)"
proof -
  have t: "steps_in caps_kept (in_tables f)" for f by (simp add: capping_same)
  have "steps_in caps_kept (when_truthy v (\<lambda>s. in_tables (f s)))" for v f
    unfolding when_truthy_def by (intro capping.in_rules t)
  then show ?thesis
    unfolding recycleWorkspace_def Let_def
    by (intro capping.in_rules t capping_forget capping_same [OF keeps_in_store])
qed

lemma capping_sweep_rows: "steps_in caps_kept (sweep_rows ws)"
  by (induction ws) (simp_all only: sweep_rows.simps, (intro capping.in_rules capping_recycle | assumption)+)

lemma capping_sweep: "steps_in caps_kept (sweepOrphans b)"
  unfolding sweepOrphans_def by (intro capping.in_rules capping_sweep_rows capping_clear)

lemma capping_tick: "steps_in caps_kept reaper_tick"
  unfolding reaper_tick_def
  by (intro capping.in_rules capping.in_for_each capping_recycle capping_same [OF keeps_in_store])

text \<open>
  The states of a running playground. Requests are served one at a time between two awaits: the creation
  of a session may be cut at its awaits, so that checking and registering are steps of their own; the rest
  of the program changes database and clock.
\<close>

inductive playground_reached :: "playground \<Rightarrow> bool" where
  boot: "yg_sessions p = [] \<Longrightarrow> yg_ipWindows p = (\<lambda>_. None) \<Longrightarrow> playground_reached p"
| create: "playground_reached p \<Longrightarrow> createSession ports ip p = (r, p') \<Longrightarrow> playground_reached p'"
| check: "playground_reached p \<Longrightarrow> assertSessionAllowed ip p = (u, p') \<Longrightarrow> playground_reached p'"
| enrol: "playground_reached p \<Longrightarrow> ys_executions info = 0 \<Longrightarrow> register_session info p = (u, p') \<Longrightarrow>
    playground_reached p'"
| admit: "playground_reached p \<Longrightarrow> admit_execution i p = (u, p') \<Longrightarrow> playground_reached p'"
| touch: "playground_reached p \<Longrightarrow> touch_session i p = (u, p') \<Longrightarrow> playground_reached p'"
| recycle: "playground_reached p \<Longrightarrow> recycleWorkspace i role p = (u, p') \<Longrightarrow> playground_reached p'"
| sweep: "playground_reached p \<Longrightarrow> sweepOrphans b p = (n, p') \<Longrightarrow> playground_reached p'"
| reap: "playground_reached p \<Longrightarrow> reaper_tick p = (u, p') \<Longrightarrow> playground_reached p'"
| elsewhere: "playground_reached p \<Longrightarrow> same_registry p' = same_registry p \<Longrightarrow> playground_reached p'"

lemma capsD: "steps_in caps_kept m \<Longrightarrow> m p = (r, p') \<Longrightarrow> within_caps p \<Longrightarrow> within_caps p'"
  using steps_inD [of caps_kept m p r p'] by (simp add: caps_kept_def)

lemma reached_within_caps: "playground_reached p \<Longrightarrow> within_caps p"
proof (induction rule: playground_reached.induct)
  case (boot p)
  then show ?case by (simp add: within_caps_def)
next
  case (create p ports ip r p')
  then show ?case using capsD [OF capping_create] by blast
next
  case (check p ip u p')
  then show ?case using capsD [OF capping_assertSessionAllowed] by blast
next
  case (enrol p info u p')
  then show ?case using capsD [OF capping_register] by blast
next
  case (admit p i u p')
  then show ?case using capsD [OF capping_admit] by blast
next
  case (touch p i u p')
  then show ?case using capsD [OF capping_touch] by blast
next
  case (recycle p i role u p')
  then show ?case using capsD [OF capping_recycle] by blast
next
  case (sweep p b n p')
  then show ?case using capsD [OF capping_sweep] by blast
next
  case (reap p u p')
  then show ?case using capsD [OF capping_tick] by blast
next
  case (elsewhere p p')
  then show ?case using within_same by blast
qed


definition sample_tables :: playground_tables where
  "sample_tables = \<lparr>yt_workspaces = [], yt_roles = [], yt_users = [], yt_members = [], yt_objects = [],
     yt_objectPermissions = [], yt_agents = [], yt_guardrailLogs = []\<rparr>"

definition sample_playground :: playground where
  "sample_playground = \<lparr>yg_sessions = [], yg_ipWindows = (\<lambda>_. None), yg_tables = sample_tables,
     yg_store = empty_world [] None\<rparr>"

definition sample_session :: "string \<Rightarrow> session_info" where
  "sample_session i = \<lparr>ys_workspaceId = i, ys_userId = ''u'', ys_roleId = ''r'', ys_ip = ''ip'', ys_lastActiveAt = 0,
     ys_executions = 0, ys_decisions = 0\<rparr>"


section \<open>A recycled session leaves nothing\<close>

record all_rows =
  ar_tables :: playground_tables
  ar_approvals :: "approval_instance list"
  ar_executions :: "agent_execution list"
  ar_events :: "outbox_event list"

definition rows_of :: "playground \<Rightarrow> all_rows" where
  "rows_of p = \<lparr>ar_tables = yg_tables p, ar_approvals = approvals (yg_store p),
     ar_executions = executions (yg_store p), ar_events = outbox_events (yg_store p)\<rparr>"

definition without :: "string \<Rightarrow> string \<Rightarrow> string \<Rightarrow> all_rows \<Rightarrow> all_rows" where
  "without ws role user r =
     \<lparr>ar_tables =
        \<lparr>yt_workspaces = filter (\<lambda>q. wk_id q \<noteq> ws) (yt_workspaces (ar_tables r)),
         yt_roles = filter (\<lambda>q. rl_id q \<noteq> role) (yt_roles (ar_tables r)),
         yt_users = filter (\<lambda>v. us_id v \<noteq> user) (yt_users (ar_tables r)),
         yt_members = filter (\<lambda>m. mb_workspaceId m \<noteq> ws) (yt_members (ar_tables r)),
         yt_objects = filter (\<lambda>q. oj_workspaceId q \<noteq> ws) (yt_objects (ar_tables r)),
         yt_objectPermissions = filter (\<lambda>q. pe_roleId q \<noteq> role) (yt_objectPermissions (ar_tables r)),
         yt_agents = filter (\<lambda>a. an_workspaceId a \<noteq> ws) (yt_agents (ar_tables r)),
         yt_guardrailLogs = filter (\<lambda>g. fst g \<noteq> ws) (yt_guardrailLogs (ar_tables r))\<rparr>,
      ar_approvals = filter (\<lambda>a. ai_workspaceId a \<noteq> ws) (ar_approvals r),
      ar_executions = filter (\<lambda>e. ex_workspaceId e \<noteq> ws) (ar_executions r),
      ar_events = filter (\<lambda>e. oe_workspaceId e \<noteq> ws) (ar_events r)\<rparr>"

text \<open>The identifiers that a row holds where the recycling looks.\<close>

definition keys_used :: "all_rows \<Rightarrow> string set" where
  "keys_used r = (let t = ar_tables r in
     wk_id ` set (yt_workspaces t) \<union> rl_id ` set (yt_roles t) \<union> us_id ` set (yt_users t)
     \<union> mb_workspaceId ` set (yt_members t) \<union> oj_workspaceId ` set (yt_objects t)
     \<union> pe_roleId ` set (yt_objectPermissions t) \<union> an_workspaceId ` set (yt_agents t)
     \<union> fst ` set (yt_guardrailLogs t) \<union> ai_workspaceId ` set (ar_approvals r)
     \<union> ex_workspaceId ` set (ar_executions r) \<union> oe_workspaceId ` set (ar_events r))"

lemma recycle_removes:
  assumes "tb_find (\<lambda>u. us_defaultWorkspaceId u = Some ws) (yt_users (yg_tables p)) = Some u"
    "us_roleId u = Some role" "role \<noteq> []"
  shows "\<exists>p'. recycleWorkspace ws None p = (Inr (), p') \<and> rows_of p' = without ws role (us_id u) (rows_of p)
    \<and> yg_sessions p' = map_remove ws (yg_sessions p)"
  using assms
  by (simp add: recycleWorkspace_def when_truthy_def in_tables_def delete_executions_def forget_session_def
      eff_simps Let_def rows_of_def without_def)

lemma without_id: "keys_used r \<inter> {ws, role, user} = {} \<Longrightarrow> without ws role user r = r"
proof -
  assume new: "keys_used r \<inter> {ws, role, user} = {}"
  have id: "filter P xs = xs" if "\<And>x. x \<in> set xs \<Longrightarrow> P x" for P :: "'x \<Rightarrow> bool" and xs
    using that by (simp add: filter_id_conv)
  show ?thesis
    unfolding without_def using new
    by (cases r; cases "ar_tables r") (auto simp: keys_used_def Let_def filter_id_conv)
qed

lemma fresh_ids_new:
  assumes "inj (uuid_of w)" "K \<subseteq> issued w" "next_uuid w \<le> n" shows "uuid_of w n \<notin> K"
proof
  assume "uuid_of w n \<in> K"
  then obtain m where "uuid_of w n = uuid_of w m" "m < next_uuid w" using assms(2) by (auto simp: issued_def)
  then show False using assms(1,3) by (simp add: inj_eq)
qed

definition base_of :: "playground \<Rightarrow> all_rows \<times> (nat \<Rightarrow> string) \<times> nat" where
  "base_of p = (rows_of p, uuid_of (yg_store p), next_uuid (yg_store p))"

lemma base_now: "keeps base_of (in_store now)"
  by (rule keepsI) (auto simp: eff_simps base_of_def rows_of_def)

lemma base_windowFor: "keeps base_of (windowFor ip)"
proof -
  have "keeps base_of (put_window i win)" for i win
    unfolding put_window_def by (rule keeps_modify) (simp add: base_of_def rows_of_def)
  then show ?thesis unfolding windowFor_def Let_def by (intro keeps_rules base_now)
qed

lemma base_assertSessionAllowed: "keeps base_of (assertSessionAllowed ip)"
  unfolding assertSessionAllowed_def by (intro keeps_rules base_windowFor)

lemma register_session_outcome:
  assumes "register_session info p = (r, p')"
  shows "base_of p' = base_of p" "map_of (yg_sessions p') = (map_of (yg_sessions p))(ys_workspaceId info \<mapsto> info)"
proof -
  obtain win q where q: "windowFor (ys_ip info) p = (Inr win, q)" "yg_ipWindows q = (yg_ipWindows p)(ys_ip info \<mapsto> win)"
    "yg_sessions q = yg_sessions p" "yg_ipWindows p (ys_ip info) = Some win \<or> yw_executions win = 0 \<and> yw_sessions win = 0"
    by (rule windowFor_outcome)
  have "base_of q = base_of p" using base_windowFor q(1) by (rule keepsD)
  then show "base_of p' = base_of p" "map_of (yg_sessions p') = (map_of (yg_sessions p))(ys_workspaceId info \<mapsto> info)"
    using assms q by (auto simp: register_session_def put_window_def put_session_def eff_simps base_of_def rows_of_def)
qed

lemma draw_ids_outcome:
  assumes "draw_ids p = (Inr i, p')"
  shows "p' = p\<lparr>yg_store := (yg_store p)\<lparr>next_uuid := next_uuid (yg_store p) + 8\<rparr>\<rparr>"
    "yi_workspace i = uuid_of (yg_store p) (next_uuid (yg_store p))"
    "yi_role i = uuid_of (yg_store p) (next_uuid (yg_store p) + 1)"
    "yi_user i = uuid_of (yg_store p) (next_uuid (yg_store p) + 2)"
  using assms by (auto simp: draw_ids_def eff_simps)

definition session_tables :: "session_ids \<Rightarrow> string \<Rightarrow> playground_tables \<Rightarrow> playground_tables" where
  "session_tables i hash t =
       \<lparr>yt_workspaces = yt_workspaces t @ [\<lparr>wk_id = yi_workspace i, wk_displayName = ''Playground '' @ yi_short i\<rparr>],
        yt_roles = yt_roles t @ [\<lparr>rl_id = yi_role i, rl_workspaceId = yi_workspace i,
          rl_label = ''Playground Visitor'', rl_apiName = ''pg_visitor_'' @ yi_short i, rl_name = ''PlaygroundVisitor'',
          rl_isActive = True\<rparr>],
        yt_users = yt_users t @ [session_user i hash],
        yt_members = yt_members t @ [\<lparr>mb_id = yi_member i, mb_workspaceId = yi_workspace i,
          mb_userId = yi_user i, mb_firstName = ''Playground'', mb_lastName = ''Visitor''\<rparr>],
        yt_objects = yt_objects t @ [\<lparr>oj_id = yi_object i, oj_workspaceId = yi_workspace i,
          oj_nameSingular = ''Contact'', oj_namePlural = ''Contacts'', oj_labelSingular = ''Contact'',
          oj_labelPlural = ''Contacts''\<rparr>],
        yt_objectPermissions = yt_objectPermissions t @ [\<lparr>pe_id = yi_permission i, pe_roleId = yi_role i,
          pe_objectMetadataId = yi_object i, pe_canRead = True, pe_canCreate = True, pe_canEdit = True,
          pe_canDelete = True\<rparr>],
        yt_agents = yt_agents t @ [session_agent i],
        yt_guardrailLogs = yt_guardrailLogs t\<rparr>"

lemma insert_session_rows_outcome:
  assumes "insert_session_rows ports i p = (Inr u, p')"
  obtains hash where "yg_tables p' = session_tables i hash (yg_tables p)"
    "yg_store p' = (yg_store p)\<lparr>next_uuid := Suc (next_uuid (yg_store p))\<rparr>" "yg_sessions p' = yg_sessions p"
proof (cases "yv_hash ports (uuid_of (yg_store p) (next_uuid (yg_store p)))")
  case (Inl e)
  then show ?thesis using assms by (simp add: insert_session_rows_def in_tables_def eff_simps)
next
  case (Inr hash)
  show ?thesis
    using assms Inr
    by (intro that [of hash]) (auto simp: insert_session_rows_def in_tables_def eff_simps tb_insert_def session_tables_def)
qed

text \<open>What the creation of a session writes.\<close>

lemma createSession_rows:
  assumes "createSession ports ip p = (Inr c, p')"
  obtains i hash where
    "rows_of p' = (rows_of p)\<lparr>ar_tables := session_tables i hash (yg_tables p)\<rparr>"
    "yc_workspaceId c = yi_workspace i"
    "\<exists>s. map_of (yg_sessions p') (yi_workspace i) = Some s \<and> ys_userId s = yi_user i \<and> ys_roleId s = yi_role i"
    "\<exists>a b d. next_uuid (yg_store p) \<le> a \<and> next_uuid (yg_store p) \<le> b \<and> next_uuid (yg_store p) \<le> d
       \<and> yi_workspace i = uuid_of (yg_store p) a \<and> yi_role i = uuid_of (yg_store p) b \<and> yi_user i = uuid_of (yg_store p) d"
proof -
  obtain q1 i q2 u1 q3 token q4 t q5 u2 q6 t' q7 where
    run: "assertSessionAllowed ip p = (Inr (), q1)" "draw_ids q1 = (Inr i, q2)"
      "insert_session_rows ports i q2 = (Inr u1, q3)" "in_store now q4 = (Inr t, q5)" "q4 = q3"
      "register_session \<lparr>ys_workspaceId = yi_workspace i, ys_userId = yi_user i, ys_roleId = yi_role i, ys_ip = ip,
             ys_lastActiveAt = t, ys_executions = 0, ys_decisions = 0\<rparr> q5 = (Inr u2, q6)"
      "in_store now q6 = (Inr t', p')" "yc_workspaceId c = yi_workspace i"
    using assms unfolding createSession_def
    by (elim seqE_elim bindE_elim) (auto simp: lift_result_apply ret_apply)
  have base: "base_of q1 = base_of p" using base_assertSessionAllowed run(1) by (rule keepsD)
  note ids = draw_ids_outcome [OF run(2)]
  obtain hash where ins: "yg_tables q3 = session_tables i hash (yg_tables q2)"
    "yg_store q3 = (yg_store q2)\<lparr>next_uuid := Suc (next_uuid (yg_store q2))\<rparr>" "yg_sessions q3 = yg_sessions q2"
    using run(3) by (rule insert_session_rows_outcome)
  have q5: "rows_of q5 = rows_of q3" using run(4,5) by (auto simp: eff_simps rows_of_def)
  note reg = register_session_outcome [OF run(6)]
  have p': "rows_of p' = rows_of q6" "yg_sessions p' = yg_sessions q6" using run(7) by (auto simp: eff_simps rows_of_def)
  show ?thesis
  proof (rule that)
    have "yg_tables q2 = yg_tables p" using base ids(1) by (simp add: base_of_def rows_of_def)
    then show "rows_of p' = (rows_of p)\<lparr>ar_tables := session_tables i hash (yg_tables p)\<rparr>"
      using p'(1) reg(1) q5 ins base ids(1) by (simp add: base_of_def rows_of_def)
    show "yc_workspaceId c = yi_workspace i" by (rule run(8))
    show "\<exists>s. map_of (yg_sessions p') (yi_workspace i) = Some s \<and> ys_userId s = yi_user i \<and> ys_roleId s = yi_role i"
      by (simp add: p'(2) reg(2))
    show "\<exists>a b d. next_uuid (yg_store p) \<le> a \<and> next_uuid (yg_store p) \<le> b \<and> next_uuid (yg_store p) \<le> d
       \<and> yi_workspace i = uuid_of (yg_store p) a \<and> yi_role i = uuid_of (yg_store p) b \<and> yi_user i = uuid_of (yg_store p) d"
      using ids base by (metis (no_types, lifting) base_of_def le_add1 le_refl prod.inject)
  qed
qed

lemma without_created:
  assumes "keys_used r \<inter> {yi_workspace i, yi_role i, yi_user i} = {}"
  shows "without (yi_workspace i) (yi_role i) (yi_user i) (r\<lparr>ar_tables := session_tables i hash (ar_tables r)\<rparr>) = r"
proof -
  have "without (yi_workspace i) (yi_role i) (yi_user i) (r\<lparr>ar_tables := session_tables i hash (ar_tables r)\<rparr>)
      = without (yi_workspace i) (yi_role i) (yi_user i) r"
    by (simp add: without_def session_tables_def session_user_def session_agent_def)
  then show ?thesis using without_id [OF assms] by simp
qed


definition sample_ports :: session_ports where
  "sample_ports = \<lparr>yv_hash = (\<lambda>_. Inr ''hash''), yv_sign = (\<lambda>u w r. Inr (''token-'' @ u))\<rparr>"

lemma sample_session_created: "\<exists>c p1. createSession sample_ports ''ip'' sample_playground = (Inr c, p1)"
  by (simp add: createSession_def assertSessionAllowed_def windowFor_def put_window_def draw_ids_def
      insert_session_rows_def in_tables_def register_session_def put_session_def registry_size_def sample_playground_def
      sample_ports_def empty_world_def playground_limits eff_simps Let_def)


section \<open>The reaper\<close>

definition sessions_keyed :: "playground \<Rightarrow> bool" where
  "sessions_keyed p \<longleftrightarrow> distinct (map fst (yg_sessions p)) \<and> (\<forall>(k, s)\<in>set (yg_sessions p). ys_workspaceId s = k)"

definition idle_at :: "int \<Rightarrow> session_info \<Rightarrow> bool" where
  "idle_at t s \<longleftrightarrow> t - ys_lastActiveAt s \<ge> 30 * 60000"

lemma recycle_sessions:
  "\<exists>p'. recycleWorkspace i r p = (Inr (), p') \<and> yg_sessions p' = map_remove i (yg_sessions p)"
  by (cases "tb_find (\<lambda>u. us_defaultWorkspaceId u = Some i) (yt_users (yg_tables p))")
    (auto simp: recycleWorkspace_def when_truthy_def in_tables_def delete_executions_def forget_session_def
      eff_simps Let_def split: option.split)

lemma recycle_each:
  "\<exists>p'. for_each (\<lambda>i. catchE (recycleWorkspace i None) (\<lambda>_. ret ())) is p = (Inr (), p')
     \<and> yg_sessions p' = filter (\<lambda>q. fst q \<notin> set is) (yg_sessions p)"
proof (induction "is" arbitrary: p)
  case (Cons i js)
  obtain q where q: "recycleWorkspace i None p = (Inr (), q)" "yg_sessions q = map_remove i (yg_sessions p)"
    using recycle_sessions by blast
  obtain p' where p': "for_each (\<lambda>i. catchE (recycleWorkspace i None) (\<lambda>_. ret ())) js q = (Inr (), p')"
    "yg_sessions p' = filter (\<lambda>x. fst x \<notin> set js) (yg_sessions q)"
    using Cons by blast
  have "catchE (recycleWorkspace i None) (\<lambda>_. ret ()) p = (Inr (), q)" by (simp add: catchE_apply q(1))
  then have "for_each (\<lambda>i. catchE (recycleWorkspace i None) (\<lambda>_. ret ())) (i # js) p = (Inr (), p')"
    by (simp add: seqE_apply p'(1))
  moreover have "yg_sessions p' = filter (\<lambda>x. fst x \<notin> set (i # js)) (yg_sessions p)"
    by (simp add: p'(2) q(2) map_remove_def conj_commute)
  ultimately show ?case by blast
qed (simp add: ret_apply)

text \<open>A tick ends exactly the sessions that were idle for half an hour when it began, and always returns.\<close>

lemma reaper_ends_idle_sessions:
  assumes "sessions_keyed p"
  shows "\<exists>p'. reaper_tick p = (Inr (), p') \<and>
    yg_sessions p' = filter (\<lambda>(k, s). \<not> idle_at (clock_of (yg_store p) (next_tick (yg_store p))) s) (yg_sessions p)"
proof -
  define t where "t = clock_of (yg_store p) (next_tick (yg_store p))"
  define q where "q = p\<lparr>yg_store := snd (now (yg_store p))\<rparr>"
  obtain p' where p': "for_each (\<lambda>i. catchE (recycleWorkspace i None) (\<lambda>_. ret ())) (expiredWorkspaceIds t q) q = (Inr (), p')"
    "yg_sessions p' = filter (\<lambda>x. fst x \<notin> set (expiredWorkspaceIds t q)) (yg_sessions q)"
    using recycle_each by blast
  have "reaper_tick p = (Inr (), p')"
    using p'(1) by (simp add: reaper_tick_def eff_simps t_def q_def)
  moreover have "(k \<notin> set (expiredWorkspaceIds t q)) = (\<not> idle_at t s)" if "(k, s) \<in> set (yg_sessions p)" for k s
  proof -
    have "s' = s" if "(k', s') \<in> set (yg_sessions p)" "ys_workspaceId s' = k" for k' s'
      using assms that \<open>(k, s) \<in> set (yg_sessions p)\<close>
      by (auto simp: sessions_keyed_def dest: eq_key_imp_eq_value)
    moreover have "ys_workspaceId s = k" using assms that by (auto simp: sessions_keyed_def)
    ultimately show ?thesis
      using that by (force simp: expiredWorkspaceIds_def q_def idle_at_def playground_limits)
  qed
  ultimately show ?thesis
    using p'(2) by (auto simp: q_def t_def intro!: exI [of _ p'] filter_cong)
qed

section \<open>Where the limits and the sweep go astray\<close>

text \<open>
  The creation of a session checks its limits, then waits for the database, then registers: four requests
  that check before the first of them registers all pass, and the address has four sessions of three.
\<close>

lemma concurrent_sessions_pass_the_limit:
  "let check = assertSessionAllowed ''ip'';
       run = seqE check (seqE check (seqE check (seqE check
         (for_each (\<lambda>i. register_session (sample_session i)) [''a'', ''b'', ''c'', ''d'']))));
       (r, p) = run sample_playground
   in r = Inr () \<and> registry_size p = 4 \<and> map_option yw_sessions (yg_ipWindows p ''ip'') = Some 4"
  by code_simp

text \<open>
  The window is called rolling, but it starts at the first request and is replaced as a whole after an
  hour: an address that was first seen an hour ago gets six sessions within a millisecond.
\<close>

definition edge_playground :: playground where
  "edge_playground = sample_playground\<lparr>yg_store := (empty_world [] None)\<lparr>clock_of :=
     (\<lambda>n. if n = 0 then 0 else if n < 7 then 3599999 else 3600000)\<rparr>\<rparr>"

definition create_in_memory :: "string \<Rightarrow> unit play" where
  "create_in_memory i = seqE (assertSessionAllowed ''ip'') (register_session (sample_session i))"

lemma window_is_not_rolling:
  "fst (seqE (assertSessionAllowed ''ip'') (for_each create_in_memory [''a'', ''b'', ''c'', ''d'', ''e'', ''f'']) edge_playground) = Inr ()"
  by code_simp

text \<open>
  The sweep at the start takes a workspace for a leftover session when its name begins with "Playground ".
\<close>

definition named_workspace :: playground where
  "named_workspace = sample_playground\<lparr>yg_tables := sample_tables\<lparr>
     yt_workspaces := [\<lparr>wk_id = ''w'', wk_displayName = ''Playground Toys Ltd''\<rparr>],
     yt_agents := [(session_agent \<lparr>yi_workspace = ''w'', yi_role = ''r'', yi_user = ''u'', yi_member = ''m'', yi_object = ''o'',
       yi_permission = ''p'', yi_agent = ''a'', yi_short = ''s''\<rparr>)\<lparr>an_description := None, an_prompt := None,
         an_guardrailRules := JNull\<rparr>]\<rparr>\<rparr>"

lemma sweep_deletes_named_workspace:
  "let p = snd (reaper_boot True named_workspace) in yt_workspaces (yg_tables p) = [] \<and> yt_agents (yg_tables p) = []"
  by code_simp

end
