(* ===== verification/Community_Console.thy ===== *)
theory Community_Console
  imports Playground Frames
begin

text \<open>
  The console of the community edition: \<open>packages/backend/src/community/runtime/\<close>
  (\<open>community-agent-runtime.resolver.ts\<close>, \<open>community-agent-growth.derivation.ts\<close>) and
  \<open>community/auth/\<close>.

  The operations run on the state of \<open>Playground\<close>. The executor is a port (\<open>React_Execution\<close> models it on a
  world of its own), as are the verification of tokens and of passwords. A transaction takes back what its
  manager wrote. An argument of GraphQL that is null or absent is \<open>None\<close> or \<open>JNull\<close>; a dash outside the
  characters of the model is a hyphen; the columns \<open>createdAt\<close> and \<open>updatedAt\<close> of agents are left out.
\<close>

section \<open>Authentication\<close>

record principal =
  cu_id :: string
  cu_roleId :: string
  cu_orgNodeId :: "string option"
  cu_defaultWorkspaceId :: string

record auth_ports =
  ku_verify :: "string \<Rightarrow> jobject option"
  ku_sign :: "jobject \<Rightarrow> string result"
  ku_compare :: "string \<Rightarrow> string \<Rightarrow> bool"

definition string_member :: "jobject \<Rightarrow> string \<Rightarrow> string option" where
  "string_member ps k = (case map_of ps k of Some (JStr s) \<Rightarrow> Some s | _ \<Rightarrow> None)"

definition optional_text :: "string \<Rightarrow> string option \<Rightarrow> jobject" where
  "optional_text k v = (case v of None \<Rightarrow> [] | Some s \<Rightarrow> [(k, JStr s)])"

definition signIn :: "auth_ports \<Rightarrow> string \<Rightarrow> string \<Rightarrow> (string \<times> string \<times> string \<times> int) play" where
  "signIn ports username password =
     bindE (reads (\<lambda>p. tb_find (\<lambda>u. us_username u = trim username) (yt_users (yg_tables p)))) (\<lambda>found.
     case found of
       None \<Rightarrow> throw ''Invalid username or password''
     | Some u \<Rightarrow>
         seqE (throw_if (\<not> us_isActive u \<or> us_isFrozen u \<or> us_isServiceAccount u \<or> \<not> us_hasPasswordSet u
                \<or> \<not> truthy (us_passwordHash u) \<or> \<not> truthy (us_roleId u) \<or> \<not> truthy (us_defaultWorkspaceId u)
                \<or> \<not> ku_compare ports password (nullish (us_passwordHash u) [])) ''Invalid username or password'')
        (let ws = nullish (us_defaultWorkspaceId u) [] in
         bindE (reads (\<lambda>p. tb_find (\<lambda>m. mb_userId m = us_id u \<and> mb_workspaceId m = ws) (yt_members (yg_tables p)))) (\<lambda>member.
         seqE (throw_if (member = None) ''Workspace membership is required'')
        (bindE (lift_result (ku_sign ports
                ([(''sub'', JStr (us_id u)), (''workspaceId'', JStr ws), (''roleId'', JStr (nullish (us_roleId u) []))]
                 @ optional_text ''orgNodeId'' (us_orgNodeId u) @ [(''tokenUse'', JStr ''community_access'')]))) (\<lambda>token.
         bindE (in_store now) (\<lambda>t. ret (token, us_id u, ws, t + 30 * 60 * 1000)))))))"

definition authenticate :: "auth_ports \<Rightarrow> string \<Rightarrow> principal play" where
  "authenticate ports token =
     (case ku_verify ports token of
        None \<Rightarrow> throw ''Invalid access token''
      | Some payload \<Rightarrow>
          (case (string_member payload ''sub'', string_member payload ''workspaceId'') of
             (Some sub, Some ws) \<Rightarrow>
               if map_of payload ''tokenUse'' \<noteq> Some (JStr ''community_access'') then throw ''Invalid access token''
               else
                 bindE (reads (\<lambda>p. tb_find (\<lambda>u. us_id u = sub) (yt_users (yg_tables p)))) (\<lambda>user.
                 bindE (reads (\<lambda>p. tb_find (\<lambda>m. mb_userId m = sub \<and> mb_workspaceId m = ws) (yt_members (yg_tables p)))) (\<lambda>member.
                 case (user, member) of
                   (Some u, Some _) \<Rightarrow>
                     seqE (throw_if (\<not> us_isActive u \<or> us_isFrozen u \<or> us_isServiceAccount u \<or> \<not> truthy (us_roleId u))
                            ''Access token principal is unavailable'')
                       (ret \<lparr>cu_id = us_id u, cu_roleId = nullish (us_roleId u) [], cu_orgNodeId = us_orgNodeId u,
                             cu_defaultWorkspaceId = ws\<rparr>)
                 | _ \<Rightarrow> throw ''Access token principal is unavailable''))
           | _ \<Rightarrow> throw ''Invalid access token''))"

text \<open>The match of \<open>/^Bearer\s+(.+)$/i\<close>: when only white space follows, the group is its last character.\<close>

definition no_break :: "string \<Rightarrow> bool" where
  "no_break s \<longleftrightarrow> list_all (\<lambda>c. c \<noteq> CHR 0x0A \<and> c \<noteq> CHR 0x0D) s"

definition bearer_token :: "string \<Rightarrow> string option" where
  "bearer_token header =
     (case after_word ''bearer'' header of
        None \<Rightarrow> None
      | Some rest \<Rightarrow>
          (let t = dropWhile is_space rest in
           if length t = length rest then None
           else if t \<noteq> [] then (if no_break t then Some t else None)
           else if length rest \<ge> 2 \<and> no_break [last rest] then Some [last rest] else None))"

definition canActivate :: "auth_ports \<Rightarrow> string option \<Rightarrow> principal play" where
  "canActivate ports authorization =
     (case Option.bind authorization bearer_token of
        None \<Rightarrow> throw ''Bearer token is required''
      | Some token \<Rightarrow> authenticate ports token)"

section \<open>Transactions and ports\<close>

record console_ports =
  kx_transport :: transport
  kx_runSync :: "principal \<Rightarrow> string \<Rightarrow> string \<Rightarrow> string act"
  kx_execute :: "agent_execution \<Rightarrow> string \<Rightarrow> jobject \<Rightarrow> unit act"

text \<open>A write of the manager and one event, in a transaction.\<close>

definition write_with_event :: "console_ports \<Rightarrow> (playground \<Rightarrow> playground) \<Rightarrow> outbox_input \<Rightarrow> unit play" where
  "write_with_event ports write event = (\<lambda>p.
     case in_store (runInTransaction (kx_transport ports) (seqE (enqueue event) (ret ()))) (write p) of
       (Inl e, q) \<Rightarrow>
         (Inl e, q\<lparr>yg_tables := yg_tables p, yg_store := (yg_store q)\<lparr>executions := executions (yg_store p)\<rparr>\<rparr>)
     | (Inr u, q) \<Rightarrow> (Inr u, q))"

definition console_event :: "string \<Rightarrow> string \<Rightarrow> string \<Rightarrow> string \<Rightarrow> jobject \<Rightarrow> outbox_input" where
  "console_event workspaceId eventType aggregateType aggregateId payload =
     \<lparr>oi_workspaceId = workspaceId, oi_topic = AGENT_EVENTS, oi_eventType = eventType,
      oi_aggregateType = aggregateType, oi_aggregateId = aggregateId, oi_payload = payload, oi_idempotencyKey = None\<rparr>"

section \<open>Running an agent, and the lists\<close>

definition executeAgent :: "console_ports \<Rightarrow> principal \<Rightarrow> string \<Rightarrow> string \<Rightarrow> agent_execution play" where
  "executeAgent ports me agentId inp =
     (let text = trim inp; ws = cu_defaultWorkspaceId me in
      seqE (throw_if (text = []) ''Agent task input must not be empty'')
     (seqE (admit_execution ws)
     (bindE (in_store (kx_runSync ports me agentId text)) (\<lambda>executionId.
      bindE (reads (\<lambda>p. tb_find (\<lambda>e. ex_id e = executionId \<and> ex_workspaceId e = ws) (executions (yg_store p)))) (\<lambda>found.
      of_option ''Execution audit row not found'' found)))))"

definition list_limit :: "int \<Rightarrow> nat" where
  "list_limit limit = nat (min (max limit 1) 50)"

definition own_execution :: "principal \<Rightarrow> string \<Rightarrow> playground \<Rightarrow> agent_execution option" where
  "own_execution me i p =
     tb_find (\<lambda>e. ex_id e = i \<and> ex_workspaceId e = cu_defaultWorkspaceId me) (executions (yg_store p))"

definition listExecutions :: "principal \<Rightarrow> int \<Rightarrow> playground \<Rightarrow> agent_execution list" where
  "listExecutions me limit p =
     take (list_limit limit) (sort_key (\<lambda>e. - ex_createdAt e)
       (filter (\<lambda>e. ex_workspaceId e = cu_defaultWorkspaceId me) (executions (yg_store p))))"

text \<open>The first entry whose text after the marker is an object with a name.\<close>

definition paused_of_text :: "string \<Rightarrow> jobject option" where
  "paused_of_text comments =
     (case index_of PAUSED_MARKER comments of
        None \<Rightarrow> None
      | Some i \<Rightarrow>
          (case parse_json (drop (i + length PAUSED_MARKER) comments) of
             Some (JObj ps) \<Rightarrow> if string_member ps ''toolName'' \<noteq> None then Some ps else None
           | _ \<Rightarrow> None))"

fun parsePausedToolCall :: "history_entry list \<Rightarrow> jobject option" where
  "parsePausedToolCall [] = None"
| "parsePausedToolCall (e # es) =
     (case paused_of_text (nullish (he_comments e) []) of Some ps \<Rightarrow> Some ps | None \<Rightarrow> parsePausedToolCall es)"

definition paused_name :: "jobject \<Rightarrow> string" where
  "paused_name ps = nullish (string_member ps ''toolName'') []"

record pending_view =
  kd_id :: string
  kd_executionId :: string
  kd_toolName :: string
  kd_riskLevel :: "json option"
  kd_description :: "json option"
  kd_toolInput :: json
  kd_submittedAt :: int

definition pending_view_of :: "approval_instance \<Rightarrow> jobject \<Rightarrow> pending_view" where
  "pending_view_of a ps =
     \<lparr>kd_id = ai_id a, kd_executionId = ai_recordId a, kd_toolName = paused_name ps,
      kd_riskLevel = map_of ps ''riskLevel'', kd_description = map_of ps ''description'',
      kd_toolInput = (case map_of ps ''toolInput'' of None \<Rightarrow> JObj [] | Some JNull \<Rightarrow> JObj [] | Some v \<Rightarrow> v),
      kd_submittedAt = ai_submittedAt a\<rparr>"

definition pendingApprovals :: "principal \<Rightarrow> playground \<Rightarrow> pending_view list" where
  "pendingApprovals me p =
     List.map_filter (\<lambda>a. map_option (pending_view_of a) (parsePausedToolCall (ai_history a)))
       (sort_key ai_submittedAt
         (filter (\<lambda>a. ai_workspaceId a = cu_defaultWorkspaceId me \<and> ai_status a = PENDING
                   \<and> ai_objectName a = ''AgentExecution'') (approvals (yg_store p))))"

definition executionEvents :: "principal \<Rightarrow> string \<Rightarrow> playground \<Rightarrow> outbox_event list" where
  "executionEvents me executionId p =
     take 100 (sort_key oe_createdAt
       (filter (\<lambda>e. oe_workspaceId e = cu_defaultWorkspaceId me \<and> oe_aggregateType e = ''AgentExecution''
                 \<and> oe_aggregateId e = executionId) (outbox_events (yg_store p))))"

definition recentEvents :: "principal \<Rightarrow> int \<Rightarrow> playground \<Rightarrow> outbox_event list" where
  "recentEvents me limit p =
     take (list_limit limit) (sort_key (\<lambda>e. - oe_createdAt e)
       (filter (\<lambda>e. oe_workspaceId e = cu_defaultWorkspaceId me
                 \<and> oe_aggregateType e \<in> {''AgentExecution'', ''Agent''}) (outbox_events (yg_store p))))"

record decided_view =
  kh_id :: string
  kh_executionId :: string
  kh_decision :: approval_status
  kh_toolName :: string
  kh_riskLevel :: json
  kh_comment :: "string option"
  kh_actorName :: "string option"
  kh_decidedAt :: "int option"
  kh_submittedAt :: int

definition decided_action :: "history_action \<Rightarrow> bool" where
  "decided_action a \<longleftrightarrow> a = Approve \<or> a = Reject"

text \<open>A row without \<open>completedAt\<close> shows the time of the query, here \<open>None\<close>.\<close>

definition decided_view_of :: "approval_instance \<Rightarrow> decided_view" where
  "decided_view_of a =
     (let paused = parsePausedToolCall (ai_history a);
          terminal = find (\<lambda>e. decided_action (he_action e)) (rev (ai_history a));
          comment = Option.bind terminal he_comments in
      \<lparr>kh_id = ai_id a, kh_executionId = ai_recordId a, kh_decision = ai_status a,
       kh_toolName = (case paused of None \<Rightarrow> [] | Some ps \<Rightarrow> paused_name ps),
       kh_riskLevel = (case Option.bind paused (\<lambda>ps. map_of ps ''riskLevel'') of
                         None \<Rightarrow> JStr [] | Some JNull \<Rightarrow> JStr [] | Some v \<Rightarrow> v),
       kh_comment = (if truthy (map_option trim comment) then comment else None),
       kh_actorName = map_option he_actorName terminal, kh_decidedAt = ai_completedAt a,
       kh_submittedAt = ai_submittedAt a\<rparr>)"

text \<open>Descending order puts a missing date first.\<close>

definition latest_first :: "approval_instance list \<Rightarrow> approval_instance list" where
  "latest_first as = filter (\<lambda>a. ai_completedAt a = None) as
     @ sort_key (\<lambda>a. - nullish (ai_completedAt a) 0) (filter (\<lambda>a. ai_completedAt a \<noteq> None) as)"

definition approvalHistory :: "principal \<Rightarrow> int \<Rightarrow> playground \<Rightarrow> decided_view list" where
  "approvalHistory me limit p =
     map decided_view_of (take (list_limit limit) (latest_first
       (filter (\<lambda>a. ai_workspaceId a = cu_defaultWorkspaceId me \<and> ai_status a \<in> {APPROVED, REJECTED}
                 \<and> ai_objectName a = ''AgentExecution'') (approvals (yg_store p)))))"

section \<open>Decisions\<close>

definition upper_ascii :: "char \<Rightarrow> char" where
  "upper_ascii c = (if 97 \<le> code_of c \<and> code_of c \<le> 122 then char_of (code_of c - 32) else c)"

definition decision_of :: "string \<Rightarrow> decision_action option" where
  "decision_of decision =
     (let normalized = map upper_ascii (trim decision) in
      if normalized = ''APPROVED'' then Some ApproveDecision
      else if normalized = ''REJECTED'' then Some RejectDecision else None)"

text \<open>What a decision reads: the instance, the stored call and the execution, all of them checked.\<close>

definition decide_read :: "principal \<Rightarrow> string \<Rightarrow> (approval_instance \<times> jobject \<times> agent_execution) play" where
  "decide_read me instanceId =
     (let ws = cu_defaultWorkspaceId me in
      seqE (touch_session ws)
     (bindE (reads (\<lambda>p. tb_find (\<lambda>a. ai_id a = instanceId \<and> ai_workspaceId a = ws) (approvals (yg_store p)))) (\<lambda>found.
      bindE (of_option ''Approval instance not found'' found) (\<lambda>inst.
      seqE (throw_if (ai_objectName inst \<noteq> ''AgentExecution'') ''Approval instance not found'')
     (seqE (throw_if (ai_status inst \<noteq> PENDING) ''APPROVAL_ALREADY_DECIDED'')
     (bindE (of_option ''APPROVAL_PAUSED_TOOL_CALL_MISSING'' (parsePausedToolCall (ai_history inst))) (\<lambda>paused.
      bindE (reads (\<lambda>p. tb_find (\<lambda>e. ex_id e = ai_recordId inst \<and> ex_workspaceId e = ws) (executions (yg_store p)))) (\<lambda>found'.
      bindE (of_option ''Paused execution not found'' found') (\<lambda>execution.
      seqE (throw_if (ex_status execution \<noteq> GuardrailPending) ''EXECUTION_NOT_AWAITING_APPROVAL'')
        (ret (inst, paused, execution)))))))))))"

definition decided_instance :: "principal \<Rightarrow> decision_action \<Rightarrow> string option \<Rightarrow> int \<Rightarrow> approval_instance \<Rightarrow> approval_instance" where
  "decided_instance me action comment t inst =
     inst\<lparr>ai_history := ai_history inst @
        [\<lparr>he_stepIndex = ai_currentStepIndex inst + 1, he_stepName = ''Agent Sensitive Operation'',
          he_action = history_action_of action, he_actorId = cu_id me, he_actorName = ''Community Console'',
          he_comments = Some (nullish comment []), he_timestamp = t, he_queueContext = None\<rparr>],
      ai_status := (case action of ApproveDecision \<Rightarrow> APPROVED | RejectDecision \<Rightarrow> REJECTED),
      ai_completedAt := Some t\<rparr>"

text \<open>\<open>save\<close>: the row with the key of the entity is replaced; a row that is gone is inserted.\<close>

definition save_approval :: "approval_instance \<Rightarrow> unit act" where
  "save_approval a = modify (\<lambda>w.
     if ai_id a \<in> ai_id ` set (approvals w)
     then w\<lparr>approvals := tb_update (\<lambda>x. ai_id x = ai_id a) (\<lambda>_. a) (approvals w)\<rparr>
     else w\<lparr>approvals := tb_insert a (approvals w)\<rparr>)"

definition cancelled_event :: "principal \<Rightarrow> approval_instance \<Rightarrow> jobject \<Rightarrow> agent_execution \<Rightarrow> outbox_input" where
  "cancelled_event me inst paused execution =
     console_event (cu_defaultWorkspaceId me) ''agent.execution.cancelled'' ''AgentExecution'' (ex_id execution)
       ([(''workspaceId'', JStr (cu_defaultWorkspaceId me)), (''executionId'', JStr (ex_id execution)),
         (''approvalInstanceId'', JStr (ai_id inst)), (''decision'', JStr ''rejected''),
         (''decidedBy'', JStr (cu_id me)), (''toolName'', JStr (paused_name paused))]
        @ (case map_of paused ''riskLevel'' of None \<Rightarrow> [] | Some v \<Rightarrow> [(''riskLevel'', v)]))"

definition paused_context :: "jobject \<Rightarrow> jobject" where
  "paused_context paused =
     [(''toolName'', JStr (paused_name paused))]
     @ (case map_of paused ''toolInput'' of None \<Rightarrow> [] | Some v \<Rightarrow> [(''toolInput'', v)])
     @ (case map_of paused ''riskLevel'' of None \<Rightarrow> [] | Some v \<Rightarrow> [(''riskLevel'', v)])
     @ [(''description'', case map_of paused ''description'' of
           None \<Rightarrow> JStr (paused_name paused) | Some JNull \<Rightarrow> JStr (paused_name paused) | Some v \<Rightarrow> v)]"

definition set_execution :: "string \<Rightarrow> (agent_execution \<Rightarrow> agent_execution) \<Rightarrow> playground \<Rightarrow> playground" where
  "set_execution i f p = p\<lparr>yg_store := (yg_store p)\<lparr>executions := tb_update (\<lambda>e. ex_id e = i) f (executions (yg_store p))\<rparr>\<rparr>"

record decision_result =
  kc_instanceId :: string
  kc_decision :: decision_action
  kc_executionId :: string
  kc_executionStatus :: execution_status

definition decide_write ::
    "console_ports \<Rightarrow> principal \<Rightarrow> decision_action \<Rightarrow> string option \<Rightarrow>
     approval_instance \<times> jobject \<times> agent_execution \<Rightarrow> decision_result play" where
  "decide_write ports me action comment subject =
     (case subject of (inst, paused, execution) \<Rightarrow>
      bindE (in_store now) (\<lambda>decidedAt.
      seqE (in_store (save_approval (decided_instance me action comment decidedAt inst)))
     (case action of
        RejectDecision \<Rightarrow>
          seqE (write_with_event ports
                 (set_execution (ex_id execution) (\<lambda>e. e\<lparr>ex_status := Cancelled, ex_completedAt := Some decidedAt\<rparr>))
                 (cancelled_event me inst paused execution))
            (ret \<lparr>kc_instanceId = ai_id inst, kc_decision = action, kc_executionId = ex_id execution,
                  kc_executionStatus = Cancelled\<rparr>)
      | ApproveDecision \<Rightarrow>
          bindE (lift_result (handleStateTransition (ex_status execution) Running)) (\<lambda>validated.
          seqE (modify (set_execution (ex_id execution) (\<lambda>e. e\<lparr>ex_status := validated\<rparr>)))
         (seqE (in_store (kx_execute ports (execution\<lparr>ex_status := validated\<rparr>) (ai_id inst) (paused_context paused)))
         (bindE (reads (\<lambda>p. tb_find (\<lambda>e. ex_id e = ex_id execution \<and> ex_workspaceId e = cu_defaultWorkspaceId me)
                  (executions (yg_store p)))) (\<lambda>refreshed.
          ret \<lparr>kc_instanceId = ai_id inst, kc_decision = action, kc_executionId = ex_id execution,
               kc_executionStatus = (case refreshed of Some e \<Rightarrow> ex_status e | None \<Rightarrow> validated)\<rparr>)))))))"

definition decideApproval ::
    "console_ports \<Rightarrow> principal \<Rightarrow> string \<Rightarrow> string \<Rightarrow> string option \<Rightarrow> decision_result play" where
  "decideApproval ports me instanceId decision comment =
     (case decision_of decision of
        None \<Rightarrow> throw ''Decision must be APPROVED or REJECTED''
      | Some action \<Rightarrow> bindE (decide_read me instanceId) (decide_write ports me action comment))"

section \<open>Configuration of agents\<close>

record execution_constraints =
  kz_maxReActIterations :: "int option"
  kz_timeoutMs :: "int option"

record agent_config =
  kz_prompt :: "json option"
  kz_allowedTools :: "json option"
  kz_sensitiveOps :: "json option"
  kz_execution :: "execution_constraints option"

definition given :: "json option \<Rightarrow> json option" where
  "given v = (if v = Some JNull then None else v)"

definition asRecord :: "json option \<Rightarrow> jobject" where
  "asRecord v = (case v of Some (JObj ps) \<Rightarrow> ps | _ \<Rightarrow> [])"

definition and_then :: "'a result \<Rightarrow> ('a \<Rightarrow> 'b result) \<Rightarrow> 'b result" where
  "and_then r f = (case r of Inl e \<Rightarrow> Inl e | Inr a \<Rightarrow> f a)"

definition resolveExecutionConstraints :: "execution_constraints \<Rightarrow> jobject \<Rightarrow> jobject result" where
  "resolveExecutionConstraints inp base =
     and_then (case kz_maxReActIterations inp of
        Some steps \<Rightarrow>
          if steps < 1 \<or> steps > 50 then Inl ''maxReActIterations must be an integer between 1 and 50''
          else Inr (map_set ''maxReActIterations'' (JNum steps) base)
      | None \<Rightarrow> Inr base)
     (\<lambda>execution.
     case kz_timeoutMs inp of
        Some timeout \<Rightarrow>
          if timeout < 1000 \<or> timeout > 600000 then Inl ''timeoutMs must be between 1000 and 600000''
          else Inr (map_set ''timeoutMs'' (JNum timeout) execution)
      | None \<Rightarrow> Inr execution)"

definition RISK_LEVELS :: "string list" where "RISK_LEVELS = [''L0'', ''L1'', ''L2'', ''L3'', ''L4'']"
definition RULE_ACTIONS :: "string list" where
  "RULE_ACTIONS = [''allow'', ''audit'', ''confirm'', ''approve'', ''block'']"

definition non_empty_member :: "jobject \<Rightarrow> string \<Rightarrow> bool" where
  "non_empty_member rule k \<longleftrightarrow> truthy (string_member rule k)"

definition member_among :: "jobject \<Rightarrow> string \<Rightarrow> string list \<Rightarrow> bool" where
  "member_among rule k values \<longleftrightarrow> (case string_member rule k of None \<Rightarrow> False | Some s \<Rightarrow> s \<in> set values)"

definition rule_error :: "json \<Rightarrow> string option" where
  "rule_error row =
     (case row of
        JObj rule \<Rightarrow>
          (let named = (\<lambda>text. Some (''Rule \"'' @ nullish (string_member rule ''operation'') [] @ ''\": '' @ text)) in
           if \<not> non_empty_member rule ''operation'' then Some ''Each rule needs a non-empty operation''
           else if \<not> non_empty_member rule ''toolPattern'' then named ''toolPattern must be a non-empty string''
           else if \<not> member_among rule ''riskLevel'' RISK_LEVELS then named ''riskLevel must be one of L0-L4''
           else if \<not> member_among rule ''action'' RULE_ACTIONS
           then named ''action must be allow|audit|confirm|approve|block''
           else if given (map_of rule ''description'') \<noteq> None \<and> string_member rule ''description'' = None
           then named ''description must be a string''
           else None)
      | _ \<Rightarrow> Some ''Each sensitive-op rule must be an object'')"

fun first_rule_error :: "json list \<Rightarrow> string option" where
  "first_rule_error [] = None"
| "first_rule_error (r # rs) = (case rule_error r of Some e \<Rightarrow> Some e | None \<Rightarrow> first_rule_error rs)"

definition validateSensitiveOps :: "json \<Rightarrow> unit result" where
  "validateSensitiveOps rows =
     (case rows of
        JArr rs \<Rightarrow> (case first_rule_error rs of Some e \<Rightarrow> Inl e | None \<Rightarrow> Inr ())
      | _ \<Rightarrow> Inl ''sensitiveOps must be an array of rules'')"

definition tool_names :: "json \<Rightarrow> bool" where
  "tool_names v \<longleftrightarrow> (case v of JArr vs \<Rightarrow> list_all (\<lambda>t. case t of JStr s \<Rightarrow> s \<noteq> [] | _ \<Rightarrow> False) vs | _ \<Rightarrow> False)"

definition with_allowed :: "json option \<Rightarrow> jobject option \<Rightarrow> jobject \<Rightarrow> jobject result" where
  "with_allowed v absent old =
     (case given v of
        Some tools \<Rightarrow>
          if \<not> tool_names tools then Inl ''allowedTools must be a list of non-empty tool names''
          else Inr (map_set ''allowedTools'' tools old)
      | None \<Rightarrow> Inr (case absent of None \<Rightarrow> old | Some d \<Rightarrow> old @ d))"

definition with_sensitive :: "json option \<Rightarrow> jobject option \<Rightarrow> jobject \<Rightarrow> jobject result" where
  "with_sensitive v absent old =
     (case given v of
        Some rows \<Rightarrow> (case validateSensitiveOps rows of Inl e \<Rightarrow> Inl e | Inr _ \<Rightarrow> Inr (map_set ''sensitiveOps'' rows old))
      | None \<Rightarrow> Inr (case absent of None \<Rightarrow> old | Some d \<Rightarrow> old @ d))"

definition with_execution :: "execution_constraints option \<Rightarrow> jobject \<Rightarrow> jobject result" where
  "with_execution v old =
     (case v of
        None \<Rightarrow> Inr old
      | Some inp \<Rightarrow>
          (case resolveExecutionConstraints inp (asRecord (map_of old ''execution'')) of
             Inl e \<Rightarrow> Inl e | Inr execution \<Rightarrow> Inr (map_set ''execution'' (JObj execution) old)))"

definition configured_rules :: "agent_config \<Rightarrow> jobject option \<Rightarrow> jobject option \<Rightarrow> jobject \<Rightarrow> jobject result" where
  "configured_rules inp allowed sensitive old =
     and_then (with_allowed (kz_allowedTools inp) allowed old) (\<lambda>r1.
     and_then (with_sensitive (kz_sensitiveOps inp) sensitive r1) (with_execution (kz_execution inp)))"

definition changed_fields :: "agent_config \<Rightarrow> string list" where
  "changed_fields inp =
     (if given (kz_prompt inp) \<noteq> None then [''prompt''] else [])
     @ (if given (kz_allowedTools inp) \<noteq> None then [''allowedTools''] else [])
     @ (if given (kz_sensitiveOps inp) \<noteq> None then [''sensitiveOps''] else [])
     @ (if kz_execution inp \<noteq> None then [''execution''] else [])"

definition set_agent :: "string \<Rightarrow> (agent_row \<Rightarrow> agent_row) \<Rightarrow> playground \<Rightarrow> playground" where
  "set_agent i f p =
     p\<lparr>yg_tables := (yg_tables p)\<lparr>yt_agents := tb_update (\<lambda>a. an_id a = i) f (yt_agents (yg_tables p))\<rparr>\<rparr>"

definition updated_agent :: "agent_config \<Rightarrow> jobject \<Rightarrow> nat \<Rightarrow> agent_row \<Rightarrow> agent_row" where
  "updated_agent inp policy version a =
     a\<lparr>an_guardrailRules := JObj policy, an_version := version,
       an_prompt := (case map_option js_String (given (kz_prompt inp)) of None \<Rightarrow> an_prompt a | Some s \<Rightarrow> Some s)\<rparr>"

definition config_event :: "principal \<Rightarrow> agent_config \<Rightarrow> string \<Rightarrow> nat \<Rightarrow> outbox_input" where
  "config_event me inp agentId version =
     console_event (cu_defaultWorkspaceId me) ''agent.config.updated'' ''Agent'' agentId
       [(''workspaceId'', JStr (cu_defaultWorkspaceId me)), (''agentId'', JStr agentId), (''version'', JNum (int version)),
        (''changedFields'', JArr (map JStr (changed_fields inp))), (''by'', JStr (cu_id me))]"

definition updateAgentConfig :: "console_ports \<Rightarrow> principal \<Rightarrow> string \<Rightarrow> agent_config \<Rightarrow> (string \<times> nat) play" where
  "updateAgentConfig ports me agentId inp =
     (let ws = cu_defaultWorkspaceId me in
      bindE (reads (\<lambda>p. tb_find (\<lambda>a. an_id a = agentId \<and> an_workspaceId a = ws) (yt_agents (yg_tables p)))) (\<lambda>found.
      bindE (of_option ''Agent not found'' found) (\<lambda>agent.
      bindE (lift_result (configured_rules inp None None (asRecord (Some (an_guardrailRules agent))))) (\<lambda>policy.
      let nextVersion = an_version agent + 1 in
      seqE (write_with_event ports (set_agent (an_id agent) (updated_agent inp policy nextVersion))
             (config_event me inp (an_id agent) nextVersion))
     (bindE (reads (\<lambda>p. tb_find (\<lambda>a. an_id a = an_id agent \<and> an_workspaceId a = ws) (yt_agents (yg_tables p)))) (\<lambda>refreshed.
      ret (an_id agent, case refreshed of Some a \<Rightarrow> an_version a | None \<Rightarrow> nextVersion)))))))"

record create_agent_input =
  kn_name :: string
  kn_apiName :: string
  kn_description :: "string option"
  kn_config :: agent_config

definition non_empty_text :: "string option \<Rightarrow> string option" where
  "non_empty_text v = (if truthy v then v else None)"

definition createAgent :: "console_ports \<Rightarrow> principal \<Rightarrow> create_agent_input \<Rightarrow> agent_row play" where
  "createAgent ports me inp =
     (let ws = cu_defaultWorkspaceId me; name = trim (kn_name inp); apiName = trim (kn_apiName inp) in
      seqE (throw_if (name = []) ''name must not be empty'')
     (seqE (throw_if (apiName = []) ''apiName must not be empty'')
     (bindE (reads (\<lambda>p. tb_find (\<lambda>a. an_workspaceId a = ws \<and> an_apiName a = apiName) (yt_agents (yg_tables p)))) (\<lambda>existing.
      seqE (throw_if (existing \<noteq> None) (''AGENT_API_NAME_TAKEN:'' @ apiName))
     (bindE (lift_result (configured_rules (kn_config inp) (Some [(''allowedTools'', JArr [])])
               (Some [(''sensitiveOps'', JArr [])]) [])) (\<lambda>rules.
      bindE (in_store fresh_id) (\<lambda>i.
      let agent = \<lparr>an_id = i, an_workspaceId = ws, an_name = name, an_apiName = apiName,
             an_description = non_empty_text (kn_description inp),
             an_prompt = non_empty_text (map_option js_String (given (kz_prompt (kn_config inp)))),
             an_type = ''custom'', an_status = ''active'', an_isActive = True, an_isCustom = True, an_version = 1,
             an_roleId = None, an_serviceUserId = None, an_guardrailRules = JObj rules\<rparr> in
      seqE (write_with_event ports
             (\<lambda>p. p\<lparr>yg_tables := (yg_tables p)\<lparr>yt_agents := tb_insert agent (yt_agents (yg_tables p))\<rparr>\<rparr>)
             (console_event ws ''agent.created'' ''Agent'' i
               [(''workspaceId'', JStr ws), (''agentId'', JStr i), (''name'', JStr name), (''apiName'', JStr apiName),
                (''by'', JStr (cu_id me))]))
        (ret agent))))))))"

section \<open>Growth of an agent\<close>

record growth_execution =
  gw_id :: string
  gw_status :: string
  gw_createdAt :: int
  gw_completedAt :: "int option"
  gw_durationMs :: "int option"

record growth_approval =
  gv_recordId :: string
  gv_status :: approval_status
  gv_submittedAt :: int
  gv_history :: "history_entry list"
  gv_pausedToolName :: "string option"
  gv_pausedRiskLevel :: "string option"

datatype growth_kind =
    Milestone (milestone_status: string)
  | Escalation
  | Coaching (coaching_decision: decision_action) (coaching_comment: "string option") (coaching_actor: string)

record growth_entry =
  gt_kind :: growth_kind
  gt_toolName :: "string option"
  gt_riskLevel :: "string option"
  gt_executionId :: string
  gt_at :: int

definition coaching_of :: "history_entry \<Rightarrow> decision_action option" where
  "coaching_of e = (case he_action e of Approve \<Rightarrow> Some ApproveDecision | Reject \<Rightarrow> Some RejectDecision | _ \<Rightarrow> None)"

definition milestone_entry :: "growth_execution \<Rightarrow> growth_entry" where
  "milestone_entry x =
     \<lparr>gt_kind = Milestone (gw_status x), gt_toolName = None, gt_riskLevel = None, gt_executionId = gw_id x,
      gt_at = nullish (gw_completedAt x) (gw_createdAt x)\<rparr>"

definition approval_entries :: "growth_approval \<Rightarrow> growth_entry list" where
  "approval_entries a =
     (let entry = (\<lambda>k t. \<lparr>gt_kind = k, gt_toolName = gv_pausedToolName a, gt_riskLevel = gv_pausedRiskLevel a,
                        gt_executionId = gv_recordId a, gt_at = t\<rparr>) in
      entry Escalation (gv_submittedAt a)
      # List.map_filter (\<lambda>e. map_option (\<lambda>d. entry
            (Coaching d (non_empty_text (map_option trim (he_comments e))) (he_actorName e)) (he_timestamp e))
          (coaching_of e)) (gv_history a))"

definition deriveGrowthTimeline :: "growth_execution list \<Rightarrow> growth_approval list \<Rightarrow> growth_entry list" where
  "deriveGrowthTimeline xs as =
     sort_key (\<lambda>e. - gt_at e) (map milestone_entry xs @ concat (map approval_entries as))"

text \<open>A rate is the pair of its numerator and its denominator.\<close>

record agent_stats =
  gs_totalExecutions :: nat
  gs_successRate :: "(nat \<times> nat) option"
  gs_approvalRate :: "(nat \<times> nat) option"
  gs_l3EscalationCount :: nat
  gs_avgDurationMs :: "(int \<times> nat) option"

definition deriveAgentStats :: "growth_execution list \<Rightarrow> growth_approval list \<Rightarrow> agent_stats" where
  "deriveAgentStats xs as =
     (let total = length xs;
          finished = length (filter (\<lambda>x. gw_status x = ''done'') xs);
          durations = List.map_filter gw_durationMs xs;
          decided = filter (\<lambda>a. gv_status a = APPROVED \<or> gv_status a = REJECTED) as;
          approved = length (filter (\<lambda>a. gv_status a = APPROVED) decided)
      in \<lparr>gs_totalExecutions = total, gs_successRate = (if total > 0 then Some (finished, total) else None),
          gs_approvalRate = (if length decided > 0 then Some (approved, length decided) else None),
          gs_l3EscalationCount = length as,
          gs_avgDurationMs = (if length durations > 0 then Some (sum_list durations, length durations) else None)\<rparr>)"

text \<open>The first text after a marker that is an object or an array; a text that is none is passed over.\<close>

definition snapshot_of_text :: "string \<Rightarrow> string \<Rightarrow> (string option \<times> string option) option" where
  "snapshot_of_text marker comments =
     (case index_of marker comments of
        None \<Rightarrow> None
      | Some i \<Rightarrow>
          (case parse_json (drop (i + length marker) comments) of
             Some (JObj ps) \<Rightarrow> Some (string_member ps ''toolName'', string_member ps ''riskLevel'')
           | Some (JArr vs) \<Rightarrow> Some (None, None)
           | _ \<Rightarrow> None))"

fun parsePausedToolSnapshot :: "history_entry list \<Rightarrow> string \<Rightarrow> string option \<times> string option" where
  "parsePausedToolSnapshot [] marker = (None, None)"
| "parsePausedToolSnapshot (e # es) marker =
     (case snapshot_of_text marker (nullish (he_comments e) []) of
        Some r \<Rightarrow> r | None \<Rightarrow> parsePausedToolSnapshot es marker)"

definition executionInput :: "agent_execution \<Rightarrow> growth_execution" where
  "executionInput x =
     \<lparr>gw_id = ex_id x, gw_status = show_status (ex_status x), gw_createdAt = ex_createdAt x,
      gw_completedAt = ex_completedAt x, gw_durationMs = eo_durationMs (ex_outcome x)\<rparr>"

definition approvalInput :: "approval_instance \<Rightarrow> growth_approval" where
  "approvalInput a =
     (let paused = parsePausedToolSnapshot (ai_history a) PAUSED_MARKER in
      \<lparr>gv_recordId = ai_recordId a, gv_status = ai_status a, gv_submittedAt = ai_submittedAt a,
       gv_history = ai_history a, gv_pausedToolName = fst paused, gv_pausedRiskLevel = snd paused\<rparr>)"

definition growthTimeline :: "string \<Rightarrow> string \<Rightarrow> world \<Rightarrow> growth_entry list" where
  "growthTimeline ws agentId w =
     (let xs = take 50 (sort_key (\<lambda>e. - ex_createdAt e)
            (filter (\<lambda>e. ex_workspaceId e = ws \<and> ex_agentId e = agentId) (executions w)));
          as = filter (\<lambda>a. ai_workspaceId a = ws \<and> ai_objectName a = ''AgentExecution''
                 \<and> ai_recordId a \<in> ex_id ` set xs) (approvals w)
      in if xs = [] then [] else deriveGrowthTimeline (map executionInput xs) (map approvalInput as))"

definition approvalsFor :: "approval_instance list \<Rightarrow> agent_execution list \<Rightarrow> approval_instance list" where
  "approvalsFor as xs = filter (\<lambda>a. ai_recordId a \<in> ex_id ` set xs) as"

definition stats_of :: "agent_execution list \<Rightarrow> approval_instance list \<Rightarrow> agent_stats" where
  "stats_of xs as = deriveAgentStats (map executionInput xs) (map approvalInput as)"

definition run_approvals :: "string \<Rightarrow> world \<Rightarrow> approval_instance list" where
  "run_approvals ws w = filter (\<lambda>a. ai_workspaceId a = ws \<and> ai_objectName a = ''AgentExecution'') (approvals w)"

record agent_summary =
  gy_id :: string
  gy_name :: string
  gy_status :: string
  gy_description :: "string option"
  gy_stats :: agent_stats

definition summaries :: "string \<Rightarrow> playground \<Rightarrow> agent_summary list" where
  "summaries ws p =
     (let rows = filter (\<lambda>a. an_workspaceId a = ws \<and> an_isActive a) (yt_agents (yg_tables p));
          xs = filter (\<lambda>e. ex_workspaceId e = ws \<and> ex_agentId e \<in> an_id ` set rows) (executions (yg_store p));
          as = run_approvals ws (yg_store p)
      in map (\<lambda>row. let own = filter (\<lambda>e. ex_agentId e = an_id row) xs in
           \<lparr>gy_id = an_id row, gy_name = an_name row, gy_status = an_status row, gy_description = an_description row,
            gy_stats = stats_of own (approvalsFor as own)\<rparr>) rows)"

record agent_detail =
  ga_agent :: agent_row
  ga_recentExecutions :: "agent_execution list"
  ga_growthTimeline :: "growth_entry list"
  ga_stats :: agent_stats

definition detail :: "string \<Rightarrow> string \<Rightarrow> playground \<Rightarrow> agent_detail option" where
  "detail ws agentId p =
     (case tb_find (\<lambda>a. an_id a = agentId \<and> an_workspaceId a = ws) (yt_agents (yg_tables p)) of
        None \<Rightarrow> None
      | Some agent \<Rightarrow>
          (let xs = take 50 (sort_key (\<lambda>e. - ex_createdAt e)
                 (filter (\<lambda>e. ex_workspaceId e = ws \<and> ex_agentId e = agentId) (executions (yg_store p))));
               related = approvalsFor (run_approvals ws (yg_store p)) xs
           in Some \<lparr>ga_agent = agent, ga_recentExecutions = take 10 xs,
                ga_growthTimeline = deriveGrowthTimeline (map executionInput xs) (map approvalInput related),
                ga_stats = stats_of xs related\<rparr>))"

section \<open>What a write leaves behind\<close>

text \<open>The rows that the console reads and writes.\<close>

definition console_rows :: "playground \<Rightarrow> playground_tables \<times> agent_execution list \<times> approval_instance list \<times> outbox_event list" where
  "console_rows p = (yg_tables p, executions (yg_store p), approvals (yg_store p), outbox_events (yg_store p))"

text \<open>A write with an event happens as a whole or not at all.\<close>

lemma enqueue_outcome:
  assumes "library_transport t" "runInTransaction t (seqE (enqueue event) (ret ())) w = (r, w')"
  obtains (refused) e where "r = Inl e" "outbox_events w' = outbox_events w"
      "executions w' = executions w" "approvals w' = approvals w"
  | (written) row where "r = Inr ()" "outbox_events w' = outbox_events w @ [row]" "carries (trace_context w) event row"
      "executions w' = executions w" "approvals w' = approvals w"
proof (cases "trace_context w")
  case None
  then show ?thesis
    using assms(2) refused by (auto simp: runInTransaction_def transaction_def enqueue_def enqueueInTransaction_eq eff_simps)
next
  case (Some ctx)
  let ?row = "envelope event (uuid_of w (next_uuid w)) (clock_of w (next_tick w)) ctx"
  show ?thesis
  proof (cases "outboxEventSchema ?row")
    case True
    then have "carries (trace_context w) event ?row" using Some by (auto simp: carries_def)
    then show ?thesis
      using assms Some True written [of ?row]
      by (auto simp: library_transport_def pg_notify_def in_memory_notify_def runInTransaction_def transaction_def
          enqueue_def enqueueInTransaction_eq add_topic_def eff_simps Let_def)
  next
    case False
    then show ?thesis
      using assms(2) Some refused
      by (auto simp: runInTransaction_def transaction_def enqueue_def enqueueInTransaction_eq eff_simps Let_def)
  qed
qed

lemma write_with_event_outcome:
  assumes "library_transport (kx_transport ports)" "write_with_event ports write event p = (r, p')"
    and rest: "approvals (yg_store (write p)) = approvals (yg_store p)" "outbox_events (yg_store (write p)) = outbox_events (yg_store p)"
      "trace_context (yg_store (write p)) = trace_context (yg_store p)"
  obtains (refused) e where "r = Inl e" "console_rows p' = console_rows p"
  | (written) row where "r = Inr ()" "carries (trace_context (yg_store p)) event row"
      "console_rows p' = (yg_tables (write p), executions (yg_store (write p)), approvals (yg_store p),
         outbox_events (yg_store p) @ [row])"
proof -
  obtain s w where run: "runInTransaction (kx_transport ports) (seqE (enqueue event) (ret ())) (yg_store (write p)) = (s, w)"
    by (cases "runInTransaction (kx_transport ports) (seqE (enqueue event) (ret ())) (yg_store (write p))")
  from assms(1) run show ?thesis
  proof (cases rule: enqueue_outcome)
    case (refused e)
    then show ?thesis
      using assms(2) run rest that(1) [of e] by (auto simp: write_with_event_def in_store_apply console_rows_def)
  next
    case (written row)
    then show ?thesis
      using assms(2) run rest that(2) [of row] by (auto simp: write_with_event_def in_store_apply console_rows_def)
  qed
qed

section \<open>Decisions\<close>

definition awaits_decision ::
    "principal \<Rightarrow> string \<Rightarrow> playground \<Rightarrow> approval_instance \<Rightarrow> jobject \<Rightarrow> agent_execution \<Rightarrow> bool" where
  "awaits_decision me i p inst paused x \<longleftrightarrow>
     tb_find (\<lambda>a. ai_id a = i \<and> ai_workspaceId a = cu_defaultWorkspaceId me) (approvals (yg_store p)) = Some inst
     \<and> ai_objectName inst = ''AgentExecution'' \<and> ai_status inst = PENDING
     \<and> parsePausedToolCall (ai_history inst) = Some paused
     \<and> tb_find (\<lambda>e. ex_id e = ai_recordId inst \<and> ex_workspaceId e = cu_defaultWorkspaceId me) (executions (yg_store p)) = Some x
     \<and> ex_status x = GuardrailPending"

text \<open>Nothing but the clock and the marks of the session has moved.\<close>

definition only_looked :: "playground \<Rightarrow> playground \<Rightarrow> bool" where
  "only_looked p p' \<longleftrightarrow> yg_tables p' = yg_tables p \<and> yg_ipWindows p' = yg_ipWindows p
     \<and> (\<exists>n. yg_store p' = (yg_store p)\<lparr>next_tick := n\<rparr>)"

lemma same_tick: "\<exists>n. w = w\<lparr>next_tick := n\<rparr>" for w :: world
  by (rule exI [of _ "next_tick w"]) simp

interpretation looking: state_preorder only_looked
  by unfold_locales (auto simp: only_looked_def same_tick)

lemma touch_session_looks: "\<exists>q. touch_session i p = (Inr (), q) \<and> only_looked p q"
  by (cases "map_of (yg_sessions p) i") (auto simp: touch_session_def put_session_def eff_simps only_looked_def same_tick)

lemma only_looked_rows:
  assumes "only_looked p q"
  shows "approvals (yg_store q) = approvals (yg_store p)" "executions (yg_store q) = executions (yg_store p)"
    "outbox_events (yg_store q) = outbox_events (yg_store p)" "yg_tables q = yg_tables p"
    "trace_context (yg_store q) = trace_context (yg_store p)"
  using assms by (auto simp: only_looked_def)

lemma decide_read_outcome:
  obtains (cleared) inst paused x q where "decide_read me i p = (Inr (inst, paused, x), q)" "awaits_decision me i p inst paused x"
      "only_looked p q"
  | (refused) e q where "decide_read me i p = (Inl e, q)" "\<nexists>inst paused x. awaits_decision me i p inst paused x" "only_looked p q"
proof -
  obtain q where q: "touch_session (cu_defaultWorkspaceId me) p = (Inr (), q)" "only_looked p q"
    using touch_session_looks by blast
  note rows = only_looked_rows [OF q(2)]
  let ?found = "tb_find (\<lambda>a. ai_id a = i \<and> ai_workspaceId a = cu_defaultWorkspaceId me) (approvals (yg_store p))"
  show ?thesis
  proof (cases "\<exists>inst paused x. awaits_decision me i p inst paused x")
    case True
    then obtain inst paused x where a: "awaits_decision me i p inst paused x" by blast
    then have "decide_read me i p = (Inr (inst, paused, x), q)"
      using q(1) rows by (simp add: decide_read_def awaits_decision_def eff_simps Let_def)
    with a q(2) show ?thesis by (rule cleared [rotated])
  next
    case False
    have "\<exists>e. decide_read me i p = (Inl e, q)"
    proof (cases ?found)
      case None
      then show ?thesis using q(1) rows by (simp add: decide_read_def eff_simps Let_def)
    next
      case (Some inst)
      let ?x = "tb_find (\<lambda>e. ex_id e = ai_recordId inst \<and> ex_workspaceId e = cu_defaultWorkspaceId me) (executions (yg_store p))"
      show ?thesis
        using Some False q(1) rows
        by (cases "parsePausedToolCall (ai_history inst)"; cases ?x)
          (auto simp: decide_read_def eff_simps awaits_decision_def Let_def)
    qed
    then show ?thesis using refused False q(2) by blast
  qed
qed

definition settled_approvals :: "principal \<Rightarrow> decision_action \<Rightarrow> string option \<Rightarrow> int \<Rightarrow> approval_instance \<Rightarrow> playground \<Rightarrow> approval_instance list" where
  "settled_approvals me action comment t inst p =
     tb_update (\<lambda>a. ai_id a = ai_id inst) (\<lambda>_. decided_instance me action comment t inst) (approvals (yg_store p))"

definition moved_executions :: "agent_execution \<Rightarrow> (agent_execution \<Rightarrow> agent_execution) \<Rightarrow> playground \<Rightarrow> agent_execution list" where
  "moved_executions x f p = tb_update (\<lambda>e. ex_id e = ex_id x) f (executions (yg_store p))"

lemma awaits_inst_in: "awaits_decision me i p inst paused x \<Longrightarrow> inst \<in> set (approvals (yg_store p))"
  by (drule awaits_decision_def [THEN iffD1], drule conjunct1, drule tb_find_SomeD) (rule conjunct1)

definition rejection_carried_out ::
    "principal \<Rightarrow> string option \<Rightarrow> int \<Rightarrow> approval_instance \<times> jobject \<times> agent_execution \<Rightarrow>
     playground \<Rightarrow> decision_result result \<Rightarrow> playground \<Rightarrow> bool" where
  "rejection_carried_out me comment t subject p r p' \<longleftrightarrow> (case subject of (inst, paused, x) \<Rightarrow>
     approvals (yg_store p') = settled_approvals me RejectDecision comment t inst p \<and> yg_tables p' = yg_tables p
     \<and> ((\<exists>e. r = Inl e) \<and> executions (yg_store p') = executions (yg_store p)
          \<and> outbox_events (yg_store p') = outbox_events (yg_store p)
        \<or> r = Inr \<lparr>kc_instanceId = ai_id inst, kc_decision = RejectDecision, kc_executionId = ex_id x,
                 kc_executionStatus = Cancelled\<rparr>
          \<and> executions (yg_store p') = moved_executions x (\<lambda>e. e\<lparr>ex_status := Cancelled, ex_completedAt := Some t\<rparr>) p
          \<and> (\<exists>row. outbox_events (yg_store p') = outbox_events (yg_store p) @ [row]
               \<and> carries (trace_context (yg_store p)) (cancelled_event me inst paused x) row)))"

definition approval_carried_out ::
    "console_ports \<Rightarrow> principal \<Rightarrow> string option \<Rightarrow> int \<Rightarrow> approval_instance \<times> jobject \<times> agent_execution \<Rightarrow>
     playground \<Rightarrow> decision_result result \<Rightarrow> playground \<Rightarrow> bool" where
  "approval_carried_out ports me comment t subject p r p' \<longleftrightarrow> (case subject of (inst, paused, x) \<Rightarrow>
     \<exists>w s. approvals w = settled_approvals me ApproveDecision comment t inst p
       \<and> executions w = moved_executions x (\<lambda>e. e\<lparr>ex_status := Running\<rparr>) p
       \<and> outbox_events w = outbox_events (yg_store p) \<and> yg_tables p' = yg_tables p
       \<and> kx_execute ports (x\<lparr>ex_status := Running\<rparr>) (ai_id inst) (paused_context paused) w = (s, yg_store p')
       \<and> (\<exists>e. r = Inl e) = (\<exists>e. s = Inl e))"

text \<open>What a decision does depends on the rows only.\<close>

lemma carried_out_looked:
  assumes "only_looked p q"
  shows "rejection_carried_out me comment t subject q r p' = rejection_carried_out me comment t subject p r p'"
    "approval_carried_out ports me comment t subject q r p' = approval_carried_out ports me comment t subject p r p'"
proof -
  have same: "settled_approvals me a c t inst q = settled_approvals me a c t inst p" "moved_executions x f q = moved_executions x f p"
    for a c inst x f
    using only_looked_rows [OF assms] by (simp_all add: settled_approvals_def moved_executions_def)
  show "rejection_carried_out me comment t subject q r p' = rejection_carried_out me comment t subject p r p'"
    unfolding rejection_carried_out_def same only_looked_rows [OF assms] ..
  show "approval_carried_out ports me comment t subject q r p' = approval_carried_out ports me comment t subject p r p'"
    unfolding approval_carried_out_def same only_looked_rows [OF assms] ..
qed

lemma decide_reject_outcome:
  assumes "library_transport (kx_transport ports)" "inst \<in> set (approvals (yg_store p))"
    "decide_write ports me RejectDecision comment (inst, paused, x) p = (r, p')"
  shows "\<exists>t. rejection_carried_out me comment t (inst, paused, x) p r p'"
proof -
  define t where "t = clock_of (yg_store p) (next_tick (yg_store p))"
  define q where "q = p\<lparr>yg_store := (yg_store p)\<lparr>next_tick := Suc (next_tick (yg_store p)),
      approvals := settled_approvals me RejectDecision comment t inst p\<rparr>\<rparr>"
  let ?f = "\<lambda>e. e\<lparr>ex_status := Cancelled, ex_completedAt := Some t\<rparr>"
  obtain s p1 where w: "write_with_event ports (set_execution (ex_id x) ?f) (cancelled_event me inst paused x) q = (s, p1)"
    by (cases "write_with_event ports (set_execution (ex_id x) ?f) (cancelled_event me inst paused x) q")
  have p1: "p1 = p'" "r = (case s of Inl e \<Rightarrow> Inl e | Inr _ \<Rightarrow> Inr \<lparr>kc_instanceId = ai_id inst, kc_decision = RejectDecision,
      kc_executionId = ex_id x, kc_executionStatus = Cancelled\<rparr>)"
    using assms(2,3) w
    by (auto simp: decide_write_def bindE_apply seqE_apply now_apply in_store_apply save_approval_def modify_apply ret_apply
        settled_approvals_def decided_instance_def q_def t_def split: sum.splits)
  show ?thesis
  proof (rule write_with_event_outcome [OF assms(1) w])
    fix e assume "s = Inl e" "console_rows p1 = console_rows q"
    then show ?thesis using p1 by (intro exI [of _ t]) (auto simp: rejection_carried_out_def console_rows_def q_def)
  next
    fix row assume "s = Inr ()" "carries (trace_context (yg_store q)) (cancelled_event me inst paused x) row"
      "console_rows p1 = (yg_tables (set_execution (ex_id x) ?f q), executions (yg_store (set_execution (ex_id x) ?f q)),
         approvals (yg_store q), outbox_events (yg_store q) @ [row])"
    then show ?thesis
      using p1 by (intro exI [of _ t]) (auto simp: rejection_carried_out_def console_rows_def q_def set_execution_def moved_executions_def)
  qed (simp_all add: set_execution_def)
qed

lemma pending_may_run: "handleStateTransition GuardrailPending Running = Inr Running"
  by code_simp

lemma decide_approve_outcome:
  assumes "inst \<in> set (approvals (yg_store p))" "ex_status x = GuardrailPending"
    "decide_write ports me ApproveDecision comment (inst, paused, x) p = (r, p')"
  shows "\<exists>t. approval_carried_out ports me comment t (inst, paused, x) p r p'"
proof -
  define t where "t = clock_of (yg_store p) (next_tick (yg_store p))"
  define q where "q = p\<lparr>yg_store := (yg_store p)\<lparr>next_tick := Suc (next_tick (yg_store p)),
      approvals := settled_approvals me ApproveDecision comment t inst p,
      executions := moved_executions x (\<lambda>e. e\<lparr>ex_status := Running\<rparr>) p\<rparr>\<rparr>"
  obtain s w where run: "kx_execute ports (x\<lparr>ex_status := Running\<rparr>) (ai_id inst) (paused_context paused) (yg_store q) = (s, w)"
    by (cases "kx_execute ports (x\<lparr>ex_status := Running\<rparr>) (ai_id inst) (paused_context paused) (yg_store q)")
  have "(r, p') = (case s of Inl e \<Rightarrow> (Inl e, q\<lparr>yg_store := w\<rparr>)
     | Inr _ \<Rightarrow> (Inr \<lparr>kc_instanceId = ai_id inst, kc_decision = ApproveDecision,
       kc_executionId = ex_id x, kc_executionStatus =
         (case tb_find (\<lambda>e. ex_id e = ex_id x \<and> ex_workspaceId e = cu_defaultWorkspaceId me) (executions w) of
            Some e \<Rightarrow> ex_status e | None \<Rightarrow> Running)\<rparr>, q\<lparr>yg_store := w\<rparr>))"
    using assms run
    by (simp add: decide_write_def bindE_apply seqE_apply now_apply in_store_apply save_approval_def modify_apply ret_apply
        lift_result_apply reads_apply settled_approvals_def decided_instance_def moved_executions_def set_execution_def
        pending_may_run q_def t_def split: sum.splits)
  then have "p' = q\<lparr>yg_store := w\<rparr>" "(\<exists>e. r = Inl e) = (\<exists>e. s = Inl e)" by (cases s; simp)+
  with run show ?thesis
    unfolding approval_carried_out_def prod.case
    by (intro exI [of _ t] exI [of _ "yg_store q"] exI [of _ s]) (simp add: q_def)
qed

lemma decided_carried_out:
  assumes "library_transport (kx_transport ports)" "decideApproval ports me i d comment p = (r, p')"
    "awaits_decision me i p inst paused x" "decision_of d = Some action"
  shows "\<exists>t. (case action of RejectDecision \<Rightarrow> rejection_carried_out me comment t (inst, paused, x) p r p'
     | ApproveDecision \<Rightarrow> approval_carried_out ports me comment t (inst, paused, x) p r p')"
proof (rule decide_read_outcome [of me i p])
  fix e q assume "\<nexists>inst paused x. awaits_decision me i p inst paused x"
  then show ?thesis using assms(3) by blast
next
  fix inst' paused' x' q
  assume got: "decide_read me i p = (Inr (inst', paused', x'), q)" "awaits_decision me i p inst' paused' x'" "only_looked p q"
  have same: "inst' = inst" "paused' = paused" "x' = x" using got(2) assms(3) by (auto simp: awaits_decision_def)
  have inst: "inst \<in> set (approvals (yg_store q))" using awaits_inst_in [OF assms(3)] only_looked_rows [OF got(3)] by simp
  have run: "decide_write ports me action comment (inst, paused, x) q = (r, p')"
    using assms(2,4) got(1) same by (simp add: decideApproval_def bindE_apply)
  show ?thesis
  proof (cases action)
    case RejectDecision
    then show ?thesis
      using decide_reject_outcome [OF assms(1) inst] run unfolding carried_out_looked [OF got(3)] by simp
  next
    case ApproveDecision
    have "ex_status x = GuardrailPending" using assms(3) by (simp add: awaits_decision_def)
    then show ?thesis
      using decide_approve_outcome [OF inst] run ApproveDecision unfolding carried_out_looked [OF got(3)] by simp
  qed
qed

lemma undecidable_refused:
  assumes "decideApproval ports me i d comment p = (r, p')"
    "decision_of d = None \<or> (\<nexists>inst paused x. awaits_decision me i p inst paused x)"
  shows "(\<exists>e. r = Inl e) \<and> only_looked p p'"
proof (cases "decision_of d")
  case None
  then show ?thesis using assms(1) by (auto simp: decideApproval_def throw_apply only_looked_def same_tick)
next
  case (Some action)
  show ?thesis
    by (rule decide_read_outcome [of me i p])
      (use assms Some in \<open>auto simp: decideApproval_def bindE_apply\<close>)
qed

text \<open>
  C13. A decision at the console. It is refused, with nothing moved but the clock and the mark of the
  session, exactly when the text is no decision or the caller's workspace has no pending approval of that
  id with a stored call and an execution that waits for it. Otherwise the approval is settled under the
  caller's name; a rejection then cancels the execution and writes its event together or not at all,
  without the executor, and an approval sets the execution running and calls the executor once, with the
  stored call.
\<close>

theorem console_decision_outcome:
  assumes "library_transport (kx_transport ports)" "decideApproval ports me i d comment p = (r, p')"
  shows "(\<exists>e. r = Inl e) \<and> only_looked p p'
      \<and> (decision_of d = None \<or> (\<nexists>inst paused x. awaits_decision me i p inst paused x))
    \<or> (\<exists>inst paused x t. awaits_decision me i p inst paused x \<and>
        (decision_of d = Some RejectDecision \<and> rejection_carried_out me comment t (inst, paused, x) p r p'
         \<or> decision_of d = Some ApproveDecision \<and> approval_carried_out ports me comment t (inst, paused, x) p r p'))"
proof (cases "decision_of d = None \<or> (\<nexists>inst paused x. awaits_decision me i p inst paused x)")
  case True
  then show ?thesis using undecidable_refused [OF assms(2)] by blast
next
  case False
  then obtain inst paused x action where waiting: "awaits_decision me i p inst paused x" "decision_of d = Some action" by auto
  from decided_carried_out [OF assms waiting] waiting show ?thesis by (cases action) auto
qed

text \<open>A small workspace with one paused execution.\<close>

definition sample_me :: principal where
  "sample_me = \<lparr>cu_id = ''me'', cu_roleId = ''r'', cu_orgNodeId = None, cu_defaultWorkspaceId = ''w''\<rparr>"

definition paused_execution :: agent_execution where
  "paused_execution = \<lparr>ex_id = ''x'', ex_workspaceId = ''w'', ex_release = no_release, ex_traceId = None,
     ex_correlationId = None, ex_agentId = ''a'', ex_triggerType = ''manual'', ex_triggerSource = ''community_api'',
     ex_triggeredBy = None, ex_policy = None, ex_rawInput = None, ex_status = GuardrailPending, ex_outputSummary = None,
     ex_totalInputTokens = 0, ex_totalOutputTokens = 0, ex_totalCost = 0, ex_outcome = no_outcome,
     ex_completedAt = None, ex_createdAt = 0\<rparr>"

definition paused_approval :: approval_instance where
  "paused_approval = \<lparr>ai_id = ''i'', ai_workspaceId = ''w'', ai_processId = ''p'', ai_recordId = ''x'',
     ai_objectName = ''AgentExecution'', ai_status = PENDING, ai_currentStepIndex = 0, ai_subject = no_subject,
     ai_supersession = no_supersession,
     ai_history = [\<lparr>he_stepIndex = 0, he_stepName = ''s'', he_action = Submitted, he_actorId = ''a'', he_actorName = ''a'',
       he_comments = Some (PAUSED_MARKER @ ''{\"toolName\":\"t\"}''), he_timestamp = 0, he_queueContext = None\<rparr>],
     ai_submittedBy = ''a'', ai_submittedAt = 0, ai_completedAt = None\<rparr>"

definition paused_playground :: "outbox_trace option \<Rightarrow> playground" where
  "paused_playground trace = sample_playground\<lparr>yg_store := (empty_world [] trace)
     \<lparr>executions := [paused_execution], approvals := [paused_approval]\<rparr>\<rparr>"

definition sample_trace :: outbox_trace where
  "sample_trace = \<lparr>ot_traceId = ''t'', ot_correlationId = ''c'', ot_executionId = None\<rparr>"

text \<open>An executor that leaves a mark and closes the execution.\<close>

definition sample_console :: console_ports where
  "sample_console = \<lparr>kx_transport = pg_notify, kx_runSync = (\<lambda>_ _ _. throw ''off''),
     kx_execute = (\<lambda>x a call. modify (\<lambda>w. w\<lparr>tool_runs := tool_runs w @ [(a, JObj call)],
        executions := tb_update (\<lambda>e. ex_id e = ex_id x) (\<lambda>e. e\<lparr>ex_status := Done\<rparr>) (executions w)\<rparr>))\<rparr>"

lemma sample_transport: "library_transport (kx_transport sample_console)"
  by (simp add: sample_console_def library_transport_def)

definition sample_call :: jobject where
  "sample_call = [(''toolName'', JStr ''t'')]"

lemma sample_parsed: "parsePausedToolCall (ai_history paused_approval) = Some sample_call"
  by code_simp

lemma paused_simps:
  "ai_id paused_approval = ''i''" "ai_workspaceId paused_approval = ''w''" "ai_recordId paused_approval = ''x''"
  "ai_objectName paused_approval = ''AgentExecution''" "ai_status paused_approval = PENDING"
  "ex_id paused_execution = ''x''" "ex_workspaceId paused_execution = ''w''" "ex_status paused_execution = GuardrailPending"
  by (simp_all add: paused_approval_def paused_execution_def)

lemma sample_awaits: "awaits_decision sample_me ''i'' (paused_playground trace) paused_approval sample_call paused_execution"
  by (simp add: awaits_decision_def paused_playground_def paused_simps sample_parsed sample_me_def tb_find_def)

lemma console_decision_outcome_witness:
  "\<exists>r p' t. decideApproval sample_console sample_me ''i'' ''rejected'' None (paused_playground (Some sample_trace)) = (r, p')
     \<and> rejection_carried_out sample_me None t (paused_approval, sample_call, paused_execution) (paused_playground (Some sample_trace)) r p'"
proof -
  let ?p = "paused_playground (Some sample_trace)"
  obtain r p' where run: "decideApproval sample_console sample_me ''i'' ''rejected'' None ?p = (r, p')"
    by (cases "decideApproval sample_console sample_me ''i'' ''rejected'' None ?p")
  have d: "decision_of ''rejected'' = Some RejectDecision" by code_simp
  have only: "inst = paused_approval \<and> paused = sample_call \<and> x = paused_execution"
    if "awaits_decision sample_me ''i'' ?p inst paused x" for inst paused x
    using that sample_awaits [of "Some sample_trace"] by (simp add: awaits_decision_def)
  have "\<exists>inst paused x t. awaits_decision sample_me ''i'' ?p inst paused x
      \<and> rejection_carried_out sample_me None t (inst, paused, x) ?p r p'"
    using console_decision_outcome [OF sample_transport run]
    by (elim disjE exE conjE) (simp add: d, use sample_awaits [of "Some sample_trace"] in metis, metis, simp add: d)
  then obtain inst paused x t where got: "awaits_decision sample_me ''i'' ?p inst paused x"
    "rejection_carried_out sample_me None t (inst, paused, x) ?p r p'" by (elim exE conjE)
  then have "rejection_carried_out sample_me None t (paused_approval, sample_call, paused_execution) ?p r p'"
    using only [OF got(1)] by simp
  then show ?thesis using run by (intro exI conjI)
qed

lemma keyed_find:
  assumes "keyed pk tb" "r \<in> set tb" "P r" "\<And>x. P x \<Longrightarrow> pk x = pk r" shows "tb_find P tb = Some r"
proof -
  have "P x \<longleftrightarrow> pk x = pk r" if "x \<in> set tb" for x
  proof
    assume "pk x = pk r"
    moreover have "inj_on pk (set tb)" using assms(1) by (simp add: keyed_def distinct_map)
    ultimately have "x = r" using that assms(2) by (rule_tac inj_onD)
    then show "P x" using assms(3) by simp
  qed (rule assms(4))
  then have "tb_find P tb = tb_find (\<lambda>x. pk x = pk r) tb" unfolding tb_find_def by (intro find_cong refl)
  then show ?thesis using keyed_find_unique [OF assms(1,2)] by simp
qed

lemma map_key_kept:
  assumes "pk c = k" shows "map pk (tb_update (\<lambda>b. pk b = k) (\<lambda>_. c) tb) = map pk tb"
  using assms by (simp add: tb_update_def)



text \<open>
  Two decisions that are read before either is written both go through: the row is saved as it was read,
  without a condition on its status, and the executor runs the stored call twice.
\<close>

definition two_deciders :: "unit play" where
  "two_deciders =
     bindE (decide_read sample_me ''i'') (\<lambda>first. bindE (decide_read sample_me ''i'') (\<lambda>second.
     bindE (decide_write sample_console sample_me ApproveDecision None first) (\<lambda>_.
     bindE (decide_write sample_console sample_me ApproveDecision None second) (\<lambda>_. ret ()))))"

lemma concurrent_approvals_run_twice:
  "let (r, p) = two_deciders (paused_playground None) in r = Inr () \<and> length (tool_runs (yg_store p)) = 2"
  by (simp add: two_deciders_def decide_read_def decide_write_def touch_session_def save_approval_def decided_instance_def
      sample_me_def sample_console_def paused_playground_def sample_playground_def empty_world_def set_execution_def
      pending_may_run eff_simps tb_find_def tb_update_def Let_def paused_simps sample_parsed)

text \<open>
  The approval is saved before the transaction of the rejection begins: when the event is refused (here for
  want of a request context), the approval is rejected, the execution waits for it for ever, and the
  decision cannot be repeated.
\<close>

lemma rejection_may_strand_execution:
  "let (r, p) = decideApproval sample_console sample_me ''i'' ''REJECTED'' None (paused_playground None);
       (r', p') = decideApproval sample_console sample_me ''i'' ''REJECTED'' None p
   in r = Inl OutboxRequestContextMissingError \<and> map ai_status (approvals (yg_store p)) = [REJECTED]
     \<and> map ex_status (executions (yg_store p)) = [GuardrailPending] \<and> r' = Inl ''APPROVAL_ALREADY_DECIDED''"
proof -
  have "decision_of ''REJECTED'' = Some RejectDecision" by code_simp
  then show ?thesis
    by (simp add: decideApproval_def write_with_event_def runInTransaction_Inl [where e = OutboxRequestContextMissingError]
      runInTransaction_def transaction_def enqueue_def enqueueInTransaction_eq
      decide_read_def decide_write_def touch_session_def save_approval_def decided_instance_def
      sample_me_def sample_console_def paused_playground_def sample_playground_def empty_world_def set_execution_def
      eff_simps tb_find_def tb_update_def Let_def paused_simps sample_parsed)
qed

section \<open>Tokens\<close>

lemma member_of_token:
  "string_member ([(''sub'', JStr u), (''workspaceId'', JStr ws), (''roleId'', JStr role)] @ optional_text ''orgNodeId'' org
      @ [(''tokenUse'', JStr use)]) ''sub'' = Some u"
  "string_member ([(''sub'', JStr u), (''workspaceId'', JStr ws), (''roleId'', JStr role)] @ optional_text ''orgNodeId'' org
      @ [(''tokenUse'', JStr use)]) ''workspaceId'' = Some ws"
  "map_of ([(''sub'', JStr u), (''workspaceId'', JStr ws), (''roleId'', JStr role)] @ optional_text ''orgNodeId'' org
      @ [(''tokenUse'', JStr use)]) ''tokenUse'' = Some (JStr use)"
  by (auto simp: string_member_def optional_text_def split: option.split)

lemma signIn_outcome:
  assumes "signIn ports username password p = (Inr (token, u, ws, t), p')"
  obtains user member claims where "user \<in> set (yt_users (yg_tables p))" "us_username user = trim username" "us_id user = u"
    "us_isActive user" "\<not> us_isFrozen user" "\<not> us_isServiceAccount user" "truthy (us_roleId user)"
    "us_defaultWorkspaceId user = Some ws"
    "tb_find (\<lambda>m. mb_userId m = u \<and> mb_workspaceId m = ws) (yt_members (yg_tables p)) = Some member"
    "claims = [(''sub'', JStr u), (''workspaceId'', JStr ws), (''roleId'', JStr (nullish (us_roleId user) []))]
       @ optional_text ''orgNodeId'' (us_orgNodeId user) @ [(''tokenUse'', JStr ''community_access'')]"
    "ku_sign ports claims = Inr token" "yg_tables p' = yg_tables p"
proof -
  obtain user where found: "tb_find (\<lambda>u. us_username u = trim username) (yt_users (yg_tables p)) = Some user"
    using assms by (cases "tb_find (\<lambda>u. us_username u = trim username) (yt_users (yg_tables p))") (auto simp: signIn_def eff_simps)
  from tb_find_SomeD [OF found] have "user \<in> set (yt_users (yg_tables p))" "us_username user = trim username" by auto
  moreover obtain w where "us_defaultWorkspaceId user = Some w"
    using assms found by (cases "us_defaultWorkspaceId user") (auto simp: signIn_def eff_simps)
  moreover obtain member where "tb_find (\<lambda>m. mb_userId m = us_id user \<and> mb_workspaceId m = w) (yt_members (yg_tables p)) = Some member"
    using assms found calculation(3)
    by (cases "tb_find (\<lambda>m. mb_userId m = us_id user \<and> mb_workspaceId m = w) (yt_members (yg_tables p))")
      (auto simp: signIn_def eff_simps Let_def split: if_splits)
  ultimately show ?thesis
    using assms found
    by (intro that [of user member]) (auto simp: signIn_def eff_simps Let_def split: if_splits sum.splits)
qed

lemma recycled_members:
  assumes "recycleWorkspace i role p = (u, p')"
  shows "yt_members (yg_tables p') = filter (\<lambda>m. mb_workspaceId m \<noteq> i) (yt_members (yg_tables p))"
  using assms
  by (cases "tb_find (\<lambda>u. us_defaultWorkspaceId u = Some i) (yt_users (yg_tables p))"; cases role)
    (auto simp: recycleWorkspace_def when_truthy_def in_tables_def delete_executions_def forget_session_def
      eff_simps Let_def split: option.splits if_splits)


definition sample_claims :: jobject where
  "sample_claims = [(''sub'', JStr ''u''), (''workspaceId'', JStr ''w''), (''roleId'', JStr ''r''),
     (''tokenUse'', JStr ''community_access'')]"

definition sample_auth :: auth_ports where
  "sample_auth = \<lparr>ku_verify = (\<lambda>t. if t = ''token'' then Some sample_claims else None),
     ku_sign = (\<lambda>c. if c = sample_claims then Inr ''token'' else Inl ''unknown''), ku_compare = (\<lambda>_ _. True)\<rparr>"

definition member_playground :: playground where
  "member_playground = sample_playground\<lparr>yg_tables := sample_tables\<lparr>
     yt_users := [\<lparr>us_id = ''u'', us_username = ''ada'', us_email = ''a@b'', us_passwordHash = Some ''h'', us_firstName = ''A'',
       us_lastName = ''L'', us_hasPasswordSet = True, us_isActive = True, us_isFrozen = False, us_isServiceAccount = False,
       us_defaultWorkspaceId = Some ''w'', us_roleId = Some ''r'', us_orgNodeId = None\<rparr>],
     yt_members := [\<lparr>mb_id = ''m'', mb_workspaceId = ''w'', mb_userId = ''u'', mb_firstName = ''A'', mb_lastName = ''L''\<rparr>]\<rparr>\<rparr>"


section \<open>Policies\<close>

definition number_within :: "int \<Rightarrow> int \<Rightarrow> json option \<Rightarrow> bool" where
  "number_within lo hi v \<longleftrightarrow> (case v of None \<Rightarrow> True | Some (JNum n) \<Rightarrow> lo \<le> n \<and> n \<le> hi | _ \<Rightarrow> False)"

text \<open>A policy as the mutations of the console promise it.\<close>

definition holds_of :: "(json \<Rightarrow> bool) \<Rightarrow> json option \<Rightarrow> bool" where
  "holds_of P v \<longleftrightarrow> (case v of None \<Rightarrow> True | Some x \<Rightarrow> P x)"

definition policy_ok :: "json \<Rightarrow> bool" where
  "policy_ok policy \<longleftrightarrow> (let rs = asRecord (Some policy); limits = asRecord (map_of rs ''execution'') in
     holds_of tool_names (map_of rs ''allowedTools'')
     \<and> holds_of (\<lambda>v. validateSensitiveOps v = Inr ()) (map_of rs ''sensitiveOps'')
     \<and> number_within 1 50 (map_of limits ''maxReActIterations'')
     \<and> number_within 1000 600000 (map_of limits ''timeoutMs''))"

lemma asRecord_obj [simp]: "asRecord (Some (JObj ps)) = ps"
  by (simp add: asRecord_def)

lemma and_then_Inr: "and_then r f = Inr b \<longleftrightarrow> (\<exists>a. r = Inr a \<and> f a = Inr b)"
  by (cases r) (auto simp: and_then_def)

definition constraints_ok :: "jobject \<Rightarrow> bool" where
  "constraints_ok ps \<longleftrightarrow> number_within 1 50 (map_of ps ''maxReActIterations'') \<and> number_within 1000 600000 (map_of ps ''timeoutMs'')"

lemma resolved_constraints_ok:
  "resolveExecutionConstraints inp base = Inr ps \<Longrightarrow> constraints_ok base \<Longrightarrow> constraints_ok ps"
  by (auto simp: resolveExecutionConstraints_def and_then_Inr constraints_ok_def number_within_def
      split: option.splits if_splits)

definition fields_ok :: "jobject \<Rightarrow> bool" where
  "fields_ok rs \<longleftrightarrow> holds_of tool_names (map_of rs ''allowedTools'')
     \<and> holds_of (\<lambda>v. validateSensitiveOps v = Inr ()) (map_of rs ''sensitiveOps'')
     \<and> constraints_ok (asRecord (map_of rs ''execution''))"

lemma policy_fields: "policy_ok policy = fields_ok (asRecord (Some policy))"
  by (simp add: policy_ok_def fields_ok_def constraints_ok_def Let_def)

text \<open>A new object takes the default of an absent member; an object that is edited takes none.\<close>

lemma allowed_ok:
  assumes "with_allowed v absent old = Inr rs" "fields_ok old" "absent = None \<or> absent = Some [(''allowedTools'', JArr [])] \<and> old = []"
  shows "fields_ok rs" "absent \<noteq> None \<Longrightarrow> map_of rs ''sensitiveOps'' = None \<and> map_of rs ''execution'' = None"
  using assms by (auto simp: with_allowed_def fields_ok_def holds_of_def tool_names_def split: option.splits if_splits)

lemma sensitive_ok:
  assumes "with_sensitive v absent old = Inr rs" "fields_ok old"
    "absent = None \<or> absent = Some [(''sensitiveOps'', JArr [])] \<and> map_of old ''sensitiveOps'' = None"
  shows "fields_ok rs"
proof -
  have "validateSensitiveOps (JArr []) = Inr ()" by (simp add: validateSensitiveOps_def)
  then show ?thesis
    using assms by (auto simp: with_sensitive_def fields_ok_def holds_of_def map_add_def split: option.splits sum.splits)
qed

lemma execution_ok:
  assumes "with_execution v old = Inr rs" "fields_ok old" shows "fields_ok rs"
proof (cases v)
  case None
  then show ?thesis using assms by (simp add: with_execution_def)
next
  case (Some inp)
  then obtain ps where "resolveExecutionConstraints inp (asRecord (map_of old ''execution'')) = Inr ps"
    "rs = map_set ''execution'' (JObj ps) old"
    using assms(1) by (auto simp: with_execution_def split: sum.splits)
  then show ?thesis using assms(2) resolved_constraints_ok by (auto simp: fields_ok_def holds_of_def)
qed

lemma configured_ok:
  assumes "configured_rules inp allowed sensitive old = Inr rs" "fields_ok old"
    "allowed = None \<and> sensitive = None \<or> old = [] \<and> allowed = Some [(''allowedTools'', JArr [])] \<and> sensitive = Some [(''sensitiveOps'', JArr [])]"
  shows "fields_ok rs"
proof -
  obtain r1 r2 where run: "with_allowed (kz_allowedTools inp) allowed old = Inr r1"
    "with_sensitive (kz_sensitiveOps inp) sensitive r1 = Inr r2" "with_execution (kz_execution inp) r2 = Inr rs"
    using assms(1) by (auto simp: configured_rules_def and_then_Inr)
  have "fields_ok r1" using allowed_ok(1) [OF run(1) assms(2)] assms(3) by blast
  moreover have "sensitive = None \<or> sensitive = Some [(''sensitiveOps'', JArr [])] \<and> map_of r1 ''sensitiveOps'' = None"
    using allowed_ok(2) [OF run(1) assms(2)] assms(3) by blast
  ultimately have "fields_ok r2" using sensitive_ok [OF run(2)] by blast
  with run(3) show ?thesis by (rule execution_ok)
qed

definition policies_valid :: "playground \<Rightarrow> bool" where
  "policies_valid p \<longleftrightarrow> (\<forall>a\<in>set (yt_agents (yg_tables p)). policy_ok (an_guardrailRules a))"

definition policies_kept :: "playground \<Rightarrow> playground \<Rightarrow> bool" where
  "policies_kept p p' \<longleftrightarrow> (policies_valid p \<longrightarrow> policies_valid p')"

interpretation policing: state_preorder policies_kept
  by unfold_locales (auto simp: policies_kept_def)

lemma policing_agents: "keeps (\<lambda>p. yt_agents (yg_tables p)) m \<Longrightarrow> steps_in policies_kept m"
  by (rule steps_inI) (simp add: policies_kept_def policies_valid_def keepsD [of "\<lambda>p. yt_agents (yg_tables p)"])

lemma agents_in_store: "keeps (\<lambda>p. yt_agents (yg_tables p)) (in_store m)"
  by (rule keepsI) (auto simp: eff_simps split: prod.splits)

lemma agents_put: "keeps (\<lambda>p. yt_agents (yg_tables p)) (put_session k s)" "keeps (\<lambda>p. yt_agents (yg_tables p)) (put_window ip win)"
  "keeps (\<lambda>p. yt_agents (yg_tables p)) (forget_session k)" "keeps (\<lambda>p. yt_agents (yg_tables p)) clear_registry"
  unfolding put_session_def put_window_def forget_session_def clear_registry_def by (rule keeps_modify, simp)+

lemma agents_windowFor: "keeps (\<lambda>p. yt_agents (yg_tables p)) (windowFor ip)"
  unfolding windowFor_def Let_def by (intro keeps_rules agents_in_store agents_put)

lemma agents_touch: "keeps (\<lambda>p. yt_agents (yg_tables p)) (touch_session i)"
  unfolding touch_session_def by (intro keeps_rules agents_in_store agents_put)

lemma agents_admit: "keeps (\<lambda>p. yt_agents (yg_tables p)) (admit_execution i)"
  unfolding admit_execution_def assertExecutionAllowed_def countExecution_def
  by (intro keeps_rules agents_in_store agents_put agents_windowFor)

lemma policing_in_tables:
  assumes "\<And>t a. a \<in> set (yt_agents (f t)) \<Longrightarrow> a \<in> set (yt_agents t) \<or> policy_ok (an_guardrailRules a)"
  shows "steps_in policies_kept (in_tables f)"
  unfolding in_tables_def by (rule policing.in_modify) (use assms in \<open>auto simp: policies_kept_def policies_valid_def\<close>)

lemma session_policy_ok: "policy_ok (an_guardrailRules (session_agent i))"
proof -
  have "policy_ok demo_rules" by code_simp
  then show ?thesis by (simp add: session_agent_def)
qed

lemma policing_insert_session_rows: "steps_in policies_kept (insert_session_rows ports i)"
proof -
  have t: "steps_in policies_kept (in_tables f)" if "\<And>t. yt_agents (f t) = yt_agents t" for f
    by (rule policing_in_tables) (simp add: that)
  have a: "steps_in policies_kept (in_tables (\<lambda>t. t\<lparr>yt_agents := tb_insert (session_agent i) (yt_agents t)\<rparr>))"
    by (rule policing_in_tables) (auto simp: tb_insert_def session_policy_ok)
  show ?thesis
    unfolding insert_session_rows_def by (intro policing.in_rules policing_agents [OF agents_in_store] t a) simp_all
qed

lemma policing_create_session: "steps_in policies_kept (createSession ports ip)"
  unfolding createSession_def assertSessionAllowed_def draw_ids_def register_session_def
  by (intro policing.in_rules policing_insert_session_rows policing_agents [OF agents_in_store]
      policing_agents [OF agents_windowFor] policing_agents [OF agents_put(1)] policing_agents [OF agents_put(2)])

lemma policing_recycle: "steps_in policies_kept (recycleWorkspace i r)"
proof -
  have t: "steps_in policies_kept (in_tables f)" if "\<And>t. set (yt_agents (f t)) \<subseteq> set (yt_agents t)" for f
    by (rule policing_in_tables) (use that in blast)
  have "steps_in policies_kept (when_truthy v (\<lambda>s. in_tables (f s)))" if "\<And>s t. set (yt_agents (f s t)) \<subseteq> set (yt_agents t)" for v f
    unfolding when_truthy_def by (intro policing.in_rules t that)
  then show ?thesis
    unfolding recycleWorkspace_def Let_def
    by (intro policing.in_rules t policing_agents [OF agents_put(3)] policing_agents [OF agents_in_store]) auto
qed

lemma policing_sweep_rows: "steps_in policies_kept (sweep_rows ws)"
  by (induction ws) (simp_all only: sweep_rows.simps, (intro policing.in_rules policing_recycle | assumption)+)

lemma policing_sweep: "steps_in policies_kept (sweepOrphans b)"
  unfolding sweepOrphans_def by (intro policing.in_rules policing_sweep_rows policing_agents [OF agents_put(4)])

lemma policing_tick: "steps_in policies_kept reaper_tick"
  unfolding reaper_tick_def by (intro policing.in_rules policing.in_for_each policing_recycle policing_agents [OF agents_in_store])

lemma write_tables:
  assumes "write_with_event ports f event p = (r, p')"
  shows "yg_tables p' = yg_tables p \<or> yg_tables p' = yg_tables (f p)"
  using assms by (auto simp: write_with_event_def in_store_apply split: prod.splits sum.splits)

lemma policing_write:
  assumes "\<And>p. policies_kept p (f p)" shows "steps_in policies_kept (write_with_event ports f event)"
proof (rule steps_inI)
  fix p r p' assume "write_with_event ports f event p = (r, p')"
  from write_tables [OF this] assms [of p] show "policies_kept p p'" by (auto simp: policies_kept_def policies_valid_def)
qed

text \<open>The two mutations write only what they validated.\<close>

lemma set_agent_policies:
  assumes "policies_valid p" "\<And>a. a \<in> set (yt_agents (yg_tables p)) \<Longrightarrow> policy_ok (an_guardrailRules (f a))"
  shows "policies_valid (set_agent i f p)"
  using assms by (auto simp: policies_valid_def set_agent_def set_tb_update)

lemma update_config_run:
  assumes "updateAgentConfig ports me agentId inp p = (r, p')"
  obtains (refused) e where "r = Inl e" "p' = p"
  | (stored) agent policy s where
      "tb_find (\<lambda>a. an_id a = agentId \<and> an_workspaceId a = cu_defaultWorkspaceId me) (yt_agents (yg_tables p)) = Some agent"
      "configured_rules inp None None (asRecord (Some (an_guardrailRules agent))) = Inr policy"
      "write_with_event ports (set_agent agentId (updated_agent inp policy (an_version agent + 1)))
         (config_event me inp agentId (an_version agent + 1)) p = (s, p')"
      "r = (case s of Inl e \<Rightarrow> Inl e | Inr _ \<Rightarrow> Inr (agentId,
         case tb_find (\<lambda>a. an_id a = agentId \<and> an_workspaceId a = cu_defaultWorkspaceId me) (yt_agents (yg_tables p')) of
           Some a \<Rightarrow> an_version a | None \<Rightarrow> an_version agent + 1))"
proof (cases "tb_find (\<lambda>a. an_id a = agentId \<and> an_workspaceId a = cu_defaultWorkspaceId me) (yt_agents (yg_tables p))")
  case None
  then show ?thesis using assms refused [of "''Agent not found''"] by (auto simp: updateAgentConfig_def eff_simps Let_def)
next
  case (Some agent)
  have id: "an_id agent = agentId" using tb_find_SomeD [OF Some] by blast
  show ?thesis
  proof (cases "configured_rules inp None None (asRecord (Some (an_guardrailRules agent)))")
    case (Inl e)
    then show ?thesis using assms refused [of e] Some by (auto simp: updateAgentConfig_def eff_simps Let_def)
  next
    case (Inr policy)
    obtain s q where w: "write_with_event ports (set_agent agentId (updated_agent inp policy (an_version agent + 1)))
         (config_event me inp agentId (an_version agent + 1)) p = (s, q)" by (meson surj_pair)
    have "q = p'" "r = (case s of Inl e \<Rightarrow> Inl e | Inr _ \<Rightarrow> Inr (agentId,
         case tb_find (\<lambda>a. an_id a = agentId \<and> an_workspaceId a = cu_defaultWorkspaceId me) (yt_agents (yg_tables p')) of
           Some a \<Rightarrow> an_version a | None \<Rightarrow> an_version agent + 1))"
      using assms Some Inr w id by (auto simp: updateAgentConfig_def eff_simps Let_def split: sum.splits option.splits)
    then show ?thesis using stored [OF Some Inr] w by blast
  qed
qed

lemma policing_update: "steps_in policies_kept (updateAgentConfig ports me agentId inp)"
proof (rule steps_inI)
  fix p r p' assume "updateAgentConfig ports me agentId inp p = (r, p')"
  then show "policies_kept p p'"
  proof (cases rule: update_config_run)
    case (refused e)
    then show ?thesis by (simp add: policies_kept_def)
  next
    case (stored agent policy s)
    show ?thesis
      unfolding policies_kept_def
    proof
      assume ok: "policies_valid p"
      have "agent \<in> set (yt_agents (yg_tables p))" using tb_find_SomeD [OF stored(1)] by blast
      then have "fields_ok (asRecord (Some (an_guardrailRules agent)))" using ok by (auto simp: policies_valid_def policy_fields)
      then have "fields_ok policy" using configured_ok [OF stored(2)] by blast
      then have "policies_valid (set_agent agentId (updated_agent inp policy (an_version agent + 1)) p)"
        using ok by (intro set_agent_policies) (simp_all add: updated_agent_def policy_fields)
      then show "policies_valid p'" using write_tables [OF stored(3)] ok by (auto simp: policies_valid_def)
    qed
  qed
qed

lemma policing_createAgent: "steps_in policies_kept (createAgent ports me inp)"
proof -
  have w: "steps_in policies_kept (write_with_event ports (\<lambda>p. p\<lparr>yg_tables := (yg_tables p)\<lparr>yt_agents := tb_insert a (yt_agents (yg_tables p))\<rparr>\<rparr>) ev)"
    if "policy_ok (an_guardrailRules a)" for a ev
    by (rule policing_write) (use that in \<open>auto simp: policies_kept_def policies_valid_def tb_insert_def\<close>)
  have "fields_ok []" by (simp add: fields_ok_def holds_of_def constraints_ok_def number_within_def asRecord_def)
  then have ok: "policy_ok (JObj policy)" if "lift_result (configured_rules inp' (Some [(''allowedTools'', JArr [])])
      (Some [(''sensitiveOps'', JArr [])]) []) q = (Inr policy, q')" for policy inp' q q'
    using configured_ok [of inp'] that by (auto simp: policy_fields lift_result_apply)
  show ?thesis
    unfolding createAgent_def Let_def
    by (intro policing.in_seqE policing.in_throw_if policing.in_bindE policing.in_reads policing.in_bindE_result [of "lift_result _"]
        policing.in_lift_result policing_agents [OF agents_in_store] policing.in_ret w) (simp add: ok)
qed

lemma policing_decide: "steps_in policies_kept (decideApproval ports me i d comment)"
proof -
  have t: "keeps (\<lambda>p. yt_agents (yg_tables p)) (write_with_event ports (set_execution k f) ev)" for k f ev
    by (rule keepsI) (drule write_tables, auto simp: set_execution_def)
  have m: "keeps (\<lambda>p. yt_agents (yg_tables p)) (modify (set_execution k f))" for k f
    by (rule keeps_modify) (simp add: set_execution_def)
  have "steps_in policies_kept (decide_write ports me action comment s)" for action s
    unfolding decide_write_def
    by (cases s; cases action)
      (simp_all, (intro policing.in_rules policing_agents [OF agents_in_store] policing_agents [OF t] policing_agents [OF m])+)
  moreover have "steps_in policies_kept (decide_read me i)"
    unfolding decide_read_def Let_def by (intro policing.in_rules policing_agents [OF agents_touch])
  ultimately show ?thesis
    unfolding decideApproval_def by (intro policing.in_rules)
qed

lemma policing_execute: "steps_in policies_kept (executeAgent ports me agentId inp)"
  unfolding executeAgent_def Let_def
  by (intro policing.in_rules policing_agents [OF agents_admit] policing_agents [OF agents_in_store])

inductive console_reached :: "playground \<Rightarrow> bool" where
  founding: "policies_valid p \<Longrightarrow> console_reached p"
| configure: "console_reached p \<Longrightarrow> updateAgentConfig ports me i inp p = (v, p') \<Longrightarrow> console_reached p'"
| hire: "console_reached p \<Longrightarrow> createAgent ports me new p = (a, p') \<Longrightarrow> console_reached p'"
| decide: "console_reached p \<Longrightarrow> decideApproval ports me i d c p = (r, p') \<Longrightarrow> console_reached p'"
| execute: "console_reached p \<Longrightarrow> executeAgent ports me i t p = (x, p') \<Longrightarrow> console_reached p'"
| visit: "console_reached p \<Longrightarrow> createSession sp ip p = (s, p') \<Longrightarrow> console_reached p'"
| leave: "console_reached p \<Longrightarrow> recycleWorkspace i role p = (u, p') \<Longrightarrow> console_reached p'"
| restart: "console_reached p \<Longrightarrow> sweepOrphans b p = (n, p') \<Longrightarrow> console_reached p'"
| reap: "console_reached p \<Longrightarrow> reaper_tick p = (u, p') \<Longrightarrow> console_reached p'"

lemma policiesD: "steps_in policies_kept m \<Longrightarrow> m p = (r, p') \<Longrightarrow> policies_valid p \<Longrightarrow> policies_valid p'"
  using steps_inD [of policies_kept m p r p'] by (simp add: policies_kept_def)

lemma reached_policies: "console_reached p \<Longrightarrow> policies_valid p"
proof (induction rule: console_reached.induct)
  case (configure p ports me i inp v p')
  then show ?case using policiesD [OF policing_update] by blast
next
  case (hire p ports me new a p')
  then show ?case using policiesD [OF policing_createAgent] by blast
next
  case (decide p ports me i d c r p')
  then show ?case using policiesD [OF policing_decide] by blast
next
  case (execute p ports me i t x p')
  then show ?case using policiesD [OF policing_execute] by blast
next
  case (visit p sp ip s p')
  then show ?case using policiesD [OF policing_create_session] by blast
next
  case (leave p i role u p')
  then show ?case using policiesD [OF policing_recycle] by blast
next
  case (restart p b n p')
  then show ?case using policiesD [OF policing_sweep] by blast
next
  case (reap p u p')
  then show ?case using policiesD [OF policing_tick] by blast
qed


definition staffed_playground :: playground where
  "staffed_playground = sample_playground\<lparr>yg_tables := sample_tables\<lparr>yt_agents :=
       [(session_agent \<lparr>yi_workspace = ''w'', yi_role = ''r'', yi_user = ''u'', yi_member = ''m'', yi_object = ''o'',
         yi_permission = ''p'', yi_agent = ''a'', yi_short = ''s''\<rparr>)]\<rparr>,
     yg_store := empty_world [] (Some sample_trace)\<rparr>"

definition tool_free :: agent_config where
  "tool_free = \<lparr>kz_prompt = None, kz_allowedTools = Some (JArr []), kz_sensitiveOps = None, kz_execution = None\<rparr>"


section \<open>Workspaces\<close>

text \<open>The rows of the other workspaces.\<close>

definition foreign_store :: "string \<Rightarrow> world \<Rightarrow> agent_execution list \<times> approval_instance list \<times> outbox_event list" where
  "foreign_store ws w = (filter (\<lambda>e. ex_workspaceId e \<noteq> ws) (executions w), filter (\<lambda>a. ai_workspaceId a \<noteq> ws) (approvals w),
     filter (\<lambda>e. oe_workspaceId e \<noteq> ws) (outbox_events w))"

definition foreign :: "string \<Rightarrow> playground \<Rightarrow> agent_row list \<times> agent_execution list \<times> approval_instance list \<times> outbox_event list" where
  "foreign ws p = (filter (\<lambda>a. an_workspaceId a \<noteq> ws) (yt_agents (yg_tables p)), foreign_store ws (yg_store p))"

lemma same_row: "keyed pk tb \<Longrightarrow> x \<in> set tb \<Longrightarrow> y \<in> set tb \<Longrightarrow> pk x = pk y \<Longrightarrow> x = y"
  unfolding keyed_def distinct_map by (blast dest: inj_onD)

lemma filter_tb_update:
  assumes "keyed pk tb" "r \<in> set tb" "\<not> Q r" "\<And>x. pk x = pk r \<Longrightarrow> x \<in> set tb \<Longrightarrow> \<not> Q (f x)"
  shows "filter Q (tb_update (\<lambda>x. pk x = pk r) f tb) = filter Q tb"
proof -
  have "filter Q (tb_update (\<lambda>x. pk x = pk r) f ys) = filter Q ys" if "set ys \<subseteq> set tb" for ys
    using that
  proof (induction ys)
    case (Cons y ys)
    have "y = r" if "pk y = pk r" using same_row [OF assms(1) _ assms(2) that] Cons.prems by simp
    then show ?case using Cons assms(3,4) by (auto simp: tb_update_def)
  qed (simp add: tb_update_def)
  then show ?thesis by simp
qed

lemma carried_workspace: "carries ctx event row \<Longrightarrow> oe_workspaceId row = oi_workspaceId event"
  by (auto simp: carries_def envelope_def)

lemma foreign_write:
  assumes "library_transport (kx_transport ports)" "write_with_event ports f event p = (r, p')"
    and "foreign ws (f p) = foreign ws p" "oi_workspaceId event = ws"
    and rest: "approvals (yg_store (f p)) = approvals (yg_store p)" "outbox_events (yg_store (f p)) = outbox_events (yg_store p)"
      "trace_context (yg_store (f p)) = trace_context (yg_store p)"
  shows "foreign ws p' = foreign ws p"
  using rest
proof (rule write_with_event_outcome [OF assms(1,2)])
  fix e assume "console_rows p' = console_rows p"
  then show ?thesis by (simp add: foreign_def foreign_store_def console_rows_def)
next
  fix row assume "carries (trace_context (yg_store p)) event row"
    "console_rows p' = (yg_tables (f p), executions (yg_store (f p)), approvals (yg_store p), outbox_events (yg_store p) @ [row])"
  then show ?thesis
    using assms(3,4) carried_workspace by (auto simp: foreign_def foreign_store_def console_rows_def)
qed

lemma foreign_update:
  assumes "library_transport (kx_transport ports)" "keyed an_id (yt_agents (yg_tables p))"
    "updateAgentConfig ports me agentId inp p = (r, p')"
  shows "foreign (cu_defaultWorkspaceId me) p' = foreign (cu_defaultWorkspaceId me) p"
  using assms(3)
proof (cases rule: update_config_run)
  case (refused e)
  then show ?thesis by simp
next
  case (stored agent policy s)
  note found = tb_find_SomeD [OF stored(1)]
  have "foreign (cu_defaultWorkspaceId me) (set_agent agentId (updated_agent inp policy (an_version agent + 1)) p)
      = foreign (cu_defaultWorkspaceId me) p"
    using filter_tb_update [OF assms(2), of agent "\<lambda>a. an_workspaceId a \<noteq> cu_defaultWorkspaceId me"
        "updated_agent inp policy (an_version agent + 1)"] found same_row [OF assms(2)]
    by (force simp: foreign_def set_agent_def updated_agent_def)
  then show ?thesis
    by (rule foreign_write [OF assms(1) stored(3)]) (simp_all add: config_event_def console_event_def set_agent_def)
qed

lemma foreign_create:
  assumes "library_transport (kx_transport ports)" "createAgent ports me new p = (r, p')"
  shows "foreign (cu_defaultWorkspaceId me) p' = foreign (cu_defaultWorkspaceId me) p"
proof -
  let ?ws = "cu_defaultWorkspaceId me"
  have w: "keeps (foreign ?ws) (write_with_event ports
      (\<lambda>p. p\<lparr>yg_tables := (yg_tables p)\<lparr>yt_agents := tb_insert a (yt_agents (yg_tables p))\<rparr>\<rparr>) (console_event ?ws k t i c))"
    if "an_workspaceId a = ?ws" for a k t i c
    by (rule keepsI, erule foreign_write [OF assms(1)]) (simp_all add: foreign_def tb_insert_def console_event_def that)
  have i: "keeps (foreign ?ws) (in_store fresh_id)"
    by (rule keepsI) (auto simp: eff_simps foreign_def foreign_store_def)
  have "keeps (foreign ?ws) (createAgent ports me new)"
    unfolding createAgent_def Let_def by (intro keeps_rules i w) simp
  then show ?thesis using assms(2) by (rule keepsD)
qed

lemma foreign_settled:
  assumes "keyed ai_id (approvals (yg_store p))" "inst \<in> set (approvals (yg_store p))" "ai_workspaceId inst = ws"
  shows "filter (\<lambda>a. ai_workspaceId a \<noteq> ws) (settled_approvals me action c t inst p)
    = filter (\<lambda>a. ai_workspaceId a \<noteq> ws) (approvals (yg_store p))"
  unfolding settled_approvals_def
  by (rule filter_tb_update [OF assms(1,2)]) (simp_all add: assms(3) decided_instance_def)

lemma foreign_moved:
  assumes "keyed ex_id (executions (yg_store p))" "x \<in> set (executions (yg_store p))" "ex_workspaceId x = ws"
    "\<And>e. ex_workspaceId (f e) = ex_workspaceId e"
  shows "filter (\<lambda>e. ex_workspaceId e \<noteq> ws) (moved_executions x f p) = filter (\<lambda>e. ex_workspaceId e \<noteq> ws) (executions (yg_store p))"
  unfolding moved_executions_def
  by (rule filter_tb_update [OF assms(1,2)]) (use assms same_row [OF assms(1) _ assms(2)] in auto)

text \<open>
  C27. A workspace is closed to the others. Whatever a caller decides, configures or creates at the console,
  with whatever result, the agents, executions, approvals and events of every other workspace stay the
  same rows in the same order. Relied on: the keys of the tables are unique, and the executor keeps to the
  workspace of the execution that it is given.
\<close>

theorem console_workspace_isolation:
  assumes "library_transport (kx_transport ports)"
    and keys: "keyed an_id (yt_agents (yg_tables p))" "keyed ex_id (executions (yg_store p))" "keyed ai_id (approvals (yg_store p))"
    and executor: "\<And>x a call w. ex_workspaceId x = cu_defaultWorkspaceId me \<Longrightarrow>
      foreign_store (cu_defaultWorkspaceId me) (snd (kx_execute ports x a call w)) = foreign_store (cu_defaultWorkspaceId me) w"
    and act: "snd (decideApproval ports me i d comment p) = p' \<or> snd (updateAgentConfig ports me agentId inp p) = p'
      \<or> snd (createAgent ports me new p) = p'"
  shows "foreign (cu_defaultWorkspaceId me) p' = foreign (cu_defaultWorkspaceId me) p"
  using act
proof (elim disjE)
  assume "snd (updateAgentConfig ports me agentId inp p) = p'"
  then show ?thesis using foreign_update [OF assms(1) keys(1)] by (metis prod.collapse)
next
  assume "snd (createAgent ports me new p) = p'"
  then show ?thesis using foreign_create [OF assms(1)] by (metis prod.collapse)
next
  let ?ws = "cu_defaultWorkspaceId me"
  assume "snd (decideApproval ports me i d comment p) = p'"
  then obtain r where run: "decideApproval ports me i d comment p = (r, p')" by (metis prod.collapse)
  show ?thesis
  proof (cases "decision_of d = None \<or> (\<nexists>inst paused x. awaits_decision me i p inst paused x)")
    case True
    then have "only_looked p p'" using undecidable_refused [OF run] by blast
    then show ?thesis by (auto simp: foreign_def foreign_store_def only_looked_rows)
  next
    case False
    then obtain inst paused x action where waiting: "awaits_decision me i p inst paused x" "decision_of d = Some action" by auto
    have own: "inst \<in> set (approvals (yg_store p))" "ai_workspaceId inst = ?ws" "x \<in> set (executions (yg_store p))" "ex_workspaceId x = ?ws"
      using waiting(1) by (auto simp: awaits_decision_def dest!: tb_find_SomeD)
    note f = foreign_settled [OF keys(3) own(1,2)] foreign_moved [OF keys(2) own(3,4)]
    obtain t where t: "case action of RejectDecision \<Rightarrow> rejection_carried_out me comment t (inst, paused, x) p r p'
       | ApproveDecision \<Rightarrow> approval_carried_out ports me comment t (inst, paused, x) p r p'"
      using decided_carried_out [OF assms(1) run waiting] by blast
    show ?thesis
    proof (cases action)
      case RejectDecision
      have "oe_workspaceId row = ?ws" if "carries ctx (cancelled_event me inst paused x) row" for ctx row
        using carried_workspace [OF that] by (simp add: cancelled_event_def console_event_def)
      then show ?thesis using t RejectDecision f by (auto simp: rejection_carried_out_def foreign_def foreign_store_def)
    next
      case ApproveDecision
      then obtain w s where w: "approvals w = settled_approvals me ApproveDecision comment t inst p"
        "executions w = moved_executions x (\<lambda>e. e\<lparr>ex_status := Running\<rparr>) p" "outbox_events w = outbox_events (yg_store p)"
        "yg_tables p' = yg_tables p"
        "kx_execute ports (x\<lparr>ex_status := Running\<rparr>) (ai_id inst) (paused_context paused) w = (s, yg_store p')"
        using t by (auto simp: approval_carried_out_def)
      have "foreign_store ?ws (yg_store p') = foreign_store ?ws w"
        using executor [of "x\<lparr>ex_status := Running\<rparr>" "ai_id inst" "paused_context paused" w] own(4) w(5) by simp
      then show ?thesis using w(1-4) f by (simp add: foreign_def foreign_store_def)
    qed
  qed
qed

definition inert_console :: console_ports where
  "inert_console = sample_console\<lparr>kx_execute := (\<lambda>_ _ _. ret ())\<rparr>"

lemma console_workspace_isolation_witness:
  "foreign ''w'' (snd (decideApproval inert_console sample_me ''i'' ''APPROVED'' None (paused_playground None)))
     = foreign ''w'' (paused_playground None)"
proof -
  let ?p = "paused_playground None"
  have keys: "keyed an_id (yt_agents (yg_tables ?p))" "keyed ex_id (executions (yg_store ?p))" "keyed ai_id (approvals (yg_store ?p))"
    by (simp_all add: paused_playground_def sample_playground_def sample_tables_def keyed_def)
  have me: "cu_defaultWorkspaceId sample_me = ''w''" by (simp add: sample_me_def)
  have t: "library_transport (kx_transport inert_console)" by (simp add: inert_console_def sample_console_def library_transport_def)
  have idle: "foreign_store ws (snd (kx_execute inert_console x a call w)) = foreign_store ws w" for ws x a call w
    by (simp add: inert_console_def ret_apply)
  show ?thesis
    using console_workspace_isolation [OF t keys idle disjI1 [OF refl], of sample_me] unfolding me by blast
qed

section \<open>Growth\<close>

text \<open>The timeline holds one milestone per execution, and per approval its escalation and its decisions, newest first.\<close>

lemma timeline_complete:
  "mset (deriveGrowthTimeline xs as) = mset (map milestone_entry xs) + (\<Sum>a\<leftarrow>as. mset (approval_entries a))"
  "sorted (map (\<lambda>e. - gt_at e) (deriveGrowthTimeline xs as))"
proof -
  have "mset (concat (map approval_entries as)) = (\<Sum>a\<leftarrow>as. mset (approval_entries a))" by (induction as) simp_all
  then show "mset (deriveGrowthTimeline xs as) = mset (map milestone_entry xs) + (\<Sum>a\<leftarrow>as. mset (approval_entries a))"
    by (simp add: deriveGrowthTimeline_def)
  show "sorted (map (\<lambda>e. - gt_at e) (deriveGrowthTimeline xs as))"
    unfolding deriveGrowthTimeline_def by (rule sorted_sort_key)
qed

text \<open>A rate is between nought and one, and is absent without samples.\<close>

lemma rates_bounded:
  "gs_successRate (deriveAgentStats xs as) = Some (n, d) \<Longrightarrow> n \<le> d \<and> 0 < d"
  "gs_approvalRate (deriveAgentStats xs as) = Some (n, d) \<Longrightarrow> n \<le> d \<and> 0 < d"
  by (auto simp: deriveAgentStats_def Let_def length_filter_le simp del: filter_filter split: if_splits)

text \<open>
  The card of an agent counts every execution, the page of the same agent only its fifty latest.
\<close>

lemma detail_counts_fifty:
  assumes "detail ws i p = Some d"
  shows "gs_totalExecutions (ga_stats d)
    = min 50 (length (filter (\<lambda>e. ex_workspaceId e = ws \<and> ex_agentId e = i) (executions (yg_store p))))"
  using assms by (auto simp: detail_def stats_of_def deriveAgentStats_def Let_def split: option.splits)

lemma summary_counts_all:
  assumes "s \<in> set (summaries ws p)"
  shows "gs_totalExecutions (gy_stats s)
    = length (filter (\<lambda>e. ex_workspaceId e = ws \<and> ex_agentId e = gy_id s) (executions (yg_store p)))"
  using assms
  by (auto simp: summaries_def stats_of_def deriveAgentStats_def Let_def intro!: arg_cong [where f = length] filter_cong)

end
