(* ===== verification/Spec2Isabelle.thy ===== *)
theory Spec2Isabelle
  imports Tool_Access Rag_Authorization Data_Scope Field_Masking Guardrail Governor Canonical
    Redaction Execution_States Audit_Store Tool_Call_Lifecycle Outbox Json_Text
    Approval_Refinement Executor Gate Sidecar_System
    Otel_Exporter Metadata_Plan Prompt_Fence React_Execution Product_Registry Playground Community_Console
begin

text \<open>
  NexusClaw governs what an AI agent may do. The repository holds a governance kernel
  (\<open>governance/packages/\<close>: permissions, guardrails, limits, the audit chain, approvals, an outbox, a small
  executor and a sidecar that offers all of it over HTTP, MCP and OpenTelemetry) and a product built on
  it (\<open>packages/backend\<close>: the ReAct executor, metadata import; \<open>packages/dashboard\<close>: the user interface).
  This development models the kernel and the logic of the product's runtime and metadata modules.

  \<^bold>\<open>Conventions.\<close> A definition has the name of the function, method or type it translates, where Isabelle
  allows it; the branches stand in the order of the source. An interface is a record, an enumeration or
  tagged union a datatype, an optional member an option, a value of type \<open>unknown\<close> a \<open>json\<close>
  (\<open>Gov_Prelude\<close>). Numbers are unbounded integers: the sources count and compare and never compute near
  2^53, and where they print a fraction the model keeps a symbolic value. Characters are code units below
  256; a pattern or a case rule that concerns others only is named where it is left out. A method that may
  throw is a \<open>result\<close>, a sum of the message and the value; a stateful one is a computation
  \<open>('w, 'a) eff\<close>, a function from a state to a result and a state: a thrown error keeps what was written
  before it, unless a transaction takes it back. A database is a record of tables (lists of rows,
  \<open>Audit_Store.world\<close>), with the source of identifiers and the clock as members of the world. Code that is
  not in the repository (SHA-256, HMAC, the model provider, bodies of tools, downstream MCP servers, the
  collector, the YAML reader, the collation, the regular expressions of the engine where a pattern is
  data) is a parameter; what is relied on is a premise of the theorem that relies on it.

  \<^bold>\<open>Shared theories.\<close>
  \<^item> \<open>Gov_Prelude\<close>: optional values, truthiness, JSON, the computations and their rules, tables. The locale
    \<open>state_preorder\<close> proves once that a reflexive and transitive relation between states is kept by
    sequencing, case distinction, catching and loops over lists. It is interpreted for \<open>keeps\<close> (a part of
    the state is untouched), \<open>issues\<close> (\<open>Frames\<close>), \<open>calls_kept\<close> (\<open>Tool_Call_Lifecycle\<close>), \<open>adds_approvals\<close>
    (\<open>Sidecar_Server\<close>), \<open>sound\<close> (\<open>Sidecar_System\<close>), \<open>runs_only\<close> (\<open>Executor\<close>), \<open>caps_kept\<close>
    (\<open>Playground\<close>), \<open>only_looked\<close> and \<open>policies_kept\<close> (\<open>Community_Console\<close>).
  \<^item> \<open>Js_Text\<close>, \<open>Json_Text\<close>: trimming, splitting, case folding; \<open>JSON.stringify\<close> and \<open>JSON.parse\<close> with the
    lemma that reading inverts writing. The reader's fuel is the length of the text, which every nested
    call shortens; the inversion lemma shows that it suffices.
  \<^item> \<open>Frames\<close>: which tables each operation leaves alone, and that no identifier is issued twice.
\<close>

text \<open>
  \<^bold>\<open>Permissions and limits.\<close>
  \<^item> \<open>Tool_Access\<close> (\<open>permission/src/tool-access.ts\<close>, \<open>allow-list-resolver.ts\<close>), \<open>Rag_Authorization\<close>,
    \<open>Data_Scope\<close> (SQL filters), \<open>Field_Masking\<close>: pure functions, each with the locale of its port
    (\<open>tool_grant_check\<close>, \<open>rag_port\<close>) interpreted on the default implementation.
  \<^item> \<open>Guardrail\<close> (\<open>guardrail/src\<close>): matching, risk, evaluation, and the two providers of rules as
    interpretations of the locale \<open>rule_provider\<close>. The verdict is the most severe matching rule's.
  \<^item> \<open>Governor\<close> (\<open>governor/src\<close>): counters and limits; locale \<open>limiter\<close>.
  The backend's copies of the governor, the guardrail engine, redaction, the state machine, the tool call
  lifecycle and the outbox are the kernel's modules up to imports and logging, and are modelled once.

  \<^bold>\<open>Audit chain.\<close> \<open>Canonical\<close> (canonical JSON and digests), \<open>Redaction\<close> (the patterns as regular expressions
  with a backtracking matcher), \<open>Execution_States\<close> (the transition table), \<open>Audit_Store\<close> (the entities),
  \<open>Tool_Call_Lifecycle\<close> (every write to a tool call row). The lemmas: a digest does not depend on the order
  of members, previews are bounded and scrubbed, rows of tool calls are only appended, a decided row never
  changes and keeps its identity, a resume matches its grant.

  \<^bold>\<open>Outbox and approvals.\<close> \<open>Outbox\<close>: events are enqueued in a transaction or not at all, one notification
  per topic; both transports interpret the locale \<open>notify_transport\<close>. \<open>Approval\<close> translates the engine,
  with a decision split in its read and its compare-and-set write, so that others may act in between;
  \<open>Approval_Refinement\<close> states the abstract machine (open at a step, accepted, refused) and proves that
  every commit is one step of it or none, that the first writer wins, and that the approvers of the
  remaining steps finish an approval.

  \<^bold>\<open>Execution in the kernel.\<close> \<open>Executor\<close> (\<open>executor/src\<close>): registry, gate, the loop, pause and resume. The
  loop's fuel is the number of remaining iterations (\<open>maxIterations\<close>, 8 by default), so it always returns.
  Only calls that the allow list, the blocked list, the guardrail and the governor passed are executed;
  a run is bounded and recorded. \<open>Gate\<close> (\<open>sidecar/src/gate.ts\<close>) is the same decision for external agents,
  \<open>Mcp_Gateway\<close> (\<open>sidecar/src/mcp\<close>) forwards calls to downstream servers, \<open>Sidecar_Server\<close> is the HTTP
  surface, and \<open>Sidecar_System\<close> composes the endpoints to a step relation over requests with invariants
  by rule induction: unique keys, identifiers issued once, decided approvals final. \<open>Otel_Exporter\<close> maps
  rows to a trace and models the polling tick, which reads twenty events.
\<close>

text \<open>
  \<^bold>\<open>The product's ReAct executor\<close> (\<open>packages/backend/src/modules/agent-runtime/executor/\<close>
  \<open>executor-engine.service.ts\<close>).
  \<^item> \<open>Agent_Response\<close> reads a response of the model: native tool calls, three text formats, validation.
    Whatever the text, the result is a valid action, and a written call is read back.
  \<^item> \<open>Agent_Guards\<close>: sensitive operations, classes of failures, the retry loop of one call (bounded by
    \<open>maxToolRetryAttempts\<close>), the prompt budget and the cropping of sections.
  \<^item> \<open>Prompt_Fence\<close>: the sanitiser and the fence around untrusted text.
  \<^item> \<open>React_Learning\<close> (correlation and what is learned from a call), \<open>React_Loop\<close> (the whole loop with its
    holds, fuses, budgets and terminations over a world with ports for clock, model, tools and approvals),
    \<open>React_Tools\<close> (which tools it runs), \<open>React_Execution\<close> (start, resume with both ways to run an approved
    call, closing and failing). The loop terminates by the measure that counts two for each remaining
    iteration and one for an uncropped prompt, since the first crop repeats the iteration.
  The theorems: a tool runs only in a burst whose call was cleared by the rules for sensitive operations,
  an approved call runs once and only under its own approval, the steps are numbered in order and each is
  persisted, the history survives a resume, the closing row agrees with the steps.

  \<^bold>\<open>Tools of the product.\<close> \<open>Product_Registry\<close> (\<open>tool-framework/tool-registry.service.ts\<close>): registration,
  resolution over static tools and providers, and the execution of a call through allow list, schema,
  permission, risk level and approval up to the body. A body starts only after every gate has passed; a
  refusal closes the row of the call; a catalogue never holds two tools of one name.

  \<^bold>\<open>Community edition\<close> (\<open>packages/backend/src/community\<close>).
  \<^item> \<open>Playground\<close> (\<open>playground/\<close>): the registry of anonymous sessions with its caps, the creation and the
    recycling of a session's rows, the sweep at the start and the reaper's tick. The caps hold in every state
    reached by interleaved requests; recycling leaves no row of a session.
  \<^item> \<open>Community_Console\<close> (\<open>runtime/\<close>, \<open>auth/\<close>): sign-in and tokens, running an agent, lists, decisions on
    paused calls, configuration and creation of agents, growth and statistics, on the state of \<open>Playground\<close>.
    A decision is split in what it reads and what it writes, as other requests may act in between. The
    executor is a parameter. The lemmas: a decision settles one pending approval or moves nothing, is final,
    and stays in its workspace; stored policies are well formed; a token ends with its membership.

  \<^bold>\<open>Metadata\<close> (\<open>packages/backend/src/modules/metadata-runtime\<close>, \<open>community/metadata-runtime\<close>).
  \<open>Metadata_Taxonomy\<close> (kinds, identities, paths), \<open>Metadata_Parser\<close> (documents and diagnostics),
  \<open>Metadata_Diff\<close> (stable texts and exact changes), \<open>Metadata_Plan\<close> (loader, snapshot, validation, dry run).

  \<^bold>\<open>Not modelled.\<close> The dashboard and the pages and scripts of the console (user interface); migrations,
  seeds, modules, controllers and entities without logic (declarations for the database and the
  framework); the adapters that delegate to the database or to a model provider; building
  the context, costs and the candidate run of the ReAct executor (queries over product tables and prompt
  assembly); timers, listening sockets, the SDKs of MCP and OpenTelemetry; the runtime wiring and the
  command line of the sidecar; the adapters for other products under \<open>governance/adapters\<close>.
\<close>

end
